(* ===== verification/Prelude.thy ===== *)
theory Prelude
  imports Main "HOL-Library.AList" "HOL-Library.Char_ord" "HOL-Library.List_Lexorder"
begin

text \<open>
  What every component of the development shares: the model of Go's errors, strings, maps,
  integers and clock, and the generic lemmas on association lists the component proofs use.

  \<^item> A Go error is a value of \<open>go_error\<close>; a function returning \<open>(T, error)\<close>
    returns a value of \<open>go_error + 'a\<close>.
  \<^item> A Go string is a \<open>string\<close>; the functions of the package \<open>strings\<close> are modelled
    on ASCII text.
  \<^item> A Go map is an association list with distinct keys (\<open>'v gomap\<close>): writing replaces the
    value of a present key and appends a new one.  The order in which Go iterates over a map is
    not specified; an operation that iterates takes the order as an argument (\<open>ord\<close>), a function
    that permutes the entries.
  \<^item> The clock is read as an argument of type \<open>gtime\<close>: nanoseconds since Go's zero time.
\<close>

section \<open>Collections of the development\<close>

named_theorems store_defs \<open>definitions of the storage operations\<close>
named_theorems handler_defs \<open>definitions of the service operations and handlers\<close>
named_theorems gostring \<open>evaluation rules of the string functions\<close>

section \<open>Errors\<close>

datatype grpc_code = OK | InvalidArgument | NotFound | AlreadyExists | PermissionDenied
  | FailedPrecondition | Unauthenticated | Internal | UnknownCode

text \<open>
  \<open>Sentinel\<close> is a package-level error variable (compared by identity, hence its package),
  \<open>NewErr\<close> a fresh \<open>errors.New\<close> or \<open>fmt.Errorf\<close> without \<open>%w\<close>, \<open>WrapErr\<close> a
  \<open>fmt.Errorf("prefix%w", e)\<close>, \<open>StatusErr\<close> a gRPC \<open>status.Error\<close>, and \<open>ExtErr\<close> an error
  made by a package outside the repository.
\<close>

datatype go_error =
    Sentinel string string
  | NewErr string
  | WrapErr string go_error
  | StatusErr grpc_code string
  | ExtErr string

type_synonym 'a result = "go_error + 'a"

fun code_text :: "grpc_code \<Rightarrow> string" where
  "code_text OK = ''OK''"
| "code_text InvalidArgument = ''InvalidArgument''"
| "code_text NotFound = ''NotFound''"
| "code_text AlreadyExists = ''AlreadyExists''"
| "code_text PermissionDenied = ''PermissionDenied''"
| "code_text FailedPrecondition = ''FailedPrecondition''"
| "code_text Unauthenticated = ''Unauthenticated''"
| "code_text Internal = ''Internal''"
| "code_text UnknownCode = ''Unknown''"

fun error_text :: "go_error \<Rightarrow> string" where
  "error_text (Sentinel p m) = m"
| "error_text (NewErr m) = m"
| "error_text (WrapErr p e) = p @ error_text e"
| "error_text (StatusErr c m) = ''rpc error: code = '' @ code_text c @ '' desc = '' @ m"
| "error_text (ExtErr m) = m"

fun errors_Is :: "go_error \<Rightarrow> go_error \<Rightarrow> bool" where
  "errors_Is (WrapErr p e) t = (WrapErr p e = t \<or> errors_Is e t)"
| "errors_Is e t = (e = t)"

lemma errors_Is_refl [simp]: "errors_Is e e"
  by (cases e) auto

lemma errors_Is_Wrap_Sentinel [simp]:
  "errors_Is (WrapErr p e) (Sentinel q m) = errors_Is e (Sentinel q m)"
  by simp

section \<open>Time\<close>

type_synonym gtime = int

definition zero_time :: gtime where
  "zero_time = 0"

abbreviation IsZero :: "gtime \<Rightarrow> bool" where
  "IsZero t \<equiv> t = zero_time"

definition second_ns :: int where
  "second_ns = 1000000000"

section \<open>Machine integers\<close>

text \<open>Go's \<open>int\<close> is 64 bits wide: the result of an operation is read back in two's complement.\<close>

definition wrap64 :: "int \<Rightarrow> int" where
  "wrap64 i = (i + 2 ^ 63) mod 2 ^ 64 - 2 ^ 63"

lemma wrap64_id: "- (2 ^ 63) \<le> i \<Longrightarrow> i < 2 ^ 63 \<Longrightarrow> wrap64 i = i"
  by (simp add: wrap64_def)

text \<open>\<open>time.Unix(ts, 0)\<close>; the seconds since year 1 are a 64-bit integer.\<close>

definition time_Unix :: "int \<Rightarrow> gtime" where
  "time_Unix ts = wrap64 (ts + 62135596800) * second_ns"

text \<open>The conversion \<open>int32(i)\<close>.\<close>

definition int32 :: "int \<Rightarrow> int" where
  "int32 i = (i + 2 ^ 31) mod 2 ^ 32 - 2 ^ 31"

definition int32_range :: "int \<Rightarrow> bool" where
  "int32_range i \<longleftrightarrow> - (2 ^ 31) \<le> i \<and> i < 2 ^ 31"

section \<open>Strings\<close>

definition is_space :: "char \<Rightarrow> bool" where
  "is_space c \<longleftrightarrow> List.member [CHR 0x09, CHR 0x0A, CHR 0x0B, CHR 0x0C, CHR 0x0D, CHR '' ''] c"

definition TrimSpace :: "string \<Rightarrow> string" where
  "TrimSpace s = rev (dropWhile is_space (rev (dropWhile is_space s)))"

definition upper_char :: "char \<Rightarrow> char" where
  "upper_char c = (let n = (of_char c :: nat) in if 97 \<le> n \<and> n \<le> 122 then char_of (n - 32) else c)"

definition lower_char :: "char \<Rightarrow> char" where
  "lower_char c = (let n = (of_char c :: nat) in if 65 \<le> n \<and> n \<le> 90 then char_of (n + 32) else c)"

definition ToUpper :: "string \<Rightarrow> string" where
  "ToUpper s = List.map upper_char s"

definition ToLower :: "string \<Rightarrow> string" where
  "ToLower s = List.map lower_char s"

definition HasPrefix :: "string \<Rightarrow> string \<Rightarrow> bool" where
  "HasPrefix s p \<longleftrightarrow> take (length p) s = p"

text \<open>\<open>strings.Split\<close> with a one-character separator, and \<open>strings.SplitN\<close> with bound 2.\<close>

fun Split :: "char \<Rightarrow> string \<Rightarrow> string list" where
  "Split c [] = [[]]"
| "Split c (x # xs) =
     (if x = c then [] # Split c xs
      else case Split c xs of [] \<Rightarrow> [[x]] | y # ys \<Rightarrow> (x # y) # ys)"

fun SplitN2 :: "char \<Rightarrow> string \<Rightarrow> string list" where
  "SplitN2 c [] = [[]]"
| "SplitN2 c (x # xs) =
     (if x = c then [[], xs]
      else case SplitN2 c xs of [] \<Rightarrow> [[x]] | y # ys \<Rightarrow> (x # y) # ys)"

text \<open>\<open>%q\<close> of \<open>fmt\<close> on printable ASCII.\<close>

definition quote_char :: "char \<Rightarrow> string" where
  "quote_char c = (if c = CHR 0x22 \<or> c = CHR 0x5C then [CHR 0x5C, c] else [c])"

definition go_quote :: "string \<Rightarrow> string" where
  "go_quote s = [CHR 0x22] @ concat (List.map quote_char s) @ [CHR 0x22]"

lemma SplitN2_nonempty [simp]: "SplitN2 c s \<noteq> []"
  by (induction c s rule: SplitN2.induct) (auto split: list.splits)

lemma SplitN2_no_sep: "c \<notin> set s \<Longrightarrow> SplitN2 c s = [s]"
  by (induction s) auto

lemma SplitN2_sep: "c \<notin> set a \<Longrightarrow> SplitN2 c (a @ c # b) = [a, b]"
  by (induction a) auto

lemma SplitN2_shape:
  "(c \<notin> set s \<and> SplitN2 c s = [s]) \<or>
   (\<exists>a b. s = a @ c # b \<and> c \<notin> set a \<and> SplitN2 c s = [a, b])"
proof (cases "c \<in> set s")
  case True
  then obtain a b where "s = a @ c # b" "c \<notin> set a"
    by (meson split_list_first)
  then show ?thesis
    using SplitN2_sep [of c a b] by blast
next
  case False
  then show ?thesis
    by (simp add: SplitN2_no_sep)
qed

lemma append_sep_inject:
  "c \<notin> set a \<Longrightarrow> c \<notin> set a' \<Longrightarrow> a @ c # b = a' @ c # b' \<longleftrightarrow> a = a' \<and> b = b'"
proof (induction a arbitrary: a')
  case Nil
  then show ?case by (cases a') auto
next
  case (Cons x xs)
  then show ?case by (cases a') auto
qed

text \<open>The last separator splits a key too, when the second part has none.\<close>

lemma append_sep_inject_right:
  assumes "c \<notin> set b" and "c \<notin> set b'"
  shows "a @ c # b = a' @ c # b' \<longleftrightarrow> a = a' \<and> b = b'"
proof
  assume "a @ c # b = a' @ c # b'"
  then have "rev (a @ c # b) = rev (a' @ c # b')"
    by (rule arg_cong)
  then have "rev b @ c # rev a = rev b' @ c # rev a'"
    by simp
  then have "rev b = rev b' \<and> rev a = rev a'"
    using assms by (subst (asm) append_sep_inject) auto
  then show "a = a' \<and> b = b'"
    by simp
qed simp

section \<open>Maps\<close>

type_synonym 'v gomap = "(string \<times> 'v) list"

abbreviation mput :: "'k \<Rightarrow> 'v \<Rightarrow> ('k \<times> 'v) list \<Rightarrow> ('k \<times> 'v) list" where
  "mput \<equiv> AList.update"

abbreviation mget :: "('k \<times> 'v) list \<Rightarrow> 'k \<Rightarrow> 'v option" where
  "mget \<equiv> map_of"

abbreviation wf_map :: "('k \<times> 'v) list \<Rightarrow> bool" where
  "wf_map m \<equiv> distinct (List.map fst m)"

lemma mget_mput [simp]: "mget (mput k v m) = (mget m)(k \<mapsto> v)"
  by (simp add: update_conv')

lemma wf_map_mput [simp]: "wf_map m \<Longrightarrow> wf_map (mput k v m)"
  by (rule distinct_update)

lemma mput_new: "mget m k = None \<Longrightarrow> mput k v m = m @ [(k, v)]"
  by (induction m) (auto split: if_splits)

lemma keys_mput: "set (List.map fst (mput k v m)) = insert k (set (List.map fst m))"
  by (induction m) auto

lemma mput_keys_old: "mget m k \<noteq> None \<Longrightarrow> List.map fst (mput k v m) = List.map fst m"
  by (induction m) auto

lemma mget_in_set: "mget m k = Some v \<Longrightarrow> (k, v) \<in> set m"
  by (rule map_of_SomeD)

lemma wf_map_mget_iff: "wf_map m \<Longrightarrow> mget m k = Some v \<longleftrightarrow> (k, v) \<in> set m"
  by simp

lemma mget_eq_None_iff: "mget m k = None \<longleftrightarrow> k \<notin> set (List.map fst m)"
  by (simp add: map_of_eq_None_iff)

text \<open>The values of a map after a write to a present key: exactly one value changes.\<close>

lemma set_mput_old:
  assumes "wf_map m" and "mget m k = Some v0"
  shows "set (mput k v m) = insert (k, v) (set m - {(k, v0)})"
  using assms
proof (induction m)
  case Nil
  then show ?case by simp
next
  case (Cons p m)
  obtain k1 v1 where p: "p = (k1, v1)" by force
  show ?case
  proof (cases "k1 = k")
    case True
    with Cons.prems p have "k \<notin> fst ` set m" "v1 = v0" by auto
    with True p show ?thesis by force
  next
    case False
    with Cons p show ?thesis by auto
  qed
qed

section \<open>Iteration over a map\<close>

text \<open>An iteration order is any function that permutes the list of entries.\<close>

definition permutes_entries :: "('a list \<Rightarrow> 'a list) \<Rightarrow> bool" where
  "permutes_entries ord \<longleftrightarrow> (\<forall>xs. distinct xs \<longrightarrow> distinct (ord xs) \<and> set (ord xs) = set xs)"

lemma permutes_entries_set:
  "permutes_entries ord \<Longrightarrow> distinct xs \<Longrightarrow> set (ord xs) = set xs"
  by (simp add: permutes_entries_def)

lemma permutes_entries_distinct:
  "permutes_entries ord \<Longrightarrow> distinct xs \<Longrightarrow> distinct (ord xs)"
  by (simp add: permutes_entries_def)

lemma permutes_entries_id [simp]: "permutes_entries (\<lambda>xs. xs)"
  by (simp add: permutes_entries_def)

lemma permutes_entries_rev [simp]: "permutes_entries rev"
  by (simp add: permutes_entries_def)

lemma wf_map_distinct: "wf_map m \<Longrightarrow> distinct m"
  by (simp add: distinct_map)

section \<open>Tables\<close>

text \<open>
  A table is a list of rows with a key: selecting by the key, updating the one row of a key, and
  appending a row with a new key.
\<close>

lemma find_key_Some: "List.find (\<lambda>y. key y = k) xs = Some x \<Longrightarrow> x \<in> set xs \<and> key x = k"
  by (auto simp: find_Some_iff)

lemma find_key_None: "List.find (\<lambda>y. key y = k) xs = None \<longleftrightarrow> k \<notin> key ` set xs"
  by (auto simp: find_None_iff)

lemma find_key_iff:
  assumes "distinct (List.map key xs)"
  shows "List.find (\<lambda>y. key y = k) xs = Some x \<longleftrightarrow> x \<in> set xs \<and> key x = k"
  using assms by (induction xs) auto

lemma find_append [simp]:
  "List.find P (xs @ ys) = (case List.find P xs of None \<Rightarrow> List.find P ys | Some x \<Rightarrow> Some x)"
  by (induction xs) auto

lemma find_filter: "List.find Q (List.filter P xs) = List.find (\<lambda>x. P x \<and> Q x) xs"
  by (induction xs) auto

lemma find_key_update:
  assumes "distinct (List.map key xs)" and "x \<in> set xs" and "\<And>y. y \<in> set xs \<Longrightarrow> hit y \<longleftrightarrow> y = x"
    and "key (g x) = key x"
  shows "List.find (\<lambda>y. key y = k) (List.map (\<lambda>y. if hit y then g y else y) xs)
    = (if k = key x then Some (g x) else List.find (\<lambda>y. key y = k) xs)"
  using assms
proof (induction xs)
  case Nil
  then show ?case by simp
next
  case (Cons y ys)
  show ?case
  proof (cases "y = x")
    case True
    then have "x \<notin> set ys" using Cons.prems(1) by auto
    then have "List.map (\<lambda>y. if hit y then g y else y) ys = ys"
      using Cons.prems(3) by (intro map_idI) auto
    moreover have "key x \<notin> key ` set ys" using Cons.prems(1) True by auto
    ultimately show ?thesis
      using True Cons.prems(3,4) by simp
  next
    case False
    then have "key y \<noteq> key x" using Cons.prems(1,2) by auto
    with False Cons show ?thesis by (cases "k = key x") simp_all
  qed
qed

lemma map_key_update:
  "(\<And>y. y \<in> set xs \<Longrightarrow> hit y \<Longrightarrow> key (g y) = key y) \<Longrightarrow>
    List.map key (List.map (\<lambda>y. if hit y then g y else y) xs) = List.map key xs"
  by (induction xs) auto

lemma distinct_key_eq: "distinct (List.map key xs) \<Longrightarrow> x \<in> set xs \<Longrightarrow> y \<in> set xs \<Longrightarrow> key y = key x \<longleftrightarrow> y = x"
  by (auto simp: distinct_map dest: inj_onD)

section \<open>Sums over lists\<close>

lemma sum_list_map_filter_append:
  fixes f :: "'a \<Rightarrow> 'b::comm_monoid_add"
  shows "sum_list (List.map f (List.filter P (xs @ ys))) =
    sum_list (List.map f (List.filter P xs)) + sum_list (List.map f (List.filter P ys))"
  by simp

section \<open>Results\<close>

lemma result_cases_Inr: "(\<exists>v. r = Inr v) \<longleftrightarrow> \<not> isl r"
  by (cases r) auto

definition is_ok :: "'a result \<Rightarrow> bool" where
  "is_ok r \<longleftrightarrow> (case r of Inl e \<Rightarrow> False | Inr v \<Rightarrow> True)"

lemma is_ok_simps [simp]: "is_ok (Inr v)" "\<not> is_ok (Inl e)"
  by (simp_all add: is_ok_def)

end
