(* ===== verification/GoDecimal.thy ===== *)
theory GoDecimal
  imports Prelude Complex_Main
begin

text \<open>
  The interface to \<open>github.com/shopspring/decimal\<close>, which is not part of the repository: the
  record \<open>decimal_ops\<close> holds the operations the code calls, and every definition that uses
  decimals takes it as an argument \<open>D\<close>.  The locale \<open>decimal_lib\<close> states what the library
  documents of them, through the number \<open>val d\<close> a decimal stands for: addition, subtraction and
  multiplication are exact, the comparisons compare numbers, \<open>String\<close> can be parsed back to the
  same number, and \<open>StringFixedBank\<close> rounds to the nearest number with the given places.

  The second half of the theory is an instance: sign, digits and a scale, with a parser and a
  printer that are proved to be inverse.  It interprets the locale, so that the laws are
  satisfiable and witnesses can compute; the properties hold for any instance.
\<close>

section \<open>The interface\<close>

record 'd decimal_ops =
  NewFromString :: "string \<Rightarrow> 'd result"
  DAdd :: "'d \<Rightarrow> 'd \<Rightarrow> 'd"
  DSub :: "'d \<Rightarrow> 'd \<Rightarrow> 'd"
  DMul :: "'d \<Rightarrow> 'd \<Rightarrow> 'd"
  DLessThan :: "'d \<Rightarrow> 'd \<Rightarrow> bool"
  DGreaterThan :: "'d \<Rightarrow> 'd \<Rightarrow> bool"
  DIsPositive :: "'d \<Rightarrow> bool"
  DZero :: "'d"
  DString :: "'d \<Rightarrow> string"
  DStringFixedBank :: "'d \<Rightarrow> int \<Rightarrow> string"

text \<open>The number a text stands for, if the library can parse it.\<close>

definition dval :: "'d decimal_ops \<Rightarrow> ('d \<Rightarrow> rat) \<Rightarrow> string \<Rightarrow> rat option" where
  "dval D val s = (case NewFromString D s of Inl e \<Rightarrow> None | Inr d \<Rightarrow> Some (val d))"

lemma dval_Some_iff:
  "dval D val s = Some x \<longleftrightarrow> (\<exists>d. NewFromString D s = Inr d \<and> val d = x)"
  by (auto simp: dval_def split: sum.splits)

lemma dval_None_iff: "dval D val s = None \<longleftrightarrow> (\<exists>e. NewFromString D s = Inl e)"
  by (auto simp: dval_def split: sum.splits)

lemma dval_Some_parse: "NewFromString D s = Inr d \<Longrightarrow> dval D val s = Some (val d)"
  by (simp add: dval_def)

locale decimal_lib =
  fixes D :: "'d decimal_ops" and val :: "'d \<Rightarrow> rat"
  assumes val_add [simp]: "val (DAdd D a b) = val a + val b"
    and val_sub [simp]: "val (DSub D a b) = val a - val b"
    and val_mul [simp]: "val (DMul D a b) = val a * val b"
    and less_than [simp]: "DLessThan D a b \<longleftrightarrow> val a < val b"
    and greater_than [simp]: "DGreaterThan D a b \<longleftrightarrow> val b < val a"
    and is_positive [simp]: "DIsPositive D a \<longleftrightarrow> 0 < val a"
    and val_zero [simp]: "val (DZero D) = 0"
    and parse_zero [simp]: "dval D val ''0'' = Some 0"
    and parse_one_00 [simp]: "dval D val ''1.00'' = Some 1"
    and parse_string [simp]: "dval D val (DString D d) = Some (val d)"
    and parse_fixed_bank: "0 \<le> n \<Longrightarrow>
      \<exists>x. dval D val (DStringFixedBank D d n) = Some x
        \<and> \<bar>x - val d\<bar> * 10 ^ nat n \<le> 1 / 2 \<and> (\<exists>m::int. x * 10 ^ nat n = of_int m)"
begin

lemma parse_string_ex: "\<exists>d'. NewFromString D (DString D d) = Inr d' \<and> val d' = val d"
  using parse_string by (simp only: dval_Some_iff)

end

section \<open>An instance\<close>

text \<open>\<open>Dec c k\<close> stands for \<open>c / 10 ^ k\<close>.\<close>

datatype dec = Dec int nat

fun dec_val :: "dec \<Rightarrow> rat" where
  "dec_val (Dec c k) = of_int c / 10 ^ k"

fun dec_coeff_at :: "nat \<Rightarrow> dec \<Rightarrow> int" where
  "dec_coeff_at n (Dec c k) = c * 10 ^ (n - k)"

fun dec_scale :: "dec \<Rightarrow> nat" where
  "dec_scale (Dec c k) = k"

definition dec_add :: "dec \<Rightarrow> dec \<Rightarrow> dec" where
  "dec_add a b = (let n = max (dec_scale a) (dec_scale b) in Dec (dec_coeff_at n a + dec_coeff_at n b) n)"

definition dec_sub :: "dec \<Rightarrow> dec \<Rightarrow> dec" where
  "dec_sub a b = (let n = max (dec_scale a) (dec_scale b) in Dec (dec_coeff_at n a - dec_coeff_at n b) n)"

fun dec_mul :: "dec \<Rightarrow> dec \<Rightarrow> dec" where
  "dec_mul (Dec a j) (Dec b k) = Dec (a * b) (j + k)"

definition dec_less :: "dec \<Rightarrow> dec \<Rightarrow> bool" where
  "dec_less a b = (let n = max (dec_scale a) (dec_scale b) in dec_coeff_at n a < dec_coeff_at n b)"

lemma dec_val_coeff: "dec_scale a \<le> n \<Longrightarrow> dec_val a = of_int (dec_coeff_at n a) / 10 ^ n"
proof (cases a)
  case (Dec c k)
  assume "dec_scale a \<le> n"
  with Dec have "(10::rat) ^ n = 10 ^ k * 10 ^ (n - k)"
    by (simp flip: power_add)
  with Dec show ?thesis by simp
qed

lemma dec_val_add: "dec_val (dec_add a b) = dec_val a + dec_val b"
  by (simp add: dec_add_def Let_def dec_val_coeff [of a "max (dec_scale a) (dec_scale b)"]
      dec_val_coeff [of b "max (dec_scale a) (dec_scale b)"] add_divide_distrib)

lemma dec_val_sub: "dec_val (dec_sub a b) = dec_val a - dec_val b"
  by (simp add: dec_sub_def Let_def dec_val_coeff [of a "max (dec_scale a) (dec_scale b)"]
      dec_val_coeff [of b "max (dec_scale a) (dec_scale b)"] diff_divide_distrib)

lemma dec_val_mul: "dec_val (dec_mul a b) = dec_val a * dec_val b"
  by (cases a; cases b) (simp add: power_add)

lemma dec_val_less: "dec_less a b \<longleftrightarrow> dec_val a < dec_val b"
  by (simp add: dec_less_def Let_def dec_val_coeff [of a "max (dec_scale a) (dec_scale b)"]
      dec_val_coeff [of b "max (dec_scale a) (dec_scale b)"] divide_strict_right_mono
      divide_less_cancel)

subsection \<open>Digits\<close>

definition digit_char :: "nat \<Rightarrow> char" where
  "digit_char n = char_of (n + 48)"

definition digit_of :: "char \<Rightarrow> nat option" where
  "digit_of c = (let n = (of_char c :: nat) in if 48 \<le> n \<and> n \<le> 57 then Some (n - 48) else None)"

fun num_of :: "nat \<Rightarrow> string \<Rightarrow> nat option" where
  "num_of a [] = Some a"
| "num_of a (c # cs) = (case digit_of c of None \<Rightarrow> None | Some d \<Rightarrow> num_of (10 * a + d) cs)"

fun digits :: "nat \<Rightarrow> string" where
  "digits n = (if n < 10 then [digit_char n] else digits (n div 10) @ [digit_char (n mod 10)])"

declare digits.simps [simp del]

definition pad :: "nat \<Rightarrow> string \<Rightarrow> string" where
  "pad m ds = replicate (m - length ds) (CHR ''0'') @ ds"

lemma digit_of_digit_char [simp]: "n < 10 \<Longrightarrow> digit_of (digit_char n) = Some n"
  by (simp add: digit_of_def digit_char_def Let_def)

lemma num_of_append: "num_of a (xs @ ys) = (case num_of a xs of None \<Rightarrow> None | Some b \<Rightarrow> num_of b ys)"
  by (induction a xs rule: num_of.induct) (auto split: option.splits)

lemma num_of_digits: "num_of 0 (digits n) = Some n"
proof (induction n rule: digits.induct)
  case (1 n)
  show ?case
  proof (cases "n < 10")
    case True
    then show ?thesis by (simp add: digits.simps)
  next
    case False
    with 1 show ?thesis by (subst digits.simps) (simp add: num_of_append)
  qed
qed

lemma num_of_zeros: "num_of 0 (replicate k (CHR ''0'') @ ds) = num_of 0 ds"
  by (induction k) (simp_all add: digit_of_def)

lemma num_of_pad: "num_of 0 (pad m (digits n)) = Some n"
  by (simp add: pad_def num_of_zeros num_of_digits)

lemma length_pad: "m \<le> length (pad m ds)"
  by (simp add: pad_def)

lemma digits_nonempty [simp]: "digits n \<noteq> []"
  by (subst digits.simps) simp

lemma digit_chars:
  assumes "num_of a s = Some b" and "c \<in> set s"
  shows "digit_of c \<noteq> None"
  using assms by (induction a s rule: num_of.induct) (auto split: option.splits)

lemma no_dot_no_minus:
  assumes "num_of a s = Some b"
  shows "CHR ''.'' \<notin> set s" and "CHR ''-'' \<notin> set s"
  using digit_chars [OF assms, of "CHR ''.''"] digit_chars [OF assms, of "CHR ''-''"]
  by (auto simp: digit_of_def)

text \<open>\<open>strconv.Itoa\<close> and \<open>strconv.ParseInt(s, 10, 64)\<close>.\<close>

definition itoa :: "int \<Rightarrow> string" where
  "itoa i = (if i < 0 then ''-'' else []) @ digits (nat \<bar>i\<bar>)"

definition ParseInt64 :: "string \<Rightarrow> int result" where
  "ParseInt64 s =
     (let neg = (take 1 s = ''-''); ds = (if take 1 s = ''-'' \<or> take 1 s = ''+'' then drop 1 s else s)
      in case (if ds = [] then None else num_of 0 ds) of
           None \<Rightarrow> Inl (ExtErr (''strconv.ParseInt: parsing '' @ go_quote s @ '': invalid syntax''))
         | Some n \<Rightarrow>
             if neg \<and> int n \<le> 2 ^ 63 then Inr (- int n)
             else if \<not> neg \<and> int n < 2 ^ 63 then Inr (int n)
             else Inl (ExtErr (''strconv.ParseInt: parsing '' @ go_quote s @ '': value out of range'')))"

subsection \<open>Parser and printer\<close>

definition dec_parse_unsigned :: "string \<Rightarrow> (nat \<times> nat) option" where
  "dec_parse_unsigned s =
     (case SplitN2 (CHR ''.'') s of
        [i] \<Rightarrow> (if i = [] then None else map_option (\<lambda>n. (n, 0)) (num_of 0 i))
      | [i, f] \<Rightarrow> (if i @ f = [] then None else map_option (\<lambda>n. (n, length f)) (num_of 0 (i @ f)))
      | _ \<Rightarrow> None)"

definition dec_parse :: "string \<Rightarrow> dec result" where
  "dec_parse s =
     (case (if take 1 s = ''-'' then map_option (\<lambda>(n, k). Dec (- int n) k) (dec_parse_unsigned (drop 1 s))
            else map_option (\<lambda>(n, k). Dec (int n) k) (dec_parse_unsigned s)) of
        None \<Rightarrow> Inl (ExtErr ''cannot convert to decimal'')
      | Some d \<Rightarrow> Inr d)"

definition dec_string_unsigned :: "nat \<Rightarrow> nat \<Rightarrow> string" where
  "dec_string_unsigned n k =
     (let ds = pad (Suc k) (digits n)
      in if k = 0 then ds
         else take (length ds - k) ds @ CHR ''.'' # drop (length ds - k) ds)"

fun dec_string :: "dec \<Rightarrow> string" where
  "dec_string (Dec c k) =
     (if c < 0 then ''-'' else []) @ dec_string_unsigned (nat \<bar>c\<bar>) k"

lemma dec_parse_string_unsigned: "dec_parse_unsigned (dec_string_unsigned n k) = Some (n, k)"
proof -
  let ?ds = "pad (Suc k) (digits n)"
  have num: "num_of 0 ?ds = Some n" by (rule num_of_pad)
  have len: "Suc k \<le> length ?ds" by (rule length_pad)
  then have ne: "?ds \<noteq> []" by auto
  have nodot: "CHR ''.'' \<notin> set ?ds" by (rule no_dot_no_minus [OF num])
  show ?thesis
  proof (cases "k = 0")
    case True
    with num ne nodot show ?thesis
      by (simp add: dec_string_unsigned_def dec_parse_unsigned_def SplitN2_no_sep Let_def)
  next
    case False
    have "CHR ''.'' \<notin> set (take (length ?ds - k) ?ds)"
      using nodot by (meson in_set_takeD)
    then have "SplitN2 (CHR ''.'') (take (length ?ds - k) ?ds @ CHR ''.'' # drop (length ?ds - k) ?ds)
      = [take (length ?ds - k) ?ds, drop (length ?ds - k) ?ds]"
      by (rule SplitN2_sep)
    moreover have "length (drop (length ?ds - k) ?ds) = k"
      using len by simp
    ultimately show ?thesis
      using False num ne by (simp add: dec_string_unsigned_def dec_parse_unsigned_def Let_def)
  qed
qed

lemma dec_string_unsigned_head: "take 1 (dec_string_unsigned n k) \<noteq> ''-''"
proof -
  define ds where "ds = pad (Suc k) (digits n)"
  have num: "num_of 0 ds = Some n" unfolding ds_def by (rule num_of_pad)
  have len: "Suc k \<le> length ds" unfolding ds_def by (rule length_pad)
  then obtain x xs where ds: "ds = x # xs" by (cases ds) auto
  have x: "x \<noteq> CHR ''-''"
    using no_dot_no_minus(2) [OF num] ds by auto
  obtain m where m: "length ds - k = Suc m"
    using len by (metis Suc_diff_le diff_diff_cancel diff_is_0_eq' diff_le_self not_less_eq_eq
        old.nat.exhaust)
  have "dec_string_unsigned n k = (if k = 0 then ds
      else take (length ds - k) ds @ CHR ''.'' # drop (length ds - k) ds)"
    by (simp add: dec_string_unsigned_def ds_def Let_def)
  then show ?thesis
    using x by (simp add: m) (simp add: ds)
qed

theorem dec_parse_string: "dec_parse (dec_string d) = Inr d"
  using dec_string_unsigned_head
  by (cases d) (auto simp: dec_parse_def dec_parse_string_unsigned)

subsection \<open>Banker's rounding\<close>

definition div_half_even :: "int \<Rightarrow> int \<Rightarrow> int" where
  "div_half_even c p =
     (let q = c div p; r = c mod p
      in if 2 * r < p then q else if 2 * r > p then q + 1 else if even q then q else q + 1)"

definition dec_fixed_bank :: "dec \<Rightarrow> int \<Rightarrow> dec" where
  "dec_fixed_bank d n =
     (case d of Dec c k \<Rightarrow>
        if k \<le> nat n then Dec (c * 10 ^ (nat n - k)) (nat n)
        else Dec (div_half_even c (10 ^ (k - nat n))) (nat n))"

lemma div_half_even_bound:
  assumes "0 < p"
  shows "2 * \<bar>div_half_even c p * p - c\<bar> \<le> p"
proof -
  have c: "c = (c div p) * p + c mod p" by simp
  have r: "0 \<le> c mod p" "c mod p < p" using assms by simp_all
  have "div_half_even c p = c div p \<and> 2 * (c mod p) \<le> p
      \<or> div_half_even c p = c div p + 1 \<and> p \<le> 2 * (c mod p)"
    by (auto simp: div_half_even_def Let_def)
  then show ?thesis
  proof
    assume "div_half_even c p = c div p \<and> 2 * (c mod p) \<le> p"
    moreover have "(c div p) * p - c = - (c mod p)" using c by linarith
    ultimately show ?thesis using r by simp
  next
    assume "div_half_even c p = c div p + 1 \<and> p \<le> 2 * (c mod p)"
    moreover have "(c div p + 1) * p - c = p - c mod p"
      using c by (simp add: algebra_simps)
    ultimately show ?thesis using r by simp
  qed
qed

lemma dec_fixed_bank_props:
  "\<bar>dec_val (dec_fixed_bank d n) - dec_val d\<bar> * 10 ^ nat n \<le> 1 / 2
   \<and> (\<exists>m::int. dec_val (dec_fixed_bank d n) * 10 ^ nat n = of_int m)"
proof (cases d)
  case (Dec c k)
  show ?thesis
  proof (cases "k \<le> nat n")
    case True
    then have "(10::rat) ^ nat n = 10 ^ k * 10 ^ (nat n - k)" by (simp flip: power_add)
    then have "dec_val (dec_fixed_bank d n) = dec_val d"
      using Dec True by (simp add: dec_fixed_bank_def)
    moreover have "dec_val (dec_fixed_bank d n) * 10 ^ nat n = of_int (c * 10 ^ (nat n - k))"
      using Dec True by (simp add: dec_fixed_bank_def)
    ultimately show ?thesis by (auto intro: exI [of _ "c * 10 ^ (nat n - k)"])
  next
    case False
    define p :: int where "p = 10 ^ (k - nat n)"
    define q where "q = div_half_even c p"
    have p0: "0 < p" by (simp add: p_def)
    have "2 * \<bar>q * p - c\<bar> \<le> p"
      unfolding q_def by (rule div_half_even_bound [OF p0])
    then have b: "2 * \<bar>of_int q * of_int p - of_int c\<bar> \<le> (of_int p :: rat)"
      by (metis (mono_tags, opaque_lifting) of_int_abs of_int_diff of_int_le_iff of_int_mult
          of_int_numeral)
    have pow: "(10::rat) ^ k = of_int p * 10 ^ nat n"
      using False by (simp add: p_def flip: power_add)
    have dv: "dec_val d = of_int c / 10 ^ k"
      using Dec by simp
    have v: "dec_val (dec_fixed_bank d n) = of_int q / 10 ^ nat n"
      using Dec False by (simp add: dec_fixed_bank_def p_def q_def)
    have "(dec_val (dec_fixed_bank d n) - dec_val d) * 10 ^ nat n = of_int q - of_int c / of_int p"
      using p0 by (simp add: v dv pow field_simps)
    also have "\<dots> = (of_int q * of_int p - of_int c) / of_int p"
      using p0 by (simp add: field_simps)
    finally have "\<bar>dec_val (dec_fixed_bank d n) - dec_val d\<bar> * 10 ^ nat n
        = \<bar>of_int q * of_int p - of_int c\<bar> / of_int p"
      using p0 by (metis (no_types, opaque_lifting) abs_divide abs_mult abs_numeral abs_of_pos
          of_int_0_less_iff power_abs)
    also have "\<dots> \<le> 1 / 2"
      using b p0 by (simp add: field_simps)
    finally have "\<bar>dec_val (dec_fixed_bank d n) - dec_val d\<bar> * 10 ^ nat n \<le> 1 / 2" .
    moreover have "dec_val (dec_fixed_bank d n) * 10 ^ nat n = of_int q"
      by (simp add: v)
    ultimately show ?thesis by blast
  qed
qed

subsection \<open>The instance satisfies the interface\<close>

definition dec_ops :: "dec decimal_ops" where
  "dec_ops =
     \<lparr>NewFromString = dec_parse, DAdd = dec_add, DSub = dec_sub, DMul = dec_mul,
      DLessThan = dec_less, DGreaterThan = (\<lambda>a b. dec_less b a),
      DIsPositive = (\<lambda>a. dec_less (Dec 0 0) a), DZero = Dec 0 0, DString = dec_string,
      DStringFixedBank = (\<lambda>d n. dec_string (dec_fixed_bank d n))\<rparr>"

lemma dval_dec_string: "dval dec_ops dec_val (dec_string d) = Some (dec_val d)"
  by (simp add: dval_def dec_ops_def dec_parse_string)

interpretation refdec: decimal_lib dec_ops dec_val
proof (unfold_locales, goal_cases)
  case 8
  have "dec_parse ''0'' = Inr (Dec 0 0)" by code_simp
  then show ?case by (simp add: dval_def dec_ops_def)
next
  case 9
  have "dec_parse ''1.00'' = Inr (Dec 100 2)" by code_simp
  then show ?case by (simp add: dval_def dec_ops_def)
next
  case (10 d)
  show ?case using dval_dec_string [of d] by (simp add: dec_ops_def)
next
  case (11 n d)
  show ?case
    using dval_dec_string [of "dec_fixed_bank d n"] dec_fixed_bank_props [of d n]
    by (simp add: dec_ops_def)
qed (simp_all add: dec_ops_def dec_val_add dec_val_sub dec_val_mul dec_val_less)

end
