(* ===== verification/GoJson.thy ===== *)
theory GoJson
  imports GoDecimal
begin

text \<open>
  JSON values and their decoding as \<open>encoding/json\<close> does it: keys match without regard to case,
  a later key overwrites an earlier one, \<open>null\<close> leaves the target as it is (a map or slice
  becomes nil), and a value of another kind is an error.  Parsing a text into a JSON value is an
  argument where the code does it.
\<close>

datatype json =
    JNull
  | JBool bool
  | JNum string
  | JStr string
  | JArr "json list"
  | JObj "(string \<times> json) list"

section \<open>Decoding\<close>

definition ErrJson :: go_error where
  "ErrJson = ExtErr ''json: cannot unmarshal''"

fun json_string :: "json \<Rightarrow> string \<Rightarrow> string result" where
  "json_string (JStr s) old = Inr s"
| "json_string JNull old = Inr old"
| "json_string _ old = Inl ErrJson"

fun json_fields :: "(string \<times> (json \<Rightarrow> 'a \<Rightarrow> 'a result)) list \<Rightarrow> (string \<times> json) list \<Rightarrow> 'a \<Rightarrow> 'a result" where
  "json_fields fs [] old = Inr old"
| "json_fields fs ((k, v) # kvs) old =
     (case List.find (\<lambda>(name, dec). ToLower name = ToLower k) fs of
        None \<Rightarrow> json_fields fs kvs old
      | Some (name, dec) \<Rightarrow> (case dec v old of Inl e \<Rightarrow> Inl e | Inr x \<Rightarrow> json_fields fs kvs x))"

fun json_struct :: "(string \<times> (json \<Rightarrow> 'a \<Rightarrow> 'a result)) list \<Rightarrow> json \<Rightarrow> 'a \<Rightarrow> 'a result" where
  "json_struct fs (JObj kvs) old = json_fields fs kvs old"
| "json_struct fs JNull old = Inr old"
| "json_struct fs _ old = Inl ErrJson"

fun json_entries :: "(json \<Rightarrow> 'v result) \<Rightarrow> (string \<times> json) list \<Rightarrow> 'v gomap \<Rightarrow> 'v gomap result" where
  "json_entries dec [] m = Inr m"
| "json_entries dec ((k, v) # kvs) m =
     (case dec v of Inl e \<Rightarrow> Inl e | Inr x \<Rightarrow> json_entries dec kvs (mput k x m))"

fun json_map :: "(json \<Rightarrow> 'v result) \<Rightarrow> json \<Rightarrow> 'v gomap \<Rightarrow> 'v gomap result" where
  "json_map dec (JObj kvs) old = json_entries dec kvs old"
| "json_map dec JNull old = Inr []"
| "json_map dec _ old = Inl ErrJson"

definition json_strings :: "json \<Rightarrow> string gomap \<Rightarrow> string gomap result" where
  "json_strings = json_map (\<lambda>v. json_string v [])"

fun json_list :: "(json \<Rightarrow> 'v result) \<Rightarrow> json \<Rightarrow> 'v list \<Rightarrow> 'v list result" where
  "json_list dec (JArr js) old =
     foldr (\<lambda>j acc. case acc of Inl e \<Rightarrow> Inl e
                 | Inr xs \<Rightarrow> (case dec j of Inl e \<Rightarrow> Inl e | Inr x \<Rightarrow> Inr (x # xs))) js (Inr [])"
| "json_list dec JNull old = Inr []"
| "json_list dec _ old = Inl ErrJson"

fun json_bool :: "json \<Rightarrow> bool \<Rightarrow> bool result" where
  "json_bool (JBool b) old = Inr b"
| "json_bool JNull old = Inr old"
| "json_bool _ old = Inl ErrJson"

fun json_int64 :: "json \<Rightarrow> int \<Rightarrow> int result" where
  "json_int64 (JNum s) old = (case ParseInt64 s of Inl e \<Rightarrow> Inl ErrJson | Inr i \<Rightarrow> Inr i)"
| "json_int64 JNull old = Inr old"
| "json_int64 _ old = Inl ErrJson"

text \<open>A field of a record: decode into its old value and put the new one back.\<close>

definition json_into ::
  "('r \<Rightarrow> 'a) \<Rightarrow> ('a \<Rightarrow> 'r \<Rightarrow> 'r) \<Rightarrow> (json \<Rightarrow> 'a \<Rightarrow> 'a result) \<Rightarrow> json \<Rightarrow> 'r \<Rightarrow> 'r result" where
  "json_into get put dec j r = (case dec j (get r) of Inl e \<Rightarrow> Inl e | Inr x \<Rightarrow> Inr (put x r))"

end
