(* ===== verification/Ledger.thy ===== *)
theory Ledger
  imports Prelude Complex_Main
begin

text \<open>
  The abstract specification of the wallet's books, with exact numbers: for each account
  (\<open>'k\<close>, a user and a currency) a balance, the list of signed entries ever posted, the
  references already used, and the withdrawals on hold.  Both implementations of the wallet's
  \<open>Store\<close> (in memory and on Postgres) are proved to refine it.

  Proved here: the balances always equal the sum of the entries (\<open>reconciles\<close>), stay
  non-negative when only non-negative amounts are moved, a used reference moves nothing, and a
  hold is returned at most once.  The locale \<open>ledger_impl\<close> is the contract of an
  implementation; its lemmas carry the facts over to every reachable state of one.
\<close>

section \<open>State\<close>

record 'k entry =
  en_key :: 'k
  en_delta :: rat

datatype hold_status = Held | PaidOut | Returned

record 'k hold =
  h_key :: 'k
  h_amount :: rat
  h_status :: hold_status

record 'k ledger =
  lg_bal :: "'k \<Rightarrow> rat option"
  lg_entries :: "'k entry list"
  lg_refs :: "string set"
  lg_holds :: "string \<Rightarrow> 'k hold option"

definition lg_empty :: "'k ledger" where
  "lg_empty = \<lparr>lg_bal = (\<lambda>_. None), lg_entries = [], lg_refs = {}, lg_holds = (\<lambda>_. None)\<rparr>"

definition balance0 :: "'k ledger \<Rightarrow> 'k \<Rightarrow> rat" where
  "balance0 l k = (case lg_bal l k of None \<Rightarrow> 0 | Some b \<Rightarrow> b)"

definition entry_sum :: "'k entry list \<Rightarrow> 'k \<Rightarrow> rat" where
  "entry_sum es k = sum_list (List.map en_delta (List.filter (\<lambda>e. en_key e = k) es))"

lemma entry_sum_simps [simp]:
  "entry_sum [] k = 0"
  "entry_sum (es @ [\<lparr>en_key = k', en_delta = d\<rparr>]) k = entry_sum es k + (if k' = k then d else 0)"
  by (simp_all add: entry_sum_def)

section \<open>Operations\<close>

definition lg_open :: "'k \<Rightarrow> 'k ledger \<Rightarrow> 'k ledger" where
  "lg_open k l = (case lg_bal l k of None \<Rightarrow> l\<lparr>lg_bal := (lg_bal l)(k \<mapsto> 0)\<rparr> | Some b \<Rightarrow> l)"

definition lg_post :: "'k \<Rightarrow> rat \<Rightarrow> string set \<Rightarrow> 'k ledger \<Rightarrow> 'k ledger" where
  "lg_post k d rs l =
     l\<lparr>lg_bal := (lg_bal l)(k \<mapsto> balance0 l k + d),
       lg_entries := lg_entries l @ [\<lparr>en_key = k, en_delta = d\<rparr>],
       lg_refs := lg_refs l \<union> rs\<rparr>"

definition ref_set :: "string \<Rightarrow> string set" where
  "ref_set ref = (if ref = [] then {} else {ref})"

definition ref_used :: "string \<Rightarrow> 'k ledger \<Rightarrow> bool" where
  "ref_used ref l \<longleftrightarrow> ref \<noteq> [] \<and> ref \<in> lg_refs l"

definition lg_credit :: "'k \<Rightarrow> rat \<Rightarrow> string \<Rightarrow> 'k ledger \<Rightarrow> 'k ledger" where
  "lg_credit k v ref l = (if ref_used ref l then l else lg_post k v (ref_set ref) (lg_open k l))"

definition lg_debit :: "'k \<Rightarrow> rat \<Rightarrow> string \<Rightarrow> 'k ledger \<Rightarrow> 'k ledger" where
  "lg_debit k v ref l =
     (if ref_used ref l then l
      else case lg_bal l k of
        None \<Rightarrow> l
      | Some b \<Rightarrow> if b < v then l else lg_post k (- v) (ref_set ref) l)"

definition lg_request :: "string \<Rightarrow> 'k \<Rightarrow> rat \<Rightarrow> 'k ledger \<Rightarrow> 'k ledger" where
  "lg_request i k v l =
     (case lg_bal l k of
        None \<Rightarrow> l
      | Some b \<Rightarrow>
          if b < v \<or> lg_holds l i \<noteq> None then l
          else (lg_post k (- v) {i} l)
                 \<lparr>lg_holds := (lg_holds l)(i \<mapsto> \<lparr>h_key = k, h_amount = v, h_status = Held\<rparr>)\<rparr>)"

definition lg_approve :: "string \<Rightarrow> 'k ledger \<Rightarrow> 'k ledger" where
  "lg_approve i l =
     (case lg_holds l i of
        None \<Rightarrow> l
      | Some h \<Rightarrow> if h_status h = Held then l\<lparr>lg_holds := (lg_holds l)(i \<mapsto> h\<lparr>h_status := PaidOut\<rparr>)\<rparr>
                  else l)"

text \<open>\<open>rs\<close>: the references the reversal entry occupies (the two stores differ in this).\<close>

definition lg_reject :: "string \<Rightarrow> string set \<Rightarrow> 'k ledger \<Rightarrow> 'k ledger" where
  "lg_reject i rs l =
     (case lg_holds l i of
        None \<Rightarrow> l
      | Some h \<Rightarrow> if h_status h = Held
                  then (lg_post (h_key h) (h_amount h) rs l)
                         \<lparr>lg_holds := (lg_holds l)(i \<mapsto> h\<lparr>h_status := Returned\<rparr>)\<rparr>
                  else l)"

datatype 'k lg_op =
    OpOpen 'k
  | OpCredit 'k rat string
  | OpDebit 'k rat string
  | OpRequest string 'k rat
  | OpApprove string
  | OpReject string "string set"

fun lg_exec :: "'k lg_op \<Rightarrow> 'k ledger \<Rightarrow> 'k ledger" where
  "lg_exec (OpOpen k) l = lg_open k l"
| "lg_exec (OpCredit k v ref) l = lg_credit k v ref l"
| "lg_exec (OpDebit k v ref) l = lg_debit k v ref l"
| "lg_exec (OpRequest i k v) l = lg_request i k v l"
| "lg_exec (OpApprove i) l = lg_approve i l"
| "lg_exec (OpReject i rs) l = lg_reject i rs l"

fun nonneg_op :: "'k lg_op \<Rightarrow> bool" where
  "nonneg_op (OpCredit k v ref) = (0 \<le> v)"
| "nonneg_op (OpDebit k v ref) = (0 \<le> v)"
| "nonneg_op (OpRequest i k v) = (0 \<le> v)"
| "nonneg_op _ = True"

definition lg_run :: "'k lg_op list \<Rightarrow> 'k ledger \<Rightarrow> 'k ledger" where
  "lg_run ops l = fold lg_exec ops l"

lemma lg_run_simps [simp]:
  "lg_run [] l = l"
  "lg_run (op # ops) l = lg_run ops (lg_exec op l)"
  by (simp_all add: lg_run_def)

lemmas lg_op_defs = lg_open_def lg_credit_def lg_debit_def lg_request_def lg_approve_def
  lg_reject_def

section \<open>What every operation keeps\<close>

definition reconciles :: "'k ledger \<Rightarrow> bool" where
  "reconciles l \<longleftrightarrow> (\<forall>k. balance0 l k = entry_sum (lg_entries l) k)"

definition nonneg_ledger :: "'k ledger \<Rightarrow> bool" where
  "nonneg_ledger l \<longleftrightarrow> (\<forall>k. 0 \<le> balance0 l k) \<and> (\<forall>i h. lg_holds l i = Some h \<longrightarrow> 0 \<le> h_amount h)"

lemma balance0_open [simp]: "balance0 (lg_open k l) k' = balance0 l k'"
  by (auto simp: balance0_def lg_open_def split: option.splits)

lemma balance0_post [simp]:
  "balance0 (lg_post k d rs l) k' = balance0 l k' + (if k' = k then d else 0)"
  by (simp add: balance0_def lg_post_def)

lemma balance0_holds [simp]: "balance0 (l\<lparr>lg_holds := hs\<rparr>) k = balance0 l k"
  by (simp add: balance0_def)

lemma entries_post [simp]:
  "lg_entries (lg_post k d rs l) = lg_entries l @ [\<lparr>en_key = k, en_delta = d\<rparr>]"
  "lg_entries (lg_open k l) = lg_entries l"
  by (auto simp: lg_post_def lg_open_def split: option.splits)

lemma holds_post [simp]:
  "lg_holds (lg_post k d rs l) = lg_holds l"
  "lg_holds (lg_open k l) = lg_holds l"
  by (auto simp: lg_post_def lg_open_def split: option.splits)

lemma refs_post [simp]:
  "lg_refs (lg_post k d rs l) = lg_refs l \<union> rs"
  "lg_refs (lg_open k l) = lg_refs l"
  by (auto simp: lg_post_def lg_open_def split: option.splits)

lemma reconciles_empty: "reconciles lg_empty"
  by (simp add: reconciles_def lg_empty_def balance0_def)

lemma reconciles_open: "reconciles (lg_open k l) \<longleftrightarrow> reconciles l"
  by (simp add: reconciles_def)

lemma reconciles_post: "reconciles l \<Longrightarrow> reconciles (lg_post k d rs l)"
  by (simp add: reconciles_def)

lemma reconciles_holds: "reconciles (l\<lparr>lg_holds := hs\<rparr>) \<longleftrightarrow> reconciles l"
  by (simp add: reconciles_def)

lemma reconciles_exec: "reconciles l \<Longrightarrow> reconciles (lg_exec op l)"
  by (cases op)
    (auto simp: lg_op_defs reconciles_post reconciles_holds reconciles_open [unfolded lg_open_def]
      split: option.splits)

lemma nonneg_empty: "nonneg_ledger lg_empty"
  by (simp add: nonneg_ledger_def lg_empty_def balance0_def)

lemma nonneg_exec:
  assumes "nonneg_ledger l" and "nonneg_op op"
  shows "nonneg_ledger (lg_exec op l)"
proof -
  have bal: "0 \<le> balance0 l k" for k
    using assms(1) by (simp add: nonneg_ledger_def)
  have hold: "lg_holds l i = Some h \<Longrightarrow> 0 \<le> h_amount h" for i h
    using assms(1) by (auto simp: nonneg_ledger_def)
  have le: "lg_bal l k = Some b \<Longrightarrow> \<not> b < v \<Longrightarrow> v \<le> balance0 l k" for k b v
    by (simp add: balance0_def)
  show ?thesis
  proof (cases op)
    case (OpDebit k v ref)
    then show ?thesis
      using bal hold le [of k] by (auto simp: nonneg_ledger_def lg_debit_def split: option.splits)
  next
    case (OpRequest i k v)
    then show ?thesis
      using bal hold le [of k] assms(2)
      by (auto simp: nonneg_ledger_def lg_request_def split: option.splits)
  next
    case (OpReject i rs)
    then show ?thesis
      using bal hold
      by (auto simp: nonneg_ledger_def lg_reject_def add_nonneg_nonneg split: option.splits)
  next
    case (OpApprove i)
    then show ?thesis
      using bal hold by (auto simp: nonneg_ledger_def lg_approve_def split: option.splits)
  next
    case (OpCredit k v ref)
    then show ?thesis
      using bal hold assms(2) by (auto simp: nonneg_ledger_def lg_credit_def add_nonneg_nonneg)
  next
    case (OpOpen k)
    then show ?thesis
      using bal hold by (auto simp: nonneg_ledger_def)
  qed
qed

lemma reconciles_run: "reconciles l \<Longrightarrow> reconciles (lg_run ops l)"
  by (induction ops arbitrary: l) (auto simp: reconciles_exec)

lemma nonneg_run: "nonneg_ledger l \<Longrightarrow> \<forall>op\<in>set ops. nonneg_op op \<Longrightarrow> nonneg_ledger (lg_run ops l)"
  by (induction ops arbitrary: l) (auto simp: nonneg_exec)

section \<open>References and holds\<close>

lemma credit_used_ref: "ref_used ref l \<Longrightarrow> lg_credit k v ref l = l"
  by (simp add: lg_credit_def)

lemma debit_used_ref: "ref_used ref l \<Longrightarrow> lg_debit k v ref l = l"
  by (simp add: lg_debit_def)

lemma credit_uses_ref: "ref \<noteq> [] \<Longrightarrow> ref_used ref (lg_credit k v ref l)"
  by (auto simp: lg_credit_def ref_used_def ref_set_def)

lemma ref_used_exec: "ref_used ref l \<Longrightarrow> ref_used ref (lg_exec op l)"
  by (cases op) (auto simp: ref_used_def lg_op_defs split: option.splits)

lemma ref_used_run: "ref_used ref l \<Longrightarrow> ref_used ref (lg_run ops l)"
  by (induction ops arbitrary: l) (auto simp: ref_used_exec)

text \<open>A hold keeps its account and amount, and once decided it never changes again.\<close>

definition decided :: "string \<Rightarrow> 'k ledger \<Rightarrow> bool" where
  "decided i l \<longleftrightarrow> (\<exists>h. lg_holds l i = Some h \<and> h_status h \<noteq> Held)"

lemma decided_hold_exec:
  assumes "lg_holds l i = Some h" and "h_status h \<noteq> Held"
  shows "lg_holds (lg_exec op l) i = Some h"
  using assms
  by (cases op) (auto simp: lg_op_defs split: option.splits)

lemma decided_run: "decided i l \<Longrightarrow> decided i (lg_run ops l)"
  by (induction ops arbitrary: l) (auto simp: decided_def decided_hold_exec)

lemma reject_decided: "lg_holds l i = Some h \<Longrightarrow> h_status h \<noteq> Held \<Longrightarrow> lg_reject i rs l = l"
  by (simp add: lg_reject_def)

section \<open>The contract of an implementation\<close>

text \<open>Reachability by any number of steps.\<close>

inductive reach :: "'s \<Rightarrow> ('s \<Rightarrow> 's \<Rightarrow> bool) \<Rightarrow> 's \<Rightarrow> bool" for init step where
  reach_init: "reach init step init"
| reach_step: "reach init step s \<Longrightarrow> step s t \<Longrightarrow> reach init step t"

lemma reach_trans: "reach s step t \<Longrightarrow> reach r step s \<Longrightarrow> reach r step t"
  by (induction rule: reach.induct) (auto intro: reach.intros)

locale ledger_impl =
  fixes init :: 's
    and step :: "'s \<Rightarrow> 's \<Rightarrow> bool"
    and inv :: "'s \<Rightarrow> bool"
    and abs :: "'s \<Rightarrow> 'k ledger"
    and ok :: "'k lg_op \<Rightarrow> bool"
  assumes init_inv: "inv init"
    and init_abs: "abs init = lg_empty"
    and step_inv: "inv s \<Longrightarrow> step s t \<Longrightarrow> inv t"
    and step_sim: "inv s \<Longrightarrow> step s t \<Longrightarrow> \<exists>ops. (\<forall>op\<in>set ops. ok op) \<and> abs t = lg_run ops (abs s)"
begin

text \<open>From any state that satisfies the invariant.\<close>

lemma reach_from:
  assumes "reach s step t" and "inv s"
  shows "inv t \<and> (\<exists>ops. (\<forall>op\<in>set ops. ok op) \<and> abs t = lg_run ops (abs s))"
  using assms
proof (induction rule: reach.induct)
  case reach_init
  then show ?case by (auto intro: exI [of _ "[]"])
next
  case (reach_step t u)
  then obtain ops where ops: "inv t" "\<forall>op\<in>set ops. ok op" "abs t = lg_run ops (abs s)" by blast
  with reach_step obtain ops' where "inv u" "\<forall>op\<in>set ops'. ok op" "abs u = lg_run ops' (abs t)"
    using step_sim step_inv by blast
  with ops show ?case
    by (auto simp: lg_run_def intro!: exI [of _ "ops @ ops'"])
qed

lemma reach_inv: "reach init step s \<Longrightarrow> inv s"
  using reach_from init_inv by blast

lemma reach_run: "reach init step s \<Longrightarrow> \<exists>ops. (\<forall>op\<in>set ops. ok op) \<and> abs s = lg_run ops lg_empty"
  using reach_from init_inv init_abs by metis

lemma reach_ref_used: "reach s step t \<Longrightarrow> inv s \<Longrightarrow> ref_used ref (abs s) \<Longrightarrow> ref_used ref (abs t)"
  using reach_from ref_used_run by metis

lemma reach_decided: "reach s step t \<Longrightarrow> inv s \<Longrightarrow> decided i (abs s) \<Longrightarrow> decided i (abs t)"
  using reach_from decided_run by metis

lemma reach_reconciles: "reach init step s \<Longrightarrow> reconciles (abs s)"
  using reach_run reconciles_run reconciles_empty by metis

end

locale nonneg_ledger_impl = ledger_impl +
  assumes ok_nonneg: "ok op \<Longrightarrow> nonneg_op op"
begin

lemma reach_nonneg: "reach init step s \<Longrightarrow> nonneg_ledger (abs s)"
  using reach_run nonneg_run nonneg_empty ok_nonneg by metis

end

end
