(* ===== verification/WalletModel.thy ===== *)
theory WalletModel
  imports GoDecimal GoJson
begin

text \<open>
  The data of the wallet service: \<open>internal/wallet/models.go\<close>, the errors of
  \<open>store.go\<close>, \<open>service.go\<close> and \<open>pgstore.go\<close>, the decimal helpers of \<open>decimal.go\<close>, the
  interface \<open>Store\<close> as a record of operations, and what a call reads from outside: the clock,
  the fresh identifiers (\<open>uuid.NewString\<close>) and the JSON codec.
\<close>

section \<open>Records\<close>

record wallet =
  w_ID :: string
  w_UserID :: string
  w_Currency :: string
  w_Balance :: string
  w_Version :: int
  w_CreatedAt :: gtime
  w_UpdatedAt :: gtime

record transaction =
  t_ID :: string
  t_UserID :: string
  t_WalletID :: string
  t_Currency :: string
  t_Type :: string
  t_Amount :: string
  t_BalanceBefore :: string
  t_BalanceAfter :: string
  t_Status :: string
  t_ReferenceID :: string
  t_Metadata :: string
  t_CreatedAt :: gtime

record deposit_address =
  a_ID :: string
  a_UserID :: string
  a_Currency :: string
  a_Chain :: string
  a_Address :: string
  a_XCashDepositID :: string
  a_Status :: string
  a_CreatedAt :: gtime

record withdrawal_request =
  r_ID :: string
  r_UserID :: string
  r_WalletID :: string
  r_Amount :: string
  r_Currency :: string
  r_DestinationAddress :: string
  r_Chain :: string
  r_Status :: string
  r_TxHash :: string
  r_ReviewedBy :: string
  r_CreatedAt :: gtime

section \<open>Errors\<close>

definition ErrWalletNotFound :: go_error where
  "ErrWalletNotFound = Sentinel ''wallet'' ''wallet not found''"

definition ErrNotImplemented :: go_error where
  "ErrNotImplemented = Sentinel ''wallet'' ''not implemented''"

definition ErrInsufficientBalance :: go_error where
  "ErrInsufficientBalance = Sentinel ''wallet'' ''insufficient balance''"

definition ErrWalletConflict :: go_error where
  "ErrWalletConflict = Sentinel ''wallet'' ''wallet update conflict''"

lemmas wallet_error_defs = ErrWalletNotFound_def ErrNotImplemented_def ErrInsufficientBalance_def
  ErrWalletConflict_def

section \<open>What a call reads from outside\<close>

text \<open>
  \<open>e_now\<close> is the clock during the call (the calls of \<open>time.Now\<close> in one operation read the same
  instant) and \<open>e_uuid n\<close> the identifier drawn at site \<open>n\<close> of the operation: site 0 a wallet, 1 a
  transaction, 2 a withdrawal request, 3 a deposit address.
\<close>

record genv =
  e_now :: gtime
  e_uuid :: "nat \<Rightarrow> string"

text \<open>A \<open>map[string]any\<close>: \<open>None\<close> is the nil map.\<close>

type_synonym metadata = "(string \<times> json) list option"

record json_codec =
  json_Marshal :: "metadata \<Rightarrow> string result"
  json_Unmarshal :: "string \<Rightarrow> metadata result"

definition metadataString :: "json_codec \<Rightarrow> metadata \<Rightarrow> string" where
  "metadataString J m =
     (case m of
        None \<Rightarrow> []
      | Some [] \<Rightarrow> []
      | Some (x # xs) \<Rightarrow> (case json_Marshal J m of Inl e \<Rightarrow> [] | Inr b \<Rightarrow> b))"

section \<open>Decimal helpers\<close>

definition addDecimal :: "'d decimal_ops \<Rightarrow> string \<Rightarrow> string \<Rightarrow> string result" where
  "addDecimal D a b =
     (case NewFromString D a of
        Inl err \<Rightarrow> Inl (WrapErr (''parse amount '' @ go_quote a @ '': '') err)
      | Inr da \<Rightarrow>
        (case NewFromString D b of
           Inl err \<Rightarrow> Inl (WrapErr (''parse amount '' @ go_quote b @ '': '') err)
         | Inr db \<Rightarrow> Inr (DString D (DAdd D da db))))"

definition subDecimal :: "'d decimal_ops \<Rightarrow> string \<Rightarrow> string \<Rightarrow> string result" where
  "subDecimal D a b =
     (case NewFromString D a of
        Inl err \<Rightarrow> Inl (WrapErr (''parse amount '' @ go_quote a @ '': '') err)
      | Inr da \<Rightarrow>
        (case NewFromString D b of
           Inl err \<Rightarrow> Inl (WrapErr (''parse amount '' @ go_quote b @ '': '') err)
         | Inr db \<Rightarrow> Inr (DString D (DSub D da db))))"

text \<open>The number of a text the library can parse; 0 otherwise.\<close>

definition num :: "'d decimal_ops \<Rightarrow> ('d \<Rightarrow> rat) \<Rightarrow> string \<Rightarrow> rat" where
  "num D val s = (case dval D val s of None \<Rightarrow> 0 | Some x \<Rightarrow> x)"

lemma num_parse: "NewFromString D s = Inr d \<Longrightarrow> num D val s = val d"
  by (simp add: num_def dval_def)

lemma dval_num: "dval D val s \<noteq> None \<Longrightarrow> dval D val s = Some (num D val s)"
  by (auto simp: num_def)

context decimal_lib
begin

lemma addDecimal_Inr:
  assumes "addDecimal D a b = Inr c"
  shows "dval D val a = Some (num D val a)" and "dval D val b = Some (num D val b)"
    and "dval D val c = Some (num D val a + num D val b)"
    and "num D val c = num D val a + num D val b"
proof -
  obtain da db where ab: "NewFromString D a = Inr da" "NewFromString D b = Inr db"
    and c: "c = DString D (DAdd D da db)"
    using assms by (auto simp: addDecimal_def split: sum.splits)
  show "dval D val a = Some (num D val a)" "dval D val b = Some (num D val b)"
    "dval D val c = Some (num D val a + num D val b)" "num D val c = num D val a + num D val b"
    using ab by (simp_all add: c num_def dval_Some_parse)
qed

lemma subDecimal_Inr:
  assumes "subDecimal D a b = Inr c"
  shows "dval D val a = Some (num D val a)" and "dval D val b = Some (num D val b)"
    and "dval D val c = Some (num D val a - num D val b)"
    and "num D val c = num D val a - num D val b"
proof -
  obtain da db where ab: "NewFromString D a = Inr da" "NewFromString D b = Inr db"
    and c: "c = DString D (DSub D da db)"
    using assms by (auto simp: subDecimal_def split: sum.splits)
  show "dval D val a = Some (num D val a)" "dval D val b = Some (num D val b)"
    "dval D val c = Some (num D val a - num D val b)" "num D val c = num D val a - num D val b"
    using ab by (simp_all add: c num_def dval_Some_parse)
qed

lemma addDecimal_ok:
  assumes "dval D val a \<noteq> None" and "dval D val b \<noteq> None"
  obtains c where "addDecimal D a b = Inr c"
  using assms by (auto simp: addDecimal_def dval_Some_iff)

lemma subDecimal_ok:
  assumes "dval D val a \<noteq> None" and "dval D val b \<noteq> None"
  obtains c where "subDecimal D a b = Inr c"
  using assms by (auto simp: subDecimal_def dval_Some_iff)

lemma addDecimal_Inl: "dval D val a \<noteq> None \<Longrightarrow> addDecimal D a b = Inl e \<Longrightarrow> dval D val b = None"
  by (auto simp: addDecimal_def dval_def split: sum.splits)

lemma num_zero [simp]: "num D val ''0'' = 0"
  by (simp add: num_def)

end

section \<open>The interface Store\<close>

text \<open>\<open>'e\<close> is what a call reads from outside, \<open>'s\<close> the state of the store.\<close>

record ('e, 's) store_ops =
  GetWallet :: "'e \<Rightarrow> 's \<Rightarrow> string \<Rightarrow> string \<Rightarrow> wallet result"
  CreateWallet :: "'e \<Rightarrow> 's \<Rightarrow> string \<Rightarrow> string \<Rightarrow> 's \<times> wallet result"
  CreditWallet :: "'e \<Rightarrow> 's \<Rightarrow> string \<Rightarrow> string \<Rightarrow> string \<Rightarrow> string \<Rightarrow> metadata \<Rightarrow> 's \<times> transaction result"
  DebitWallet :: "'e \<Rightarrow> 's \<Rightarrow> string \<Rightarrow> string \<Rightarrow> string \<Rightarrow> string \<Rightarrow> metadata \<Rightarrow> 's \<times> transaction result"
  ReverseDebit :: "'e \<Rightarrow> 's \<Rightarrow> string \<Rightarrow> 's \<times> transaction result"
  GetDepositAddress :: "'e \<Rightarrow> 's \<Rightarrow> string \<Rightarrow> string \<Rightarrow> string \<Rightarrow> deposit_address result"
  CreateDepositAddress :: "'e \<Rightarrow> 's \<Rightarrow> deposit_address \<Rightarrow> 's \<times> deposit_address result"
  RequestWithdrawal :: "'e \<Rightarrow> 's \<Rightarrow> string \<Rightarrow> string \<Rightarrow> string \<Rightarrow> string \<Rightarrow> string \<Rightarrow> 's \<times> withdrawal_request result"
  ApproveWithdrawal :: "'e \<Rightarrow> 's \<Rightarrow> string \<Rightarrow> string \<Rightarrow> string \<Rightarrow> 's \<times> withdrawal_request result"
  RejectWithdrawal :: "'e \<Rightarrow> 's \<Rightarrow> string \<Rightarrow> string \<Rightarrow> 's \<times> withdrawal_request result"
  ListPendingWithdrawals :: "'e \<Rightarrow> 's \<Rightarrow> int \<Rightarrow> int \<Rightarrow> withdrawal_request list result"
  ListTransactions :: "'e \<Rightarrow> 's \<Rightarrow> string \<Rightarrow> int \<Rightarrow> int \<Rightarrow> transaction list result"

text \<open>The calls that may change a store, with their arguments in the order of the interface.\<close>

datatype wallet_call =
    CallCreateWallet string string
  | CallCredit string string string string metadata
  | CallDebit string string string string metadata
  | CallCreateAddress deposit_address
  | CallRequest string string string string string
  | CallApprove string string string
  | CallReject string string

text \<open>The amount a call moves is not negative.\<close>

fun nonneg_call :: "'d decimal_ops \<Rightarrow> ('d \<Rightarrow> rat) \<Rightarrow> wallet_call \<Rightarrow> bool" where
  "nonneg_call D val (CallCredit u c amount ref m) = (0 \<le> num D val amount)"
| "nonneg_call D val (CallDebit u c amount ref m) = (0 \<le> num D val amount)"
| "nonneg_call D val (CallRequest u c amount dest chain) = (0 \<le> num D val amount)"
| "nonneg_call D val _ = True"

end
