(* ===== verification/WalletMemory.thy ===== *)
theory WalletMemory
  imports WalletModel Ledger
begin

text \<open>
  The in-memory wallet store, \<open>internal/wallet/memory_store.go\<close>.  The maps \<open>txns\<close> and
  \<open>txnByRef\<close> of the code hold pointers to the same transactions, and approving or rejecting a
  withdrawal changes a transaction through one of them: the model keeps the transactions in a heap
  (\<open>ms_heap\<close>, an address is an index) and both maps hold addresses.

  The store is proved to refine the abstract ledger, with the account key the code uses
  (\<open>userID + ":" + currency\<close>), and the status of a withdrawal request always agrees with the
  status of its transaction.
\<close>

section \<open>State\<close>

record memory_store =
  ms_wallets :: "wallet gomap"
  ms_heap :: "transaction list"
  ms_txns :: "nat gomap"
  ms_txnByRef :: "nat gomap"
  ms_addresses :: "deposit_address gomap"
  ms_withdrawals :: "withdrawal_request gomap"

definition ms_NewInMemoryStore :: memory_store where
  "ms_NewInMemoryStore =
     \<lparr>ms_wallets = [], ms_heap = [], ms_txns = [], ms_txnByRef = [], ms_addresses = [],
      ms_withdrawals = []\<rparr>"

definition walletKey :: "string \<Rightarrow> string \<Rightarrow> string" where
  "walletKey userID currency = userID @ '':'' @ currency"

section \<open>Operations\<close>

definition ms_createWallet :: "genv \<Rightarrow> memory_store \<Rightarrow> string \<Rightarrow> string \<Rightarrow> memory_store \<times> wallet" where
  "ms_createWallet E s userID currency =
     (let key = walletKey userID currency
      in case mget (ms_wallets s) key of
           Some w \<Rightarrow> (s, w)
         | None \<Rightarrow>
             (let w = \<lparr>w_ID = e_uuid E 0, w_UserID = userID, w_Currency = currency, w_Balance = ''0'',
                       w_Version = 0, w_CreatedAt = e_now E, w_UpdatedAt = e_now E\<rparr>
              in (s\<lparr>ms_wallets := mput key w (ms_wallets s)\<rparr>, w)))"

definition ms_GetWallet :: "memory_store \<Rightarrow> string \<Rightarrow> string \<Rightarrow> wallet result" where
  "ms_GetWallet s userID currency =
     (case mget (ms_wallets s) (walletKey userID currency) of
        None \<Rightarrow> Inl ErrWalletNotFound
      | Some w \<Rightarrow> Inr w)"

definition ms_CreateWallet :: "genv \<Rightarrow> memory_store \<Rightarrow> string \<Rightarrow> string \<Rightarrow> memory_store \<times> wallet result" where
  "ms_CreateWallet E s userID currency =
     (case ms_createWallet E s userID currency of (s', w) \<Rightarrow> (s', Inr w))"

text \<open>
  Storing a new transaction (\<open>s.txns[txn.ID] = txn\<close>, and \<open>s.txnByRef[ref] = txn\<close> when the
  reference is to be indexed) allocates its address at the end of the heap.
\<close>

definition ms_storeTxn :: "memory_store \<Rightarrow> transaction \<Rightarrow> string \<Rightarrow> memory_store" where
  "ms_storeTxn s txn ref =
     s\<lparr>ms_heap := ms_heap s @ [txn],
       ms_txns := mput (t_ID txn) (length (ms_heap s)) (ms_txns s),
       ms_txnByRef := (if ref = [] then ms_txnByRef s else mput ref (length (ms_heap s)) (ms_txnByRef s))\<rparr>"

definition ms_setBalance :: "genv \<Rightarrow> memory_store \<Rightarrow> string \<Rightarrow> wallet \<Rightarrow> string \<Rightarrow> memory_store" where
  "ms_setBalance E s key w newBalance =
     s\<lparr>ms_wallets := mput key (w\<lparr>w_Balance := newBalance, w_Version := w_Version w + 1,
                                 w_UpdatedAt := e_now E\<rparr>) (ms_wallets s)\<rparr>"

definition ms_lookupRef :: "memory_store \<Rightarrow> string \<Rightarrow> transaction option" where
  "ms_lookupRef s ref =
     (if ref = [] then None else map_option (\<lambda>a. ms_heap s ! a) (mget (ms_txnByRef s) ref))"

definition ms_CreditWallet ::
  "'d decimal_ops \<Rightarrow> json_codec \<Rightarrow> genv \<Rightarrow> memory_store \<Rightarrow> string \<Rightarrow> string \<Rightarrow> string \<Rightarrow> string \<Rightarrow> metadata
   \<Rightarrow> memory_store \<times> transaction result" where
  "ms_CreditWallet D J E s userID currency amount referenceID metadata =
     (case ms_lookupRef s referenceID of
        Some existing \<Rightarrow> (s, Inr existing)
      | None \<Rightarrow>
        (case ms_createWallet E s userID currency of (s1, w) \<Rightarrow>
           (case addDecimal D (w_Balance w) amount of
              Inl err \<Rightarrow> (s1, Inl (WrapErr ''credit wallet: '' err))
            | Inr newBalance \<Rightarrow>
                (let txn = \<lparr>t_ID = e_uuid E 1, t_UserID = userID, t_WalletID = w_ID w,
                            t_Currency = currency, t_Type = ''deposit'', t_Amount = amount,
                            t_BalanceBefore = w_Balance w, t_BalanceAfter = newBalance,
                            t_Status = ''completed'', t_ReferenceID = referenceID,
                            t_Metadata = metadataString J metadata, t_CreatedAt = e_now E\<rparr>;
                     s2 = ms_storeTxn s1 txn referenceID
                 in (ms_setBalance E s2 (walletKey userID currency) w newBalance, Inr txn)))))"

definition ms_DebitWallet ::
  "'d decimal_ops \<Rightarrow> json_codec \<Rightarrow> genv \<Rightarrow> memory_store \<Rightarrow> string \<Rightarrow> string \<Rightarrow> string \<Rightarrow> string \<Rightarrow> metadata
   \<Rightarrow> memory_store \<times> transaction result" where
  "ms_DebitWallet D J E s userID currency amount referenceID metadata =
     (case ms_lookupRef s referenceID of
        Some existing \<Rightarrow> (s, Inr existing)
      | None \<Rightarrow>
        (case mget (ms_wallets s) (walletKey userID currency) of
           None \<Rightarrow> (s, Inl (NewErr ''wallet not found''))
         | Some w \<Rightarrow>
           (case NewFromString D (w_Balance w) of
              Inl err \<Rightarrow> (s, Inl err)
            | Inr currentBalance \<Rightarrow>
              (case NewFromString D amount of
                 Inl err \<Rightarrow> (s, Inl err)
               | Inr debitAmount \<Rightarrow>
                   if DLessThan D currentBalance debitAmount
                   then (s, Inl (NewErr ''insufficient balance''))
                   else
                     (case subDecimal D (w_Balance w) amount of
                        Inl err \<Rightarrow> (s, Inl (WrapErr ''debit wallet: '' err))
                      | Inr newBalance \<Rightarrow>
                          (let txn = \<lparr>t_ID = e_uuid E 1, t_UserID = userID, t_WalletID = w_ID w,
                                      t_Currency = currency, t_Type = ''withdrawal'', t_Amount = amount,
                                      t_BalanceBefore = w_Balance w, t_BalanceAfter = newBalance,
                                      t_Status = ''completed'', t_ReferenceID = referenceID,
                                      t_Metadata = metadataString J metadata, t_CreatedAt = e_now E\<rparr>;
                               s2 = ms_storeTxn s txn referenceID
                           in (ms_setBalance E s2 (walletKey userID currency) w newBalance, Inr txn)))))))"

definition ms_ReverseDebit :: "genv \<Rightarrow> memory_store \<Rightarrow> string \<Rightarrow> memory_store \<times> transaction result" where
  "ms_ReverseDebit E s transactionID = (s, Inl (NewErr ''not implemented in unit test stub''))"

definition active_address :: "string \<Rightarrow> string \<Rightarrow> string \<Rightarrow> deposit_address \<Rightarrow> bool" where
  "active_address userID currency chain addr \<longleftrightarrow>
     a_UserID addr = userID \<and> a_Currency addr = currency \<and> a_Chain addr = chain \<and> a_Status addr = ''active''"

definition ms_GetDepositAddress ::
  "((string \<times> deposit_address) list \<Rightarrow> (string \<times> deposit_address) list) \<Rightarrow> memory_store
   \<Rightarrow> string \<Rightarrow> string \<Rightarrow> string \<Rightarrow> deposit_address result" where
  "ms_GetDepositAddress ord s userID currency chain =
     (case List.find (active_address userID currency chain) (List.map snd (ord (ms_addresses s))) of
        Some addr \<Rightarrow> Inr addr
      | None \<Rightarrow> Inl (NewErr ''not found''))"

definition ms_CreateDepositAddress ::
  "genv \<Rightarrow> memory_store \<Rightarrow> deposit_address \<Rightarrow> memory_store \<times> deposit_address result" where
  "ms_CreateDepositAddress E s addr =
     (let addr' = addr\<lparr>a_ID := e_uuid E 3, a_Status := ''active'', a_CreatedAt := e_now E\<rparr>
      in (s\<lparr>ms_addresses := mput (a_ID addr') addr' (ms_addresses s)\<rparr>, Inr addr'))"

definition ms_RequestWithdrawal ::
  "'d decimal_ops \<Rightarrow> genv \<Rightarrow> memory_store \<Rightarrow> string \<Rightarrow> string \<Rightarrow> string \<Rightarrow> string \<Rightarrow> string
   \<Rightarrow> memory_store \<times> withdrawal_request result" where
  "ms_RequestWithdrawal D E s userID currency amount destinationAddress chain =
     (case mget (ms_wallets s) (walletKey userID currency) of
        None \<Rightarrow> (s, Inl ErrWalletNotFound)
      | Some w \<Rightarrow>
        (case NewFromString D (w_Balance w) of
           Inl err \<Rightarrow> (s, Inl err)
         | Inr currentBalance \<Rightarrow>
           (case NewFromString D amount of
              Inl err \<Rightarrow> (s, Inl err)
            | Inr withdrawalAmount \<Rightarrow>
                if DLessThan D currentBalance withdrawalAmount
                then (s, Inl ErrInsufficientBalance)
                else
                  (case subDecimal D (w_Balance w) amount of
                     Inl err \<Rightarrow> (s, Inl (WrapErr ''debit wallet for withdrawal: '' err))
                   | Inr newBalance \<Rightarrow>
                       (let s1 = ms_setBalance E s (walletKey userID currency) w newBalance;
                            reqID = e_uuid E 2;
                            withdrawalTx =
                              \<lparr>t_ID = e_uuid E 1, t_UserID = userID, t_WalletID = w_ID w,
                               t_Currency = currency, t_Type = ''withdrawal'', t_Amount = amount,
                               t_BalanceBefore = DString D currentBalance, t_BalanceAfter = newBalance,
                               t_Status = ''pending'', t_ReferenceID = reqID, t_Metadata = [],
                               t_CreatedAt = e_now E\<rparr>;
                            s2 = ms_storeTxn s1 withdrawalTx reqID;
                            req = \<lparr>r_ID = reqID, r_UserID = userID, r_WalletID = w_ID w,
                                   r_Amount = amount, r_Currency = currency,
                                   r_DestinationAddress = destinationAddress, r_Chain = chain,
                                   r_Status = ''pending'', r_TxHash = [], r_ReviewedBy = [],
                                   r_CreatedAt = e_now E\<rparr>
                        in (s2\<lparr>ms_withdrawals := mput reqID req (ms_withdrawals s2)\<rparr>, Inr req))))))"

text \<open>\<open>if tx, ok := s.txnByRef[id]; ok { tx.Status = status }\<close>: a write through the pointer.\<close>

definition ms_setTxStatus :: "memory_store \<Rightarrow> string \<Rightarrow> string \<Rightarrow> memory_store" where
  "ms_setTxStatus s i status =
     (case mget (ms_txnByRef s) i of
        None \<Rightarrow> s
      | Some a \<Rightarrow> s\<lparr>ms_heap := (ms_heap s)[a := (ms_heap s ! a)\<lparr>t_Status := status\<rparr>]\<rparr>)"

definition ms_ApproveWithdrawal ::
  "memory_store \<Rightarrow> string \<Rightarrow> string \<Rightarrow> string \<Rightarrow> memory_store \<times> withdrawal_request result" where
  "ms_ApproveWithdrawal s i txHash reviewedBy =
     (case mget (ms_withdrawals s) i of
        None \<Rightarrow> (s, Inl (NewErr ''withdrawal request not found''))
      | Some req \<Rightarrow>
          if r_Status req \<noteq> ''pending'' then (s, Inl (NewErr ''withdrawal request not pending''))
          else
            (let req' = req\<lparr>r_Status := ''approved'', r_TxHash := txHash, r_ReviewedBy := reviewedBy\<rparr>;
                 s1 = s\<lparr>ms_withdrawals := mput i req' (ms_withdrawals s)\<rparr>
             in (ms_setTxStatus s1 i ''completed'', Inr req')))"

definition ms_RejectWithdrawal ::
  "'d decimal_ops \<Rightarrow> genv \<Rightarrow> memory_store \<Rightarrow> string \<Rightarrow> string \<Rightarrow> memory_store \<times> withdrawal_request result" where
  "ms_RejectWithdrawal D E s i reviewedBy =
     (case mget (ms_withdrawals s) i of
        None \<Rightarrow> (s, Inl (NewErr ''withdrawal request not found''))
      | Some req \<Rightarrow>
          if r_Status req \<noteq> ''pending'' then (s, Inl (NewErr ''withdrawal request not pending''))
          else
            (case mget (ms_wallets s) (walletKey (r_UserID req) (r_Currency req)) of
               None \<Rightarrow> (s, Inl ErrWalletNotFound)
             | Some w \<Rightarrow>
               (case addDecimal D (w_Balance w) (r_Amount req) of
                  Inl err \<Rightarrow> (s, Inl (WrapErr ''reverse withdrawal debit: '' err))
                | Inr reversedBalance \<Rightarrow>
                    (let s1 = ms_setBalance E s (walletKey (r_UserID req) (r_Currency req)) w reversedBalance;
                         req' = req\<lparr>r_Status := ''rejected'', r_ReviewedBy := reviewedBy\<rparr>;
                         s2 = s1\<lparr>ms_withdrawals := mput i req' (ms_withdrawals s1)\<rparr>;
                         s3 = ms_setTxStatus s2 i ''reversed'';
                         reversalTx =
                           \<lparr>t_ID = e_uuid E 1, t_UserID = r_UserID req, t_WalletID = w_ID w,
                            t_Currency = r_Currency req, t_Type = ''adjustment'', t_Amount = r_Amount req,
                            t_BalanceBefore = w_Balance w, t_BalanceAfter = reversedBalance,
                            t_Status = ''completed'', t_ReferenceID = i @ ''-reversal'', t_Metadata = [],
                            t_CreatedAt = e_now E\<rparr>
                     in (ms_storeTxn s3 reversalTx [], Inr req')))))"

definition ms_ListPendingWithdrawals ::
  "((string \<times> withdrawal_request) list \<Rightarrow> (string \<times> withdrawal_request) list) \<Rightarrow> memory_store
   \<Rightarrow> int \<Rightarrow> int \<Rightarrow> withdrawal_request list result" where
  "ms_ListPendingWithdrawals ord s page pageSize =
     Inr (List.filter (\<lambda>w. r_Status w = ''pending'') (List.map snd (ord (ms_withdrawals s))))"

definition ms_ListTransactions ::
  "((string \<times> nat) list \<Rightarrow> (string \<times> nat) list) \<Rightarrow> memory_store
   \<Rightarrow> string \<Rightarrow> int \<Rightarrow> int \<Rightarrow> transaction list result" where
  "ms_ListTransactions ord s userID page pageSize =
     Inr (List.filter (\<lambda>t. t_UserID t = userID) (List.map (\<lambda>p. ms_heap s ! snd p) (ord (ms_txns s))))"

section \<open>Abstraction and invariant\<close>

definition entry_of :: "'d decimal_ops \<Rightarrow> ('d \<Rightarrow> rat) \<Rightarrow> transaction \<Rightarrow> string entry" where
  "entry_of D val t =
     \<lparr>en_key = walletKey (t_UserID t) (t_Currency t),
      en_delta = (if t_Type t = ''withdrawal'' then - num D val (t_Amount t) else num D val (t_Amount t))\<rparr>"

definition hold_status_of :: "string \<Rightarrow> hold_status" where
  "hold_status_of st = (if st = ''pending'' then Held else if st = ''approved'' then PaidOut else Returned)"

definition hold_of :: "'d decimal_ops \<Rightarrow> ('d \<Rightarrow> rat) \<Rightarrow> withdrawal_request \<Rightarrow> string hold" where
  "hold_of D val r =
     \<lparr>h_key = walletKey (r_UserID r) (r_Currency r), h_amount = num D val (r_Amount r),
      h_status = hold_status_of (r_Status r)\<rparr>"

definition ms_abs :: "'d decimal_ops \<Rightarrow> ('d \<Rightarrow> rat) \<Rightarrow> memory_store \<Rightarrow> string ledger" where
  "ms_abs D val s =
     \<lparr>lg_bal = (\<lambda>k. map_option (\<lambda>w. num D val (w_Balance w)) (mget (ms_wallets s) k)),
      lg_entries = List.map (\<lambda>p. entry_of D val (ms_heap s ! snd p)) (ms_txns s),
      lg_refs = dom (mget (ms_txnByRef s)),
      lg_holds = (\<lambda>i. map_option (hold_of D val) (mget (ms_withdrawals s) i))\<rparr>"

text \<open>The status of a request's transaction.\<close>

definition tx_status_of :: "string \<Rightarrow> string" where
  "tx_status_of st =
     (if st = ''pending'' then ''pending'' else if st = ''approved'' then ''completed'' else ''reversed'')"

definition req_ok :: "'d decimal_ops \<Rightarrow> ('d \<Rightarrow> rat) \<Rightarrow> memory_store \<Rightarrow> string \<Rightarrow> withdrawal_request \<Rightarrow> bool" where
  "req_ok D val s i r \<longleftrightarrow>
     dval D val (r_Amount r) \<noteq> None \<and> r_Status r \<in> {''pending'', ''approved'', ''rejected''}
     \<and> mget (ms_wallets s) (walletKey (r_UserID r) (r_Currency r)) \<noteq> None
     \<and> (\<exists>a. mget (ms_txnByRef s) i = Some a \<and> t_Type (ms_heap s ! a) = ''withdrawal''
          \<and> t_Amount (ms_heap s ! a) = r_Amount r \<and> t_UserID (ms_heap s ! a) = r_UserID r
          \<and> t_Currency (ms_heap s ! a) = r_Currency r
          \<and> t_Status (ms_heap s ! a) = tx_status_of (r_Status r))"

definition ms_inv :: "'d decimal_ops \<Rightarrow> ('d \<Rightarrow> rat) \<Rightarrow> memory_store \<Rightarrow> bool" where
  "ms_inv D val s \<longleftrightarrow>
     wf_map (ms_wallets s) \<and> wf_map (ms_txns s) \<and> wf_map (ms_txnByRef s) \<and> wf_map (ms_withdrawals s)
     \<and> (\<forall>k w. mget (ms_wallets s) k = Some w \<longrightarrow>
          dval D val (w_Balance w) \<noteq> None \<and> walletKey (w_UserID w) (w_Currency w) = k)
     \<and> List.map snd (ms_txns s) = [0..<length (ms_heap s)]
     \<and> (\<forall>ref a. mget (ms_txnByRef s) ref = Some a \<longrightarrow>
          a < length (ms_heap s) \<and> t_ReferenceID (ms_heap s ! a) = ref)
     \<and> (\<forall>i r. mget (ms_withdrawals s) i = Some r \<longrightarrow> req_ok D val s i r)"

text \<open>The identifiers a call draws are new.\<close>

definition ms_fresh :: "genv \<Rightarrow> memory_store \<Rightarrow> bool" where
  "ms_fresh E s \<longleftrightarrow>
     mget (ms_txns s) (e_uuid E 1) = None \<and> e_uuid E 2 \<noteq> []
     \<and> mget (ms_txnByRef s) (e_uuid E 2) = None \<and> mget (ms_withdrawals s) (e_uuid E 2) = None"

lemma ms_invD:
  assumes "ms_inv D val s"
  shows "mget (ms_wallets s) k = Some w \<Longrightarrow> dval D val (w_Balance w) \<noteq> None"
    and "mget (ms_wallets s) k = Some w \<Longrightarrow> walletKey (w_UserID w) (w_Currency w) = k"
    and "List.map snd (ms_txns s) = [0..<length (ms_heap s)]"
    and "mget (ms_txnByRef s) ref = Some a \<Longrightarrow> a < length (ms_heap s)"
    and "mget (ms_txnByRef s) ref = Some a \<Longrightarrow> t_ReferenceID (ms_heap s ! a) = ref"
    and "mget (ms_withdrawals s) i = Some r \<Longrightarrow> req_ok D val s i r"
  using assms by (auto simp: ms_inv_def)

text \<open>Every transaction of the heap is in \<open>txns\<close>, in the order of creation.\<close>

lemma ms_entries_heap:
  assumes "ms_inv D val s"
  shows "lg_entries (ms_abs D val s) = List.map (entry_of D val) (ms_heap s)"
proof -
  have "List.map (\<lambda>p. entry_of D val (ms_heap s ! snd p)) (ms_txns s)
      = List.map (entry_of D val \<circ> (!) (ms_heap s)) (List.map snd (ms_txns s))"
    by simp
  also have "\<dots> = List.map (entry_of D val) (List.map ((!) (ms_heap s)) [0..<length (ms_heap s)])"
    using assms by (simp add: ms_invD(3))
  finally show ?thesis
    by (simp add: ms_abs_def map_nth)
qed

section \<open>Posting a transaction\<close>

lemma ms_storeTxn_setBalance:
  "ms_storeTxn (ms_setBalance E s k w b) t r = ms_setBalance E (ms_storeTxn s t r) k w b"
  by (simp add: ms_storeTxn_def ms_setBalance_def)

lemma ms_abs_holds:
  "ms_abs D val (s\<lparr>ms_withdrawals := mput i r (ms_withdrawals s)\<rparr>) =
   (ms_abs D val s)\<lparr>lg_holds := (lg_holds (ms_abs D val s))(i \<mapsto> hold_of D val r)\<rparr>"
  by (auto simp: ms_abs_def)

lemma entry_of_status [simp]: "entry_of D val (t\<lparr>t_Status := st\<rparr>) = entry_of D val t"
  by (simp add: entry_of_def)

lemma nth_status_update [simp]:
  "entry_of D val (h[a := (h ! a)\<lparr>t_Status := st\<rparr>] ! b) = entry_of D val (h ! b)"
  by (cases "a = b"; cases "a < length h") (simp_all add: list_update_beyond)

lemma ms_abs_setTxStatus: "ms_abs D val (ms_setTxStatus s i st) = ms_abs D val s"
  by (auto simp: ms_abs_def ms_setTxStatus_def split: option.splits)

text \<open>Posting a transaction: the step every crediting and debiting operation ends with.\<close>

lemma ms_abs_post:
  assumes inv: "ms_inv D val s"
    and w: "mget (ms_wallets s) key = Some w"
    and key: "key = walletKey (t_UserID txn) (t_Currency txn)"
    and fresh: "mget (ms_txns s) (t_ID txn) = None"
    and delta: "en_delta (entry_of D val txn) = d"
    and bal: "num D val nb = num D val (w_Balance w) + d"
  shows "ms_abs D val (ms_setBalance E (ms_storeTxn s txn ref) key w nb)
    = lg_post key d (ref_set ref) (ms_abs D val s)"
proof -
  have addr: "snd p < length (ms_heap s)" if "p \<in> set (ms_txns s)" for p
  proof -
    have "snd p \<in> set (List.map snd (ms_txns s))" using that by simp
    then show ?thesis by (simp only: ms_invD(3) [OF inv]) simp
  qed
  have ents: "List.map (\<lambda>p. entry_of D val ((ms_heap s @ [txn]) ! snd p))
        (mput (t_ID txn) (length (ms_heap s)) (ms_txns s))
      = List.map (\<lambda>p. entry_of D val (ms_heap s ! snd p)) (ms_txns s) @ [entry_of D val txn]"
    using addr by (simp add: mput_new [OF fresh] nth_append)
  have ent: "entry_of D val txn = \<lparr>en_key = key, en_delta = d\<rparr>"
    using delta by (auto simp: entry_of_def key)
  have refs: "dom (mget (if ref = [] then ms_txnByRef s else mput ref n (ms_txnByRef s)))
      = dom (mget (ms_txnByRef s)) \<union> ref_set ref" for n
    by (auto simp: ref_set_def)
  have b0: "balance0 (ms_abs D val s) key = num D val (w_Balance w)"
    by (simp add: balance0_def ms_abs_def w)
  show ?thesis
    unfolding lg_post_def b0
    unfolding ent [symmetric]
    by (auto simp: ms_abs_def ms_setBalance_def ms_storeTxn_def ents refs bal)
qed

lemma ms_inv_post:
  assumes inv: "ms_inv D val s"
    and w: "mget (ms_wallets s) key = Some w"
    and key: "key = walletKey (t_UserID txn) (t_Currency txn)"
    and fresh: "mget (ms_txns s) (t_ID txn) = None"
    and bal: "dval D val nb \<noteq> None"
    and ref: "ref \<noteq> [] \<Longrightarrow> t_ReferenceID txn = ref \<and> mget (ms_txnByRef s) ref = None"
  shows "ms_inv D val (ms_setBalance E (ms_storeTxn s txn ref) key w nb)"
proof -
  let ?s = "ms_setBalance E (ms_storeTxn s txn ref) key w nb"
  have req: "req_ok D val ?s i r" if "mget (ms_withdrawals s) i = Some r" for i r
  proof -
    from that inv have r: "req_ok D val s i r" by (rule ms_invD(6) [rotated])
    then obtain a where a: "mget (ms_txnByRef s) i = Some a" by (auto simp: req_ok_def)
    then have "a < length (ms_heap s)" by (rule ms_invD(4) [OF inv])
    moreover have "i \<noteq> ref \<or> ref = []" using ref a by (cases "ref = []") auto
    ultimately show ?thesis
      using r a by (auto simp: req_ok_def ms_setBalance_def ms_storeTxn_def nth_append)
  qed
  have byref: "a < length (ms_heap s @ [txn]) \<and> t_ReferenceID ((ms_heap s @ [txn]) ! a) = r"
    if "mget (if ref = [] then ms_txnByRef s else mput ref (length (ms_heap s)) (ms_txnByRef s)) r = Some a"
    for r a
    using that ref ms_invD(4,5) [OF inv, of r a]
    by (auto simp: nth_append split: if_splits)
  have fr: "(t_ID txn, b) \<notin> set (ms_txns s)" for b
    using fresh by (force simp: map_of_eq_None_iff)
  have wk: "walletKey (w_UserID w) (w_Currency w) = key"
    using ms_invD(2) [OF inv w] .
  show ?thesis
    unfolding ms_inv_def
    using inv req byref wk bal w fr ms_invD(3) [OF inv]
    by (auto simp: ms_setBalance_def ms_storeTxn_def ms_inv_def mput_new [OF fresh] mget_eq_None_iff
        split: if_splits)
qed


lemma req_ok_new_wallet: "req_ok D val s i r \<Longrightarrow> req_ok D val (s\<lparr>ms_wallets := mput k w (ms_wallets s)\<rparr>) i r"
  by (auto simp: req_ok_def)

context decimal_lib
begin

lemma ms_createWallet_sim:
  assumes "ms_createWallet E s u c = (s1, w)" and "ms_inv D val s"
  shows "ms_inv D val s1" and "ms_abs D val s1 = lg_open (walletKey u c) (ms_abs D val s)"
    and "mget (ms_wallets s1) (walletKey u c) = Some w"
    and "ms_fresh E s1 = ms_fresh E s" and "ms_txnByRef s1 = ms_txnByRef s"
    and "ms_txns s1 = ms_txns s" and "ms_heap s1 = ms_heap s"
    and "lg_bal (ms_abs D val s1) (walletKey u c) = Some (num D val (w_Balance w))"
    and "dval D val (w_Balance w) \<noteq> None"
  using assms
  by (auto simp: ms_createWallet_def Let_def ms_inv_def ms_abs_def lg_open_def
      ms_fresh_def fun_eq_iff req_ok_new_wallet split: option.splits if_splits)

lemma ms_lookupRef_used:
  "ms_lookupRef s ref \<noteq> None \<longleftrightarrow> ref_used ref (ms_abs D val s)"
  by (auto simp: ms_lookupRef_def ref_used_def ms_abs_def)

lemma ms_CreditWallet_sim:
  assumes inv: "ms_inv D val s" and fresh: "ms_fresh E s"
    and r: "ms_CreditWallet D J E s u c amount ref m = (s', res)"
  shows "ms_inv D val s'"
    and "is_ok res \<Longrightarrow> ms_abs D val s' = lg_credit (walletKey u c) (num D val amount) ref (ms_abs D val s)"
    and "\<not> is_ok res \<Longrightarrow> ms_abs D val s' = lg_open (walletKey u c) (ms_abs D val s)"
proof -
  have "ms_inv D val s'
    \<and> ms_abs D val s' = (if is_ok res then lg_credit (walletKey u c) (num D val amount) ref (ms_abs D val s)
         else lg_open (walletKey u c) (ms_abs D val s))"
  proof (cases "ms_lookupRef s ref")
    case (Some t)
    then have "ref_used ref (ms_abs D val s)"
      using ms_lookupRef_used by blast
    with Some r inv show ?thesis
      by (auto simp: ms_CreditWallet_def lg_credit_def)
  next
    case None
    then have unused: "\<not> ref_used ref (ms_abs D val s)" "ref \<noteq> [] \<Longrightarrow> mget (ms_txnByRef s) ref = None"
      using ms_lookupRef_used by (blast, auto simp: ms_lookupRef_def)
    obtain s1 w where cw: "ms_createWallet E s u c = (s1, w)" by force
    note c1 = ms_createWallet_sim [OF cw inv]
    show ?thesis
    proof (cases "addDecimal D (w_Balance w) amount")
      case (Inl e)
      with None cw r c1 show ?thesis by (auto simp: ms_CreditWallet_def)
    next
      case (Inr nb)
      note nb = addDecimal_Inr [OF Inr]
      let ?t = "\<lparr>t_ID = e_uuid E 1, t_UserID = u, t_WalletID = w_ID w, t_Currency = c,
        t_Type = ''deposit'', t_Amount = amount, t_BalanceBefore = w_Balance w, t_BalanceAfter = nb,
        t_Status = ''completed'', t_ReferenceID = ref, t_Metadata = metadataString J m,
        t_CreatedAt = e_now E\<rparr>"
      have s': "s' = ms_setBalance E (ms_storeTxn s1 ?t ref) (walletKey u c) w nb" "is_ok res"
        using None cw r Inr by (auto simp: ms_CreditWallet_def Let_def)
      have fr: "mget (ms_txns s1) (t_ID ?t) = None"
        using fresh c1 by (simp add: ms_fresh_def)
      have "ms_inv D val s'"
        unfolding s'(1) using c1 fr nb unused by (intro ms_inv_post) auto
      moreover have "ms_abs D val s' = lg_post (walletKey u c) (num D val amount) (ref_set ref) (ms_abs D val s1)"
        unfolding s'(1)
        by (rule ms_abs_post [OF c1(1,3) _ fr]) (simp_all add: entry_of_def nb(4))
      ultimately show ?thesis
        using unused s'(2) c1 by (simp add: lg_credit_def)
    qed
  qed
  then show "ms_inv D val s'"
    and "is_ok res \<Longrightarrow> ms_abs D val s' = lg_credit (walletKey u c) (num D val amount) ref (ms_abs D val s)"
    and "\<not> is_ok res \<Longrightarrow> ms_abs D val s' = lg_open (walletKey u c) (ms_abs D val s)"
    by simp_all
qed

lemma ms_DebitWallet_sim:
  assumes inv: "ms_inv D val s" and fresh: "ms_fresh E s"
    and r: "ms_DebitWallet D J E s u c amount ref m = (s', res)"
  shows "ms_inv D val s'"
    and "is_ok res \<Longrightarrow> ms_abs D val s' = lg_debit (walletKey u c) (num D val amount) ref (ms_abs D val s)"
    and "\<not> is_ok res \<Longrightarrow> s' = s"
proof -
  have "s' = s \<and> (is_ok res \<longrightarrow> ref_used ref (ms_abs D val s)) \<or> ms_inv D val s' \<and> is_ok res \<and>
      ms_abs D val s' = lg_debit (walletKey u c) (num D val amount) ref (ms_abs D val s)"
  proof (cases "is_ok res \<and> ms_lookupRef s ref = None")
    case False
    then show ?thesis
      using r ms_lookupRef_used [of s ref]
      by (auto simp: ms_DebitWallet_def Let_def split: option.splits sum.splits if_splits)
  next
    case True
    then have unused: "\<not> ref_used ref (ms_abs D val s)" "ref \<noteq> [] \<Longrightarrow> mget (ms_txnByRef s) ref = None"
      using ms_lookupRef_used by (blast, auto simp: ms_lookupRef_def)
    obtain w cb d nb where w: "mget (ms_wallets s) (walletKey u c) = Some w"
      and p: "NewFromString D (w_Balance w) = Inr cb" "NewFromString D amount = Inr d"
      and le: "\<not> DLessThan D cb d" and sb: "subDecimal D (w_Balance w) amount = Inr nb"
      using True r by (auto simp: ms_DebitWallet_def Let_def split: option.splits sum.splits if_splits)
    note nb = subDecimal_Inr [OF sb]
    let ?t = "\<lparr>t_ID = e_uuid E 1, t_UserID = u, t_WalletID = w_ID w, t_Currency = c,
      t_Type = ''withdrawal'', t_Amount = amount, t_BalanceBefore = w_Balance w, t_BalanceAfter = nb,
      t_Status = ''completed'', t_ReferenceID = ref, t_Metadata = metadataString J m,
      t_CreatedAt = e_now E\<rparr>"
    have s': "s' = ms_setBalance E (ms_storeTxn s ?t ref) (walletKey u c) w nb"
      using True w p le sb r by (auto simp: ms_DebitWallet_def Let_def)
    have fr: "mget (ms_txns s) (t_ID ?t) = None"
      using fresh by (simp add: ms_fresh_def)
    have "ms_inv D val s'"
      unfolding s' using inv w fr nb unused by (intro ms_inv_post) auto
    moreover have "ms_abs D val s' = lg_post (walletKey u c) (- num D val amount) (ref_set ref) (ms_abs D val s)"
      unfolding s' by (rule ms_abs_post [OF inv w _ fr]) (simp_all add: entry_of_def nb(4))
    moreover have "lg_bal (ms_abs D val s) (walletKey u c) = Some (num D val (w_Balance w))"
      by (simp add: ms_abs_def w)
    moreover have "\<not> num D val (w_Balance w) < num D val amount"
      using le p by (simp add: num_parse)
    ultimately show ?thesis
      using unused True by (simp add: lg_debit_def)
  qed
  then show "ms_inv D val s'"
    and "is_ok res \<Longrightarrow> ms_abs D val s' = lg_debit (walletKey u c) (num D val amount) ref (ms_abs D val s)"
    and "\<not> is_ok res \<Longrightarrow> s' = s"
    using inv by (auto simp: lg_debit_def)
qed

end

section \<open>Requests and decisions\<close>

lemma req_ok_mono:
  assumes "req_ok D val s i r"
    and "\<And>k. mget (ms_wallets s) k \<noteq> None \<Longrightarrow> mget (ms_wallets t) k \<noteq> None"
    and "mget (ms_txnByRef t) i = mget (ms_txnByRef s) i"
    and "\<And>a. mget (ms_txnByRef s) i = Some a \<Longrightarrow> ms_heap t ! a = ms_heap s ! a"
  shows "req_ok D val t i r"
  using assms by (auto simp: req_ok_def)

lemma ms_inv_request:
  assumes inv: "ms_inv D val s" and r: "req_ok D val s i r"
  shows "ms_inv D val (s\<lparr>ms_withdrawals := mput i r (ms_withdrawals s)\<rparr>)"
  using assms unfolding ms_inv_def
  by (auto simp: req_ok_mono [of D val s _ _ "s\<lparr>ms_withdrawals := mput i r (ms_withdrawals s)\<rparr>"]
      split: if_splits)

lemma ms_inv_decide:
  assumes inv: "ms_inv D val s" and r: "mget (ms_withdrawals s) i = Some r"
    and r': "r_Amount r' = r_Amount r" "r_UserID r' = r_UserID r" "r_Currency r' = r_Currency r"
      "r_Status r' \<in> {''approved'', ''rejected''}"
  shows "ms_inv D val (ms_setTxStatus (s\<lparr>ms_withdrawals := mput i r' (ms_withdrawals s)\<rparr>) i
    (tx_status_of (r_Status r')))" (is "ms_inv D val ?s")
proof -
  from inv r have ok: "req_ok D val s i r" by (rule ms_invD(6))
  then obtain a where a: "mget (ms_txnByRef s) i = Some a" by (auto simp: req_ok_def)
  note al = ms_invD(4) [OF inv a]
  let ?t = "(ms_heap s ! a)\<lparr>t_Status := tx_status_of (r_Status r')\<rparr>"
  have s: "?s = s\<lparr>ms_withdrawals := mput i r' (ms_withdrawals s), ms_heap := (ms_heap s)[a := ?t]\<rparr>"
    by (simp add: ms_setTxStatus_def a)
  have i: "req_ok D val ?s i r'"
    using ok a al r' unfolding s by (auto simp: req_ok_def)
  have other: "req_ok D val ?s j q" if "mget (ms_withdrawals s) j = Some q" "j \<noteq> i" for j q
  proof -
    have "req_ok D val s j q" using inv that(1) by (rule ms_invD(6))
    then show ?thesis
    proof (rule req_ok_mono)
      fix b assume b: "mget (ms_txnByRef s) j = Some b"
      then have "b \<noteq> a"
        using ms_invD(5) [OF inv b] ms_invD(5) [OF inv a] that(2) by auto
      then show "ms_heap ?s ! b = ms_heap s ! b" by (simp add: s)
    qed (simp_all add: s)
  qed
  have refs: "t_ReferenceID ((ms_heap s)[a := ?t] ! b) = t_ReferenceID (ms_heap s ! b)" for b
    using al by (cases "b = a") simp_all
  show ?thesis
    using inv i other refs unfolding ms_inv_def
    by (simp add: s)
qed

lemma ms_setTxStatus_other [simp]:
  "ms_wallets (ms_setTxStatus s i st) = ms_wallets s" "ms_txns (ms_setTxStatus s i st) = ms_txns s"
  "ms_txnByRef (ms_setTxStatus s i st) = ms_txnByRef s"
  "ms_withdrawals (ms_setTxStatus s i st) = ms_withdrawals s"
  "length (ms_heap (ms_setTxStatus s i st)) = length (ms_heap s)"
  by (auto simp: ms_setTxStatus_def split: option.splits)

lemma ms_setBalance_commutes:
  "ms_setTxStatus (ms_setBalance E s k w b) i st = ms_setBalance E (ms_setTxStatus s i st) k w b"
  "(ms_setBalance E s k w b)\<lparr>ms_withdrawals := rs\<rparr> = ms_setBalance E (s\<lparr>ms_withdrawals := rs\<rparr>) k w b"
  "ms_withdrawals (ms_setBalance E s k w b) = ms_withdrawals s"
  by (auto simp: ms_setTxStatus_def ms_setBalance_def split: option.splits)

lemma ms_abs_bal: "mget (ms_wallets s) k = Some w \<Longrightarrow> lg_bal (ms_abs D val s) k = Some (num D val (w_Balance w))"
  by (simp add: ms_abs_def)

lemma ms_abs_hold: "mget (ms_withdrawals s) i = Some r \<Longrightarrow> lg_holds (ms_abs D val s) i = Some (hold_of D val r)"
  by (simp add: ms_abs_def)

lemma ms_abs_no_hold: "mget (ms_withdrawals s) i = None \<Longrightarrow> lg_holds (ms_abs D val s) i = None"
  by (simp add: ms_abs_def)

lemma ms_ApproveWithdrawal_sim:
  assumes inv: "ms_inv D val s" and r: "ms_ApproveWithdrawal s i txHash by = (s', res)"
  shows "ms_inv D val s'"
    and "ms_abs D val s' = lg_approve i (ms_abs D val s)"
    and "\<not> is_ok res \<Longrightarrow> s' = s"
proof -
  have "(s' = s \<and> \<not> is_ok res \<and> ms_abs D val s = lg_approve i (ms_abs D val s)) \<or>
    is_ok res \<and> ms_inv D val s' \<and> ms_abs D val s' = lg_approve i (ms_abs D val s)"
  proof (cases "mget (ms_withdrawals s) i")
    case None
    then show ?thesis
      using r by (auto simp: ms_ApproveWithdrawal_def lg_approve_def ms_abs_no_hold)
  next
    case (Some q)
    note q = ms_invD(6) [OF inv Some]
    show ?thesis
    proof (cases "r_Status q = ''pending''")
      case False
      then have "h_status (hold_of D val q) \<noteq> Held"
        by (auto simp: hold_of_def hold_status_of_def)
      then have "lg_approve i (ms_abs D val s) = ms_abs D val s"
        by (simp add: lg_approve_def ms_abs_hold [OF Some])
      with False Some r show ?thesis
        by (auto simp: ms_ApproveWithdrawal_def)
    next
      case True
      let ?q = "q\<lparr>r_Status := ''approved'', r_TxHash := txHash, r_ReviewedBy := by\<rparr>"
      have s': "is_ok res" "s' = ms_setTxStatus (s\<lparr>ms_withdrawals := mput i ?q (ms_withdrawals s)\<rparr>) i ''completed''"
        using r Some True by (auto simp: ms_ApproveWithdrawal_def Let_def)
      have "ms_inv D val s'"
        using ms_inv_decide [OF inv Some, of ?q] by (simp add: s' tx_status_of_def)
      moreover have "ms_abs D val s' = lg_approve i (ms_abs D val s)"
        using True by (simp add: s' ms_abs_setTxStatus ms_abs_holds lg_approve_def ms_abs_hold [OF Some])
          (simp add: hold_of_def hold_status_of_def)
      ultimately show ?thesis using s'(1) by simp
    qed
  qed
  then show "ms_inv D val s'" "ms_abs D val s' = lg_approve i (ms_abs D val s)"
    "\<not> is_ok res \<Longrightarrow> s' = s"
    using inv by auto
qed

context decimal_lib
begin

lemma ms_RequestWithdrawal_sim:
  assumes inv: "ms_inv D val s" and fresh: "ms_fresh E s"
    and r: "ms_RequestWithdrawal D E s u c amount dest chain = (s', res)"
  shows "ms_inv D val s'"
    and "is_ok res \<Longrightarrow> ms_abs D val s' = lg_request (e_uuid E 2) (walletKey u c) (num D val amount) (ms_abs D val s)"
    and "\<not> is_ok res \<Longrightarrow> s' = s"
proof -
  let ?i = "e_uuid E 2" and ?k = "walletKey u c"
  have "s' = s \<and> \<not> is_ok res \<or> is_ok res \<and> ms_inv D val s' \<and>
      ms_abs D val s' = lg_request ?i ?k (num D val amount) (ms_abs D val s)"
  proof (cases "is_ok res")
    case False
    then show ?thesis
      using r by (auto simp: ms_RequestWithdrawal_def Let_def split: option.splits sum.splits if_splits)
  next
    case True
    obtain w cb d nb where w: "mget (ms_wallets s) ?k = Some w"
      and p: "NewFromString D (w_Balance w) = Inr cb" "NewFromString D amount = Inr d"
      and le: "\<not> DLessThan D cb d" and sb: "subDecimal D (w_Balance w) amount = Inr nb"
      using True r by (auto simp: ms_RequestWithdrawal_def Let_def split: option.splits sum.splits if_splits)
    note nb = subDecimal_Inr [OF sb]
    let ?t = "\<lparr>t_ID = e_uuid E 1, t_UserID = u, t_WalletID = w_ID w, t_Currency = c,
      t_Type = ''withdrawal'', t_Amount = amount, t_BalanceBefore = DString D cb, t_BalanceAfter = nb,
      t_Status = ''pending'', t_ReferenceID = ?i, t_Metadata = [], t_CreatedAt = e_now E\<rparr>"
    let ?r = "\<lparr>r_ID = ?i, r_UserID = u, r_WalletID = w_ID w, r_Amount = amount, r_Currency = c,
      r_DestinationAddress = dest, r_Chain = chain, r_Status = ''pending'', r_TxHash = [],
      r_ReviewedBy = [], r_CreatedAt = e_now E\<rparr>"
    let ?s = "ms_setBalance E (ms_storeTxn s ?t ?i) ?k w nb"
    have ws: "ms_withdrawals ?s = ms_withdrawals s"
      by (simp add: ms_setBalance_def ms_storeTxn_def)
    have s': "s' = ?s\<lparr>ms_withdrawals := mput ?i ?r (ms_withdrawals ?s)\<rparr>"
      using w p le sb r by (auto simp: ms_RequestWithdrawal_def Let_def ms_storeTxn_setBalance)
    have fr: "mget (ms_txns s) (t_ID ?t) = None" and i: "?i \<noteq> []" "mget (ms_txnByRef s) ?i = None"
      using fresh by (simp_all add: ms_fresh_def)
    have nohold: "mget (ms_withdrawals s) ?i = None"
      using fresh by (simp add: ms_fresh_def)
    have inv1: "ms_inv D val ?s"
      using inv w fr nb i by (intro ms_inv_post) auto
    have "req_ok D val ?s ?i ?r"
      using i nb by (simp add: req_ok_def ms_setBalance_def ms_storeTxn_def tx_status_of_def)
    then have "ms_inv D val s'"
      unfolding s' by (rule ms_inv_request [OF inv1])
    moreover have "ms_abs D val ?s = lg_post ?k (- num D val amount) {?i} (ms_abs D val s)"
      using ms_abs_post [OF inv w _ fr, of "- num D val amount" nb E ?i] nb(4) i(1)
      by (simp add: entry_of_def ref_set_def)
    moreover have "\<not> num D val (w_Balance w) < num D val amount"
      using le p by (simp add: num_parse)
    ultimately show ?thesis
      using True
      by (simp add: s' ms_abs_holds lg_request_def ms_abs_bal [OF w] ms_abs_no_hold [OF nohold]
          hold_of_def hold_status_of_def)
  qed
  then show "ms_inv D val s'" "\<not> is_ok res \<Longrightarrow> s' = s"
    "is_ok res \<Longrightarrow> ms_abs D val s' = lg_request (e_uuid E 2) ?k (num D val amount) (ms_abs D val s)"
    using inv by auto
qed

lemma ms_RejectWithdrawal_sim:
  assumes inv: "ms_inv D val s" and fresh: "ms_fresh E s"
    and r: "ms_RejectWithdrawal D E s i by = (s', res)"
  shows "ms_inv D val s'"
    and "ms_abs D val s' = lg_reject i {} (ms_abs D val s)"
    and "is_ok res \<longleftrightarrow> (\<exists>q. mget (ms_withdrawals s) i = Some q \<and> r_Status q = ''pending'')"
    and "\<not> is_ok res \<Longrightarrow> s' = s"
proof -
  have "(s' = s \<and> \<not> is_ok res \<and> ms_abs D val s = lg_reject i {} (ms_abs D val s)
      \<and> (\<forall>q. mget (ms_withdrawals s) i = Some q \<longrightarrow> r_Status q \<noteq> ''pending'')) \<or>
    is_ok res \<and> ms_inv D val s' \<and> ms_abs D val s' = lg_reject i {} (ms_abs D val s)
      \<and> (\<exists>q. mget (ms_withdrawals s) i = Some q \<and> r_Status q = ''pending'')"
  proof (cases "mget (ms_withdrawals s) i")
    case None
    then show ?thesis
      using r by (auto simp: ms_RejectWithdrawal_def lg_reject_def ms_abs_no_hold)
  next
    case (Some q)
    note q = ms_invD(6) [OF inv Some]
    show ?thesis
    proof (cases "r_Status q = ''pending''")
      case False
      then have "h_status (hold_of D val q) \<noteq> Held"
        by (auto simp: hold_of_def hold_status_of_def)
      then have "lg_reject i {} (ms_abs D val s) = ms_abs D val s"
        by (simp add: lg_reject_def ms_abs_hold [OF Some])
      with False Some r show ?thesis
        by (auto simp: ms_RejectWithdrawal_def)
    next
      case True
      let ?k = "walletKey (r_UserID q) (r_Currency q)"
      obtain w where w: "mget (ms_wallets s) ?k = Some w"
        using q by (auto simp: req_ok_def)
      have "dval D val (r_Amount q) \<noteq> None" using q by (simp add: req_ok_def)
      with ms_invD(1) [OF inv w] obtain nb where ad: "addDecimal D (w_Balance w) (r_Amount q) = Inr nb"
        by (rule addDecimal_ok)
      note nb = addDecimal_Inr [OF ad]
      let ?q = "q\<lparr>r_Status := ''rejected'', r_ReviewedBy := by\<rparr>"
      let ?s = "ms_setTxStatus (s\<lparr>ms_withdrawals := mput i ?q (ms_withdrawals s)\<rparr>) i ''reversed''"
      let ?t = "\<lparr>t_ID = e_uuid E 1, t_UserID = r_UserID q, t_WalletID = w_ID w,
        t_Currency = r_Currency q, t_Type = ''adjustment'', t_Amount = r_Amount q,
        t_BalanceBefore = w_Balance w, t_BalanceAfter = nb, t_Status = ''completed'',
        t_ReferenceID = i @ ''-reversal'', t_Metadata = [], t_CreatedAt = e_now E\<rparr>"
      have s': "is_ok res" "s' = ms_setBalance E (ms_storeTxn ?s ?t []) ?k w nb"
        using r Some True w ad
        by (auto simp: ms_RejectWithdrawal_def Let_def ms_setBalance_commutes ms_storeTxn_setBalance)
      have inv1: "ms_inv D val ?s"
        using ms_inv_decide [OF inv Some, of ?q] by (simp add: tx_status_of_def)
      have ws: "mget (ms_wallets ?s) ?k = Some w" using w by simp
      have fr: "mget (ms_txns ?s) (t_ID ?t) = None"
        using fresh by (simp add: ms_fresh_def)
      have "ms_inv D val s'"
        unfolding s'(2) using inv1 ws fr nb by (intro ms_inv_post) auto
      moreover have "ms_abs D val s' = lg_post ?k (num D val (r_Amount q)) (ref_set []) (ms_abs D val ?s)"
        unfolding s'(2) by (rule ms_abs_post [OF inv1 ws _ fr]) (simp_all add: entry_of_def nb(4))
      then have "ms_abs D val s' = lg_reject i {} (ms_abs D val s)"
        using True
        by (simp add: ms_abs_setTxStatus ms_abs_holds lg_reject_def ms_abs_hold [OF Some])
          (simp add: hold_of_def hold_status_of_def lg_post_def ref_set_def)
      ultimately show ?thesis using s'(1) Some True by simp
    qed
  qed
  then show "ms_inv D val s'" "ms_abs D val s' = lg_reject i {} (ms_abs D val s)"
    "is_ok res \<longleftrightarrow> (\<exists>q. mget (ms_withdrawals s) i = Some q \<and> r_Status q = ''pending'')"
    "\<not> is_ok res \<Longrightarrow> s' = s"
    using inv by auto
qed

end

end
