(* ===== verification/WalletMemoryProps.thy ===== *)
theory WalletMemoryProps
  imports WalletMemory
begin

text \<open>
  The memory store as a state machine: a step is one call of the interface with fresh
  identifiers.  The store implements the abstract ledger (\<open>ledger_impl\<close>), which gives the
  properties of every reachable state: books that reconcile, no negative balance, references that
  move money once, and withdrawals that are decided once.
\<close>

section \<open>The calls as steps\<close>

fun ms_exec :: "'d decimal_ops \<Rightarrow> json_codec \<Rightarrow> genv \<Rightarrow> wallet_call \<Rightarrow> memory_store \<Rightarrow> memory_store" where
  "ms_exec D J E (CallCreateWallet u c) s = fst (ms_CreateWallet E s u c)"
| "ms_exec D J E (CallCredit u c amount ref m) s = fst (ms_CreditWallet D J E s u c amount ref m)"
| "ms_exec D J E (CallDebit u c amount ref m) s = fst (ms_DebitWallet D J E s u c amount ref m)"
| "ms_exec D J E (CallCreateAddress addr) s = fst (ms_CreateDepositAddress E s addr)"
| "ms_exec D J E (CallRequest u c amount dest chain) s = fst (ms_RequestWithdrawal D E s u c amount dest chain)"
| "ms_exec D J E (CallApprove i txHash by) s = fst (ms_ApproveWithdrawal s i txHash by)"
| "ms_exec D J E (CallReject i by) s = fst (ms_RejectWithdrawal D E s i by)"

text \<open>One call at any time, with fresh identifiers, among those that satisfy \<open>P\<close>.\<close>

inductive ms_step :: "'d decimal_ops \<Rightarrow> (wallet_call \<Rightarrow> bool) \<Rightarrow> memory_store \<Rightarrow> memory_store \<Rightarrow> bool"
  for D P where
  "P call \<Longrightarrow> ms_fresh E s \<Longrightarrow> ms_step D P s (ms_exec D J E call s)"

lemma ms_inv_init: "ms_inv D val ms_NewInMemoryStore" "ms_abs D val ms_NewInMemoryStore = lg_empty"
  by (auto simp: ms_inv_def ms_NewInMemoryStore_def ms_abs_def lg_empty_def)

lemma ms_CreateDepositAddress_sim:
  "ms_inv D val s \<Longrightarrow> ms_inv D val (fst (ms_CreateDepositAddress E s addr))"
  "ms_abs D val (fst (ms_CreateDepositAddress E s addr)) = ms_abs D val s"
  by (auto simp: ms_CreateDepositAddress_def Let_def ms_inv_def ms_abs_def req_ok_def)

context decimal_lib
begin

text \<open>The abstract operation a call performs: at most one.\<close>

lemma ms_exec_sim:
  assumes inv: "ms_inv D val s" and fresh: "ms_fresh E s" and nn: "N \<longrightarrow> nonneg_call D val call"
  shows "ms_inv D val (ms_exec D J E call s) \<and>
    (\<exists>ops. (\<forall>op\<in>set ops. N \<longrightarrow> nonneg_op op) \<and>
      ms_abs D val (ms_exec D J E call s) = lg_run ops (ms_abs D val s))" (is "?goal (ms_exec D J E call s)")
proof -
  have one: "?goal t" if "ms_inv D val t" "N \<longrightarrow> nonneg_op op" "ms_abs D val t = lg_exec op (ms_abs D val s)"
    for t op
    using that by (auto intro!: exI [of _ "[op]"])
  have none: "?goal t" if "ms_inv D val t" "ms_abs D val t = ms_abs D val s" for t
    using that by (auto intro!: exI [of _ "[]"])
  show ?thesis
  proof (cases call)
    case (CallCreateWallet u c)
    obtain s1 w where "ms_createWallet E s u c = (s1, w)" by force
    then show ?thesis
      using one [of s1 "OpOpen (walletKey u c)"] ms_createWallet_sim [of E s u c s1 w] inv
      by (simp add: CallCreateWallet ms_CreateWallet_def)
  next
    case (CallCredit u c amount ref m)
    obtain s1 res where r: "ms_CreditWallet D J E s u c amount ref m = (s1, res)" by force
    note sim = ms_CreditWallet_sim [OF inv fresh r]
    show ?thesis
      using one [OF sim(1), of "OpCredit (walletKey u c) (num D val amount) ref"]
        one [OF sim(1), of "OpOpen (walletKey u c)"] sim r nn
      by (cases "is_ok res") (simp_all add: CallCredit)
  next
    case (CallDebit u c amount ref m)
    obtain s1 res where r: "ms_DebitWallet D J E s u c amount ref m = (s1, res)" by force
    note sim = ms_DebitWallet_sim [OF inv fresh r]
    show ?thesis
      using one [OF sim(1), of "OpDebit (walletKey u c) (num D val amount) ref"]
        none [OF inv refl] sim r nn
      by (cases "is_ok res") (simp_all add: CallDebit)
  next
    case (CallRequest u c amount dest chain)
    obtain s1 res where r: "ms_RequestWithdrawal D E s u c amount dest chain = (s1, res)" by force
    note sim = ms_RequestWithdrawal_sim [OF inv fresh r]
    show ?thesis
      using one [OF sim(1), of "OpRequest (e_uuid E 2) (walletKey u c) (num D val amount)"]
        none [OF inv refl] sim r nn
      by (cases "is_ok res") (simp_all add: CallRequest)
  next
    case (CallApprove i txHash by1)
    obtain s1 res where r: "ms_ApproveWithdrawal s i txHash by1 = (s1, res)" by force
    note sim = ms_ApproveWithdrawal_sim [OF inv r]
    show ?thesis
      using one [OF sim(1), of "OpApprove i"] sim r by (simp add: CallApprove)
  next
    case (CallReject i by1)
    obtain s1 res where r: "ms_RejectWithdrawal D E s i by1 = (s1, res)" by force
    note sim = ms_RejectWithdrawal_sim [OF inv fresh r]
    show ?thesis
      using one [OF sim(1), of "OpReject i {}"] sim r by (simp add: CallReject)
  next
    case (CallCreateAddress addr)
    then show ?thesis
      using ms_CreateDepositAddress_sim inv by (auto intro!: exI [of _ "[]"])
  qed
qed

end

sublocale decimal_lib \<subseteq> ms: ledger_impl ms_NewInMemoryStore "ms_step D (\<lambda>_. True)" "ms_inv D val"
  "ms_abs D val" "\<lambda>_. True"
proof (unfold_locales, goal_cases)
  case (3 s t)
  then show ?case using ms_exec_sim [where N = False] by (auto simp: ms_step.simps)
next
  case (4 s t)
  then show ?case using ms_exec_sim [where N = False] by (auto simp: ms_step.simps)
qed (simp_all add: ms_inv_init)

sublocale decimal_lib \<subseteq> msn: nonneg_ledger_impl ms_NewInMemoryStore "ms_step D (nonneg_call D val)"
  "ms_inv D val" "ms_abs D val" nonneg_op
proof (unfold_locales, goal_cases)
  case (3 s t)
  then show ?case using ms_exec_sim [where N = True] by (auto simp: ms_step.simps)
next
  case (4 s t)
  then show ?case using ms_exec_sim [where N = True] by (auto simp: ms_step.simps)
qed (simp_all add: ms_inv_init)

context decimal_lib
begin

lemmas ms_reach_inv = ms.reach_inv
lemmas ms_reach_reconciles = ms.reach_reconciles
lemmas ms_reach_nonneg = msn.reach_nonneg
lemmas ms_reach_ref_used = ms.reach_ref_used
lemmas ms_reach_decided = ms.reach_decided

end

section \<open>Properties\<close>

definition ms_entry_sum :: "'d decimal_ops \<Rightarrow> ('d \<Rightarrow> rat) \<Rightarrow> memory_store \<Rightarrow> string \<Rightarrow> rat" where
  "ms_entry_sum D val s k = entry_sum (List.map (entry_of D val) (ms_heap s)) k"

text \<open>
  C31: in every state the memory store can reach by any sequence of calls, the balance of every
  wallet is the sum of the transactions recorded for its account: credits and reversals count
  positive, debits and withdrawals negative.
\<close>
theorem ms_balance_is_sum_of_transactions:
  assumes "decimal_lib D val" and "reach ms_NewInMemoryStore (ms_step D (\<lambda>_. True)) s"
    and "mget (ms_wallets s) k = Some w"
  shows "num D val (w_Balance w) = ms_entry_sum D val s k"
proof -
  have "reconciles (ms_abs D val s)"
    using assms(1,2) by (rule decimal_lib.ms_reach_reconciles)
  moreover have "ms_inv D val s"
    using assms(1,2) by (rule decimal_lib.ms_reach_inv)
  moreover have "balance0 (ms_abs D val s) k = num D val (w_Balance w)"
    by (simp add: balance0_def ms_abs_bal [OF assms(3)])
  ultimately show ?thesis
    by (auto simp: reconciles_def ms_entry_sum_def ms_entries_heap dest: spec [of _ k])
qed

text \<open>
  When only non-negative amounts are credited, debited and withdrawn, no reachable state of
  the memory store has a wallet with a negative balance.
\<close>
theorem ms_balance_nonneg:
  assumes "decimal_lib D val" and "reach ms_NewInMemoryStore (ms_step D (nonneg_call D val)) s"
    and "mget (ms_wallets s) k = Some w"
  shows "0 \<le> num D val (w_Balance w)"
proof -
  have "nonneg_ledger (ms_abs D val s)"
    using assms(1,2) by (rule decimal_lib.ms_reach_nonneg)
  moreover have "balance0 (ms_abs D val s) k = num D val (w_Balance w)"
    by (simp add: balance0_def ms_abs_bal [OF assms(3)])
  ultimately show ?thesis
    by (metis nonneg_ledger_def)
qed

lemma ms_used_ref_call:
  assumes "ref_used ref (ms_abs D val s)"
  shows "fst (ms_DebitWallet D J E s u c amount ref m) = s \<and> is_ok (snd (ms_DebitWallet D J E s u c amount ref m))"
    and "fst (ms_CreditWallet D J E s u c amount ref m) = s \<and> is_ok (snd (ms_CreditWallet D J E s u c amount ref m))"
proof -
  have "ms_lookupRef s ref \<noteq> None"
    using assms by (auto simp: ms_lookupRef_def ref_used_def ms_abs_def)
  then show "fst (ms_DebitWallet D J E s u c amount ref m) = s \<and> is_ok (snd (ms_DebitWallet D J E s u c amount ref m))"
    and "fst (ms_CreditWallet D J E s u c amount ref m) = s \<and> is_ok (snd (ms_CreditWallet D J E s u c amount ref m))"
    by (auto simp: ms_DebitWallet_def ms_CreditWallet_def)
qed

lemma ms_success_uses_ref:
  assumes "decimal_lib D val" and "ms_inv D val s" and "ms_fresh E s" and "ref \<noteq> []"
    and "ms_DebitWallet D J E s u c amount ref m = (s1, Inr t)"
  shows "ms_inv D val s1 \<and> ref_used ref (ms_abs D val s1)"
proof (cases "ms_lookupRef s ref")
  case None
  then show ?thesis
    using assms decimal_lib.ms_DebitWallet_sim(1) [OF assms(1,2,3,5)]
    by (auto simp: ms_DebitWallet_def Let_def ref_used_def ms_abs_def ms_setBalance_def
        ms_storeTxn_def split: option.splits sum.splits if_splits)
next
  case (Some t')
  then show ?thesis
    using assms by (auto simp: ms_DebitWallet_def ms_lookupRef_def ref_used_def ms_abs_def split: if_splits)
qed

text \<open>
  A debit is idempotent by its reference.  Once \<open>DebitWallet\<close> has succeeded with a non-empty
  reference, any later \<open>DebitWallet\<close> or \<open>CreditWallet\<close> with that reference, after any other
  calls, succeeds and changes nothing in the store.
\<close>
theorem ms_debit_idempotent:
  assumes "decimal_lib D val" and "reach ms_NewInMemoryStore (ms_step D (\<lambda>_. True)) s"
    and "ms_fresh E s" and "ref \<noteq> []"
    and "ms_DebitWallet D J E s u c amount ref m = (s1, Inr t)"
    and "reach s1 (ms_step D (\<lambda>_. True)) s2"
  shows "fst (ms_DebitWallet D J' E' s2 u' c' amount' ref m') = s2
    \<and> is_ok (snd (ms_DebitWallet D J' E' s2 u' c' amount' ref m'))
    \<and> fst (ms_CreditWallet D J' E' s2 u' c' amount' ref m') = s2
    \<and> is_ok (snd (ms_CreditWallet D J' E' s2 u' c' amount' ref m'))"
proof -
  have "ms_inv D val s"
    using assms(1,2) by (rule decimal_lib.ms_reach_inv)
  then have "ms_inv D val s1" "ref_used ref (ms_abs D val s1)"
    using ms_success_uses_ref assms by blast+
  then have "ref_used ref (ms_abs D val s2)"
    using decimal_lib.ms_reach_ref_used assms(1,6) by blast
  then show ?thesis
    using ms_used_ref_call by blast
qed

text \<open>
  In every reachable state each withdrawal request has its transaction, of the same user,
  currency and amount, and their statuses agree: pending with pending, approved with completed,
  rejected with reversed.
\<close>
theorem ms_request_matches_transaction:
  assumes "decimal_lib D val" and "reach ms_NewInMemoryStore (ms_step D (\<lambda>_. True)) s"
    and "mget (ms_withdrawals s) i = Some r"
  shows "\<exists>a t. mget (ms_txnByRef s) i = Some a \<and> a < length (ms_heap s) \<and> t = ms_heap s ! a
    \<and> t_ReferenceID t = i \<and> t_Type t = ''withdrawal'' \<and> t_Amount t = r_Amount r
    \<and> t_UserID t = r_UserID r \<and> t_Currency t = r_Currency r
    \<and> (r_Status r, t_Status t) \<in> {(''pending'', ''pending''), (''approved'', ''completed''), (''rejected'', ''reversed'')}"
proof -
  have inv: "ms_inv D val s"
    using assms(1,2) by (rule decimal_lib.ms_reach_inv)
  from ms_invD(6) [OF inv assms(3)] obtain a where a: "mget (ms_txnByRef s) i = Some a"
    and r: "req_ok D val s i r"
    by (auto simp: req_ok_def)
  show ?thesis
    using ms_invD(4,5) [OF inv a] r a by (auto simp: req_ok_def tx_status_of_def)
qed

lemma ms_decided:
  assumes "decided i (ms_abs D val s)"
  shows "fst (ms_ApproveWithdrawal s i h by) = s \<and> \<not> is_ok (snd (ms_ApproveWithdrawal s i h by))"
    and "fst (ms_RejectWithdrawal D E s i by) = s \<and> \<not> is_ok (snd (ms_RejectWithdrawal D E s i by))"
proof -
  obtain r where "mget (ms_withdrawals s) i = Some r" "r_Status r \<noteq> ''pending''"
    using assms by (auto simp: decided_def ms_abs_def hold_of_def hold_status_of_def split: if_splits)
  then show "fst (ms_ApproveWithdrawal s i h by) = s \<and> \<not> is_ok (snd (ms_ApproveWithdrawal s i h by))"
    and "fst (ms_RejectWithdrawal D E s i by) = s \<and> \<not> is_ok (snd (ms_RejectWithdrawal D E s i by))"
    by (simp_all add: ms_ApproveWithdrawal_def ms_RejectWithdrawal_def)
qed

lemma ms_abs_decided:
  "mget (ms_withdrawals s) i = Some r \<Longrightarrow> r_Status r \<in> {''approved'', ''rejected''} \<Longrightarrow>
    decided i (ms_abs D val s)"
  by (auto simp: decided_def ms_abs_def hold_of_def hold_status_of_def)

text \<open>
  A withdrawal is decided at most once.  Once a request has been approved or rejected, every
  later \<open>ApproveWithdrawal\<close> or \<open>RejectWithdrawal\<close> of it, after any other calls, fails and
  changes nothing; so the held amount is never returned twice, nor returned after a payout.
\<close>
theorem ms_decided_once:
  assumes "decimal_lib D val" and "reach ms_NewInMemoryStore (ms_step D (\<lambda>_. True)) s"
    and "mget (ms_withdrawals s) i = Some r" and "r_Status r \<noteq> ''pending''"
    and "reach s (ms_step D (\<lambda>_. True)) s'"
  shows "fst (ms_ApproveWithdrawal s' i h by) = s' \<and> \<not> is_ok (snd (ms_ApproveWithdrawal s' i h by))
    \<and> fst (ms_RejectWithdrawal D E s' i by) = s' \<and> \<not> is_ok (snd (ms_RejectWithdrawal D E s' i by))"
proof -
  have inv: "ms_inv D val s"
    using assms(1,2) by (rule decimal_lib.ms_reach_inv)
  have "r_Status r \<in> {''approved'', ''rejected''}"
    using ms_invD(6) [OF inv assms(3)] assms(4) by (simp add: req_ok_def)
  then have "decided i (ms_abs D val s)"
    by (rule ms_abs_decided [OF assms(3)])
  then have "decided i (ms_abs D val s')"
    using decimal_lib.ms_reach_decided assms(1,5) inv by blast
  then show ?thesis
    using ms_decided by blast
qed

text \<open>
  Rejecting a pending request in any reachable state succeeds, adds exactly the held amount
  to the balance of the user's account and leaves every other balance as it is.
\<close>
theorem ms_reject_returns_amount:
  assumes "decimal_lib D val" and "reach ms_NewInMemoryStore (ms_step D (\<lambda>_. True)) s"
    and "ms_fresh E s"
    and "mget (ms_withdrawals s) i = Some r" and "r_Status r = ''pending''"
  shows "\<exists>s' r'. ms_RejectWithdrawal D E s i by = (s', Inr r') \<and> r_Status r' = ''rejected''
    \<and> (\<forall>k. balance0 (ms_abs D val s') k = balance0 (ms_abs D val s) k
          + (if k = walletKey (r_UserID r) (r_Currency r) then num D val (r_Amount r) else 0))"
proof -
  have inv: "ms_inv D val s"
    using assms(1,2) by (rule decimal_lib.ms_reach_inv)
  obtain s' res where res: "ms_RejectWithdrawal D E s i by = (s', res)" by force
  note sim = decimal_lib.ms_RejectWithdrawal_sim [OF assms(1) inv assms(3) res]
  have ok: "is_ok res" using sim(3) assms(4,5) by blast
  have "ms_abs D val s' = lg_reject i {} (ms_abs D val s)" by (rule sim(2))
  then have bal: "balance0 (ms_abs D val s') k = balance0 (ms_abs D val s) k
      + (if k = walletKey (r_UserID r) (r_Currency r) then num D val (r_Amount r) else 0)" for k
    using assms(5) by (simp add: lg_reject_def ms_abs_hold [OF assms(4)])
      (simp add: hold_of_def hold_status_of_def)
  obtain r' where r': "res = Inr r'" using ok by (cases res) auto
  then have "r_Status r' = ''rejected''"
    using res by (auto simp: ms_RejectWithdrawal_def Let_def split: option.splits sum.splits if_splits)
  then show ?thesis
    using bal r' res by blast
qed

text \<open>
  A withdrawal request in a reachable state takes exactly the amount from the account it
  names when it succeeds, and no other balance changes; it succeeds only if the balance covers
  the amount, and a request that fails changes nothing.
\<close>
theorem ms_request_holds_amount:
  assumes "decimal_lib D val" and "reach ms_NewInMemoryStore (ms_step D (\<lambda>_. True)) s"
    and "ms_fresh E s"
    and "ms_RequestWithdrawal D E s u c amount dest chain = (s', res)"
  shows "if is_ok res
    then num D val amount \<le> balance0 (ms_abs D val s) (walletKey u c)
      \<and> (\<forall>k. balance0 (ms_abs D val s') k = balance0 (ms_abs D val s) k
            - (if k = walletKey u c then num D val amount else 0))
    else s' = s"
proof -
  have inv: "ms_inv D val s"
    using assms(1,2) by (rule decimal_lib.ms_reach_inv)
  note sim = decimal_lib.ms_RequestWithdrawal_sim [OF assms(1) inv assms(3,4)]
  show ?thesis
  proof (cases "is_ok res")
    case True
    obtain w cb d where w: "mget (ms_wallets s) (walletKey u c) = Some w"
      and p: "NewFromString D (w_Balance w) = Inr cb" "NewFromString D amount = Inr d"
      and le: "\<not> DLessThan D cb d"
      using True assms(4)
      by (auto simp: ms_RequestWithdrawal_def Let_def split: option.splits sum.splits if_splits)
    have le': "num D val amount \<le> num D val (w_Balance w)"
      using le p decimal_lib.less_than [OF assms(1)] by (simp add: num_parse)
    have "lg_holds (ms_abs D val s) (e_uuid E 2) = None"
      using assms(3) by (simp add: ms_abs_def ms_fresh_def)
    then have bal: "balance0 (ms_abs D val s') k = balance0 (ms_abs D val s) k
        - (if k = walletKey u c then num D val amount else 0)" for k
      using sim(2) [OF True] le' ms_abs_bal [OF w, of D val] by (simp add: lg_request_def)
    have "balance0 (ms_abs D val s) (walletKey u c) = num D val (w_Balance w)"
      by (simp add: balance0_def ms_abs_bal [OF w])
    with True bal le' show ?thesis by simp
  next
    case False
    with sim show ?thesis by simp
  qed
qed

section \<open>An example run\<close>

text \<open>
  A deposit of 10, a debit of 4 and a withdrawal request of 2.5, then its rejection: the states
  at which the properties above are applied.
\<close>

definition example_env :: "string \<Rightarrow> genv" where
  "example_env p = \<lparr>e_now = 7, e_uuid = (\<lambda>n. p @ digits n)\<rparr>"

definition example_json :: json_codec where
  "example_json = \<lparr>json_Marshal = (\<lambda>m. Inr ''{}''), json_Unmarshal = (\<lambda>s. Inr None)\<rparr>"

fun example_run :: "wallet_call list \<Rightarrow> memory_store \<Rightarrow> memory_store" where
  "example_run [] s = s"
| "example_run (call # calls) s =
     example_run calls (ms_exec dec_ops example_json (example_env (replicate (length calls) CHR ''e'')) call s)"

definition example_calls :: "wallet_call list" where
  "example_calls =
     [CallCredit ''u'' ''EUR'' ''10'' ''d1'' None, CallDebit ''u'' ''EUR'' ''4'' ''b1'' None,
      CallRequest ''u'' ''EUR'' ''2.5'' ''addr'' ''chain'']"

fun fresh_run :: "(wallet_call \<Rightarrow> bool) \<Rightarrow> wallet_call list \<Rightarrow> memory_store \<Rightarrow> bool" where
  "fresh_run P [] s = True"
| "fresh_run P (call # calls) s =
     (P call \<and> ms_fresh (example_env (replicate (length calls) CHR ''e'')) s
      \<and> fresh_run P calls (ms_exec dec_ops example_json (example_env (replicate (length calls) CHR ''e'')) call s))"

lemma reach_example_run:
  "fresh_run P calls s \<Longrightarrow> reach s (ms_step dec_ops P) (example_run calls s)"
proof (induction calls arbitrary: s)
  case Nil
  show ?case by (simp add: reach.intros)
next
  case (Cons call calls)
  let ?E = "example_env (replicate (length calls) CHR ''e'')"
  have "ms_step dec_ops P s (ms_exec dec_ops example_json ?E call s)"
    using Cons.prems by (intro ms_step.intros) simp_all
  then have "reach s (ms_step dec_ops P) (ms_exec dec_ops example_json ?E call s)"
    by (rule reach_step [OF reach_init])
  moreover have "reach (ms_exec dec_ops example_json ?E call s) (ms_step dec_ops P) (example_run (call # calls) s)"
    using Cons by simp
  ultimately show ?case
    by (rule reach_trans [rotated])
qed

definition example_store :: memory_store where
  "example_store = example_run example_calls ms_NewInMemoryStore"

definition example_rejected :: memory_store where
  "example_rejected = ms_exec dec_ops example_json (example_env ''x'') (CallReject ''2'' ''admin'') example_store"

lemma example_reach: "reach ms_NewInMemoryStore (ms_step dec_ops (\<lambda>_. True)) example_store"
  unfolding example_store_def by (rule reach_example_run) code_simp

lemma example_reach_nonneg:
  "reach ms_NewInMemoryStore (ms_step dec_ops (nonneg_call dec_ops dec_val)) example_store"
  unfolding example_store_def by (rule reach_example_run) code_simp

lemma example_fresh: "ms_fresh (example_env ''x'') example_store"
  by code_simp

lemma example_reach_rejected:
  "reach ms_NewInMemoryStore (ms_step dec_ops (\<lambda>_. True)) example_rejected"
  unfolding example_rejected_def
  by (rule reach_step [OF example_reach]) (intro ms_step.intros TrueI example_fresh)

lemma example_wallet: "map_option w_Balance (mget (ms_wallets example_store) ''u:EUR'') = Some ''3.5''"
  by code_simp

lemma example_request: "map_option r_Status (mget (ms_withdrawals example_store) ''2'') = Some ''pending''"
  by code_simp

lemma example_rejected_request:
  "map_option r_Status (mget (ms_withdrawals example_rejected) ''2'') = Some ''rejected''"
  by code_simp

theorem ms_balance_is_sum_of_transactions_witness:
  "num dec_ops dec_val ''3.5'' = ms_entry_sum dec_ops dec_val example_store ''u:EUR''"
proof -
  obtain w where w: "mget (ms_wallets example_store) ''u:EUR'' = Some w" "w_Balance w = ''3.5''"
    using example_wallet by auto
  show ?thesis
    using ms_balance_is_sum_of_transactions [OF refdec.decimal_lib_axioms example_reach w(1)] by (simp only: w(2))
qed

theorem ms_balance_nonneg_witness: "0 \<le> num dec_ops dec_val ''3.5''"
proof -
  obtain w where w: "mget (ms_wallets example_store) ''u:EUR'' = Some w" "w_Balance w = ''3.5''"
    using example_wallet by auto
  show ?thesis
    using ms_balance_nonneg [OF refdec.decimal_lib_axioms example_reach_nonneg w(1)] by (simp only: w(2))
qed

definition example_debit :: "memory_store \<times> transaction result" where
  "example_debit = ms_DebitWallet dec_ops example_json (example_env ''x'') example_store ''u'' ''EUR'' ''1'' ''b2'' None"

theorem ms_debit_idempotent_witness:
  "fst (ms_DebitWallet dec_ops example_json (example_env ''y'') (fst example_debit) ''v'' ''EUR'' ''3'' ''b2'' None)
    = fst example_debit"
proof -
  have "is_ok (snd example_debit)" by code_simp
  then obtain t where "snd example_debit = Inr t"
    by (cases "snd example_debit") auto
  then have "example_debit = (fst example_debit, Inr t)"
    by (metis prod.collapse)
  then show ?thesis
    using ms_debit_idempotent [OF refdec.decimal_lib_axioms example_reach example_fresh _ _ reach_init]
    unfolding example_debit_def by blast
qed

theorem ms_request_matches_transaction_witness:
  "\<exists>r a. mget (ms_withdrawals example_store) ''2'' = Some r \<and> mget (ms_txnByRef example_store) ''2'' = Some a
    \<and> t_Amount (ms_heap example_store ! a) = r_Amount r"
  using ms_request_matches_transaction [OF refdec.decimal_lib_axioms example_reach] example_request
  by fastforce

theorem ms_decided_once_witness:
  "fst (ms_RejectWithdrawal dec_ops (example_env ''y'') example_rejected ''2'' ''admin'') = example_rejected"
  using ms_decided_once [OF refdec.decimal_lib_axioms example_reach_rejected _ _ reach_init] example_rejected_request
  by fastforce

theorem ms_reject_returns_amount_witness:
  "\<exists>r s' r'. mget (ms_withdrawals example_store) ''2'' = Some r
    \<and> ms_RejectWithdrawal dec_ops (example_env ''x'') example_store ''2'' ''admin'' = (s', Inr r')
    \<and> r_Status r' = ''rejected''"
  using ms_reject_returns_amount [OF refdec.decimal_lib_axioms example_reach example_fresh] example_request
  by fastforce

theorem ms_request_holds_amount_witness:
  "num dec_ops dec_val ''1'' \<le> balance0 (ms_abs dec_ops dec_val example_store) (walletKey ''u'' ''EUR'')"
proof -
  obtain s' res where r: "ms_RequestWithdrawal dec_ops (example_env ''x'') example_store ''u'' ''EUR'' ''1'' ''a'' ''c'' = (s', res)"
    by force
  have "is_ok (snd (ms_RequestWithdrawal dec_ops (example_env ''x'') example_store ''u'' ''EUR'' ''1'' ''a'' ''c''))"
    by code_simp
  with r ms_request_holds_amount [OF refdec.decimal_lib_axioms example_reach example_fresh r] show ?thesis
    by simp
qed

end
