(* ===== verification/WalletPG.thy ===== *)
theory WalletPG
  imports WalletModel Ledger
begin

text \<open>
  The Postgres wallet store, \<open>internal/wallet/pgstore.go\<close>, which the service runs on.  A state is
  the rows of its four tables; a statement is a function on them, with the constraints of the
  migrations that the code can run into (primary keys, \<open>UNIQUE (user_id, currency)\<close>,
  \<open>UNIQUE (reference_id)\<close>, the range of \<open>NUMERIC(28,8)\<close> and of \<open>INTEGER\<close>).

  An operation works on a copy of the rows (\<open>pg_tx\<close>) that is kept only if the commit succeeds.
  Any statement may fail for a reason outside the model (\<open>pe_fault\<close>: the connection, a
  cancelled context, a conflict with a concurrent transaction); after a failed statement the
  transaction is aborted and every later statement of it fails.  A failed commit may still have
  been applied by the server (\<open>pe_applied\<close>).
\<close>

section \<open>Tables\<close>

record pg_txn =
  q_ID :: string
  q_UserID :: string
  q_WalletID :: string
  q_Currency :: string
  q_Type :: string
  q_Amount :: string
  q_BalanceBefore :: string
  q_BalanceAfter :: string
  q_Status :: string
  q_Reference :: "string option"
  q_Metadata :: "string option"
  q_CreatedAt :: gtime

record pg_request =
  u_ID :: string
  u_UserID :: string
  u_WalletID :: string
  u_Amount :: string
  u_Currency :: string
  u_DestinationAddress :: string
  u_Chain :: string
  u_Status :: string
  u_TxHash :: "string option"
  u_ReviewedBy :: "string option"
  u_CreatedAt :: gtime

record pg_db =
  pg_wallets :: "wallet list"
  pg_txns :: "pg_txn list"
  pg_addresses :: "deposit_address list"
  pg_requests :: "pg_request list"

definition pg_empty :: pg_db where
  "pg_empty = \<lparr>pg_wallets = [], pg_txns = [], pg_addresses = [], pg_requests = []\<rparr>"

text \<open>
  What the server does with parameters: \<open>pl_numeric\<close> reads a text into \<open>NUMERIC(28,8)\<close> and
  prints it back (\<open>None\<close>: not a number or out of range), \<open>pl_jsonb\<close> stores a metadata map
  (\<open>None\<close>: NULL), \<open>pl_uuid\<close> reads a \<open>UUID\<close> (\<open>None\<close>: invalid text) in its canonical form.
\<close>

record pg_lib =
  pl_numeric :: "string \<Rightarrow> string option"
  pl_jsonb :: "metadata \<Rightarrow> string option"
  pl_uuid :: "string \<Rightarrow> string option"

record pg_env = genv +
  pe_fault :: "nat \<Rightarrow> string option"
  pe_applied :: bool

section \<open>Transactions\<close>

record pg_tx =
  tx_db :: pg_db
  tx_aborted :: bool

definition ErrTxAborted :: go_error where
  "ErrTxAborted = ExtErr ''current transaction is aborted''"

definition ErrNoRows :: go_error where
  "ErrNoRows = Sentinel ''sql'' ''sql: no rows in result set''"

text \<open>The statement at site \<open>n\<close> of an operation.\<close>

definition pg_stmt :: "pg_env \<Rightarrow> nat \<Rightarrow> (pg_db \<Rightarrow> (pg_db \<times> 'a) result) \<Rightarrow> pg_tx \<Rightarrow> pg_tx \<times> 'a result" where
  "pg_stmt E n f t =
     (if tx_aborted t then (t, Inl ErrTxAborted)
      else case pe_fault E n of
        Some e \<Rightarrow> (t\<lparr>tx_aborted := True\<rparr>, Inl (ExtErr e))
      | None \<Rightarrow>
          (case f (tx_db t) of
             Inl e \<Rightarrow> (t\<lparr>tx_aborted := True\<rparr>, Inl e)
           | Inr (db, x) \<Rightarrow> (t\<lparr>tx_db := db\<rparr>, Inr x)))"

definition tx_then ::
  "pg_tx \<times> 'a result \<Rightarrow> (go_error \<Rightarrow> go_error) \<Rightarrow> (pg_tx \<Rightarrow> 'a \<Rightarrow> pg_tx \<times> 'b result) \<Rightarrow> pg_tx \<times> 'b result" where
  "tx_then r wrap k = (case r of (t, Inl e) \<Rightarrow> (t, Inl (wrap e)) | (t, Inr x) \<Rightarrow> k t x)"

text \<open>
  \<open>BeginTx\<close> (site 100), the body, and \<open>Commit\<close> (site 101) when it succeeds; the deferred
  \<open>Rollback\<close> otherwise.
\<close>

definition pg_in_tx :: "pg_env \<Rightarrow> (pg_tx \<Rightarrow> pg_tx \<times> 'a result) \<Rightarrow> pg_db \<Rightarrow> pg_db \<times> 'a result" where
  "pg_in_tx E body db =
     (case pe_fault E 100 of
        Some e \<Rightarrow> (db, Inl (WrapErr ''begin tx: '' (ExtErr e)))
      | None \<Rightarrow>
          (case body \<lparr>tx_db = db, tx_aborted = False\<rparr> of
             (t, Inl e) \<Rightarrow> (db, Inl e)
           | (t, Inr x) \<Rightarrow>
               if tx_aborted t then (db, Inl (WrapErr ''commit: '' ErrTxAborted))
               else
                 (case pe_fault E 101 of
                    Some e \<Rightarrow> (if pe_applied E then tx_db t else db, Inl (WrapErr ''commit: '' (ExtErr e)))
                  | None \<Rightarrow> (tx_db t, Inr x))))"

text \<open>A statement outside a transaction commits by itself.\<close>

definition pg_auto :: "pg_env \<Rightarrow> ('db \<Rightarrow> ('db \<times> 'a) result) \<Rightarrow> 'db \<Rightarrow> 'db \<times> 'a result" where
  "pg_auto E f db =
     (case f db of
        Inl e \<Rightarrow> (db, Inl e)
      | Inr (db', x) \<Rightarrow>
          (case pe_fault E 0 of
             Some e \<Rightarrow> (if pe_applied E then db' else db, Inl (ExtErr e))
           | None \<Rightarrow> (db', Inr x)))"

text \<open>
  Such a statement is at site 0; the service can follow a query by an insertion, which is at site 10
  and fails by itself.
\<close>

definition at_site :: "nat \<Rightarrow> pg_env \<Rightarrow> pg_env" where
  "at_site n E = E\<lparr>pe_fault := (\<lambda>_. pe_fault E n)\<rparr>"

lemma at_site_simps [simp]:
  "pe_fault (at_site n E) k = pe_fault E n" "pe_applied (at_site n E) = pe_applied E"
  by (simp_all add: at_site_def)

section \<open>Statements\<close>

definition sel_wallet :: "string \<Rightarrow> string \<Rightarrow> pg_db \<Rightarrow> (pg_db \<times> wallet option) result" where
  "sel_wallet userID currency db =
     Inr (db, List.find (\<lambda>w. w_UserID w = userID \<and> w_Currency w = currency) (pg_wallets db))"

definition sel_wallet_by_id :: "string \<Rightarrow> pg_db \<Rightarrow> (pg_db \<times> wallet option) result" where
  "sel_wallet_by_id i db = Inr (db, List.find (\<lambda>w. w_ID w = i) (pg_wallets db))"

definition ins_wallet :: "pg_lib \<Rightarrow> genv \<Rightarrow> string \<Rightarrow> string \<Rightarrow> pg_db \<Rightarrow> (pg_db \<times> wallet) result" where
  "ins_wallet N E userID currency db =
     (case pl_numeric N ''0'' of
        None \<Rightarrow> Inl (ExtErr ''numeric field overflow'')
      | Some zero \<Rightarrow>
          let w = \<lparr>w_ID = e_uuid E 0, w_UserID = userID, w_Currency = currency, w_Balance = zero,
                   w_Version = 0, w_CreatedAt = e_now E, w_UpdatedAt = e_now E\<rparr>
          in if e_uuid E 0 \<in> set (List.map w_ID (pg_wallets db))
                \<or> (userID, currency) \<in> set (List.map (\<lambda>w. (w_UserID w, w_Currency w)) (pg_wallets db))
             then Inl (ExtErr ''duplicate key value violates unique constraint'')
             else Inr (db\<lparr>pg_wallets := pg_wallets db @ [w]\<rparr>, w))"

text \<open>\<open>UPDATE wallets SET balance, version WHERE id AND version\<close>: the number of rows updated.\<close>

definition upd_balance :: "pg_lib \<Rightarrow> genv \<Rightarrow> string \<Rightarrow> string \<Rightarrow> int \<Rightarrow> pg_db \<Rightarrow> (pg_db \<times> nat) result" where
  "upd_balance N E newBalance i version db =
     (let hit = (\<lambda>w. w_ID w = i \<and> w_Version w = version)
      in case pl_numeric N newBalance of
           None \<Rightarrow> Inl (ExtErr ''numeric field overflow'')
         | Some b \<Rightarrow>
             if version + 1 \<ge> 2 ^ 31 \<and> List.find hit (pg_wallets db) \<noteq> None
             then Inl (ExtErr ''integer out of range'')
             else Inr (db\<lparr>pg_wallets :=
                            List.map (\<lambda>w. if hit w
                                          then w\<lparr>w_Balance := b, w_Version := w_Version w + 1, w_UpdatedAt := e_now E\<rparr>
                                          else w) (pg_wallets db)\<rparr>,
                       length (List.filter hit (pg_wallets db))))"

definition sel_txn_by_ref :: "string \<Rightarrow> pg_db \<Rightarrow> (pg_db \<times> string option) result" where
  "sel_txn_by_ref ref db =
     Inr (db, map_option q_ID (List.find (\<lambda>t. q_Reference t = Some ref) (pg_txns db)))"

definition sel_txn_by_id :: "string \<Rightarrow> pg_db \<Rightarrow> (pg_db \<times> pg_txn option) result" where
  "sel_txn_by_id i db = Inr (db, List.find (\<lambda>t. q_ID t = i) (pg_txns db))"

text \<open>The row is given with the amounts as sent; its identifier is drawn by the server.\<close>

definition ins_txn :: "pg_lib \<Rightarrow> pg_txn \<Rightarrow> pg_db \<Rightarrow> (pg_db \<times> pg_txn) result" where
  "ins_txn N t db =
     (case (pl_numeric N (q_Amount t), pl_numeric N (q_BalanceBefore t), pl_numeric N (q_BalanceAfter t)) of
        (Some a, Some b, Some c) \<Rightarrow>
          if q_ID t \<in> set (List.map q_ID (pg_txns db))
             \<or> q_Reference t \<noteq> None \<and> q_Reference t \<in> set (List.map q_Reference (pg_txns db))
          then Inl (ExtErr ''duplicate key value violates unique constraint'')
          else let t' = t\<lparr>q_Amount := a, q_BalanceBefore := b, q_BalanceAfter := c\<rparr>
               in Inr (db\<lparr>pg_txns := pg_txns db @ [t']\<rparr>, t')
      | _ \<Rightarrow> Inl (ExtErr ''numeric field overflow''))"

definition upd_txn_status :: "string \<Rightarrow> string \<Rightarrow> pg_db \<Rightarrow> (pg_db \<times> unit) result" where
  "upd_txn_status ref status db =
     Inr (db\<lparr>pg_txns := List.map (\<lambda>t. if q_Reference t = Some ref then t\<lparr>q_Status := status\<rparr> else t)
                          (pg_txns db)\<rparr>, ())"

definition ins_request :: "pg_lib \<Rightarrow> pg_request \<Rightarrow> pg_db \<Rightarrow> (pg_db \<times> pg_request) result" where
  "ins_request N r db =
     (case pl_numeric N (u_Amount r) of
        None \<Rightarrow> Inl (ExtErr ''numeric field overflow'')
      | Some a \<Rightarrow>
          if u_ID r \<in> set (List.map u_ID (pg_requests db))
          then Inl (ExtErr ''duplicate key value violates unique constraint'')
          else let r' = r\<lparr>u_Amount := a\<rparr> in Inr (db\<lparr>pg_requests := pg_requests db @ [r']\<rparr>, r'))"

text \<open>\<open>UPDATE withdrawal_requests ... WHERE id AND status = 'pending' RETURNING ...\<close>\<close>

definition upd_request ::
  "pg_lib \<Rightarrow> string \<Rightarrow> (pg_request \<Rightarrow> pg_request) \<Rightarrow> pg_db \<Rightarrow> (pg_db \<times> pg_request option) result" where
  "upd_request N i f db =
     (case pl_uuid N i of
        None \<Rightarrow> Inl (ExtErr ''invalid input syntax for type uuid'')
      | Some u \<Rightarrow>
          let hit = (\<lambda>r. u_ID r = u \<and> u_Status r = ''pending'')
          in Inr (db\<lparr>pg_requests := List.map (\<lambda>r. if hit r then f r else r) (pg_requests db)\<rparr>,
                  map_option f (List.find hit (pg_requests db))))"

section \<open>Operations\<close>

definition scanTransaction :: "pg_txn \<Rightarrow> transaction" where
  "scanTransaction t =
     \<lparr>t_ID = q_ID t, t_UserID = q_UserID t, t_WalletID = q_WalletID t, t_Currency = q_Currency t,
      t_Type = q_Type t, t_Amount = q_Amount t, t_BalanceBefore = q_BalanceBefore t,
      t_BalanceAfter = q_BalanceAfter t, t_Status = q_Status t,
      t_ReferenceID = (case q_Reference t of None \<Rightarrow> [] | Some ref \<Rightarrow> ref),
      t_Metadata = (case q_Metadata t of None \<Rightarrow> [] | Some m \<Rightarrow> m), t_CreatedAt = q_CreatedAt t\<rparr>"

definition scanRequest :: "pg_request \<Rightarrow> withdrawal_request" where
  "scanRequest r =
     \<lparr>r_ID = u_ID r, r_UserID = u_UserID r, r_WalletID = u_WalletID r, r_Amount = u_Amount r,
      r_Currency = u_Currency r, r_DestinationAddress = u_DestinationAddress r, r_Chain = u_Chain r,
      r_Status = u_Status r, r_TxHash = (case u_TxHash r of None \<Rightarrow> [] | Some h \<Rightarrow> h),
      r_ReviewedBy = (case u_ReviewedBy r of None \<Rightarrow> [] | Some b \<Rightarrow> b), r_CreatedAt = u_CreatedAt r\<rparr>"

text \<open>\<open>INSERT ... ON CONFLICT (user_id, currency) DO UPDATE SET updated_at = NOW() RETURNING ...\<close>\<close>

definition upsert_wallet :: "pg_lib \<Rightarrow> genv \<Rightarrow> string \<Rightarrow> string \<Rightarrow> pg_db \<Rightarrow> (pg_db \<times> wallet) result" where
  "upsert_wallet N E userID currency db =
     (let hit = (\<lambda>w. w_UserID w = userID \<and> w_Currency w = currency);
          touch = (\<lambda>w. w\<lparr>w_UpdatedAt := e_now E\<rparr>)
      in case List.find hit (pg_wallets db) of
           Some w \<Rightarrow> Inr (db\<lparr>pg_wallets := List.map (\<lambda>w. if hit w then touch w else w) (pg_wallets db)\<rparr>, touch w)
         | None \<Rightarrow> ins_wallet N E userID currency db)"

definition pg_CreateWallet :: "pg_lib \<Rightarrow> pg_env \<Rightarrow> pg_db \<Rightarrow> string \<Rightarrow> string \<Rightarrow> pg_db \<times> wallet result" where
  "pg_CreateWallet N E db userID currency =
     (case pg_auto (at_site 10 E) (upsert_wallet N (genv.truncate E) userID currency) db of
        (db', Inl err) \<Rightarrow> (db', Inl (WrapErr ''create wallet: '' err))
      | (db', Inr w) \<Rightarrow> (db', Inr w))"

definition pg_GetWallet :: "pg_env \<Rightarrow> pg_db \<Rightarrow> string \<Rightarrow> string \<Rightarrow> wallet result" where
  "pg_GetWallet E db userID currency =
     (case snd (pg_auto E (sel_wallet userID currency) db) of
        Inl err \<Rightarrow> Inl (WrapErr ''get wallet: '' err)
      | Inr None \<Rightarrow> Inl ErrWalletNotFound
      | Inr (Some w) \<Rightarrow> Inr w)"

definition pg_getTransactionByID :: "pg_env \<Rightarrow> nat \<Rightarrow> string \<Rightarrow> pg_tx \<Rightarrow> pg_tx \<times> transaction result" where
  "pg_getTransactionByID E n i t =
     tx_then (pg_stmt E n (sel_txn_by_id i) t) (\<lambda>err. err)
       (\<lambda>t r. case r of None \<Rightarrow> (t, Inl ErrNoRows) | Some row \<Rightarrow> (t, Inr (scanTransaction row)))"

text \<open>
  The look-up of a reference, before the operation (sites 1, 2) and after a failed insert (sites
  7, 8): the transaction it belongs to, if any.
\<close>

definition pg_existing :: "pg_env \<Rightarrow> nat \<Rightarrow> string \<Rightarrow> string \<Rightarrow> pg_tx \<Rightarrow> pg_tx \<times> transaction option result" where
  "pg_existing E n prefix ref t =
     (if ref = [] then (t, Inr None)
      else tx_then (pg_stmt E n (sel_txn_by_ref ref) t) (WrapErr prefix)
             (\<lambda>t r. case r of
                None \<Rightarrow> (t, Inr None)
              | Some existingID \<Rightarrow>
                  tx_then (pg_getTransactionByID E (n + 1) existingID t)
                    (WrapErr ''get existing transaction: '') (\<lambda>t txn. (t, Inr (Some txn)))))"

text \<open>
  The last part of a credit or debit: update the wallet (site 5) and insert the transaction
  (site 6).  The transaction returned carries the amounts as computed, not as stored.
\<close>

definition pg_move ::
  "pg_lib \<Rightarrow> pg_env \<Rightarrow> string \<Rightarrow> string \<Rightarrow> wallet \<Rightarrow> string \<Rightarrow> string \<Rightarrow> string \<Rightarrow> string \<Rightarrow> metadata
   \<Rightarrow> pg_tx \<Rightarrow> pg_tx \<times> transaction result" where
  "pg_move N E userID currency w typ amount newBalance referenceID metadata t =
     tx_then (pg_stmt E 5 (upd_balance N (genv.truncate E) newBalance (w_ID w) (w_Version w)) t)
       (WrapErr ''update wallet: '')
       (\<lambda>t rows.
          if rows = 0 then (t, Inl ErrWalletConflict)
          else
            let row = \<lparr>q_ID = e_uuid E 1, q_UserID = userID, q_WalletID = w_ID w, q_Currency = currency,
                       q_Type = typ, q_Amount = amount, q_BalanceBefore = w_Balance w,
                       q_BalanceAfter = newBalance, q_Status = ''completed'',
                       q_Reference = (if referenceID = [] then None else Some referenceID),
                       q_Metadata = pl_jsonb N metadata, q_CreatedAt = e_now E\<rparr>
            in case pg_stmt E 6 (ins_txn N row) t of
                 (t, Inl err) \<Rightarrow>
                   tx_then (pg_existing E 7 ''check reference id after insert failure: '' referenceID t)
                     (\<lambda>e. e)
                     (\<lambda>t r. case r of
                        Some txn \<Rightarrow> (t, Inr txn)
                      | None \<Rightarrow> (t, Inl (WrapErr ''insert transaction: '' err)))
               | (t, Inr stored) \<Rightarrow>
                   (t, Inr \<lparr>t_ID = q_ID stored, t_UserID = userID, t_WalletID = w_ID w,
                            t_Currency = currency, t_Type = typ, t_Amount = amount,
                            t_BalanceBefore = w_Balance w, t_BalanceAfter = newBalance,
                            t_Status = ''completed'', t_ReferenceID = referenceID, t_Metadata = [],
                            t_CreatedAt = q_CreatedAt stored\<rparr>))"

definition pg_credit_body ::
  "'d decimal_ops \<Rightarrow> pg_lib \<Rightarrow> pg_env \<Rightarrow> string \<Rightarrow> string \<Rightarrow> string \<Rightarrow> string \<Rightarrow> metadata
   \<Rightarrow> pg_tx \<Rightarrow> pg_tx \<times> transaction result" where
  "pg_credit_body D N E userID currency amount referenceID metadata t =
        tx_then (pg_existing E 1 ''check reference id: '' referenceID t) (\<lambda>e. e)
          (\<lambda>t r. case r of
             Some txn \<Rightarrow> (t, Inr txn)
           | None \<Rightarrow>
               tx_then
                 (tx_then (pg_stmt E 3 (sel_wallet userID currency) t) (\<lambda>e. e)
                    (\<lambda>t row. case row of
                       Some w \<Rightarrow> (t, Inr w)
                     | None \<Rightarrow> pg_stmt E 4 (ins_wallet N (genv.truncate E) userID currency) t))
                 (WrapErr ''get wallet: '')
                 (\<lambda>t w. case addDecimal D (w_Balance w) amount of
                    Inl err \<Rightarrow> (t, Inl (WrapErr ''credit wallet: '' err))
                  | Inr newBalance \<Rightarrow>
                      pg_move N E userID currency w ''deposit'' amount newBalance referenceID metadata t))"

definition pg_CreditWallet ::
  "'d decimal_ops \<Rightarrow> pg_lib \<Rightarrow> pg_env \<Rightarrow> pg_db \<Rightarrow> string \<Rightarrow> string \<Rightarrow> string \<Rightarrow> string \<Rightarrow> metadata
   \<Rightarrow> pg_db \<times> transaction result" where
  "pg_CreditWallet D N E db userID currency amount referenceID metadata =
     pg_in_tx E (pg_credit_body D N E userID currency amount referenceID metadata) db"

text \<open>The checks a debit and a withdrawal share: the row, and whether its balance covers the amount.\<close>

definition pg_covered ::
  "'d decimal_ops \<Rightarrow> pg_env \<Rightarrow> string \<Rightarrow> string \<Rightarrow> string \<Rightarrow> string \<Rightarrow> pg_tx \<Rightarrow> pg_tx \<times> (wallet \<times> string) result" where
  "pg_covered D E prefix userID currency amount t =
     tx_then (pg_stmt E 3 (sel_wallet userID currency) t) (WrapErr ''get wallet: '')
       (\<lambda>t row. case row of
          None \<Rightarrow> (t, Inl ErrWalletNotFound)
        | Some w \<Rightarrow>
            (case NewFromString D (w_Balance w) of
               Inl err \<Rightarrow> (t, Inl (WrapErr ''parse balance: '' err))
             | Inr currentBalance \<Rightarrow>
               (case NewFromString D amount of
                  Inl err \<Rightarrow> (t, Inl (WrapErr ''parse amount: '' err))
                | Inr debitAmount \<Rightarrow>
                    if DLessThan D currentBalance debitAmount then (t, Inl ErrInsufficientBalance)
                    else (case subDecimal D (w_Balance w) amount of
                            Inl err \<Rightarrow> (t, Inl (WrapErr prefix err))
                          | Inr newBalance \<Rightarrow> (t, Inr (w, newBalance))))))"

definition pg_debit_body ::
  "'d decimal_ops \<Rightarrow> pg_lib \<Rightarrow> pg_env \<Rightarrow> string \<Rightarrow> string \<Rightarrow> string \<Rightarrow> string \<Rightarrow> metadata
   \<Rightarrow> pg_tx \<Rightarrow> pg_tx \<times> transaction result" where
  "pg_debit_body D N E userID currency amount referenceID metadata t =
        tx_then (pg_existing E 1 ''check reference id: '' referenceID t) (\<lambda>e. e)
          (\<lambda>t r. case r of
             Some txn \<Rightarrow> (t, Inr txn)
           | None \<Rightarrow>
               tx_then (pg_covered D E ''debit wallet: '' userID currency amount t) (\<lambda>e. e)
                 (\<lambda>t (w, newBalance).
                    pg_move N E userID currency w ''withdrawal'' amount newBalance referenceID metadata t))"

definition pg_DebitWallet ::
  "'d decimal_ops \<Rightarrow> pg_lib \<Rightarrow> pg_env \<Rightarrow> pg_db \<Rightarrow> string \<Rightarrow> string \<Rightarrow> string \<Rightarrow> string \<Rightarrow> metadata
   \<Rightarrow> pg_db \<times> transaction result" where
  "pg_DebitWallet D N E db userID currency amount referenceID metadata =
     pg_in_tx E (pg_debit_body D N E userID currency amount referenceID metadata) db"

definition pg_ReverseDebit :: "pg_env \<Rightarrow> pg_db \<Rightarrow> string \<Rightarrow> pg_db \<times> transaction result" where
  "pg_ReverseDebit E db transactionID = (db, Inl ErrNotImplemented)"

definition pg_GetDepositAddress :: "pg_env \<Rightarrow> pg_db \<Rightarrow> string \<Rightarrow> string \<Rightarrow> string \<Rightarrow> deposit_address result" where
  "pg_GetDepositAddress E db userID currency chain =
     (case snd (pg_auto E (\<lambda>db. Inr (db, List.find (\<lambda>a. a_UserID a = userID \<and> a_Currency a = currency
                                   \<and> a_Chain a = chain \<and> a_Status a = ''active'') (pg_addresses db))) db) of
        Inl err \<Rightarrow> Inl (WrapErr ''get deposit address: '' err)
      | Inr None \<Rightarrow> Inl (NewErr ''deposit address not found'')
      | Inr (Some addr) \<Rightarrow> Inr addr)"

text \<open>The unique index holds at most one active address of a user, currency and chain.\<close>

definition ins_address :: "genv \<Rightarrow> deposit_address \<Rightarrow> pg_db \<Rightarrow> (pg_db \<times> deposit_address) result" where
  "ins_address E addr db =
     (let row = addr\<lparr>a_ID := e_uuid E 3, a_Status := ''active'', a_CreatedAt := e_now E\<rparr>
      in if a_ID row \<in> set (List.map a_ID (pg_addresses db))
            \<or> (\<exists>a\<in>set (pg_addresses db). a_UserID a = a_UserID row \<and> a_Currency a = a_Currency row
                \<and> a_Chain a = a_Chain row \<and> a_Status a = ''active'')
         then Inl (ExtErr ''duplicate key value violates unique constraint'')
         else Inr (db\<lparr>pg_addresses := pg_addresses db @ [row]\<rparr>, row))"

definition pg_CreateDepositAddress :: "pg_env \<Rightarrow> pg_db \<Rightarrow> deposit_address \<Rightarrow> pg_db \<times> deposit_address result" where
  "pg_CreateDepositAddress E db addr =
     (case pg_auto (at_site 10 E) (ins_address (genv.truncate E) addr) db of
        (db', Inl err) \<Rightarrow> (db', Inl (WrapErr ''create deposit address: '' err))
      | (db', Inr row) \<Rightarrow> (db', Inr row))"

definition pg_request_body ::
  "'d decimal_ops \<Rightarrow> pg_lib \<Rightarrow> pg_env \<Rightarrow> string \<Rightarrow> string \<Rightarrow> string \<Rightarrow> string \<Rightarrow> string
   \<Rightarrow> pg_tx \<Rightarrow> pg_tx \<times> withdrawal_request result" where
  "pg_request_body D N E userID currency amount destinationAddress chain t =
        tx_then (pg_covered D E ''debit wallet for withdrawal: '' userID currency amount t) (\<lambda>e. e)
          (\<lambda>t (w, newBalance).
             tx_then (pg_stmt E 5 (upd_balance N (genv.truncate E) newBalance (w_ID w) (w_Version w)) t)
               (WrapErr ''update wallet: '')
               (\<lambda>t rows.
                  if rows = 0 then (t, Inl ErrWalletConflict)
                  else
                    tx_then
                      (pg_stmt E 9 (ins_request N
                         \<lparr>u_ID = e_uuid E 2, u_UserID = userID, u_WalletID = w_ID w, u_Amount = amount,
                          u_Currency = currency, u_DestinationAddress = destinationAddress,
                          u_Chain = chain, u_Status = ''pending'', u_TxHash = None, u_ReviewedBy = None,
                          u_CreatedAt = e_now E\<rparr>) t)
                      (WrapErr ''create withdrawal request: '')
                      (\<lambda>t req.
                         tx_then
                           (pg_stmt E 6 (ins_txn N
                              \<lparr>q_ID = e_uuid E 1, q_UserID = userID, q_WalletID = w_ID w,
                               q_Currency = currency, q_Type = ''withdrawal'', q_Amount = amount,
                               q_BalanceBefore = w_Balance w, q_BalanceAfter = newBalance,
                               q_Status = ''pending'', q_Reference = Some (u_ID req), q_Metadata = None,
                               q_CreatedAt = e_now E\<rparr>) t)
                           (WrapErr ''insert transaction: '')
                           (\<lambda>t _. (t, Inr \<lparr>r_ID = u_ID req, r_UserID = userID, r_WalletID = w_ID w,
                                           r_Amount = amount, r_Currency = currency,
                                           r_DestinationAddress = destinationAddress, r_Chain = chain,
                                           r_Status = u_Status req, r_TxHash = [], r_ReviewedBy = [],
                                           r_CreatedAt = u_CreatedAt req\<rparr>)))))"

definition pg_RequestWithdrawal ::
  "'d decimal_ops \<Rightarrow> pg_lib \<Rightarrow> pg_env \<Rightarrow> pg_db \<Rightarrow> string \<Rightarrow> string \<Rightarrow> string \<Rightarrow> string \<Rightarrow> string
   \<Rightarrow> pg_db \<times> withdrawal_request result" where
  "pg_RequestWithdrawal D N E db userID currency amount destinationAddress chain =
     pg_in_tx E (pg_request_body D N E userID currency amount destinationAddress chain) db"

definition pg_approve_body ::
  "pg_lib \<Rightarrow> pg_env \<Rightarrow> string \<Rightarrow> string \<Rightarrow> string
   \<Rightarrow> pg_tx \<Rightarrow> pg_tx \<times> withdrawal_request result" where
  "pg_approve_body N E i txHash reviewedBy t =
        tx_then
          (pg_stmt E 1 (upd_request N i (\<lambda>r. r\<lparr>u_Status := ''approved'', u_TxHash := Some txHash,
                                               u_ReviewedBy := Some reviewedBy\<rparr>)) t)
          (WrapErr ''approve withdrawal: '')
          (\<lambda>t row. case row of
             None \<Rightarrow> (t, Inl (NewErr ''withdrawal request not found or not pending''))
           | Some r \<Rightarrow>
               tx_then (pg_stmt E 2 (upd_txn_status i ''completed'') t) (WrapErr ''update transaction: '')
                 (\<lambda>t _. (t, Inr (scanRequest r))))"

definition pg_ApproveWithdrawal ::
  "pg_lib \<Rightarrow> pg_env \<Rightarrow> pg_db \<Rightarrow> string \<Rightarrow> string \<Rightarrow> string \<Rightarrow> pg_db \<times> withdrawal_request result" where
  "pg_ApproveWithdrawal N E db i txHash reviewedBy =
     pg_in_tx E (pg_approve_body N E i txHash reviewedBy) db"

definition pg_reject_body ::
  "'d decimal_ops \<Rightarrow> pg_lib \<Rightarrow> pg_env \<Rightarrow> string \<Rightarrow> string
   \<Rightarrow> pg_tx \<Rightarrow> pg_tx \<times> withdrawal_request result" where
  "pg_reject_body D N E i reviewedBy t =
        tx_then
          (pg_stmt E 1 (upd_request N i (\<lambda>r. r\<lparr>u_Status := ''rejected'', u_ReviewedBy := Some reviewedBy\<rparr>)) t)
          (WrapErr ''reject withdrawal: '')
          (\<lambda>t row. case row of
             None \<Rightarrow> (t, Inl (NewErr ''withdrawal request not found or not pending''))
           | Some r \<Rightarrow>
               tx_then (pg_stmt E 3 (sel_wallet_by_id (u_WalletID r)) t) (WrapErr ''get wallet: '')
                 (\<lambda>t wrow. case wrow of
                    None \<Rightarrow> (t, Inl (WrapErr ''get wallet: '' ErrNoRows))
                  | Some w \<Rightarrow>
                    (case addDecimal D (w_Balance w) (u_Amount r) of
                       Inl err \<Rightarrow> (t, Inl (WrapErr ''reverse withdrawal debit: '' err))
                     | Inr reversedBalance \<Rightarrow>
                         tx_then
                           (pg_stmt E 5 (upd_balance N (genv.truncate E) reversedBalance (w_ID w) (w_Version w)) t)
                           (WrapErr ''update wallet: '')
                           (\<lambda>t rows.
                              if rows = 0 then (t, Inl ErrWalletConflict)
                              else
                                tx_then (pg_stmt E 2 (upd_txn_status i ''reversed'') t)
                                  (WrapErr ''update transaction: '')
                                  (\<lambda>t _.
                                     tx_then
                                       (pg_stmt E 6 (ins_txn N
                                          \<lparr>q_ID = e_uuid E 1, q_UserID = u_UserID r, q_WalletID = w_ID w,
                                           q_Currency = u_Currency r, q_Type = ''adjustment'',
                                           q_Amount = u_Amount r, q_BalanceBefore = w_Balance w,
                                           q_BalanceAfter = reversedBalance, q_Status = ''completed'',
                                           q_Reference = Some (i @ ''-reversal''), q_Metadata = None,
                                           q_CreatedAt = e_now E\<rparr>) t)
                                       (WrapErr ''insert reversal transaction: '')
                                       (\<lambda>t _. (t, Inr (scanRequest r))))))))"

definition pg_RejectWithdrawal ::
  "'d decimal_ops \<Rightarrow> pg_lib \<Rightarrow> pg_env \<Rightarrow> pg_db \<Rightarrow> string \<Rightarrow> string \<Rightarrow> pg_db \<times> withdrawal_request result" where
  "pg_RejectWithdrawal D N E db i reviewedBy =
     pg_in_tx E (pg_reject_body D N E i reviewedBy) db"

text \<open>
  \<open>ORDER BY created_at\<close> keeps rows of the same instant in an order the server chooses: \<open>ord\<close>
  permutes the rows before the stable sort.
\<close>

definition pg_page :: "int \<Rightarrow> int \<Rightarrow> int \<times> int" where
  "pg_page page pageSize =
     (let page = (if page \<le> 0 then 1 else page); pageSize = (if pageSize \<le> 0 then 20 else pageSize)
      in (pageSize, wrap64 ((page - 1) * pageSize)))"

definition limit_offset :: "int \<Rightarrow> int \<Rightarrow> 'a list \<Rightarrow> 'a list result" where
  "limit_offset limit offset xs =
     (if offset < 0 then Inl (ExtErr ''OFFSET must not be negative'')
      else Inr (take (nat limit) (drop (nat offset) xs)))"

definition pg_ListPendingWithdrawals ::
  "(pg_request list \<Rightarrow> pg_request list) \<Rightarrow> pg_env \<Rightarrow> pg_db \<Rightarrow> int \<Rightarrow> int \<Rightarrow> withdrawal_request list result" where
  "pg_ListPendingWithdrawals ord E db page pageSize =
     (case pg_page page pageSize of (limit, offset) \<Rightarrow>
        (case snd (pg_auto E (\<lambda>db. case limit_offset limit offset
                    (sort_key u_CreatedAt (ord (List.filter (\<lambda>r. u_Status r = ''pending'') (pg_requests db)))) of
                      Inl e \<Rightarrow> Inl e | Inr rows \<Rightarrow> Inr (db, rows)) db) of
           Inl err \<Rightarrow> Inl (WrapErr ''list pending withdrawals: '' err)
         | Inr rows \<Rightarrow> Inr (List.map scanRequest rows)))"

definition pg_ListTransactions ::
  "(pg_txn list \<Rightarrow> pg_txn list) \<Rightarrow> pg_env \<Rightarrow> pg_db \<Rightarrow> string \<Rightarrow> int \<Rightarrow> int \<Rightarrow> transaction list result" where
  "pg_ListTransactions ord E db userID page pageSize =
     (case pg_page page pageSize of (limit, offset) \<Rightarrow>
        (case snd (pg_auto E (\<lambda>db. case limit_offset limit offset
                    (sort_key (\<lambda>t. - q_CreatedAt t) (ord (List.filter (\<lambda>t. q_UserID t = userID) (pg_txns db)))) of
                      Inl e \<Rightarrow> Inl e | Inr rows \<Rightarrow> Inr (db, rows)) db) of
           Inl err \<Rightarrow> Inl (WrapErr ''list transactions: '' err)
         | Inr rows \<Rightarrow> Inr (List.map scanTransaction rows)))"

section \<open>Statements on their own\<close>

text \<open>A statement that commits by itself: done, refused by the server, or failed before or after it took effect.\<close>

lemma pg_auto_cases:
  assumes "pg_auto E f db = (db', r)"
  obtains (ok) x where "f db = Inr (db', x)" "r = Inr x"
  | (lost) x where "f db = Inr (db', x)" "\<not> is_ok r"
  | (nothing) "db' = db" "\<not> is_ok r"
  using assms by (auto simp: pg_auto_def split: sum.splits option.splits if_splits)

lemma pg_auto_read:
  "(\<And>db1 x. f db = Inr (db1, x) \<Longrightarrow> db1 = db) \<Longrightarrow> fst (pg_auto E f db) = db"
  by (auto simp: pg_auto_def split: sum.splits option.splits prod.splits)

end
