(* ===== verification/WalletPGSim.thy ===== *)
theory WalletPGSim
  imports WalletPG
begin

text \<open>
  The Postgres store refines the abstract ledger.  A transaction keeps the rows as they were or
  all of its changes (\<open>pg_in_tx_cases\<close>); each operation, when its changes are kept, is one
  operation of the ledger with the account key \<open>(user_id, currency)\<close>.  The amounts must have at
  most eight decimals (\<open>scale8\<close>): beyond that \<open>NUMERIC(28,8)\<close> rounds the balance and the amount
  of the transaction separately.
\<close>

section \<open>Running a transaction\<close>

abbreviation live :: "pg_db \<Rightarrow> pg_tx" where
  "live db \<equiv> \<lparr>tx_db = db, tx_aborted = False\<rparr>"

text \<open>A transaction keeps the rows as they were, or all of its changes.\<close>

lemma pg_in_tx_cases:
  assumes "pg_in_tx E body db = (db', res)"
  obtains (nothing) "db' = db" "\<not> is_ok res"
  | (all) t x where "body (live db) = (t, Inr x)" "\<not> tx_aborted t" "db' = tx_db t"
      "res = Inr x \<or> \<not> is_ok res \<and> pe_fault E 101 \<noteq> None \<and> pe_applied E"
  using assms
  by (auto simp: pg_in_tx_def split: option.splits prod.splits sum.splits if_splits)

lemma pg_stmt_Inr:
  "pg_stmt E n f (live db) = (t, Inr x) \<longleftrightarrow>
    pe_fault E n = None \<and> (\<exists>db'. f db = Inr (db', x) \<and> t = live db')"
  by (auto simp: pg_stmt_def split: option.splits sum.splits)

lemma tx_then_Inr:
  "tx_then r wrap k = (t, Inr y) \<longleftrightarrow> (\<exists>t1 x. r = (t1, Inr x) \<and> k t1 x = (t, Inr y))"
  by (auto simp: tx_then_def split: prod.splits sum.splits)

lemma tx_branch_Inr:
  "(case r of Inl e \<Rightarrow> (t, Inl (f e)) | Inr x \<Rightarrow> k x) = (t', Inr y) \<longleftrightarrow> (\<exists>x. r = Inr x \<and> k x = (t', Inr y))"
  "(case q of None \<Rightarrow> (t, Inl e) | Some x \<Rightarrow> g x) = (t', Inr y) \<longleftrightarrow> (\<exists>x. q = Some x \<and> g x = (t', Inr y))"
  "(if b then (t, Inl e) else p) = (t', Inr y) \<longleftrightarrow> \<not> b \<and> p = (t', Inr y)"
  by (auto split: sum.splits option.splits)

lemma pg_existing_Inr:
  assumes "pg_existing E n prefix ref (live db) = (t, Inr r)"
  shows "t = live db" and "r = None \<longleftrightarrow> ref = [] \<or> Some ref \<notin> q_Reference ` set (pg_txns db)"
proof -
  have "t = live db \<and> (r = None \<longleftrightarrow> ref = [] \<or> Some ref \<notin> q_Reference ` set (pg_txns db))"
  proof (cases "List.find (\<lambda>t. q_Reference t = Some ref) (pg_txns db)")
    case None
    then have "Some ref \<notin> q_Reference ` set (pg_txns db)" by (simp add: find_key_None)
    with None assms show ?thesis
      by (auto simp: pg_existing_def tx_then_Inr pg_stmt_Inr sel_txn_by_ref_def split: if_splits)
  next
    case (Some x)
    then have "Some ref \<in> q_Reference ` set (pg_txns db)"
      by (metis find_key_None option.distinct(1))
    with Some assms show ?thesis
      by (auto simp: pg_existing_def tx_then_Inr pg_stmt_Inr sel_txn_by_ref_def pg_getTransactionByID_def
          sel_txn_by_id_def split: if_splits option.splits)
  qed
  then show "t = live db" and "r = None \<longleftrightarrow> ref = [] \<or> Some ref \<notin> q_Reference ` set (pg_txns db)"
    by blast+
qed

lemma pg_existing_aborted: "tx_aborted t \<Longrightarrow> pg_existing E n prefix ref t = (t', Inr r) \<Longrightarrow> r = None"
  by (auto simp: pg_existing_def pg_stmt_def tx_then_def split: if_splits)

lemma pg_stmt_Inl: "pg_stmt E n f t = (t', Inl e) \<Longrightarrow> tx_aborted t'"
  by (auto simp: pg_stmt_def split: if_splits option.splits sum.splits)

lemma pg_move_Inr:
  assumes "pg_move N E u c w typ amount nb ref m (live db) = (t, Inr txn)"
  shows "\<exists>db1 n db2 stored.
    upd_balance N (genv.truncate E) nb (w_ID w) (w_Version w) db = Inr (db1, n) \<and> n \<noteq> 0
    \<and> ins_txn N \<lparr>q_ID = e_uuid E 1, q_UserID = u, q_WalletID = w_ID w, q_Currency = c,
                q_Type = typ, q_Amount = amount, q_BalanceBefore = w_Balance w,
                q_BalanceAfter = nb, q_Status = ''completed'',
                q_Reference = (if ref = [] then None else Some ref),
                q_Metadata = pl_jsonb N m, q_CreatedAt = e_now E\<rparr> db1 = Inr (db2, stored)
    \<and> t = live db2"
proof -
  from assms obtain db1 n where u: "upd_balance N (genv.truncate E) nb (w_ID w) (w_Version w) db = Inr (db1, n)"
    "n \<noteq> 0" "pe_fault E 5 = None"
    by (auto simp: pg_move_def tx_then_Inr pg_stmt_Inr split: if_splits)
  let ?row = "\<lparr>q_ID = e_uuid E 1, q_UserID = u, q_WalletID = w_ID w, q_Currency = c,
                q_Type = typ, q_Amount = amount, q_BalanceBefore = w_Balance w,
                q_BalanceAfter = nb, q_Status = ''completed'',
                q_Reference = (if ref = [] then None else Some ref),
                q_Metadata = pl_jsonb N m, q_CreatedAt = e_now E\<rparr>"
  obtain t1 r where ins: "pg_stmt E 6 (ins_txn N ?row) (live db1) = (t1, r)" by force
  have b: "pg_stmt E 5 (upd_balance N (genv.truncate E) nb (w_ID w) (w_Version w)) (live db) = (live db1, Inr n)"
    using u by (simp add: pg_stmt_Inr)
  show ?thesis
  proof (cases r)
    case (Inl e)
    then have "tx_aborted t1" using ins pg_stmt_Inl by blast
    then show ?thesis
      using assms u ins Inl b pg_existing_aborted [of t1 E 7 "''check reference id after insert failure: ''" ref]
      by (auto simp: pg_move_def tx_then_def split: option.splits prod.splits sum.splits)
  next
    case (Inr stored)
    with assms u ins b have "t = t1" by (auto simp: pg_move_def tx_then_def)
    then show ?thesis
      using ins Inr u by (auto simp: pg_stmt_Inr)
  qed
qed


section \<open>Abstraction and invariant\<close>

type_synonym account = "string \<times> string"

definition pg_key :: "wallet \<Rightarrow> account" where
  "pg_key w = (w_UserID w, w_Currency w)"

definition pg_entry :: "'d decimal_ops \<Rightarrow> ('d \<Rightarrow> rat) \<Rightarrow> pg_txn \<Rightarrow> account entry" where
  "pg_entry D val t =
     \<lparr>en_key = (q_UserID t, q_Currency t),
      en_delta = (if q_Type t = ''withdrawal'' then - num D val (q_Amount t) else num D val (q_Amount t))\<rparr>"

definition pg_hold_status :: "string \<Rightarrow> hold_status" where
  "pg_hold_status st = (if st = ''pending'' then Held else if st = ''approved'' then PaidOut else Returned)"

definition pg_hold :: "'d decimal_ops \<Rightarrow> ('d \<Rightarrow> rat) \<Rightarrow> pg_request \<Rightarrow> account hold" where
  "pg_hold D val r =
     \<lparr>h_key = (u_UserID r, u_Currency r), h_amount = num D val (u_Amount r),
      h_status = pg_hold_status (u_Status r)\<rparr>"

definition pg_abs :: "'d decimal_ops \<Rightarrow> ('d \<Rightarrow> rat) \<Rightarrow> pg_db \<Rightarrow> account ledger" where
  "pg_abs D val db =
     \<lparr>lg_bal = (\<lambda>k. map_option (\<lambda>w. num D val (w_Balance w)) (List.find (\<lambda>w. pg_key w = k) (pg_wallets db))),
      lg_entries = List.map (pg_entry D val) (pg_txns db),
      lg_refs = {ref. Some ref \<in> q_Reference ` set (pg_txns db)},
      lg_holds = (\<lambda>i. map_option (pg_hold D val) (List.find (\<lambda>r. u_ID r = i) (pg_requests db)))\<rparr>"

text \<open>A number \<open>NUMERIC(28,8)\<close> holds exactly.\<close>

definition scale8 :: "rat \<Rightarrow> bool" where
  "scale8 v \<longleftrightarrow> of_int \<lfloor>v * 10 ^ 8\<rfloor> = v * 10 ^ 8"

lemma scale8_Ints: "scale8 v \<longleftrightarrow> v * 10 ^ 8 \<in> \<int>"
  by (metis Ints_cases Ints_of_int floor_of_int scale8_def)

lemma scale8_simps [simp]:
  "scale8 0" "scale8 a \<Longrightarrow> scale8 b \<Longrightarrow> scale8 (a + b)" "scale8 a \<Longrightarrow> scale8 b \<Longrightarrow> scale8 (a - b)"
  "scale8 (- a) = scale8 a"
  by (simp_all add: scale8_Ints distrib_right left_diff_distrib)

definition exact8 :: "'d decimal_ops \<Rightarrow> ('d \<Rightarrow> rat) \<Rightarrow> string \<Rightarrow> bool" where
  "exact8 D val s \<longleftrightarrow> dval D val s \<noteq> None \<and> scale8 (num D val s)"

definition pg_request_ok :: "'d decimal_ops \<Rightarrow> ('d \<Rightarrow> rat) \<Rightarrow> pg_db \<Rightarrow> pg_request \<Rightarrow> bool" where
  "pg_request_ok D val db r \<longleftrightarrow>
     exact8 D val (u_Amount r) \<and> u_Status r \<in> {''pending'', ''approved'', ''rejected''}
     \<and> (\<exists>w\<in>set (pg_wallets db). w_ID w = u_WalletID r \<and> pg_key w = (u_UserID r, u_Currency r))"

definition pg_inv :: "'d decimal_ops \<Rightarrow> ('d \<Rightarrow> rat) \<Rightarrow> pg_db \<Rightarrow> bool" where
  "pg_inv D val db \<longleftrightarrow>
     distinct (List.map w_ID (pg_wallets db)) \<and> distinct (List.map pg_key (pg_wallets db))
     \<and> distinct (List.map u_ID (pg_requests db))
     \<and> (\<forall>w\<in>set (pg_wallets db). exact8 D val (w_Balance w))
     \<and> (\<forall>r\<in>set (pg_requests db). pg_request_ok D val db r)"

text \<open>
  What the code relies on: \<open>NUMERIC(28,8)\<close> stores a number of at most eight decimals as it is,
  and a canonical \<open>UUID\<close> is read as itself.
\<close>

locale pg_server = decimal_lib +
  fixes N :: pg_lib
  assumes numeric_exact: "exact8 D val s \<Longrightarrow> pl_numeric N s = Some s' \<Longrightarrow> dval D val s' = dval D val s"
    and uuid_canonical: "pl_uuid N i = Some u \<Longrightarrow> pl_uuid N u = Some u"
begin

lemma numeric_exact8: "exact8 D val s \<Longrightarrow> pl_numeric N s = Some s' \<Longrightarrow> exact8 D val s' \<and> num D val s' = num D val s"
  using numeric_exact [of s s'] by (auto simp: exact8_def num_def)

lemma exact8_zero [simp]: "exact8 D val ''0''"
  by (simp add: exact8_def)

lemma pg_wallet_id:
  "pg_inv D val db \<Longrightarrow> w \<in> set (pg_wallets db) \<Longrightarrow> x \<in> set (pg_wallets db) \<Longrightarrow> w_ID x = w_ID w \<longleftrightarrow> x = w"
  by (metis pg_inv_def distinct_key_eq)

lemma upd_balance_sim:
  assumes inv: "pg_inv D val db" and w: "w \<in> set (pg_wallets db)"
    and r: "upd_balance N E nb (w_ID w) (w_Version w) db = Inr (db1, n)"
    and nb: "exact8 D val nb"
  shows "pg_inv D val db1" and "pg_txns db1 = pg_txns db" and "pg_requests db1 = pg_requests db"
    and "pg_abs D val db1 = (pg_abs D val db)\<lparr>lg_bal := (lg_bal (pg_abs D val db))(pg_key w \<mapsto> num D val nb)\<rparr>"
    and "\<exists>x\<in>set (pg_wallets db1). w_ID x = w_ID w \<and> pg_key x = pg_key w"
proof -
  obtain b where b: "pl_numeric N nb = Some b"
    using r by (auto simp: upd_balance_def Let_def split: option.splits)
  define hit where "hit = (\<lambda>x::wallet. w_ID x = w_ID w \<and> w_Version x = w_Version w)"
  define g where "g = (\<lambda>x::wallet. x\<lparr>w_Balance := b, w_Version := w_Version x + 1, w_UpdatedAt := e_now E\<rparr>)"
  have hit: "hit x \<longleftrightarrow> x = w" if "x \<in> set (pg_wallets db)" for x
    using pg_wallet_id [OF inv w that] by (auto simp: hit_def)
  have ws: "db1 = db\<lparr>pg_wallets := List.map (\<lambda>x. if hit x then g x else x) (pg_wallets db)\<rparr>"
    using r b by (auto simp: upd_balance_def Let_def hit_def g_def split: if_splits)
  note ex = numeric_exact8 [OF nb b]
  have g: "w_ID (g x) = w_ID x" "pg_key (g x) = pg_key x" "w_Balance (g x) = b" for x
    by (simp_all add: g_def pg_key_def)
  have ids: "List.map w_ID (pg_wallets db1) = List.map w_ID (pg_wallets db)"
    "List.map pg_key (pg_wallets db1) = List.map pg_key (pg_wallets db)"
    using g by (auto simp: ws)
  have find: "List.find (\<lambda>x. pg_key x = k) (pg_wallets db1)
      = (if k = pg_key w then Some (g w) else List.find (\<lambda>x. pg_key x = k) (pg_wallets db))" for k
  proof -
    have "pg_wallets db1 = List.map (\<lambda>x. if hit x then g x else x) (pg_wallets db)" by (simp add: ws)
    moreover have "distinct (List.map pg_key (pg_wallets db))" using inv by (simp add: pg_inv_def)
    ultimately show ?thesis using find_key_update [where key = pg_key and xs = "pg_wallets db" and hit = hit and g = g and x = w, OF _ w hit g(2)] by simp
  qed
  have req: "pg_request_ok D val db1 r" if "pg_request_ok D val db r" for r
  proof -
    from that obtain x where x: "x \<in> set (pg_wallets db)" "w_ID x = u_WalletID r"
      "pg_key x = (u_UserID r, u_Currency r)" by (auto simp: pg_request_ok_def)
    then have "(if hit x then g x else x) \<in> set (pg_wallets db1)" by (simp add: ws)
    moreover have "w_ID (if hit x then g x else x) = u_WalletID r"
      "pg_key (if hit x then g x else x) = (u_UserID r, u_Currency r)"
      using x g by auto
    ultimately show ?thesis using that unfolding pg_request_ok_def by blast
  qed
  have bal: "\<forall>x\<in>set (pg_wallets db1). exact8 D val (w_Balance x)"
    using inv ex g by (auto simp: ws pg_inv_def)
  show "pg_txns db1 = pg_txns db" "pg_requests db1 = pg_requests db"
    by (simp_all add: ws)
  have "g w \<in> set (pg_wallets db1)" using w hit [OF w] by (auto simp: ws image_iff)
  then show "\<exists>x\<in>set (pg_wallets db1). w_ID x = w_ID w \<and> pg_key x = pg_key w" using g by blast
  show "pg_inv D val db1"
    unfolding pg_inv_def ids using inv bal req by (simp add: pg_inv_def ws)
  show "pg_abs D val db1 = (pg_abs D val db)\<lparr>lg_bal := (lg_bal (pg_abs D val db))(pg_key w \<mapsto> num D val nb)\<rparr>"
    using find ex g by (auto simp: pg_abs_def ws fun_eq_iff)
qed

lemma ins_txn_sim:
  assumes inv: "pg_inv D val db" and r: "ins_txn N row db = Inr (db1, stored)"
    and a: "exact8 D val (q_Amount row)"
  shows "pg_inv D val db1" and "pg_wallets db1 = pg_wallets db" and "pg_requests db1 = pg_requests db"
    and "pg_abs D val db1 = (pg_abs D val db)\<lparr>lg_entries := lg_entries (pg_abs D val db) @ [pg_entry D val row],
      lg_refs := lg_refs (pg_abs D val db) \<union> set_option (q_Reference row)\<rparr>"
proof -
  obtain x y z where st: "pl_numeric N (q_Amount row) = Some x"
    "db1 = db\<lparr>pg_txns := pg_txns db @ [row\<lparr>q_Amount := x, q_BalanceBefore := y, q_BalanceAfter := z\<rparr>]\<rparr>"
    using r by (auto simp: ins_txn_def Let_def split: option.splits if_splits)
  note ex = numeric_exact8 [OF a st(1)]
  show "pg_wallets db1 = pg_wallets db" "pg_requests db1 = pg_requests db"
    by (simp_all add: st)
  show "pg_inv D val db1"
    using inv by (simp add: pg_inv_def st pg_request_ok_def)
  show "pg_abs D val db1 = (pg_abs D val db)\<lparr>lg_entries := lg_entries (pg_abs D val db) @ [pg_entry D val row],
      lg_refs := lg_refs (pg_abs D val db) \<union> set_option (q_Reference row)\<rparr>"
    using ex by (cases "q_Reference row") (auto simp: pg_abs_def st pg_entry_def)
qed

lemma ins_wallet_sim:
  assumes inv: "pg_inv D val db" and r: "ins_wallet N E u c db = Inr (db1, w)"
  shows "pg_inv D val db1" and "w \<in> set (pg_wallets db1)" and "pg_key w = (u, c)"
    and "pg_abs D val db1 = lg_open (u, c) (pg_abs D val db)"
    and "pg_txns db1 = pg_txns db"
proof -
  obtain z where z: "pl_numeric N ''0'' = Some z"
    and w: "w = \<lparr>w_ID = e_uuid E 0, w_UserID = u, w_Currency = c, w_Balance = z,
                   w_Version = 0, w_CreatedAt = e_now E, w_UpdatedAt = e_now E\<rparr>"
    and new: "e_uuid E 0 \<notin> set (List.map w_ID (pg_wallets db))"
      "(u, c) \<notin> set (List.map pg_key (pg_wallets db))"
    and db1: "db1 = db\<lparr>pg_wallets := pg_wallets db @ [w]\<rparr>"
    using r by (auto simp: ins_wallet_def Let_def pg_key_def split: option.splits if_splits)
  note ex = numeric_exact8 [OF exact8_zero z]
  have k: "pg_key w = (u, c)" "w_ID w = e_uuid E 0" by (simp_all add: w pg_key_def)
  then show "pg_key w = (u, c)" by simp
  show "w \<in> set (pg_wallets db1)" "pg_txns db1 = pg_txns db" by (simp_all add: db1)
  show "pg_inv D val db1"
    using inv new k ex by (auto simp: pg_inv_def db1 pg_request_ok_def w)
  have "List.find (\<lambda>w. pg_key w = (u, c)) (pg_wallets db) = None"
    using new by (simp add: find_key_None)
  then show "pg_abs D val db1 = lg_open (u, c) (pg_abs D val db)"
    using k ex by (auto simp: pg_abs_def db1 lg_open_def fun_eq_iff w split: option.splits)
qed

lemma sel_wallet_sim:
  assumes "pg_inv D val db" and "List.find (\<lambda>w. w_UserID w = u \<and> w_Currency w = c) (pg_wallets db) = Some w"
  shows "w \<in> set (pg_wallets db)" and "pg_key w = (u, c)"
    and "lg_bal (pg_abs D val db) (u, c) = Some (num D val (w_Balance w))" and "exact8 D val (w_Balance w)"
proof -
  have *: "List.find (\<lambda>w. pg_key w = (u, c)) (pg_wallets db) = Some w"
    using assms(2) by (simp add: pg_key_def)
  then show w: "w \<in> set (pg_wallets db)" and "pg_key w = (u, c)"
    by (auto dest: find_key_Some)
  from * show "lg_bal (pg_abs D val db) (u, c) = Some (num D val (w_Balance w))"
    by (simp add: pg_abs_def)
  from w assms(1) show "exact8 D val (w_Balance w)" by (simp add: pg_inv_def)
qed

lemma pg_abs_bal:
  assumes "pg_inv D val db" and "w \<in> set (pg_wallets db)"
  shows "lg_bal (pg_abs D val db) (pg_key w) = Some (num D val (w_Balance w))" and "exact8 D val (w_Balance w)"
proof -
  have "List.find (\<lambda>x. pg_key x = pg_key w) (pg_wallets db) = Some w"
    using assms by (subst find_key_iff) (auto simp: pg_inv_def)
  then show "lg_bal (pg_abs D val db) (pg_key w) = Some (num D val (w_Balance w))"
    by (simp add: pg_abs_def)
  show "exact8 D val (w_Balance w)" using assms by (simp add: pg_inv_def)
qed

text \<open>The two statements every movement of money ends with.\<close>

lemma pg_post_sim:
  assumes inv: "pg_inv D val db" and w: "w \<in> set (pg_wallets db)"
    and u: "upd_balance N E nb (w_ID w) (w_Version w) db = Inr (db1, n)"
    and i: "ins_txn N row db1 = Inr (db2, stored)"
    and nb: "dval D val nb = Some (num D val (w_Balance w) + d)" and a: "exact8 D val (q_Amount row)"
    and e: "pg_entry D val row = \<lparr>en_key = pg_key w, en_delta = d\<rparr>"
  shows "pg_inv D val db2 \<and> pg_abs D val db2 = lg_post (pg_key w) d (set_option (q_Reference row)) (pg_abs D val db)
    \<and> pg_requests db2 = pg_requests db"
proof -
  note b = pg_abs_bal [OF inv w]
  have num: "num D val nb = num D val (w_Balance w) + d" using nb by (simp add: num_def)
  have d: "d = num D val (q_Amount row) \<or> d = - num D val (q_Amount row)"
    using e by (auto simp: pg_entry_def split: if_splits)
  then have ex: "exact8 D val nb"
    using a b(2) nb num by (auto simp: exact8_def)
  note s1 = upd_balance_sim [OF inv w u ex]
  note s2 = ins_txn_sim [OF s1(1) i a]
  have "balance0 (pg_abs D val db) (pg_key w) = num D val (w_Balance w)"
    by (simp add: balance0_def b)
  then have "pg_abs D val db2 = lg_post (pg_key w) d (set_option (q_Reference row)) (pg_abs D val db)"
    by (simp add: s2(4) s1(4) lg_post_def num e)
  with s1 s2 show ?thesis by simp
qed

lemma pg_existing_used:
  "Some ref \<in> q_Reference ` set (pg_txns db) \<longleftrightarrow> ref \<in> lg_refs (pg_abs D val db)"
  by (simp add: pg_abs_def)

lemma pg_in_tx_sim:
  assumes "pg_in_tx E body db = (db', res)" and "pg_inv D val db"
    and "\<And>t x. body (live db) = (t, Inr x) \<Longrightarrow> \<not> tx_aborted t \<Longrightarrow>
      pg_inv D val (tx_db t) \<and> pg_abs D val (tx_db t) = f (pg_abs D val db)"
  shows "pg_inv D val db'"
    and "pg_abs D val db' = f (pg_abs D val db) \<or> db' = db \<and> \<not> is_ok res"
    and "is_ok res \<Longrightarrow> pg_abs D val db' = f (pg_abs D val db)"
  using assms(1) by (cases rule: pg_in_tx_cases; use assms in auto)+

lemma pg_CreditWallet_sim:
  assumes r: "pg_CreditWallet D N E db u c amount ref m = (db', res)"
    and inv: "pg_inv D val db" and a: "scale8 (num D val amount)"
  shows "pg_inv D val db'"
    and "pg_abs D val db' = lg_credit (u, c) (num D val amount) ref (pg_abs D val db) \<or> db' = db \<and> \<not> is_ok res"
    and "is_ok res \<Longrightarrow> pg_abs D val db' = lg_credit (u, c) (num D val amount) ref (pg_abs D val db)"
    and "ref \<noteq> [] \<Longrightarrow> is_ok res \<or> db' \<noteq> db \<Longrightarrow> ref_used ref (pg_abs D val db')"
proof -
  let ?E = "genv.truncate E"
  have "pg_inv D val (tx_db t) \<and> pg_abs D val (tx_db t) = lg_credit (u, c) (num D val amount) ref (pg_abs D val db)
      \<and> (ref \<noteq> [] \<longrightarrow> ref_used ref (pg_abs D val (tx_db t)))"
    if "pg_credit_body D N E u c amount ref m (live db) = (t, Inr x)" for t x
  proof -
    note body = that [unfolded pg_credit_body_def]
    from body obtain t0 r0 where ex: "pg_existing E 1 ''check reference id: '' ref (live db) = (t0, Inr r0)"
      by (auto simp: tx_then_Inr)
    note e = pg_existing_Inr [OF ex]
    show ?thesis
    proof (cases r0)
      case (Some txn)
      then have "t = live db" "ref_used ref (pg_abs D val db)"
        using body ex e by (auto simp: tx_then_Inr ref_used_def pg_abs_def)
      with inv show ?thesis by (simp add: credit_used_ref ref_used_def)
    next
      case None
      then have unused: "\<not> ref_used ref (pg_abs D val db)"
        using e by (auto simp: ref_used_def pg_abs_def)
      from body ex e(1) None obtain db1 w nb where
        w: "pg_inv D val db1" "w \<in> set (pg_wallets db1)" "pg_key w = (u, c)"
        "pg_abs D val db1 = lg_open (u, c) (pg_abs D val db)"
        and ad: "addDecimal D (w_Balance w) amount = Inr nb"
        and mv: "pg_move N E u c w ''deposit'' amount nb ref m (live db1) = (t, Inr x)"
      proof -
        from body ex e(1) None obtain t1 w where
          sel: "tx_then (pg_stmt E 3 (sel_wallet u c) (live db)) (\<lambda>e. e)
            (\<lambda>t row. case row of Some w \<Rightarrow> (t, Inr w) | None \<Rightarrow> pg_stmt E 4 (ins_wallet N ?E u c) t)
            = (t1, Inr w)"
          and rest: "(case addDecimal D (w_Balance w) amount of
              Inl err \<Rightarrow> (t1, Inl (WrapErr ''credit wallet: '' err))
            | Inr nb \<Rightarrow> pg_move N E u c w ''deposit'' amount nb ref m t1) = (t, Inr x)"
          by (auto simp: tx_then_Inr)
        from rest obtain nb where nb: "addDecimal D (w_Balance w) amount = Inr nb"
          "pg_move N E u c w ''deposit'' amount nb ref m t1 = (t, Inr x)"
          by (cases "addDecimal D (w_Balance w) amount") auto
        show ?thesis
        proof (cases "List.find (\<lambda>w. w_UserID w = u \<and> w_Currency w = c) (pg_wallets db)")
          case (Some w1)
          then have "t1 = live db" "w = w1"
            using sel by (auto simp: tx_then_Inr pg_stmt_Inr sel_wallet_def)
          then show ?thesis
            using that [of db w nb] sel_wallet_sim [OF inv Some] inv nb by (simp add: lg_open_def)
        next
          case None
          then obtain db1 where "t1 = live db1" "ins_wallet N ?E u c db = Inr (db1, w)"
            using sel by (auto simp: tx_then_Inr pg_stmt_Inr sel_wallet_def)
          then show ?thesis
            using that [of db1 w nb] ins_wallet_sim [OF inv, of ?E u c db1 w] nb by simp
        qed
      qed
      note nb = addDecimal_Inr [OF ad]
      from pg_move_Inr [OF mv] obtain db2 n db3 stored where
        u: "upd_balance N ?E nb (w_ID w) (w_Version w) db1 = Inr (db2, n)"
        and i: "ins_txn N \<lparr>q_ID = e_uuid E 1, q_UserID = u, q_WalletID = w_ID w, q_Currency = c,
                q_Type = ''deposit'', q_Amount = amount, q_BalanceBefore = w_Balance w,
                q_BalanceAfter = nb, q_Status = ''completed'',
                q_Reference = (if ref = [] then None else Some ref),
                q_Metadata = pl_jsonb N m, q_CreatedAt = e_now E\<rparr> db2 = Inr (db3, stored)"
        and t: "t = live db3" by blast
      have "pg_inv D val db3 \<and> pg_abs D val db3 = lg_post (pg_key w) (num D val amount) (ref_set ref) (pg_abs D val db1)"
        using pg_post_sim [OF w(1,2) u i nb(3)] a nb(2) w(3)
        by (auto simp: pg_entry_def exact8_def ref_set_def)
      then show ?thesis
        using unused w t by (auto simp: lg_credit_def ref_used_def ref_set_def)
    qed
  qed
  note body = this
  show "pg_inv D val db'"
    and "pg_abs D val db' = lg_credit (u, c) (num D val amount) ref (pg_abs D val db) \<or> db' = db \<and> \<not> is_ok res"
    and "is_ok res \<Longrightarrow> pg_abs D val db' = lg_credit (u, c) (num D val amount) ref (pg_abs D val db)"
    and "ref \<noteq> [] \<Longrightarrow> is_ok res \<or> db' \<noteq> db \<Longrightarrow> ref_used ref (pg_abs D val db')"
    using r [unfolded pg_CreditWallet_def] by (cases rule: pg_in_tx_cases; use inv body in blast)+
qed

lemma pg_covered_Inr:
  assumes "pg_covered D E prefix u c amount (live db) = (t, Inr (w, nb))" and inv: "pg_inv D val db"
  shows "t = live db" and "w \<in> set (pg_wallets db)" and "pg_key w = (u, c)"
    and "lg_bal (pg_abs D val db) (u, c) = Some (num D val (w_Balance w))"
    and "\<not> num D val (w_Balance w) < num D val amount"
    and "dval D val nb = Some (num D val (w_Balance w) + - num D val amount)"
    and "dval D val amount \<noteq> None"
proof -
  from assms obtain cb d where f: "List.find (\<lambda>w. w_UserID w = u \<and> w_Currency w = c) (pg_wallets db) = Some w"
    and p: "NewFromString D (w_Balance w) = Inr cb" "NewFromString D amount = Inr d"
    and le: "\<not> DLessThan D cb d" and sb: "subDecimal D (w_Balance w) amount = Inr nb" and t: "t = live db"
    by (auto simp: pg_covered_def tx_then_Inr pg_stmt_Inr sel_wallet_def split: option.splits sum.splits if_splits)
  show "t = live db" by (rule t)
  show "w \<in> set (pg_wallets db)" "pg_key w = (u, c)"
    "lg_bal (pg_abs D val db) (u, c) = Some (num D val (w_Balance w))"
    using sel_wallet_sim [OF inv f] by simp_all
  show "\<not> num D val (w_Balance w) < num D val amount"
    using le p by (simp add: num_parse)
  show "dval D val nb = Some (num D val (w_Balance w) + - num D val amount)" "dval D val amount \<noteq> None"
    using subDecimal_Inr [OF sb] by simp_all
qed

lemma pg_DebitWallet_sim:
  assumes r: "pg_DebitWallet D N E db u c amount ref m = (db', res)"
    and inv: "pg_inv D val db" and a: "scale8 (num D val amount)"
  shows "pg_inv D val db'"
    and "pg_abs D val db' = lg_debit (u, c) (num D val amount) ref (pg_abs D val db) \<or> db' = db \<and> \<not> is_ok res"
    and "is_ok res \<Longrightarrow> pg_abs D val db' = lg_debit (u, c) (num D val amount) ref (pg_abs D val db)"
    and "ref \<noteq> [] \<Longrightarrow> is_ok res \<or> db' \<noteq> db \<Longrightarrow> ref_used ref (pg_abs D val db')"
proof -
  let ?E = "genv.truncate E"
  have body: "pg_inv D val (tx_db t) \<and> pg_abs D val (tx_db t) = lg_debit (u, c) (num D val amount) ref (pg_abs D val db)
      \<and> (ref \<noteq> [] \<longrightarrow> ref_used ref (pg_abs D val (tx_db t)))"
    if "pg_debit_body D N E u c amount ref m (live db) = (t, Inr x)" for t x
  proof -
    note body = that [unfolded pg_debit_body_def]
    from body obtain t0 r0 where ex: "pg_existing E 1 ''check reference id: '' ref (live db) = (t0, Inr r0)"
      by (auto simp: tx_then_Inr)
    note e = pg_existing_Inr [OF ex]
    show ?thesis
    proof (cases r0)
      case (Some txn)
      then have "t = live db" "ref_used ref (pg_abs D val db)"
        using body ex e by (auto simp: tx_then_Inr ref_used_def pg_abs_def)
      with inv show ?thesis by (simp add: debit_used_ref ref_used_def)
    next
      case None
      then have unused: "\<not> ref_used ref (pg_abs D val db)"
        using e by (auto simp: ref_used_def pg_abs_def)
      from body ex e(1) None obtain t1 w nb where
        cov: "pg_covered D E ''debit wallet: '' u c amount (live db) = (t1, Inr (w, nb))"
        and mv: "pg_move N E u c w ''withdrawal'' amount nb ref m t1 = (t, Inr x)"
        by (auto simp: tx_then_Inr)
      note w = pg_covered_Inr [OF cov inv]
      from pg_move_Inr [OF mv [unfolded w(1)]] obtain db2 n db3 stored where
        u: "upd_balance N ?E nb (w_ID w) (w_Version w) db = Inr (db2, n)"
        and i: "ins_txn N \<lparr>q_ID = e_uuid E 1, q_UserID = u, q_WalletID = w_ID w, q_Currency = c,
                q_Type = ''withdrawal'', q_Amount = amount, q_BalanceBefore = w_Balance w,
                q_BalanceAfter = nb, q_Status = ''completed'',
                q_Reference = (if ref = [] then None else Some ref),
                q_Metadata = pl_jsonb N m, q_CreatedAt = e_now E\<rparr> db2 = Inr (db3, stored)"
        and t: "t = live db3" by blast
      have "pg_inv D val db3 \<and> pg_abs D val db3 = lg_post (pg_key w) (- num D val amount) (ref_set ref) (pg_abs D val db)"
        using pg_post_sim [OF inv w(2) u i w(6)] a w
        by (auto simp: pg_entry_def exact8_def ref_set_def)
      then show ?thesis
        using unused w t by (auto simp: lg_debit_def ref_used_def ref_set_def)
    qed
  qed
  show "pg_inv D val db'"
    and "pg_abs D val db' = lg_debit (u, c) (num D val amount) ref (pg_abs D val db) \<or> db' = db \<and> \<not> is_ok res"
    and "is_ok res \<Longrightarrow> pg_abs D val db' = lg_debit (u, c) (num D val amount) ref (pg_abs D val db)"
    and "ref \<noteq> [] \<Longrightarrow> is_ok res \<or> db' \<noteq> db \<Longrightarrow> ref_used ref (pg_abs D val db')"
    using r [unfolded pg_DebitWallet_def] by (cases rule: pg_in_tx_cases; use inv body in blast)+
qed

lemma ins_request_sim:
  assumes inv: "pg_inv D val db" and i: "ins_request N row db = Inr (db1, stored)"
    and a: "exact8 D val (u_Amount row)" and p: "u_Status row = ''pending''"
    and w: "w \<in> set (pg_wallets db)" "w_ID w = u_WalletID row" "pg_key w = (u_UserID row, u_Currency row)"
  shows "pg_inv D val db1" and "u_ID stored = u_ID row"
    and "lg_holds (pg_abs D val db) (u_ID row) = None"
    and "pg_abs D val db1 = (pg_abs D val db)\<lparr>lg_holds := (lg_holds (pg_abs D val db))(u_ID row \<mapsto> pg_hold D val row)\<rparr>"
    and "u_Status stored = ''pending''"
proof -
  obtain x where x: "pl_numeric N (u_Amount row) = Some x" and new: "u_ID row \<notin> set (List.map u_ID (pg_requests db))"
    and st: "stored = row\<lparr>u_Amount := x\<rparr>" "db1 = db\<lparr>pg_requests := pg_requests db @ [stored]\<rparr>"
    using i by (auto simp: ins_request_def Let_def split: option.splits if_splits)
  note ex = numeric_exact8 [OF a x]
  show "pg_inv D val db1"
    using inv new ex p w by (auto simp: pg_inv_def st pg_request_ok_def)
  show "u_ID stored = u_ID row" "u_Status stored = ''pending''" using p by (simp_all add: st)
  have none: "List.find (\<lambda>r. u_ID r = u_ID row) (pg_requests db) = None"
    using new by (simp add: find_key_None)
  then show "lg_holds (pg_abs D val db) (u_ID row) = None" by (simp add: pg_abs_def)
  show "pg_abs D val db1 = (pg_abs D val db)\<lparr>lg_holds := (lg_holds (pg_abs D val db))(u_ID row \<mapsto> pg_hold D val row)\<rparr>"
    using none ex by (auto simp: pg_abs_def st fun_eq_iff pg_hold_def split: option.splits)
qed

lemma pg_abs_update_indep:
  "pg_wallets db1 = pg_wallets db \<Longrightarrow> pg_txns db1 = pg_txns db \<Longrightarrow>
    lg_bal (pg_abs D val db1) = lg_bal (pg_abs D val db) \<and> lg_entries (pg_abs D val db1) = lg_entries (pg_abs D val db)
    \<and> lg_refs (pg_abs D val db1) = lg_refs (pg_abs D val db)"
  by (simp add: pg_abs_def)

lemma pg_RequestWithdrawal_sim:
  assumes r: "pg_RequestWithdrawal D N E db u c amount dest chain = (db', res)"
    and inv: "pg_inv D val db" and a: "scale8 (num D val amount)"
  shows "pg_inv D val db'"
    and "pg_abs D val db' = lg_request (e_uuid E 2) (u, c) (num D val amount) (pg_abs D val db) \<or> db' = db \<and> \<not> is_ok res"
    and "is_ok res \<Longrightarrow> pg_abs D val db' = lg_request (e_uuid E 2) (u, c) (num D val amount) (pg_abs D val db)"
proof -
  let ?E = "genv.truncate E" and ?i = "e_uuid E 2"
  have body: "pg_inv D val (tx_db t) \<and> pg_abs D val (tx_db t) = lg_request ?i (u, c) (num D val amount) (pg_abs D val db)"
    if "pg_request_body D N E u c amount dest chain (live db) = (t, Inr x)" for t x
  proof -
    note body = that [unfolded pg_request_body_def]
    from body obtain t1 w nb where
      cov: "pg_covered D E ''debit wallet for withdrawal: '' u c amount (live db) = (t1, Inr (w, nb))"
      by (auto simp: tx_then_Inr)
    note w = pg_covered_Inr [OF cov inv]
    let ?q = "\<lparr>u_ID = ?i, u_UserID = u, u_WalletID = w_ID w, u_Amount = amount, u_Currency = c,
      u_DestinationAddress = dest, u_Chain = chain, u_Status = ''pending'', u_TxHash = None, u_ReviewedBy = None,
      u_CreatedAt = e_now E\<rparr>"
    from body cov w(1) obtain db1 n db2 req db3 stored where
      u: "upd_balance N ?E nb (w_ID w) (w_Version w) db = Inr (db1, n)"
      and q: "ins_request N ?q db1 = Inr (db2, req)"
      and i: "ins_txn N \<lparr>q_ID = e_uuid E 1, q_UserID = u, q_WalletID = w_ID w, q_Currency = c,
                q_Type = ''withdrawal'', q_Amount = amount, q_BalanceBefore = w_Balance w,
                q_BalanceAfter = nb, q_Status = ''pending'', q_Reference = Some (u_ID req),
                q_Metadata = None, q_CreatedAt = e_now E\<rparr> db2 = Inr (db3, stored)"
      and t: "t = live db3"
      by (auto simp: tx_then_Inr pg_stmt_Inr split: if_splits)
    have num: "num D val nb = num D val (w_Balance w) - num D val amount" using w(6) by (simp add: num_def)
    have ex: "exact8 D val nb" "exact8 D val amount"
      using w(6,7) a pg_abs_bal(2) [OF inv w(2)] num by (auto simp: exact8_def)
    note s1 = upd_balance_sim [OF inv w(2) u ex(1)]
    obtain w1 where w1: "w1 \<in> set (pg_wallets db1)" "w_ID w1 = w_ID w" "pg_key w1 = (u, c)"
      using s1(5) w(3) by auto
    have s2: "pg_inv D val db2" "u_ID req = ?i" "lg_holds (pg_abs D val db1) ?i = None"
      "pg_abs D val db2 = (pg_abs D val db1)\<lparr>lg_holds := (lg_holds (pg_abs D val db1))(?i \<mapsto> pg_hold D val ?q)\<rparr>"
      using ins_request_sim [OF s1(1) q, of w1] w1 ex(2) by simp_all
    have s3: "pg_inv D val db3" "pg_abs D val db3 = (pg_abs D val db2)
        \<lparr>lg_entries := lg_entries (pg_abs D val db2) @ [\<lparr>en_key = (u, c), en_delta = - num D val amount\<rparr>],
         lg_refs := lg_refs (pg_abs D val db2) \<union> {?i}\<rparr>"
      using ins_txn_sim [OF s2(1) i] ex(2) s2(2) by (simp_all add: pg_entry_def)
    have "balance0 (pg_abs D val db) (u, c) = num D val (w_Balance w)"
      by (simp add: balance0_def w(4))
    then have "pg_abs D val db3 = lg_request ?i (u, c) (num D val amount) (pg_abs D val db)"
      using s2(3) w(3,4,5) num
      by (simp add: s3(2) s2(4) s1(4) lg_request_def lg_post_def pg_hold_def pg_hold_status_def)
    then show ?thesis using s3(1) t by simp
  qed
  show "pg_inv D val db'"
    and "pg_abs D val db' = lg_request (e_uuid E 2) (u, c) (num D val amount) (pg_abs D val db) \<or> db' = db \<and> \<not> is_ok res"
    and "is_ok res \<Longrightarrow> pg_abs D val db' = lg_request (e_uuid E 2) (u, c) (num D val amount) (pg_abs D val db)"
    using pg_in_tx_sim [where f = "lg_request ?i (u, c) (num D val amount)", OF r [unfolded pg_RequestWithdrawal_def] inv]
      body by blast+
qed

lemma upd_request_sim:
  assumes inv: "pg_inv D val db" and r: "upd_request N i f db = Inr (db1, Some q')"
    and f: "\<And>q. u_ID (f q) = u_ID q \<and> u_UserID (f q) = u_UserID q \<and> u_Currency (f q) = u_Currency q
      \<and> u_Amount (f q) = u_Amount q \<and> u_WalletID (f q) = u_WalletID q \<and> u_Status (f q) = st"
    and st: "st \<in> {''approved'', ''rejected''}"
  obtains u q where "pl_uuid N i = Some u" "q \<in> set (pg_requests db)" "u_Status q = ''pending''"
    "lg_holds (pg_abs D val db) u = Some (pg_hold D val q)" "q' = f q"
    "pg_inv D val db1" "pg_wallets db1 = pg_wallets db" "pg_txns db1 = pg_txns db"
    "pg_abs D val db1 = (pg_abs D val db)\<lparr>lg_holds := (lg_holds (pg_abs D val db))(u \<mapsto> pg_hold D val (f q))\<rparr>"
proof -
  obtain u where u: "pl_uuid N i = Some u"
    using r by (auto simp: upd_request_def split: option.splits)
  define hit where "hit = (\<lambda>x::pg_request. u_ID x = u \<and> u_Status x = ''pending'')"
  have rs: "pg_requests db1 = List.map (\<lambda>x. if hit x then f x else x) (pg_requests db)"
    and rest: "pg_wallets db1 = pg_wallets db" "pg_txns db1 = pg_txns db"
    and fnd: "map_option f (List.find hit (pg_requests db)) = Some q'"
    using r u by (auto simp: upd_request_def Let_def hit_def)
  then obtain q where q: "List.find hit (pg_requests db) = Some q" "q' = f q" by auto
  then have qs: "q \<in> set (pg_requests db)" "u_ID q = u" "u_Status q = ''pending''"
    by (auto simp: find_Some_iff hit_def)
  have dist: "distinct (List.map u_ID (pg_requests db))" using inv by (simp add: pg_inv_def)
  have hit: "hit x \<longleftrightarrow> x = q" if "x \<in> set (pg_requests db)" for x
    using distinct_key_eq [OF dist qs(1) that] qs by (auto simp: hit_def)
  have find: "List.find (\<lambda>x. u_ID x = k) (pg_requests db1)
      = (if k = u then Some (f q) else List.find (\<lambda>x. u_ID x = k) (pg_requests db))" for k
    using find_key_update [where key = u_ID and xs = "pg_requests db" and hit = hit and g = f and x = q,
        OF dist qs(1) hit] f qs(2) by (simp add: rs)
  have h: "lg_holds (pg_abs D val db) u = Some (pg_hold D val q)"
  proof -
    have "List.find (\<lambda>x. u_ID x = u) (pg_requests db) = Some q"
      using dist qs by (simp add: find_key_iff)
    then show ?thesis by (simp add: pg_abs_def)
  qed
  have ids: "List.map u_ID (pg_requests db1) = List.map u_ID (pg_requests db)"
    unfolding rs using f by (intro map_key_update) simp
  have ok: "\<forall>x\<in>set (pg_requests db1). pg_request_ok D val db1 x"
  proof
    fix x assume "x \<in> set (pg_requests db1)"
    then obtain y where y: "y \<in> set (pg_requests db)" "x = (if hit y then f y else y)" by (auto simp: rs)
    then have "pg_request_ok D val db y" using inv by (simp add: pg_inv_def)
    then show "pg_request_ok D val db1 x" using y(2) f st by (auto simp: pg_request_ok_def rest)
  qed
  have "pg_inv D val db1"
    unfolding pg_inv_def ids using inv ok by (simp add: pg_inv_def rest)
  moreover have "pg_abs D val db1 = (pg_abs D val db)\<lparr>lg_holds := (lg_holds (pg_abs D val db))(u \<mapsto> pg_hold D val (f q))\<rparr>"
    using find by (auto simp: pg_abs_def rest fun_eq_iff)
  ultimately show thesis using that u qs h q(2) rest by blast
qed

lemma upd_txn_status_sim:
  assumes inv: "pg_inv D val db" and r: "upd_txn_status ref st db = Inr (db1, x)"
  shows "pg_inv D val db1" and "pg_abs D val db1 = pg_abs D val db" and "pg_wallets db1 = pg_wallets db"
    and "pg_requests db1 = pg_requests db"
proof -
  define g where "g = (\<lambda>t::pg_txn. if q_Reference t = Some ref then t\<lparr>q_Status := st\<rparr> else t)"
  have db1: "db1 = db\<lparr>pg_txns := List.map g (pg_txns db)\<rparr>"
    using r by (simp add: upd_txn_status_def g_def)
  have g: "pg_entry D val (g t) = pg_entry D val t" "q_Reference (g t) = q_Reference t" for t
    by (simp_all add: g_def pg_entry_def)
  show "pg_wallets db1 = pg_wallets db" "pg_requests db1 = pg_requests db" by (simp_all add: db1)
  show "pg_inv D val db1" using inv by (simp add: pg_inv_def db1 pg_request_ok_def)
  show "pg_abs D val db1 = pg_abs D val db" by (simp add: pg_abs_def db1 g image_image)
qed

lemma pg_ApproveWithdrawal_sim:
  assumes r: "pg_ApproveWithdrawal N E db i h by1 = (db', res)" and inv: "pg_inv D val db"
  shows "pg_inv D val db'"
    and "db' = db \<and> \<not> is_ok res \<or> (\<exists>u. pl_uuid N i = Some u \<and> pg_abs D val db' = lg_approve u (pg_abs D val db)
      \<and> pg_abs D val db' \<noteq> pg_abs D val db)"
proof -
  have body: "pg_inv D val (tx_db t) \<and> (\<exists>u. pl_uuid N i = Some u \<and>
      pg_abs D val (tx_db t) = lg_approve u (pg_abs D val db) \<and> pg_abs D val (tx_db t) \<noteq> pg_abs D val db)"
    if "pg_approve_body N E i h by1 (live db) = (t, Inr x)" for t x
  proof -
    note body = that [unfolded pg_approve_body_def]
    let ?f = "\<lambda>r. r\<lparr>u_Status := ''approved'', u_TxHash := Some h, u_ReviewedBy := Some by1\<rparr>"
    from body obtain db1 q' db2 where u1: "upd_request N i ?f db = Inr (db1, Some q')"
      and u2: "upd_txn_status i ''completed'' db1 = Inr (db2, ())" and t: "t = live db2"
      by (auto simp: tx_then_Inr pg_stmt_Inr split: option.splits)
    show ?thesis
    proof (rule upd_request_sim [OF inv u1, of "''approved''"])
      fix u q
      assume u: "pl_uuid N i = Some u" "u_Status q = ''pending''"
        "lg_holds (pg_abs D val db) u = Some (pg_hold D val q)" "pg_inv D val db1"
        "pg_abs D val db1 = (pg_abs D val db)\<lparr>lg_holds := (lg_holds (pg_abs D val db))(u \<mapsto> pg_hold D val (?f q))\<rparr>"
      note s = upd_txn_status_sim [OF u(4) u2]
      have "lg_holds (pg_abs D val db2) u \<noteq> lg_holds (pg_abs D val db) u"
        using u by (simp add: s pg_hold_def pg_hold_status_def)
      moreover have "pg_abs D val db2 = lg_approve u (pg_abs D val db)"
        using u by (simp add: s(2) lg_approve_def) (simp add: pg_hold_def pg_hold_status_def)
      ultimately show ?thesis using s(1) t u(1) by auto
    qed simp_all
  qed
  show "pg_inv D val db'"
    and "db' = db \<and> \<not> is_ok res \<or> (\<exists>u. pl_uuid N i = Some u \<and> pg_abs D val db' = lg_approve u (pg_abs D val db)
      \<and> pg_abs D val db' \<noteq> pg_abs D val db)"
    using r [unfolded pg_ApproveWithdrawal_def]
    by (cases rule: pg_in_tx_cases; use body inv in blast)+
qed

lemma pg_reject_body_Inr:
  assumes "pg_reject_body D N E i by1 (live db) = (t, Inr x)"
  shows "\<exists>db1 q' w nb db2 n db3 db4 stored.
      upd_request N i (\<lambda>r. r\<lparr>u_Status := ''rejected'', u_ReviewedBy := Some by1\<rparr>) db = Inr (db1, Some q')
      \<and> List.find (\<lambda>w. w_ID w = u_WalletID q') (pg_wallets db1) = Some w
      \<and> addDecimal D (w_Balance w) (u_Amount q') = Inr nb
      \<and> upd_balance N (genv.truncate E) nb (w_ID w) (w_Version w) db1 = Inr (db2, n)
      \<and> upd_txn_status i ''reversed'' db2 = Inr (db3, ())
      \<and> ins_txn N \<lparr>q_ID = e_uuid E 1, q_UserID = u_UserID q', q_WalletID = w_ID w,
          q_Currency = u_Currency q', q_Type = ''adjustment'', q_Amount = u_Amount q',
          q_BalanceBefore = w_Balance w, q_BalanceAfter = nb, q_Status = ''completed'',
          q_Reference = Some (i @ ''-reversal''), q_Metadata = None, q_CreatedAt = e_now E\<rparr> db3 = Inr (db4, stored)
      \<and> t = live db4"
  using assms unfolding pg_reject_body_def
  by (simp only: tx_then_Inr tx_branch_Inr) (clarsimp simp: pg_stmt_Inr sel_wallet_by_id_def)

lemma pg_RejectWithdrawal_sim:
  assumes r: "pg_RejectWithdrawal D N E db i by1 = (db', res)" and inv: "pg_inv D val db"
  shows "pg_inv D val db'"
    and "db' = db \<and> \<not> is_ok res \<or> (\<exists>u. pl_uuid N i = Some u
      \<and> pg_abs D val db' = lg_reject u {i @ ''-reversal''} (pg_abs D val db)
      \<and> pg_abs D val db' \<noteq> pg_abs D val db)"
proof -
  let ?E = "genv.truncate E"
  have body: "pg_inv D val (tx_db t) \<and> (\<exists>u. pl_uuid N i = Some u \<and>
      pg_abs D val (tx_db t) = lg_reject u {i @ ''-reversal''} (pg_abs D val db) \<and> pg_abs D val (tx_db t) \<noteq> pg_abs D val db)"
    if "pg_reject_body D N E i by1 (live db) = (t, Inr x)" for t x
  proof -
    let ?f = "\<lambda>r. r\<lparr>u_Status := ''rejected'', u_ReviewedBy := Some by1\<rparr>"
    from pg_reject_body_Inr [OF that] obtain db1 q' w nb db2 n db3 db4 stored where
      u1: "upd_request N i ?f db = Inr (db1, Some q')"
      and w: "List.find (\<lambda>w. w_ID w = u_WalletID q') (pg_wallets db1) = Some w"
      and ad: "addDecimal D (w_Balance w) (u_Amount q') = Inr nb"
      and u2: "upd_balance N ?E nb (w_ID w) (w_Version w) db1 = Inr (db2, n)"
      and u3: "upd_txn_status i ''reversed'' db2 = Inr (db3, ())"
      and ins: "ins_txn N \<lparr>q_ID = e_uuid E 1, q_UserID = u_UserID q', q_WalletID = w_ID w,
          q_Currency = u_Currency q', q_Type = ''adjustment'', q_Amount = u_Amount q',
          q_BalanceBefore = w_Balance w, q_BalanceAfter = nb, q_Status = ''completed'',
          q_Reference = Some (i @ ''-reversal''), q_Metadata = None, q_CreatedAt = e_now E\<rparr> db3 = Inr (db4, stored)"
      and t: "t = live db4"
      by blast
    show ?thesis
    proof (rule upd_request_sim [OF inv u1, of "''rejected''"])
      fix u q
      assume u: "pl_uuid N i = Some u" "u_Status q = ''pending''" "q \<in> set (pg_requests db)"
        "lg_holds (pg_abs D val db) u = Some (pg_hold D val q)" "pg_inv D val db1" "q' = ?f q"
        "pg_wallets db1 = pg_wallets db"
        "pg_abs D val db1 = (pg_abs D val db)\<lparr>lg_holds := (lg_holds (pg_abs D val db))(u \<mapsto> pg_hold D val (?f q))\<rparr>"
      have qok: "pg_request_ok D val db q" using inv u(3) by (simp add: pg_inv_def)
      have wm: "w \<in> set (pg_wallets db1)" "w_ID w = u_WalletID q" using find_key_Some [OF w] u(6) by auto
      have wk: "pg_key w = (u_UserID q, u_Currency q)"
        using qok wm u(7) pg_wallet_id [OF inv, of w] by (auto simp: pg_request_ok_def)
      note b = pg_abs_bal [OF u(5) wm(1)]
      note nb = addDecimal_Inr [OF ad]
      have ex: "exact8 D val nb" "exact8 D val (u_Amount q)"
        using b(2) qok nb(3,4) u(6) by (auto simp: exact8_def pg_request_ok_def)
      note s1 = upd_balance_sim [OF u(5) wm(1) u2 ex(1)]
      note s2 = upd_txn_status_sim [OF s1(1) u3]
      have s3: "pg_inv D val db4" "pg_abs D val db4 = (pg_abs D val db3)
          \<lparr>lg_entries := lg_entries (pg_abs D val db3) @ [\<lparr>en_key = pg_key w, en_delta = num D val (u_Amount q)\<rparr>],
           lg_refs := lg_refs (pg_abs D val db3) \<union> {i @ ''-reversal''}\<rparr>"
        using ins_txn_sim [OF s2(1) ins] ex(2) wk u(6) by (simp_all add: pg_entry_def)
      have bal: "balance0 (pg_abs D val db) (pg_key w) = num D val (w_Balance w)"
        using b(1) u(8) by (simp add: balance0_def)
      have num: "num D val nb = num D val (w_Balance w) + num D val (u_Amount q)" using nb(4) u(6) by simp
      have hk: "h_key (pg_hold D val q) = pg_key w" "h_amount (pg_hold D val q) = num D val (u_Amount q)"
        "h_status (pg_hold D val q) = Held"
        "pg_hold D val (?f q) = (pg_hold D val q)\<lparr>h_status := Returned\<rparr>"
        using wk u(2) by (simp_all add: pg_hold_def pg_hold_status_def)
      have "pg_abs D val db4 = lg_reject u {i @ ''-reversal''} (pg_abs D val db)"
        by (simp add: s3(2) s2(2) s1(4) u(8) lg_reject_def u(4) hk lg_post_def bal num)
      moreover have "lg_holds (pg_abs D val db4) u = Some ((pg_hold D val q)\<lparr>h_status := Returned\<rparr>)"
        by (simp add: s3(2) s2(2) s1(4) u(8) hk(4))
      then have "pg_abs D val db4 \<noteq> pg_abs D val db"
        using u(4) hk(3) by (auto dest: arg_cong [of _ _ "\<lambda>h. h_status (the (lg_holds h u))"])
      ultimately show ?thesis using s3(1) t u(1) by auto
    qed simp_all
  qed
  show "pg_inv D val db'"
    and "db' = db \<and> \<not> is_ok res \<or> (\<exists>u. pl_uuid N i = Some u
      \<and> pg_abs D val db' = lg_reject u {i @ ''-reversal''} (pg_abs D val db)
      \<and> pg_abs D val db' \<noteq> pg_abs D val db)"
    using r [unfolded pg_RejectWithdrawal_def]
    by (cases rule: pg_in_tx_cases; use body inv in blast)+
qed

end

lemma pg_used_ref_body:
  assumes "ref_used ref (pg_abs D val db)"
  shows "pg_debit_body D N E u c amount ref m (live db) = (t, Inr x) \<Longrightarrow> t = live db"
    and "pg_credit_body D N E u c amount ref m (live db) = (t, Inr x) \<Longrightarrow> t = live db"
proof -
  have used: "ref \<noteq> []" "Some ref \<in> q_Reference ` set (pg_txns db)"
    using assms by (auto simp: ref_used_def pg_abs_def)
  show "t = live db" if body: "pg_debit_body D N E u c amount ref m (live db) = (t, Inr x)"
  proof -
    obtain t0 r0 where ex: "pg_existing E 1 ''check reference id: '' ref (live db) = (t0, Inr r0)"
      using body by (auto simp: pg_debit_body_def tx_then_Inr)
    then obtain txn where "t0 = live db" "r0 = Some txn"
      using pg_existing_Inr [OF ex] used by (cases r0) auto
    with body ex show ?thesis by (simp add: pg_debit_body_def tx_then_def)
  qed
  show "t = live db" if body: "pg_credit_body D N E u c amount ref m (live db) = (t, Inr x)"
  proof -
    obtain t0 r0 where ex: "pg_existing E 1 ''check reference id: '' ref (live db) = (t0, Inr r0)"
      using body by (auto simp: pg_credit_body_def tx_then_Inr)
    then obtain txn where "t0 = live db" "r0 = Some txn"
      using pg_existing_Inr [OF ex] used by (cases r0) auto
    with body ex show ?thesis by (simp add: pg_credit_body_def tx_then_def)
  qed
qed

lemma pg_used_ref_call:
  assumes "ref_used ref (pg_abs D val db)"
  shows "fst (pg_DebitWallet D N E db u c amount ref m) = db"
    and "fst (pg_CreditWallet D N E db u c amount ref m) = db"
proof -
  show "fst (pg_DebitWallet D N E db u c amount ref m) = db"
  proof -
    obtain db' res where r: "pg_DebitWallet D N E db u c amount ref m = (db', res)" by force
    then show ?thesis unfolding pg_DebitWallet_def
      by (cases rule: pg_in_tx_cases) (use r in \<open>auto simp: pg_DebitWallet_def dest!: pg_used_ref_body(1) [OF assms]\<close>)
  qed
  show "fst (pg_CreditWallet D N E db u c amount ref m) = db"
  proof -
    obtain db' res where r: "pg_CreditWallet D N E db u c amount ref m = (db', res)" by force
    then show ?thesis unfolding pg_CreditWallet_def
      by (cases rule: pg_in_tx_cases) (use r in \<open>auto simp: pg_CreditWallet_def dest!: pg_used_ref_body(2) [OF assms]\<close>)
  qed
qed

section \<open>Wallets and addresses\<close>

lemma find_map_key:
  "(\<And>x. key (g x) = key x) \<Longrightarrow>
    List.find (\<lambda>x. key x = k) (List.map g xs) = map_option g (List.find (\<lambda>x. key x = k) xs)"
  by (induction xs) auto

context pg_server
begin

lemma upsert_wallet_sim:
  assumes inv: "pg_inv D val db" and r: "upsert_wallet N E u c db = Inr (db1, w)"
  shows "pg_inv D val db1 \<and> pg_abs D val db1 = lg_open (u, c) (pg_abs D val db)"
proof (cases "List.find (\<lambda>w. w_UserID w = u \<and> w_Currency w = c) (pg_wallets db)")
  case None
  then show ?thesis
    using r ins_wallet_sim [OF inv, of E u c db1 w] by (simp add: upsert_wallet_def)
next
  case (Some w0)
  define g where "g = (\<lambda>w::wallet. if w_UserID w = u \<and> w_Currency w = c then w\<lparr>w_UpdatedAt := e_now E\<rparr> else w)"
  have g: "w_ID (g x) = w_ID x" "pg_key (g x) = pg_key x" "w_Balance (g x) = w_Balance x" for x
    by (simp_all add: g_def pg_key_def)
  have db1: "db1 = db\<lparr>pg_wallets := List.map g (pg_wallets db)\<rparr>"
    using r Some by (auto simp: upsert_wallet_def g_def Let_def)
  have ids: "List.map w_ID (pg_wallets db1) = List.map w_ID (pg_wallets db)"
    "List.map pg_key (pg_wallets db1) = List.map pg_key (pg_wallets db)"
    by (simp_all add: db1 g)
  have "pg_inv D val db1"
    unfolding pg_inv_def ids using inv by (auto simp: pg_inv_def db1 g pg_request_ok_def)
  moreover have "pg_abs D val db1 = pg_abs D val db"
    by (auto simp: pg_abs_def db1 find_map_key g fun_eq_iff option.map_comp comp_def)
  moreover have "lg_open (u, c) (pg_abs D val db) = pg_abs D val db"
    using sel_wallet_sim(3) [OF inv Some] by (simp add: lg_open_def)
  ultimately show ?thesis by simp
qed

lemma pg_CreateWallet_sim:
  assumes inv: "pg_inv D val db" and r: "pg_CreateWallet N E db u c = (db', res)"
  shows "pg_inv D val db' \<and> (db' = db \<or> pg_abs D val db' = lg_open (u, c) (pg_abs D val db))"
  using r inv upsert_wallet_sim [OF inv, of "genv.truncate E" u c]
  by (auto simp: pg_CreateWallet_def pg_auto_def split: sum.splits prod.splits option.splits if_splits)

lemma pg_CreateDepositAddress_sim:
  assumes inv: "pg_inv D val db" and r: "pg_CreateDepositAddress E db addr = (db', res)"
  shows "pg_inv D val db' \<and> pg_abs D val db' = pg_abs D val db"
proof -
  have *: "pg_inv D val (db\<lparr>pg_addresses := a\<rparr>) \<and> pg_abs D val (db\<lparr>pg_addresses := a\<rparr>) = pg_abs D val db" for a
    using inv by (simp add: pg_inv_def pg_abs_def pg_request_ok_def)
  show ?thesis
    using r inv * by (auto simp: pg_CreateDepositAddress_def pg_auto_def ins_address_def Let_def
        split: sum.splits prod.splits option.splits if_splits)
qed

end

end
