(* ===== verification/WalletPGProps.thy ===== *)
theory WalletPGProps
  imports WalletPGSim
begin

text \<open>
  The Postgres store as a state machine, with any statement or commit failing at any time.  It
  implements the abstract ledger (\<open>ledger_impl\<close>), which gives the properties of every reachable
  state; each operation is atomic, and a retry after a lost reply moves no money.
\<close>

section \<open>The calls as steps\<close>

fun pg_exec :: "'d decimal_ops \<Rightarrow> pg_lib \<Rightarrow> pg_env \<Rightarrow> wallet_call \<Rightarrow> pg_db \<Rightarrow> pg_db" where
  "pg_exec D N E (CallCreateWallet u c) s = fst (pg_CreateWallet N E s u c)"
| "pg_exec D N E (CallCredit u c amount ref m) s = fst (pg_CreditWallet D N E s u c amount ref m)"
| "pg_exec D N E (CallDebit u c amount ref m) s = fst (pg_DebitWallet D N E s u c amount ref m)"
| "pg_exec D N E (CallCreateAddress addr) s = fst (pg_CreateDepositAddress E s addr)"
| "pg_exec D N E (CallRequest u c amount dest chain) s = fst (pg_RequestWithdrawal D N E s u c amount dest chain)"
| "pg_exec D N E (CallApprove i txHash by1) s = fst (pg_ApproveWithdrawal N E s i txHash by1)"
| "pg_exec D N E (CallReject i by1) s = fst (pg_RejectWithdrawal D N E s i by1)"

text \<open>The amount a call moves has at most eight decimals.\<close>

fun scale8_call :: "'d decimal_ops \<Rightarrow> ('d \<Rightarrow> rat) \<Rightarrow> wallet_call \<Rightarrow> bool" where
  "scale8_call D val (CallCredit u c amount ref m) = scale8 (num D val amount)"
| "scale8_call D val (CallDebit u c amount ref m) = scale8 (num D val amount)"
| "scale8_call D val (CallRequest u c amount dest chain) = scale8 (num D val amount)"
| "scale8_call D val _ = True"

inductive pg_step :: "'d decimal_ops \<Rightarrow> pg_lib \<Rightarrow> (wallet_call \<Rightarrow> bool) \<Rightarrow> pg_db \<Rightarrow> pg_db \<Rightarrow> bool"
  for D N P where
  "P call \<Longrightarrow> pg_step D N P s (pg_exec D N E call s)"

lemma pg_inv_init: "pg_inv D val pg_empty" "pg_abs D val pg_empty = lg_empty"
  by (auto simp: pg_inv_def pg_empty_def pg_abs_def lg_empty_def)

context pg_server
begin

lemma pg_exec_sim:
  assumes inv: "pg_inv D val s" and ok: "scale8_call D val call" and nn: "M \<longrightarrow> nonneg_call D val call"
  shows "pg_inv D val (pg_exec D N E call s) \<and>
    (\<exists>ops. (\<forall>op\<in>set ops. M \<longrightarrow> nonneg_op op) \<and>
      pg_abs D val (pg_exec D N E call s) = lg_run ops (pg_abs D val s))" (is "?goal (pg_exec D N E call s)")
proof -
  have one: "?goal t" if "pg_inv D val t" "M \<longrightarrow> nonneg_op op"
    "pg_abs D val t = lg_exec op (pg_abs D val s) \<or> t = s" for t op
  proof (cases "t = s")
    case True
    then show ?thesis using that by (auto intro!: exI [of _ "[]"])
  next
    case False
    then show ?thesis using that by (auto intro!: exI [of _ "[op]"])
  qed
  show ?thesis
  proof (cases call)
    case (CallCreateWallet u c)
    obtain t res where r: "pg_CreateWallet N E s u c = (t, res)" by force
    show ?thesis
      using one [of t "OpOpen (u, c)"] pg_CreateWallet_sim [OF inv r] r by (auto simp: CallCreateWallet)
  next
    case (CallCredit u c amount ref m)
    obtain t res where r: "pg_CreditWallet D N E s u c amount ref m = (t, res)" by force
    have a: "scale8 (num D val amount)" using ok CallCredit by simp
    show ?thesis
      using one [of t "OpCredit (u, c) (num D val amount) ref"] pg_CreditWallet_sim(1,2) [OF r inv a] r nn
      by (auto simp: CallCredit)
  next
    case (CallDebit u c amount ref m)
    obtain t res where r: "pg_DebitWallet D N E s u c amount ref m = (t, res)" by force
    have a: "scale8 (num D val amount)" using ok CallDebit by simp
    show ?thesis
      using one [of t "OpDebit (u, c) (num D val amount) ref"] pg_DebitWallet_sim(1,2) [OF r inv a] r nn
      by (auto simp: CallDebit)
  next
    case (CallRequest u c amount dest chain)
    obtain t res where r: "pg_RequestWithdrawal D N E s u c amount dest chain = (t, res)" by force
    have a: "scale8 (num D val amount)" using ok CallRequest by simp
    show ?thesis
      using one [of t "OpRequest (e_uuid E 2) (u, c) (num D val amount)"] r nn
        pg_RequestWithdrawal_sim(1,2) [OF r inv a]
      by (auto simp: CallRequest)
  next
    case (CallApprove i h by1)
    obtain t res where r: "pg_ApproveWithdrawal N E s i h by1 = (t, res)" by force
    note sim = pg_ApproveWithdrawal_sim [OF r inv]
    then obtain u where "pg_abs D val t = lg_approve u (pg_abs D val s) \<or> t = s" by blast
    with one [of t "OpApprove u"] sim(1) r show ?thesis by (simp add: CallApprove)
  next
    case (CallReject i by1)
    obtain t res where r: "pg_RejectWithdrawal D N E s i by1 = (t, res)" by force
    note sim = pg_RejectWithdrawal_sim [OF r inv]
    then obtain u where "pg_abs D val t = lg_reject u {i @ ''-reversal''} (pg_abs D val s) \<or> t = s" by blast
    with one [of t "OpReject u {i @ ''-reversal''}"] sim(1) r show ?thesis by (simp add: CallReject)
  next
    case (CallCreateAddress addr)
    obtain t res where r: "pg_CreateDepositAddress E s addr = (t, res)" by force
    show ?thesis
      using pg_CreateDepositAddress_sim [OF inv r] r by (auto simp: CallCreateAddress intro!: exI [of _ "[]"])
  qed
qed

end

sublocale pg_server \<subseteq> pg: ledger_impl pg_empty "pg_step D N (scale8_call D val)" "pg_inv D val"
  "pg_abs D val" "\<lambda>_. True"
proof (unfold_locales, goal_cases)
  case (3 s t)
  then show ?case using pg_exec_sim [where M = False] by (auto simp: pg_step.simps)
next
  case (4 s t)
  then show ?case using pg_exec_sim [where M = False] by (auto simp: pg_step.simps)
qed (simp_all add: pg_inv_init)

sublocale pg_server \<subseteq> pgn: nonneg_ledger_impl pg_empty
  "pg_step D N (\<lambda>call. scale8_call D val call \<and> nonneg_call D val call)" "pg_inv D val" "pg_abs D val" nonneg_op
proof (unfold_locales, goal_cases)
  case (3 s t)
  then show ?case using pg_exec_sim [where M = True] by (auto simp: pg_step.simps)
next
  case (4 s t)
  then show ?case using pg_exec_sim [where M = True] by (auto simp: pg_step.simps)
qed (simp_all add: pg_inv_init)

context pg_server
begin

lemmas pg_reach_inv = pg.reach_inv
lemmas pg_reach_reconciles = pg.reach_reconciles
lemmas pg_reach_nonneg = pgn.reach_nonneg
lemmas pgn_reach_inv = pgn.reach_inv

lemma pg_reach_inv2: "reach s (pg_step D N (scale8_call D val)) t \<Longrightarrow> pg_inv D val s \<Longrightarrow> pg_inv D val t"
  using pg.reach_from by blast

lemma pg_debit_covered:
  assumes inv: "pg_inv D val db" and unused: "\<not> ref_used ref (pg_abs D val db)"
    and r: "pg_DebitWallet D N E db u c amount ref m = (db1, Inr t)"
  shows "\<exists>b. lg_bal (pg_abs D val db) (u, c) = Some b \<and> num D val amount \<le> b"
proof -
  from r obtain t1 x where body: "pg_debit_body D N E u c amount ref m (live db) = (t1, Inr x)"
    unfolding pg_DebitWallet_def by (cases rule: pg_in_tx_cases) auto
  then obtain t0 r0 where ex: "pg_existing E 1 ''check reference id: '' ref (live db) = (t0, Inr r0)"
    by (auto simp: pg_debit_body_def tx_then_Inr)
  have "r0 = None" "t0 = live db"
    using pg_existing_Inr [OF ex] unused by (auto simp: ref_used_def pg_abs_def)
  then obtain t2 w nb where "pg_covered D E ''debit wallet: '' u c amount (live db) = (t2, Inr (w, nb))"
    using body ex by (auto simp: pg_debit_body_def tx_then_Inr)
  from pg_covered_Inr [OF this inv] show ?thesis by auto
qed
lemmas pg_reach_ref_used = pg.reach_ref_used
lemmas pg_reach_decided = pg.reach_decided

end

section \<open>Atomicity\<close>

definition nofault :: "pg_env \<Rightarrow> pg_env" where
  "nofault E = E\<lparr>pe_fault := \<lambda>_. None\<rparr>"

lemma nofault_simps [simp]:
  "pe_fault (nofault E) n = None" "genv.truncate (nofault E) = genv.truncate E"
  "e_now (nofault E) = e_now E" "e_uuid (nofault E) = e_uuid E"
  by (simp_all add: nofault_def genv.truncate_def)

lemma pg_stmt_nofault: "pg_stmt E n f t = (t', Inr x) \<Longrightarrow> pg_stmt (nofault E) n f t = (t', Inr x)"
  by (auto simp: pg_stmt_def split: if_splits option.splits sum.splits)

lemma tx_then_mono:
  "tx_then r wrap k = (t, Inr y) \<Longrightarrow> (\<And>t1 x. r = (t1, Inr x) \<Longrightarrow> r' = (t1, Inr x)) \<Longrightarrow>
    (\<And>t1 x. r = (t1, Inr x) \<Longrightarrow> k t1 x = (t, Inr y) \<Longrightarrow> k' t1 x = (t, Inr y)) \<Longrightarrow> tx_then r' wrap k' = (t, Inr y)"
  by (auto simp: tx_then_Inr)

lemma pg_getTransactionByID_nofault:
  "pg_getTransactionByID E n i t = (t', Inr x) \<Longrightarrow> pg_getTransactionByID (nofault E) n i t = (t', Inr x)"
  unfolding pg_getTransactionByID_def by (erule tx_then_mono) (simp_all add: pg_stmt_nofault)

lemma pg_existing_nofault:
  assumes "pg_existing E n p ref t = (t', Inr x)"
  shows "pg_existing (nofault E) n p ref t = (t', Inr x)"
proof (cases "ref = []")
  case True
  with assms show ?thesis by (simp add: pg_existing_def)
next
  case False
  have "tx_then (pg_stmt E n (sel_txn_by_ref ref) t) (WrapErr p)
      (\<lambda>t r. case r of
         None \<Rightarrow> (t, Inr None)
       | Some i \<Rightarrow> tx_then (pg_getTransactionByID E (n + 1) i t)
                    (WrapErr ''get existing transaction: '') (\<lambda>t txn. (t, Inr (Some txn)))) = (t', Inr x)"
    using assms by (simp only: pg_existing_def False if_False)
  then have "tx_then (pg_stmt (nofault E) n (sel_txn_by_ref ref) t) (WrapErr p)
      (\<lambda>t r. case r of
         None \<Rightarrow> (t, Inr None)
       | Some i \<Rightarrow> tx_then (pg_getTransactionByID (nofault E) (n + 1) i t)
                    (WrapErr ''get existing transaction: '') (\<lambda>t txn. (t, Inr (Some txn)))) = (t', Inr x)"
    by (rule tx_then_mono)
      (auto simp: pg_stmt_nofault split: option.splits elim!: tx_then_mono pg_getTransactionByID_nofault)
  then show ?thesis by (simp only: pg_existing_def False if_False)
qed

lemma pg_covered_nofault:
  "pg_covered D E p u c a t = (t', Inr x) \<Longrightarrow> pg_covered D (nofault E) p u c a t = (t', Inr x)"
  unfolding pg_covered_def by (erule tx_then_mono) (simp_all add: pg_stmt_nofault)

lemma pg_move_nofault:
  assumes "pg_move N E u c w typ a nb ref m t0 = (t, Inr x)"
  shows "pg_move N (nofault E) u c w typ a nb ref m t0 = (t, Inr x)"
  using assms unfolding pg_move_def
proof (rule tx_then_mono, goal_cases)
  case (1 t1 rows)
  then show ?case by (simp add: pg_stmt_nofault)
next
  case (2 t1 rows)
  let ?row = "\<lparr>q_ID = e_uuid E 1, q_UserID = u, q_WalletID = w_ID w, q_Currency = c,
                       q_Type = typ, q_Amount = a, q_BalanceBefore = w_Balance w,
                       q_BalanceAfter = nb, q_Status = ''completed'',
                       q_Reference = (if ref = [] then None else Some ref),
                       q_Metadata = pl_jsonb N m, q_CreatedAt = e_now E\<rparr>"
  obtain t2 r where ins: "pg_stmt E 6 (ins_txn N ?row) t1 = (t2, r)" by force
  show ?case
  proof (cases r)
    case (Inl e)
    then have "tx_aborted t2" using ins pg_stmt_Inl by blast
    with 2 Inl ins show ?thesis
      using pg_existing_aborted [of t2 E 7 "''check reference id after insert failure: ''" ref]
      by (auto simp: tx_then_def split: if_splits option.splits prod.splits sum.splits)
  next
    case (Inr stored)
    with 2 ins show ?thesis by (auto simp: pg_stmt_nofault split: if_splits)
  qed
qed

lemma pg_credit_body_nofault:
  "pg_credit_body D N E u c a ref m t0 = (t, Inr x) \<Longrightarrow> pg_credit_body D N (nofault E) u c a ref m t0 = (t, Inr x)"
  unfolding pg_credit_body_def
  by (erule tx_then_mono; simp add: pg_existing_nofault split: option.splits;
      erule tx_then_mono; (erule tx_then_mono)?; simp add: pg_stmt_nofault pg_move_nofault split: option.splits sum.splits)

lemma pg_debit_body_nofault:
  "pg_debit_body D N E u c a ref m t0 = (t, Inr x) \<Longrightarrow> pg_debit_body D N (nofault E) u c a ref m t0 = (t, Inr x)"
  unfolding pg_debit_body_def
  by (erule tx_then_mono; simp add: pg_existing_nofault split: option.splits prod.splits;
      erule tx_then_mono; simp add: pg_covered_nofault pg_move_nofault split: prod.splits)

lemma pg_request_body_nofault:
  "pg_request_body D N E u c a dest chain t0 = (t, Inr x) \<Longrightarrow> pg_request_body D N (nofault E) u c a dest chain t0 = (t, Inr x)"
  unfolding pg_request_body_def
  by (erule tx_then_mono, erule pg_covered_nofault)
    (auto split: prod.splits if_splits elim!: tx_then_mono pg_stmt_nofault)

lemma pg_approve_body_nofault:
  "pg_approve_body N E i h by1 t0 = (t, Inr x) \<Longrightarrow> pg_approve_body N (nofault E) i h by1 t0 = (t, Inr x)"
  unfolding pg_approve_body_def
  by (erule tx_then_mono, erule pg_stmt_nofault)
    (auto split: option.splits elim!: tx_then_mono pg_stmt_nofault)

lemma pg_reject_body_nofault:
  "pg_reject_body D N E i by1 t0 = (t, Inr x) \<Longrightarrow> pg_reject_body D N (nofault E) i by1 t0 = (t, Inr x)"
  unfolding pg_reject_body_def
  by (erule tx_then_mono, erule pg_stmt_nofault)
    (auto simp: tx_branch_Inr split: option.splits sum.splits if_splits elim!: tx_then_mono pg_stmt_nofault)

lemma pg_in_tx_nofault:
  assumes "\<And>t x. body (live db) = (t, Inr x) \<Longrightarrow> body' (live db) = (t, Inr x)"
  shows "fst (pg_in_tx E body db) = db \<or> fst (pg_in_tx E body db) = fst (pg_in_tx (nofault E) body' db)"
proof -
  obtain db' res where r: "pg_in_tx E body db = (db', res)" by force
  then show ?thesis
  proof (cases rule: pg_in_tx_cases)
    case (all t x)
    then show ?thesis using r assms by (auto simp: pg_in_tx_def)
  next
    case nothing
    then show ?thesis using r by simp
  qed
qed

lemma pg_auto_nofault:
  "fst (pg_auto (at_site n E) f db) = db \<or> fst (pg_auto (at_site n E) f db) = fst (pg_auto (at_site n (nofault E)) f db)"
  by (auto simp: pg_auto_def split: sum.splits option.splits prod.splits)

text \<open>
  C3: every operation of the Postgres store is atomic.  Whatever statement or commit fails, the
  tables afterwards are either exactly what they were before, or exactly what the same operation
  leaves when nothing fails.
\<close>
theorem pg_atomic:
  "pg_exec D N E call db = db \<or> pg_exec D N E call db = pg_exec D N (nofault E) call db"
proof (cases call)
  case (CallCreateWallet u c)
  then show ?thesis
    using pg_auto_nofault [of 10 E "upsert_wallet N (genv.truncate E) u c" db]
    by (auto simp: pg_CreateWallet_def split: prod.splits sum.splits)
next
  case (CallCreateAddress addr)
  then show ?thesis
    using pg_auto_nofault [of 10 E "ins_address (genv.truncate E) addr" db]
    by (auto simp: pg_CreateDepositAddress_def split: prod.splits sum.splits)
qed (simp_all add: pg_CreditWallet_def pg_DebitWallet_def pg_RequestWithdrawal_def pg_ApproveWithdrawal_def
      pg_RejectWithdrawal_def pg_in_tx_nofault pg_credit_body_nofault pg_debit_body_nofault
      pg_request_body_nofault pg_approve_body_nofault pg_reject_body_nofault)


section \<open>Properties\<close>

text \<open>
  C5: in every state the Postgres store can reach, with any calls, failures and lost replies, as
  long as the amounts have at most eight decimals, the balance of every wallet is the sum of the
  transactions of its user and currency.
\<close>
theorem pg_balance_is_sum_of_transactions:
  assumes "pg_server D val N" and "reach pg_empty (pg_step D N (scale8_call D val)) db"
    and "w \<in> set (pg_wallets db)"
  shows "num D val (w_Balance w) = entry_sum (List.map (pg_entry D val) (pg_txns db)) (w_UserID w, w_Currency w)"
proof -
  have inv: "pg_inv D val db"
    using assms(1,2) by (rule pg_server.pg_reach_inv)
  have "reconciles (pg_abs D val db)"
    using assms(1,2) by (rule pg_server.pg_reach_reconciles)
  then have "balance0 (pg_abs D val db) (pg_key w) = entry_sum (lg_entries (pg_abs D val db)) (pg_key w)"
    unfolding reconciles_def by blast
  then show ?thesis
    using pg_server.pg_abs_bal(1) [OF assms(1) inv assms(3)]
    by (simp add: balance0_def pg_key_def) (simp add: pg_abs_def)
qed

text \<open>
  C10: when the amounts have at most eight decimals and are not negative, no reachable state of the Postgres store has a
  wallet with a negative balance.
\<close>
theorem pg_balance_nonneg:
  assumes "pg_server D val N"
    and "reach pg_empty (pg_step D N (\<lambda>call. scale8_call D val call \<and> nonneg_call D val call)) db"
    and "w \<in> set (pg_wallets db)"
  shows "0 \<le> num D val (w_Balance w)"
proof -
  have n: "nonneg_ledger (pg_abs D val db)"
    using assms(1,2) by (rule pg_server.pg_reach_nonneg)
  have inv: "pg_inv D val db"
    using assms(1,2) by (rule pg_server.pgn_reach_inv)
  have "0 \<le> balance0 (pg_abs D val db) (pg_key w)"
    using n unfolding nonneg_ledger_def by blast
  then show ?thesis
    using pg_server.pg_abs_bal(1) [OF assms(1) inv assms(3)] by (simp add: balance0_def)
qed

text \<open>
  C11: a debit takes effect at most once per reference, even when its reply is lost.  If
  \<open>DebitWallet\<close> with a non-empty reference succeeded, or failed but changed the tables (a commit
  whose reply was lost), then any later credit or debit with that reference, after any other
  calls, leaves the tables as they are.  The amounts before it have at most eight decimals.
\<close>
theorem pg_debit_at_most_once:
  assumes "pg_server D val N" and "reach pg_empty (pg_step D N (scale8_call D val)) db"
    and "pg_DebitWallet D N E db u c amount ref m = (db1, res)" and "scale8 (num D val amount)"
    and "ref \<noteq> []" and "is_ok res \<or> db1 \<noteq> db"
    and "reach db1 (pg_step D N (scale8_call D val)) db2"
  shows "fst (pg_DebitWallet D N E' db2 u' c' amount' ref m') = db2
    \<and> fst (pg_CreditWallet D N E' db2 u' c' amount' ref m') = db2"
proof -
  have inv: "pg_inv D val db"
    using assms(1,2) by (rule pg_server.pg_reach_inv)
  note sim = pg_server.pg_DebitWallet_sim [OF assms(1,3) inv assms(4)]
  have "ref_used ref (pg_abs D val db2)"
    using pg_server.pg_reach_ref_used [OF assms(1,7) sim(1)] sim(4) [OF assms(5,6)] .
  then show ?thesis
    using pg_used_ref_call by blast
qed

lemma debit_exact:
  assumes "pg_server D val N" and inv: "pg_inv D val db"
    and "scale8 (num D val amount)"
    and "pg_DebitWallet D N E db u c amount ref m = (db1, Inr t)"
  shows "ref_used ref (pg_abs D val db) \<and> db1 = db
    \<or> num D val amount \<le> balance0 (pg_abs D val db) (u, c)
      \<and> (\<forall>k. balance0 (pg_abs D val db1) k
            = balance0 (pg_abs D val db) k - (if k = (u, c) then num D val amount else 0))"
proof (cases "ref_used ref (pg_abs D val db)")
  case True
  then show ?thesis
    using pg_used_ref_call(1) [OF True] assms(4) by (metis fst_conv)
next
  case False
  obtain b where b: "lg_bal (pg_abs D val db) (u, c) = Some b" "num D val amount \<le> b"
    using pg_server.pg_debit_covered [OF assms(1) inv False assms(4)] by blast
  have "pg_abs D val db1 = lg_debit (u, c) (num D val amount) ref (pg_abs D val db)"
    using pg_server.pg_DebitWallet_sim(3) [OF assms(1,4) inv assms(3)] by simp
  then show ?thesis
    using b False by (simp add: lg_debit_def) (simp add: balance0_def)
qed

lemma credit_exact:
  assumes "pg_server D val N" and "pg_inv D val db" and "scale8 (num D val amount)"
    and "pg_CreditWallet D N E db u c amount ref m = (db1, Inr t)"
  shows "ref_used ref (pg_abs D val db) \<and> db1 = db
    \<or> (\<forall>k. balance0 (pg_abs D val db1) k
            = balance0 (pg_abs D val db) k + (if k = (u, c) then num D val amount else 0))"
proof (cases "ref_used ref (pg_abs D val db)")
  case True
  then show ?thesis
    using pg_used_ref_call(2) [OF True] assms(4) by (metis fst_conv)
next
  case False
  have "pg_abs D val db1 = lg_credit (u, c) (num D val amount) ref (pg_abs D val db)"
    using pg_server.pg_CreditWallet_sim(3) [OF assms(1,4,2,3)] by simp
  then show ?thesis using False by (simp add: lg_credit_def)
qed

text \<open>
  C12: what a debit does, for an amount of at most eight decimals, when every amount before it had at
  most eight.  If \<open>DebitWallet\<close> succeeds, either its reference had been used and nothing changes, or
  the account had at least the amount and loses exactly the amount, and no other account changes.
\<close>
theorem pg_debit_exact:
  assumes "pg_server D val N" and "reach pg_empty (pg_step D N (scale8_call D val)) db"
    and "scale8 (num D val amount)"
    and "pg_DebitWallet D N E db u c amount ref m = (db1, Inr t)"
  shows "ref_used ref (pg_abs D val db) \<and> db1 = db
    \<or> num D val amount \<le> balance0 (pg_abs D val db) (u, c)
      \<and> (\<forall>k. balance0 (pg_abs D val db1) k
            = balance0 (pg_abs D val db) k - (if k = (u, c) then num D val amount else 0))"
  using pg_server.pg_reach_inv [OF assms(1,2)] assms(1,3,4) by (intro debit_exact)

text \<open>
  C14: a withdrawal is decided at most once on Postgres too: once a request is approved or
  rejected, every later \<open>ApproveWithdrawal\<close> and \<open>RejectWithdrawal\<close> of it leaves the tables as
  they are and fails.  The amounts of all calls have at most eight decimals.
\<close>
theorem pg_decided_once:
  assumes "pg_server D val N" and "reach pg_empty (pg_step D N (scale8_call D val)) db"
    and "r \<in> set (pg_requests db)" and "u_Status r \<noteq> ''pending''" and "pl_uuid N i = Some (u_ID r)"
    and "reach db (pg_step D N (scale8_call D val)) db'"
  shows "fst (pg_ApproveWithdrawal N E db' i h by1) = db' \<and> \<not> is_ok (snd (pg_ApproveWithdrawal N E db' i h by1))
    \<and> fst (pg_RejectWithdrawal D N E db' i by1) = db' \<and> \<not> is_ok (snd (pg_RejectWithdrawal D N E db' i by1))"
proof -
  have inv: "pg_inv D val db"
    using assms(1,2) by (rule pg_server.pg_reach_inv)
  have "List.find (\<lambda>x. u_ID x = u_ID r) (pg_requests db) = Some r"
    using inv assms(3) by (subst find_key_iff) (auto simp: pg_inv_def)
  then have "decided (u_ID r) (pg_abs D val db)"
    using assms(4) by (simp add: decided_def pg_abs_def pg_hold_def pg_hold_status_def)
  then have dec: "decided (u_ID r) (pg_abs D val db')"
    using pg_server.pg_reach_decided [OF assms(1,6) inv] by blast
  have inv': "pg_inv D val db'"
    using pg_server.pg_reach_inv2 [OF assms(1,6) inv] .
  obtain db1 res where a: "pg_ApproveWithdrawal N E db' i h by1 = (db1, res)" by force
  obtain db2 res2 where b: "pg_RejectWithdrawal D N E db' i by1 = (db2, res2)" by force
  obtain hd where hd: "lg_holds (pg_abs D val db') (u_ID r) = Some hd" "h_status hd \<noteq> Held"
    using dec by (auto simp: decided_def)
  have "lg_approve (u_ID r) (pg_abs D val db') = pg_abs D val db'"
    "lg_reject (u_ID r) rs (pg_abs D val db') = pg_abs D val db'" for rs
    using hd by (simp_all add: lg_approve_def lg_reject_def)
  then show ?thesis
    using pg_server.pg_ApproveWithdrawal_sim(2) [OF assms(1) a inv']
      pg_server.pg_RejectWithdrawal_sim(2) [OF assms(1) b inv'] a b assms(5)
    by auto
qed


section \<open>An example\<close>

text \<open>A server that prints a number of at most eight decimals as it was given.\<close>

definition example_server :: pg_lib where
  "example_server =
     \<lparr>pl_numeric = (\<lambda>s. case dec_parse s of
        Inl e \<Rightarrow> None
      | Inr d \<Rightarrow> Some (if dec_scale d \<le> 8 then s else dec_string (dec_fixed_bank d 8))),
      pl_jsonb = map_option (\<lambda>m. ''{}''),
      pl_uuid = (\<lambda>i. if i = [] then None else Some i)\<rparr>"

lemma fixed_bank_exact:
  assumes "scale8 (dec_val d)"
  shows "dec_val (dec_fixed_bank d 8) = dec_val d"
proof -
  obtain m :: int where m: "dec_val (dec_fixed_bank d 8) * 10 ^ 8 = of_int m"
    and b: "\<bar>dec_val (dec_fixed_bank d 8) - dec_val d\<bar> * 10 ^ 8 \<le> 1 / 2"
    using dec_fixed_bank_props [of d 8] by auto
  have n: "of_int \<lfloor>dec_val d * 10 ^ 8\<rfloor> = dec_val d * 10 ^ 8"
    using assms by (simp only: scale8_def)
  define n' where "n' = \<lfloor>dec_val d * 10 ^ 8\<rfloor>"
  have "\<bar>of_int m - of_int n'\<bar> \<le> (1 / 2 :: rat)"
  proof -
    have "\<bar>dec_val (dec_fixed_bank d 8) - dec_val d\<bar> * 10 ^ 8
        = \<bar>(dec_val (dec_fixed_bank d 8) - dec_val d) * 10 ^ 8\<bar>"
      by (simp only: abs_mult) simp
    also have "\<dots> = \<bar>of_int m - of_int n'\<bar>"
      by (simp only: left_diff_distrib m n'_def n)
    finally show ?thesis using b by simp
  qed
  then have "of_int \<bar>m - n'\<bar> < (1 :: rat)"
    by simp
  then have "m = n'" by (simp only: of_int_less_1_iff)
  then have "dec_val (dec_fixed_bank d 8) * 10 ^ 8 = dec_val d * 10 ^ 8"
    using m n by (simp only: n'_def)
  then show ?thesis by simp
qed

interpretation refpg: pg_server dec_ops dec_val example_server
proof (unfold_locales, goal_cases)
  case (1 s s')
  then obtain d where d: "dec_parse s = Inr d"
    "s' = (if dec_scale d \<le> 8 then s else dec_string (dec_fixed_bank d 8))"
    by (auto simp: example_server_def split: sum.splits if_splits)
  have "dval dec_ops dec_val s = Some (dec_val d)"
    using d by (simp add: dval_def dec_ops_def)
  then show ?case
    using 1 d by (simp add: exact8_def num_def dval_dec_string fixed_bank_exact)
next
  case (2 i u)
  then show ?case by (auto simp: example_server_def split: if_splits)
qed

definition example_pg_env :: "string \<Rightarrow> pg_env" where
  "example_pg_env p =
     \<lparr>e_now = 7, e_uuid = (\<lambda>n. p @ digits n), pe_fault = (\<lambda>_. None), pe_applied = False\<rparr>"

text \<open>The reply of the commit is lost after the server has applied it.\<close>

definition lost_reply_env :: "string \<Rightarrow> pg_env" where
  "lost_reply_env p =
     (example_pg_env p)\<lparr>pe_fault := (\<lambda>n. if n = 101 then Some ''connection reset'' else None), pe_applied := True\<rparr>"

fun pg_run :: "wallet_call list \<Rightarrow> pg_db \<Rightarrow> pg_db" where
  "pg_run [] s = s"
| "pg_run (call # calls) s =
     pg_run calls (pg_exec dec_ops example_server (example_pg_env (replicate (length calls) CHR ''e'')) call s)"

lemma reach_pg_run:
  "list_all P calls \<Longrightarrow> reach s (pg_step dec_ops example_server P) (pg_run calls s)"
proof (induction calls arbitrary: s)
  case Nil
  show ?case by (simp add: reach_init)
next
  case (Cons call calls)
  let ?t = "pg_exec dec_ops example_server (example_pg_env (replicate (length calls) CHR ''e'')) call s"
  have "pg_step dec_ops example_server P s ?t"
    using Cons.prems by (intro pg_step.intros) simp
  then have "reach s (pg_step dec_ops example_server P) ?t"
    by (rule reach_step [OF reach_init])
  moreover have "reach ?t (pg_step dec_ops example_server P) (pg_run (call # calls) s)"
    using Cons by simp
  ultimately show ?case
    by (rule reach_trans [rotated])
qed

definition example_pg_calls :: "wallet_call list" where
  "example_pg_calls =
     [CallCredit ''u'' ''EUR'' ''10'' ''d1'' None, CallDebit ''u'' ''EUR'' ''4'' ''b1'' None,
      CallRequest ''u'' ''EUR'' ''2.5'' ''addr'' ''chain'', CallReject ''e2'' ''admin'']"

definition example_db :: pg_db where
  "example_db = pg_run example_pg_calls pg_empty"

lemma example_db_reach: "reach pg_empty (pg_step dec_ops example_server (scale8_call dec_ops dec_val)) example_db"
  unfolding example_db_def by (rule reach_pg_run) code_simp

lemma example_db_reach_nonneg:
  "reach pg_empty (pg_step dec_ops example_server
     (\<lambda>call. scale8_call dec_ops dec_val call \<and> nonneg_call dec_ops dec_val call)) example_db"
  unfolding example_db_def by (rule reach_pg_run) code_simp

lemma example_db_wallets: "\<exists>w. pg_wallets example_db = [w] \<and> w_Balance w = ''6.0'' \<and> w_UserID w = ''u'' \<and> w_Currency w = ''EUR''"
proof -
  have "List.map (\<lambda>w. (w_Balance w, w_UserID w, w_Currency w)) (pg_wallets example_db) = [(''6.0'', ''u'', ''EUR'')]"
    by code_simp
  then show ?thesis by (cases "pg_wallets example_db") auto
qed

lemma example_db_request: "\<exists>r. pg_requests example_db = [r] \<and> u_Status r = ''rejected'' \<and> u_ID r = ''e2''"
proof -
  have "List.map (\<lambda>r. (u_Status r, u_ID r)) (pg_requests example_db) = [(''rejected'', ''e2'')]"
    by code_simp
  then show ?thesis by (cases "pg_requests example_db") auto
qed

theorem pg_balance_is_sum_of_transactions_witness:
  "num dec_ops dec_val ''6.0'' = entry_sum (List.map (pg_entry dec_ops dec_val) (pg_txns example_db)) (''u'', ''EUR'')"
proof -
  obtain w where w: "pg_wallets example_db = [w]" "w_Balance w = ''6.0''" "w_UserID w = ''u''" "w_Currency w = ''EUR''"
    using example_db_wallets by blast
  have m: "w \<in> set (pg_wallets example_db)" by (simp add: w(1))
  show ?thesis
    using pg_balance_is_sum_of_transactions [OF refpg.pg_server_axioms example_db_reach m]
    by (simp only: w(2,3,4))
qed

theorem pg_balance_nonneg_witness: "0 \<le> num dec_ops dec_val ''6.0''"
proof -
  obtain w where w: "pg_wallets example_db = [w]" "w_Balance w = ''6.0''"
    using example_db_wallets by blast
  have m: "w \<in> set (pg_wallets example_db)" by (simp add: w(1))
  show ?thesis
    using pg_balance_nonneg [OF refpg.pg_server_axioms example_db_reach_nonneg m]
    by (simp only: w(2))
qed

text \<open>A debit of 1 whose commit is applied but whose reply is lost, and the retry.\<close>

definition lost_debit :: "pg_db \<times> transaction result" where
  "lost_debit =
     pg_DebitWallet dec_ops example_server (lost_reply_env ''x'') example_db ''u'' ''EUR'' ''1'' ''b2'' None"

lemma scale8_one: "scale8 (num dec_ops dec_val ''1'')"
  by code_simp

theorem pg_debit_at_most_once_witness:
  "\<not> is_ok (snd lost_debit)
   \<and> fst (pg_DebitWallet dec_ops example_server (example_pg_env ''y'') (fst lost_debit) ''u'' ''EUR'' ''1'' ''b2'' None)
     = fst lost_debit"
proof
  show "\<not> is_ok (snd lost_debit)" by code_simp
  have "length (pg_txns (fst lost_debit)) = Suc (length (pg_txns example_db))"
    by code_simp
  then have "fst lost_debit \<noteq> example_db"
    by (metis n_not_Suc_n)
  then show "fst (pg_DebitWallet dec_ops example_server (example_pg_env ''y'') (fst lost_debit) ''u'' ''EUR'' ''1'' ''b2'' None)
     = fst lost_debit"
    using pg_debit_at_most_once [OF refpg.pg_server_axioms example_db_reach _ scale8_one _ _ reach_init,
        of "lost_reply_env ''x''" "''u''" "''EUR''" "''b2''" None "fst lost_debit" "snd lost_debit"]
    by (simp add: lost_debit_def)
qed

theorem pg_debit_exact_witness:
  "num dec_ops dec_val ''1'' \<le> balance0 (pg_abs dec_ops dec_val example_db) (''u'', ''EUR'')"
proof -
  let ?r = "pg_DebitWallet dec_ops example_server (example_pg_env ''x'') example_db ''u'' ''EUR'' ''1'' ''b2'' None"
  have "is_ok (snd ?r)" by code_simp
  then obtain t where "snd ?r = Inr t" by (cases "snd ?r") auto
  then have r: "?r = (fst ?r, Inr t)" by (metis prod.collapse)
  have "Some ''b2'' \<notin> q_Reference ` set (pg_txns example_db)" by code_simp
  then have "\<not> ref_used ''b2'' (pg_abs dec_ops dec_val example_db)"
    by (simp add: ref_used_def pg_abs_def)
  then show ?thesis
    using pg_debit_exact [OF refpg.pg_server_axioms example_db_reach scale8_one r] by blast
qed

theorem pg_decided_once_witness:
  "fst (pg_ApproveWithdrawal example_server (example_pg_env ''y'') example_db ''e2'' ''h'' ''admin'') = example_db"
proof -
  obtain r where r: "pg_requests example_db = [r]" "u_Status r = ''rejected''" "u_ID r = ''e2''"
    using example_db_request by blast
  have "r \<in> set (pg_requests example_db)" "u_Status r \<noteq> ''pending''"
    "pl_uuid example_server ''e2'' = Some (u_ID r)"
    using r by (simp_all add: example_server_def)
  then show ?thesis
    using pg_decided_once [OF refpg.pg_server_axioms example_db_reach _ _ _ reach_init] by blast
qed

end
