(* ===== verification/Rates.thy ===== *)
theory Rates
  imports WalletModel GoJson
begin

text \<open>
  The exchange rates of \<open>internal/wallet/rates\<close>: the cache, the chain of forex providers, the
  aggregator with its fallbacks, and the rate providers down to the HTTP reply.  The network is
  the argument \<open>http\<close>: for each URL a failure, or a status and the body as a JSON value
  (\<open>None\<close>: malformed).

  Proved: \<open>MulDecimalStrings\<close> is the exact product up to half a unit of its last decimal; a rate
  that was obtained and stored is returned unchanged, without asking a provider, until its time
  to live has passed; and every rate served is a quote, or the conversion of one, that is not older
  than the bounds.
\<close>

section \<open>util.go and decimal.go\<close>

definition isStablecoin :: "string \<Rightarrow> bool" where
  "isStablecoin crypto \<longleftrightarrow> List.member [''USDT'', ''USDC'', ''BUSD'', ''DAI''] crypto"

definition normalizeSymbol :: "string \<Rightarrow> string" where
  "normalizeSymbol crypto =
     (if crypto = ''MATIC'' then ''POL''
      else if crypto = ''TON'' then ''GRAM''
      else if crypto = ''ARB-TOKEN'' then ''ARB''
      else if crypto = ''OP-TOKEN'' then ''OP''
      else crypto)"

definition supportedFiatCurrencies :: "string list" where
  "supportedFiatCurrencies =
    [''USD'', ''EUR'', ''JPY'', ''INR'', ''CAD'', ''CNY'', ''IDR'', ''KRW'', ''PHP'', ''RUB'',
     ''MXN'', ''PLN'', ''TRY'', ''VND'', ''ARS'', ''PEN'', ''CLP'', ''NGN'', ''AED'', ''BHD'',
     ''CRC'', ''KWD'', ''MAD'', ''MYR'', ''QAR'', ''SAR'', ''SGD'', ''TND'', ''TWD'', ''GHS'',
     ''KES'', ''BOB'', ''XOF'', ''PKR'', ''NZD'', ''ISK'', ''BAM'', ''TZS'', ''EGP'', ''LKR'',
     ''UGX'', ''KZT'', ''BDT'', ''UAH'', ''GEL'', ''MNT'', ''GTQ'', ''KGS'', ''ZAR'', ''TMT'',
     ''ZMW'', ''TJS'', ''MRU'', ''TTD'', ''GMD'', ''MGA'', ''JMD'', ''NIO'', ''HNL'', ''MZN'',
     ''XAF'', ''RWF'', ''GNF'', ''BWP'', ''KMF'', ''LSL'', ''ERN'', ''BIF'', ''MWK'', ''PGK'']"

definition IsSupportedFiat :: "string \<Rightarrow> bool" where
  "IsSupportedFiat fiat \<longleftrightarrow> List.member supportedFiatCurrencies (ToUpper fiat)"

text \<open>\<open>len(s) - strings.IndexByte(s, '.') - 1\<close>.\<close>

definition decimalPlaces :: "string \<Rightarrow> nat" where
  "decimalPlaces s =
     (if CHR ''.'' \<in> set s then length (tl (dropWhile (\<lambda>c. c \<noteq> CHR ''.'') s)) else 0)"

definition MulDecimalStrings :: "'d decimal_ops \<Rightarrow> string \<Rightarrow> string \<Rightarrow> string result" where
  "MulDecimalStrings D a b =
     (case NewFromString D a of
        Inl err \<Rightarrow> Inl err
      | Inr left \<Rightarrow>
        (case NewFromString D b of
           Inl err \<Rightarrow> Inl err
         | Inr right \<Rightarrow>
             let scale = max (decimalPlaces a) (decimalPlaces b)
             in Inr (DStringFixedBank D (DMul D left right) (int scale))))"

section \<open>cache.go\<close>

record cached_rate =
  cr_value :: string
  cr_cached :: gtime

type_synonym rate_cache = "cached_rate gomap"

definition cache_Get :: "int \<Rightarrow> gtime \<Rightarrow> rate_cache \<Rightarrow> string \<Rightarrow> string option" where
  "cache_Get ttl now c key =
     (case mget c key of
        None \<Rightarrow> None
      | Some v \<Rightarrow> if now - cr_cached v > ttl then None else Some (cr_value v))"

definition cache_Set :: "gtime \<Rightarrow> rate_cache \<Rightarrow> string \<Rightarrow> string \<Rightarrow> rate_cache" where
  "cache_Set now c key value = mput key \<lparr>cr_value = value, cr_cached = now\<rparr> c"

definition stale_bound :: int where
  "stale_bound = 5 * 60 * second_ns"

definition cache_StaleValue :: "gtime \<Rightarrow> rate_cache \<Rightarrow> string \<Rightarrow> string option" where
  "cache_StaleValue now c key =
     (case mget c key of
        None \<Rightarrow> None
      | Some v \<Rightarrow> if now - cr_cached v > stale_bound then None else Some (cr_value v))"

section \<open>Providers\<close>

datatype http_reply = HttpFail go_error | HttpReply int "json option"

type_synonym http = "string \<Rightarrow> http_reply"

text \<open>The request and its checks up to the decoded body, which every provider has.\<close>

definition http_json :: "http \<Rightarrow> string \<Rightarrow> string \<Rightarrow> json result" where
  "http_json http name url =
     (case http url of
        HttpFail e \<Rightarrow> Inl e
      | HttpReply code body \<Rightarrow>
          if code \<noteq> 200 then Inl (NewErr (name @ '' status '' @ itoa code))
          else (case body of None \<Rightarrow> Inl ErrJson | Some j \<Rightarrow> Inr j))"

definition binance_GetRate :: "http \<Rightarrow> string \<Rightarrow> string \<Rightarrow> string \<Rightarrow> string result" where
  "binance_GetRate http base fiat crypto =
     (let fiat = ToUpper fiat; crypto = ToUpper crypto
      in if fiat = ''USD'' \<and> isStablecoin crypto then Inr ''1.00''
         else
           let crypto = normalizeSymbol crypto; fiat = (if fiat = ''USD'' then ''USDT'' else fiat)
           in case http_json http ''binance'' (base @ ''/api/v3/ticker/price?symbol='' @ crypto @ fiat) of
                Inl err \<Rightarrow> Inl err
              | Inr body \<Rightarrow>
                  (case json_struct [(''price'', json_string)] body [] of
                     Inl err \<Rightarrow> Inl err
                   | Inr price \<Rightarrow>
                       if price = [] then Inl (NewErr ''binance empty price'')
                       else Inr (TrimSpace price)))"

definition coinbase_rates :: "json \<Rightarrow> string gomap result" where
  "coinbase_rates body = json_struct [(''data'', json_struct [(''rates'', json_strings)])] body []"

definition coinbase_GetRate :: "http \<Rightarrow> string \<Rightarrow> string \<Rightarrow> string \<Rightarrow> string result" where
  "coinbase_GetRate http base fiat crypto =
     (let fiat = ToUpper fiat; crypto = ToUpper crypto
      in if fiat = ''USD'' \<and> isStablecoin crypto then Inr ''1.00''
         else
           let crypto = normalizeSymbol crypto; fiat = (if fiat = ''USD'' then ''USDT'' else fiat)
           in case http_json http ''coinbase'' (base @ ''/v2/exchange-rates?currency='' @ crypto) of
                Inl err \<Rightarrow> Inl err
              | Inr body \<Rightarrow>
                  (case coinbase_rates body of
                     Inl err \<Rightarrow> Inl err
                   | Inr rates \<Rightarrow>
                       (case mget rates fiat of
                          None \<Rightarrow> Inl (NewErr (''coinbase missing rate for '' @ fiat))
                        | Some rate \<Rightarrow> Inr (TrimSpace rate))))"

text \<open>The loop over \<open>result.Result\<close>, a Go map: the first pair with a close price.\<close>

fun kraken_price :: "json list \<Rightarrow> string result" where
  "kraken_price [] = Inl (NewErr ''kraken missing ticker data'')"
| "kraken_price (v # vs) =
     (case v of
        JObj kvs \<Rightarrow>
          (case map_of (rev kvs) ''c'' of
             Some (JArr (JStr price # _)) \<Rightarrow> Inr (TrimSpace price)
           | _ \<Rightarrow> kraken_price vs)
      | _ \<Rightarrow> kraken_price vs)"

text \<open>\<open>%v\<close> of a \<open>[]string\<close>.\<close>

fun print_strings :: "string list \<Rightarrow> string" where
  "print_strings [] = []"
| "print_strings [x] = x"
| "print_strings (x # xs) = x @ '' '' @ print_strings xs"

record kraken_result =
  kr_Error :: "string list"
  kr_Result :: "json gomap"

definition kraken_GetRate ::
  "(json gomap \<Rightarrow> json gomap) \<Rightarrow> http \<Rightarrow> string \<Rightarrow> string \<Rightarrow> string \<Rightarrow> string result" where
  "kraken_GetRate ord http base fiat crypto =
     (let fiat = ToUpper fiat; crypto = ToUpper crypto
      in if fiat = ''USD'' \<and> isStablecoin crypto then Inr ''1.00''
         else
           let crypto = normalizeSymbol crypto; fiat = (if fiat = ''USD'' then ''USDT'' else fiat)
           in case http_json http ''kraken'' (base @ ''/0/public/Ticker?pair='' @ crypto @ fiat) of
                Inl err \<Rightarrow> Inl err
              | Inr body \<Rightarrow>
                  (case json_struct
                      [(''error'', \<lambda>j r. case json_list (\<lambda>v. json_string v []) j (kr_Error r) of
                           Inl e \<Rightarrow> Inl e | Inr es \<Rightarrow> Inr (r\<lparr>kr_Error := es\<rparr>)),
                       (''result'', \<lambda>j r. case json_map Inr j (kr_Result r) of
                           Inl e \<Rightarrow> Inl e | Inr m \<Rightarrow> Inr (r\<lparr>kr_Result := m\<rparr>))]
                      body \<lparr>kr_Error = [], kr_Result = []\<rparr> of
                     Inl err \<Rightarrow> Inl err
                   | Inr result \<Rightarrow>
                       if kr_Error result \<noteq> [] then Inl (NewErr (''kraken error: ['' @ print_strings (kr_Error result) @ '']''))
                       else kraken_price (List.map snd (ord (kr_Result result)))))"

record kucoin_result =
  ku_Code :: string
  ku_Data :: "string gomap"

definition kucoin_GetRate :: "http \<Rightarrow> string \<Rightarrow> string \<Rightarrow> string \<Rightarrow> string result" where
  "kucoin_GetRate http base fiat crypto =
     (let fiat = ToUpper fiat; crypto = ToUpper crypto
      in if fiat = ''USD'' \<and> isStablecoin crypto then Inr ''1.00''
         else
           let crypto = normalizeSymbol crypto
           in case http_json http ''kucoin'' (base @ ''/api/v1/prices?base='' @ fiat @ ''&currencies='' @ crypto) of
                Inl err \<Rightarrow> Inl err
              | Inr body \<Rightarrow>
                  (case json_struct
                      [(''code'', \<lambda>j r. case json_string j (ku_Code r) of
                           Inl e \<Rightarrow> Inl e | Inr s \<Rightarrow> Inr (r\<lparr>ku_Code := s\<rparr>)),
                       (''data'', \<lambda>j r. case json_strings j (ku_Data r) of
                           Inl e \<Rightarrow> Inl e | Inr m \<Rightarrow> Inr (r\<lparr>ku_Data := m\<rparr>))]
                      body \<lparr>ku_Code = [], ku_Data = []\<rparr> of
                     Inl err \<Rightarrow> Inl err
                   | Inr result \<Rightarrow>
                       if ku_Code result \<noteq> ''200000'' then Inl (NewErr (''kucoin code '' @ ku_Code result))
                       else
                         (case mget (ku_Data result) crypto of
                            None \<Rightarrow> Inl (NewErr (''kucoin missing rate for '' @ crypto))
                          | Some price \<Rightarrow> Inr (TrimSpace price))))"

definition coinbaseForex_GetRate :: "http \<Rightarrow> string \<Rightarrow> string \<Rightarrow> string result" where
  "coinbaseForex_GetRate http url fiat =
     (let fiat = ToUpper fiat
      in case http_json http ''coinbase-forex'' url of
           Inl err \<Rightarrow> Inl err
         | Inr body \<Rightarrow>
             (case coinbase_rates body of
                Inl err \<Rightarrow> Inl err
              | Inr rates \<Rightarrow>
                  (case mget rates fiat of
                     None \<Rightarrow> Inl (NewErr (''coinbase-forex missing rate for '' @ fiat))
                   | Some rate \<Rightarrow> Inr (TrimSpace rate))))"

definition fawazAhmed0_GetRate :: "http \<Rightarrow> string \<Rightarrow> string \<Rightarrow> string result" where
  "fawazAhmed0_GetRate http url fiat =
     (let fiat = ToLower fiat
      in case http_json http ''fawazahmed0'' url of
           Inl err \<Rightarrow> Inl err
         | Inr body \<Rightarrow>
             (case json_struct [(''usd'', json_map Inr)] body [] of
                Inl err \<Rightarrow> Inl err
              | Inr rates \<Rightarrow>
                  (case mget rates fiat of
                     None \<Rightarrow> Inl (NewErr (''fawazahmed0 missing rate for '' @ fiat))
                   | Some raw \<Rightarrow>
                       (case json_string raw [] of Inl err \<Rightarrow> Inl err | Inr rate \<Rightarrow> Inr (TrimSpace rate)))))"

definition moneyConvert_GetRate :: "http \<Rightarrow> string \<Rightarrow> string \<Rightarrow> string result" where
  "moneyConvert_GetRate http url fiat =
     (let fiat = ToUpper fiat
      in case http_json http ''moneyconvert'' url of
           Inl err \<Rightarrow> Inl err
         | Inr body \<Rightarrow>
             (case json_struct [(''rates'', json_strings)] body [] of
                Inl err \<Rightarrow> Inl err
              | Inr rates \<Rightarrow>
                  (case mget rates fiat of
                     None \<Rightarrow> Inl (NewErr (''moneyconvert missing rate for '' @ fiat))
                   | Some rate \<Rightarrow> Inr (TrimSpace rate))))"

definition openExchange_GetRate :: "http \<Rightarrow> string \<Rightarrow> string \<Rightarrow> string result" where
  "openExchange_GetRate http url fiat =
     (let fiat = ToUpper fiat
      in case http_json http ''open-er-api'' url of
           Inl err \<Rightarrow> Inl err
         | Inr body \<Rightarrow>
             (case json_struct [(''rates'', json_strings)] body [] of
                Inl err \<Rightarrow> Inl err
              | Inr rates \<Rightarrow>
                  (case mget rates fiat of
                     None \<Rightarrow> Inl (NewErr (''open-er-api missing rate for '' @ fiat))
                   | Some rate \<Rightarrow> Inr (TrimSpace rate))))"

section \<open>forex.go\<close>

record forex_chain =
  fc_providers :: "(string \<Rightarrow> string result) list"
  fc_manual :: "string gomap"

fun forex_first :: "(string \<Rightarrow> string result) list \<Rightarrow> string \<Rightarrow> string option" where
  "forex_first [] fiat = None"
| "forex_first (p # ps) fiat = (case p fiat of Inl err \<Rightarrow> forex_first ps fiat | Inr value \<Rightarrow> Some value)"

definition forex_GetRate :: "forex_chain \<Rightarrow> string \<Rightarrow> string result" where
  "forex_GetRate fc fiat =
     (let fiat = ToUpper fiat
      in if fiat = ''USD'' then Inr ''1.00''
         else case mget (fc_manual fc) fiat of
           Some manual \<Rightarrow> Inr manual
         | None \<Rightarrow>
             (case forex_first (fc_providers fc) fiat of
                Some value \<Rightarrow> Inr value
              | None \<Rightarrow> Inl (NewErr (''all forex providers failed for '' @ fiat))))"

text \<open>
  The environment variables hold a JSON object of decimals; the codec is an argument, and so is
  the order in which the decoded map is iterated.
\<close>

fun put_decimals :: "'d decimal_ops \<Rightarrow> (string \<Rightarrow> string) \<Rightarrow> string gomap \<Rightarrow> string gomap \<Rightarrow> string gomap" where
  "put_decimals D f [] out = out"
| "put_decimals D f ((k, v) # kvs) out =
     (case NewFromString D v of
        Inl err \<Rightarrow> put_decimals D f kvs out
      | Inr d \<Rightarrow> put_decimals D f kvs (mput (f k) v out))"

definition loadManualRates ::
  "'d decimal_ops \<Rightarrow> (string \<Rightarrow> string gomap result) \<Rightarrow> (string gomap \<Rightarrow> string gomap) \<Rightarrow> string \<Rightarrow> string gomap" where
  "loadManualRates D unmarshal ord raw =
     (if raw = [] then []
      else case unmarshal raw of Inl err \<Rightarrow> [] | Inr parsed \<Rightarrow> put_decimals D (\<lambda>k. k) (ord parsed) [])"

definition loadManualUSDRates ::
  "'d decimal_ops \<Rightarrow> (string \<Rightarrow> string gomap result) \<Rightarrow> (string gomap \<Rightarrow> string gomap) \<Rightarrow> string \<Rightarrow> string gomap" where
  "loadManualUSDRates D unmarshal ord raw =
     (if raw = [] then []
      else case unmarshal raw of Inl err \<Rightarrow> [] | Inr parsed \<Rightarrow> put_decimals D ToUpper (ord parsed) [])"

section \<open>aggregator.go\<close>

text \<open>
  A provider may answer differently when it is asked again: its first argument numbers the two
  rounds in which \<open>GetRate\<close> asks the providers.
\<close>

type_synonym rate_provider = "nat \<Rightarrow> string \<Rightarrow> string \<Rightarrow> string result"

record aggregator =
  ag_ttl :: int
  ag_providers :: "rate_provider list"
  ag_forex :: forex_chain
  ag_manual :: "string gomap"

fun provider_first :: "rate_provider list \<Rightarrow> nat \<Rightarrow> string \<Rightarrow> string \<Rightarrow> string option" where
  "provider_first [] n fiat crypto = None"
| "provider_first (p # ps) n fiat crypto =
     (case p n fiat crypto of Inl err \<Rightarrow> provider_first ps n fiat crypto | Inr value \<Rightarrow> Some value)"

definition convertUSDToFiat :: "'d decimal_ops \<Rightarrow> aggregator \<Rightarrow> string \<Rightarrow> string \<Rightarrow> string result" where
  "convertUSDToFiat D A fiat usdValue =
     (case forex_GetRate (ag_forex A) fiat of
        Inl err \<Rightarrow> Inl err
      | Inr rate \<Rightarrow> MulDecimalStrings D usdValue rate)"

definition cryptoToUSD :: "aggregator \<Rightarrow> gtime \<Rightarrow> rate_cache \<Rightarrow> string \<Rightarrow> rate_cache \<times> string result" where
  "cryptoToUSD A now c crypto =
     (if isStablecoin crypto then (c, Inr ''1.00'')
      else
        let key = crypto @ '':USD''
        in case cache_Get (ag_ttl A) now c key of
             Some v \<Rightarrow> (c, Inr v)
           | None \<Rightarrow>
               (case provider_first (ag_providers A) 1 ''USD'' crypto of
                  Some value \<Rightarrow> (cache_Set now c key value, Inr value)
                | None \<Rightarrow> (c, Inl (NewErr (''failed to get '' @ crypto @ ''/USD'')))))"

definition stale_or :: "gtime \<Rightarrow> rate_cache \<Rightarrow> string \<Rightarrow> go_error \<Rightarrow> rate_cache \<times> string result" where
  "stale_or now c key err =
     (case cache_StaleValue now c key of Some stale \<Rightarrow> (c, Inr stale) | None \<Rightarrow> (c, Inl err))"

definition rates_GetRate ::
  "'d decimal_ops \<Rightarrow> aggregator \<Rightarrow> gtime \<Rightarrow> rate_cache \<Rightarrow> string \<Rightarrow> string \<Rightarrow> rate_cache \<times> string result" where
  "rates_GetRate D A now c fiat crypto =
     (let fiat = ToUpper fiat; crypto = ToUpper crypto
      in if \<not> IsSupportedFiat fiat then (c, Inl (NewErr (''unsupported fiat: '' @ fiat)))
         else if fiat = ''USD'' \<and> isStablecoin crypto then (c, Inr ''1.00'')
         else
           let key = crypto @ '':'' @ fiat
           in case cache_Get (ag_ttl A) now c key of
                Some v \<Rightarrow> (c, Inr v)
              | None \<Rightarrow>
                (case mget (ag_manual A) crypto of
                   Some manual \<Rightarrow>
                     if fiat = ''USD'' then (cache_Set now c key manual, Inr manual)
                     else (case convertUSDToFiat D A fiat manual of
                             Inl err \<Rightarrow> (c, Inl err)
                           | Inr converted \<Rightarrow> (cache_Set now c key converted, Inr converted))
                 | None \<Rightarrow>
                   (case provider_first (ag_providers A) 0 fiat crypto of
                      Some value \<Rightarrow> (cache_Set now c key value, Inr value)
                    | None \<Rightarrow>
                      (case cryptoToUSD A now c crypto of
                         (c1, Inl err) \<Rightarrow>
                           stale_or now c1 key (NewErr (''all providers failed for '' @ crypto @ ''/'' @ fiat))
                       | (c1, Inr cryptoUSD) \<Rightarrow>
                           if fiat = ''USD'' then (cache_Set now c1 key cryptoUSD, Inr cryptoUSD)
                           else (case convertUSDToFiat D A fiat cryptoUSD of
                                   Inl err \<Rightarrow>
                                     stale_or now c1 key
                                       (WrapErr (''failed to convert '' @ crypto @ '' to '' @ fiat @ '': '') err)
                                 | Inr converted \<Rightarrow> (cache_Set now c1 key converted, Inr converted))))))"

fun SupportedRates ::
  "'d decimal_ops \<Rightarrow> aggregator \<Rightarrow> gtime \<Rightarrow> rate_cache \<Rightarrow> string \<Rightarrow> string list \<Rightarrow> string gomap
   \<Rightarrow> rate_cache \<times> string gomap" where
  "SupportedRates D A now c fiat [] out = (c, out)"
| "SupportedRates D A now c fiat (cur # curs) out =
     (case rates_GetRate D A now c fiat cur of
        (c1, r) \<Rightarrow>
          SupportedRates D A now c1 fiat curs
            (mput cur (case r of Inl err \<Rightarrow> ''0'' | Inr v \<Rightarrow> v) out))"

section \<open>Properties\<close>

text \<open>
  \<open>MulDecimalStrings\<close> parses both texts and returns a text that can be parsed again, whose
  number differs from the exact product by at most half a unit in the last of its decimals, the
  larger of the two numbers of decimals.
\<close>
theorem MulDecimalStrings_error:
  assumes "decimal_lib D val" and "MulDecimalStrings D a b = Inr c"
  shows "\<exists>x. dval D val c = Some x
    \<and> \<bar>x - num D val a * num D val b\<bar> * 10 ^ max (decimalPlaces a) (decimalPlaces b) \<le> 1 / 2"
proof -
  obtain l r where p: "NewFromString D a = Inr l" "NewFromString D b = Inr r"
    and c: "c = DStringFixedBank D (DMul D l r) (int (max (decimalPlaces a) (decimalPlaces b)))"
    using assms(2) by (auto simp: MulDecimalStrings_def Let_def split: sum.splits)
  have "val (DMul D l r) = num D val a * num D val b"
    using p decimal_lib.val_mul [OF assms(1)] by (simp add: num_parse)
  then show ?thesis
    using decimal_lib.parse_fixed_bank [OF assms(1), of "int (max (decimalPlaces a) (decimalPlaces b))" "DMul D l r"]
    unfolding c by auto
qed

theorem MulDecimalStrings_error_witness:
  "MulDecimalStrings dec_ops ''2.50'' ''1.1'' = Inr ''2.75''
   \<and> (\<exists>x. dval dec_ops dec_val ''2.75'' = Some x
     \<and> \<bar>x - num dec_ops dec_val ''2.50'' * num dec_ops dec_val ''1.1''\<bar> * 10 ^ 2 \<le> 1 / 2)"
proof
  show m: "MulDecimalStrings dec_ops ''2.50'' ''1.1'' = Inr ''2.75''" by code_simp
  have "max (decimalPlaces ''2.50'') (decimalPlaces ''1.1'') = 2" by code_simp
  then show "\<exists>x. dval dec_ops dec_val ''2.75'' = Some x
     \<and> \<bar>x - num dec_ops dec_val ''2.50'' * num dec_ops dec_val ''1.1''\<bar> * 10 ^ 2 \<le> 1 / 2"
    using MulDecimalStrings_error [OF refdec.decimal_lib_axioms m] by simp
qed

lemma cache_Get_Set: "cache_Get ttl now' (cache_Set now c key v) key = (if now' - now > ttl then None else Some v)"
  by (simp add: cache_Get_def cache_Set_def)

lemma cryptoToUSD_keeps:
  assumes "cryptoToUSD A now c crypto = (c1, r)"
  shows "c1 = c \<or> (\<exists>v. c1 = cache_Set now c (crypto @ '':USD'') v)"
  using assms by (auto simp: cryptoToUSD_def Let_def split: if_splits option.splits)

text \<open>What a successful \<open>GetRate\<close> served, and what it left in the cache.\<close>

lemma rates_GetRate_cases:
  assumes "rates_GetRate D A now c fiat crypto = (c', Inr v)"
  obtains (const_rate) "ToUpper fiat = ''USD''" "isStablecoin (ToUpper crypto)" "v = ''1.00''" "c' = c"
  | (fresh) "cache_Get (ag_ttl A) now c (ToUpper crypto @ '':'' @ ToUpper fiat) = Some v" "c' = c"
  | (stored) c1 where "c' = cache_Set now c1 (ToUpper crypto @ '':'' @ ToUpper fiat) v"
  | (stale) c1 where "cache_StaleValue now c1 (ToUpper crypto @ '':'' @ ToUpper fiat) = Some v" "c' = c1"
      "c1 = c \<or> (\<exists>w. c1 = cache_Set now c (ToUpper crypto @ '':USD'') w)"
proof -
  let ?key = "ToUpper crypto @ '':'' @ ToUpper fiat"
  obtain c1 r where u: "cryptoToUSD A now c (ToUpper crypto) = (c1, r)" by force
  have "ToUpper fiat = ''USD'' \<and> isStablecoin (ToUpper crypto) \<and> v = ''1.00'' \<and> c' = c
    \<or> cache_Get (ag_ttl A) now c ?key = Some v \<and> c' = c
    \<or> (\<exists>c2. c' = cache_Set now c2 ?key v)
    \<or> cache_StaleValue now c1 ?key = Some v \<and> c' = c1"
    using assms u
    by (auto simp: rates_GetRate_def Let_def stale_or_def split: if_splits option.splits sum.splits)
  then show thesis
    using const_rate fresh stored stale cryptoToUSD_keeps [OF u] by blast
qed

text \<open>
  A rate that was obtained is served again from the cache.  If \<open>GetRate\<close> succeeds at time
  \<open>now\<close> without falling back to a stale value, then at any time up to \<open>now\<close> plus the time to
  live it returns the same value, whatever the providers, the forex chain or the manual rates
  answer by then, and leaves the cache as it is.
\<close>
theorem rates_cached_until_ttl:
  assumes "rates_GetRate D A now c fiat crypto = (c', Inr v)"
    and "mget c (ToUpper crypto @ '':'' @ ToUpper fiat) = None
      \<or> cache_Get (ag_ttl A) now' c (ToUpper crypto @ '':'' @ ToUpper fiat) \<noteq> None"
    and "now \<le> now'" and "now' - now \<le> ag_ttl A" and "ag_ttl B = ag_ttl A"
  shows "rates_GetRate D B now' c' fiat crypto = (c', Inr v)"
proof -
  let ?key = "ToUpper crypto @ '':'' @ ToUpper fiat"
  have fiat: "IsSupportedFiat (ToUpper fiat)"
    using assms(1) by (auto simp: rates_GetRate_def Let_def split: if_splits)
  show ?thesis
  proof (cases "ToUpper fiat = ''USD'' \<and> isStablecoin (ToUpper crypto)")
    case True
    then show ?thesis
      using assms(1) fiat by (auto simp: rates_GetRate_def)
  next
    case False
    have "cache_Get (ag_ttl A) now' c' ?key = Some v"
      using assms(1)
    proof (cases rule: rates_GetRate_cases)
      case const_rate
      with False show ?thesis by simp
    next
      case fresh
      then show ?thesis
        using assms(2,3) by (auto simp: cache_Get_def split: option.splits if_splits)
    next
      case (stored c1)
      then show ?thesis using assms(4) by (simp add: cache_Get_Set)
    next
      case (stale c1)
      then show ?thesis
        using assms(2,3,4)
        by (auto simp: cache_Set_def cache_StaleValue_def cache_Get_def split: if_splits option.splits)
    qed
    then show ?thesis
      using False fiat assms(5) by (auto simp: rates_GetRate_def Let_def)
  qed
qed

definition example_rates :: aggregator where
  "example_rates =
     \<lparr>ag_ttl = 30, ag_providers = [\<lambda>n f c. Inl (NewErr ''down''), \<lambda>n f c. Inr ''60000''],
      ag_forex = \<lparr>fc_providers = [], fc_manual = []\<rparr>, ag_manual = []\<rparr>"

theorem rates_cached_until_ttl_witness:
  "rates_GetRate dec_ops (example_rates\<lparr>ag_providers := []\<rparr>) 120
     (fst (rates_GetRate dec_ops example_rates 100 [] ''usd'' ''btc'')) ''usd'' ''btc''
   = (fst (rates_GetRate dec_ops example_rates 100 [] ''usd'' ''btc''), Inr ''60000'')"
proof (rule rates_cached_until_ttl)
  have "snd (rates_GetRate dec_ops example_rates 100 [] ''usd'' ''btc'') = Inr ''60000''"
    by code_simp
  then show "rates_GetRate dec_ops example_rates 100 [] ''usd'' ''btc''
      = (fst (rates_GetRate dec_ops example_rates 100 [] ''usd'' ''btc''), Inr ''60000'')"
    by (metis prod.collapse)
qed (simp_all add: example_rates_def)

section \<open>How old a served rate is\<close>

text \<open>
  A call of \<open>GetRate\<close> with what the outside answers to it: the instant, the answers of the providers
  (in two rounds), the forex providers.  The rest of the aggregator stays the same.
\<close>

record rate_call =
  qc_now :: gtime
  qc_providers :: "rate_provider list"
  qc_forex :: forex_chain
  qc_fiat :: string
  qc_crypto :: string

definition run_rate :: "'d decimal_ops \<Rightarrow> aggregator \<Rightarrow> rate_call \<Rightarrow> rate_cache \<Rightarrow> rate_cache \<times> string result" where
  "run_rate D A q c =
     rates_GetRate D (A\<lparr>ag_providers := qc_providers q, ag_forex := qc_forex q\<rparr>) (qc_now q) c (qc_fiat q) (qc_crypto q)"

fun run_rates :: "'d decimal_ops \<Rightarrow> aggregator \<Rightarrow> rate_call list \<Rightarrow> rate_cache \<Rightarrow> rate_cache" where
  "run_rates D A [] c = c"
| "run_rates D A (q # qs) c = run_rates D A qs (fst (run_rate D A q c))"

text \<open>
  A provider quoted \<open>v\<close> at \<open>t\<close> in one of the calls; or \<open>v\<close> is such a quote in dollars times the rate
  the forex chain gave in one of them, at \<open>t2\<close>.
\<close>

definition quoted :: "rate_call set \<Rightarrow> string \<Rightarrow> string \<Rightarrow> string \<Rightarrow> gtime \<Rightarrow> bool" where
  "quoted H fiat crypto v t \<longleftrightarrow> (\<exists>q\<in>H. qc_now q = t \<and> (\<exists>p\<in>set (qc_providers q). \<exists>n. p n fiat crypto = Inr v))"

definition converted :: "'d decimal_ops \<Rightarrow> rate_call set \<Rightarrow> string \<Rightarrow> string \<Rightarrow> string \<Rightarrow> gtime \<Rightarrow> gtime \<Rightarrow> bool" where
  "converted D H fiat crypto v t t2 \<longleftrightarrow> (\<exists>x r. quoted H ''USD'' crypto x t
     \<and> (\<exists>q\<in>H. qc_now q = t2 \<and> forex_GetRate (qc_forex q) fiat = Inr r) \<and> MulDecimalStrings D x r = Inr v)"

lemma quoted_mono: "quoted H fiat crypto v t \<Longrightarrow> H \<subseteq> H' \<Longrightarrow> quoted H' fiat crypto v t"
  by (auto simp: quoted_def)

lemma converted_mono: "converted D H fiat crypto v t t2 \<Longrightarrow> H \<subseteq> H' \<Longrightarrow> converted D H' fiat crypto v t t2"
  unfolding converted_def by (meson quoted_mono subsetD)

lemma provider_first_Some: "provider_first ps n fiat crypto = Some v \<Longrightarrow> \<exists>p\<in>set ps. p n fiat crypto = Inr v"
  by (induction ps) (auto split: sum.splits)

text \<open>Where the value of an entry comes from: a quote of that instant, or a conversion then of a fresh quote in dollars.\<close>

definition entry_ok :: "'d decimal_ops \<Rightarrow> int \<Rightarrow> rate_call set \<Rightarrow> string \<Rightarrow> string \<Rightarrow> cached_rate \<Rightarrow> bool" where
  "entry_ok D ttl H fiat crypto e \<longleftrightarrow> quoted H fiat crypto (cr_value e) (cr_cached e)
     \<or> fiat \<noteq> ''USD'' \<and> (\<exists>t\<ge>cr_cached e - max ttl 0. converted D H fiat crypto (cr_value e) t (cr_cached e))"

definition cache_ok :: "'d decimal_ops \<Rightarrow> int \<Rightarrow> rate_call set \<Rightarrow> string \<Rightarrow> rate_cache \<Rightarrow> bool" where
  "cache_ok D ttl H crypto c \<longleftrightarrow>
     (\<forall>fiat e. length fiat = 3 \<longrightarrow> mget c (crypto @ '':'' @ fiat) = Some e \<longrightarrow> entry_ok D ttl H fiat crypto e)"

lemma entry_ok_mono: "entry_ok D ttl H fiat crypto e \<Longrightarrow> H \<subseteq> H' \<Longrightarrow> entry_ok D ttl H' fiat crypto e"
  unfolding entry_ok_def using quoted_mono converted_mono by metis

lemma cache_ok_mono: "cache_ok D ttl H crypto c \<Longrightarrow> H \<subseteq> H' \<Longrightarrow> cache_ok D ttl H' crypto c"
  unfolding cache_ok_def using entry_ok_mono by metis

lemma supported_length: "IsSupportedFiat fiat \<Longrightarrow> length (ToUpper fiat) = 3"
  by (auto simp: IsSupportedFiat_def supportedFiatCurrencies_def)

lemma same_key: "length f = length f' \<Longrightarrow> cr @ '':'' @ f = cr' @ '':'' @ f' \<longleftrightarrow> cr = cr' \<and> f = f'"
  by (metis append_eq_append_conv append_assoc length_append)

lemma cache_ok_Set:
  assumes "cache_ok D ttl H crypto c" and "length fiat = 3"
    and "cr = crypto \<Longrightarrow> entry_ok D ttl H fiat crypto \<lparr>cr_value = v, cr_cached = now\<rparr>"
  shows "cache_ok D ttl H crypto (cache_Set now c (cr @ '':'' @ fiat) v)"
  using assms unfolding cache_ok_def cache_Set_def
  by (auto simp: same_key)

text \<open>What \<open>GetRate\<close> may answer at \<open>now\<close>: a quote, or the conversion of a quote that was fresh then.\<close>

definition served :: "'d decimal_ops \<Rightarrow> int \<Rightarrow> rate_call set \<Rightarrow> string \<Rightarrow> string \<Rightarrow> gtime \<Rightarrow> string \<Rightarrow> bool" where
  "served D ttl H fiat crypto now v \<longleftrightarrow>
     (\<exists>t. now - t \<le> max ttl stale_bound \<and> quoted H fiat crypto v t)
     \<or> (\<exists>t t2. now - t2 \<le> max ttl stale_bound \<and> t2 - t \<le> max ttl 0 \<and> converted D H fiat crypto v t t2)"

lemma stale_bound_pos: "0 \<le> stale_bound"
  by (simp add: stale_bound_def second_ns_def)

lemma entry_served:
  "entry_ok D ttl H fiat crypto e \<Longrightarrow> now - cr_cached e \<le> max ttl stale_bound \<Longrightarrow> served D ttl H fiat crypto now (cr_value e)"
  unfolding entry_ok_def served_def by force

lemma cached_served:
  assumes "cache_ok D ttl H crypto c" and "length fiat = 3"
    and "cache_Get ttl now c (crypto @ '':'' @ fiat) = Some v \<or> cache_StaleValue now c (crypto @ '':'' @ fiat) = Some v"
  shows "served D ttl H fiat crypto now v"
proof -
  obtain e where "mget c (crypto @ '':'' @ fiat) = Some e" "now - cr_cached e \<le> max ttl stale_bound" "v = cr_value e"
    using assms(3) by (auto simp: cache_Get_def cache_StaleValue_def split: option.splits if_splits)
  then show ?thesis using assms(1,2) entry_served unfolding cache_ok_def by blast
qed

lemma quoted_now: "provider_first (qc_providers q) n fiat crypto = Some v \<Longrightarrow> q \<in> H \<Longrightarrow> quoted H fiat crypto v (qc_now q)"
  using provider_first_Some unfolding quoted_def by blast

lemma cryptoToUSD_quoted:
  assumes "cache_ok D (ag_ttl B) H crypto c" and "\<not> isStablecoin crypto" and "q \<in> H" and "ag_providers B = qc_providers q"
    and "cryptoToUSD B (qc_now q) c cr = (c', r)"
  shows "cache_ok D (ag_ttl B) H crypto c'"
    and "cr = crypto \<Longrightarrow> r = Inr x \<Longrightarrow> \<exists>t\<ge>qc_now q - max (ag_ttl B) 0. quoted H ''USD'' crypto x t"
proof -
  let ?key = "cr @ '':'' @ ''USD''"
  have key: "cr @ '':USD'' = ?key" by simp
  consider "isStablecoin cr" "c' = c"
    | v where "\<not> isStablecoin cr" "cache_Get (ag_ttl B) (qc_now q) c ?key = Some v" "c' = c" "r = Inr v"
    | v where "\<not> isStablecoin cr" "provider_first (qc_providers q) 1 ''USD'' cr = Some v"
        "c' = cache_Set (qc_now q) c ?key v" "r = Inr v"
    | "\<not> isStablecoin cr" "c' = c" "\<not> is_ok r"
    using assms(4,5) unfolding cryptoToUSD_def Let_def key by (auto split: option.splits if_splits)
  then have "cache_ok D (ag_ttl B) H crypto c' \<and>
      (cr = crypto \<longrightarrow> r = Inr x \<longrightarrow> (\<exists>t\<ge>qc_now q - max (ag_ttl B) 0. quoted H ''USD'' crypto x t))"
  proof cases
    case (2 v)
    have "\<exists>t\<ge>qc_now q - max (ag_ttl B) 0. quoted H ''USD'' crypto v t" if "cr = crypto"
    proof -
      obtain e where e: "mget c ?key = Some e" "qc_now q - cr_cached e \<le> ag_ttl B" "v = cr_value e"
        using 2(2) by (auto simp: cache_Get_def split: option.splits if_splits)
      then have "entry_ok D (ag_ttl B) H ''USD'' crypto e" using assms(1) that unfolding cache_ok_def by simp
      with e show ?thesis by (auto simp: entry_ok_def intro!: exI [of _ "cr_cached e"])
    qed
    with 2 assms(1) show ?thesis by auto
  next
    case (3 v)
    have "cache_ok D (ag_ttl B) H crypto c'"
      unfolding 3(3) by (rule cache_ok_Set [OF assms(1)]) (use quoted_now [OF 3(2) assms(3)] in \<open>auto simp: entry_ok_def\<close>)
    moreover have "quoted H ''USD'' crypto v (qc_now q)" if "cr = crypto" using quoted_now [OF 3(2) assms(3)] that by simp
    ultimately show ?thesis using 3(4) by (auto intro!: exI [of _ "qc_now q"])
  qed (use assms(1,2) in auto)
  then show "cache_ok D (ag_ttl B) H crypto c'"
    and "cr = crypto \<Longrightarrow> r = Inr x \<Longrightarrow> \<exists>t\<ge>qc_now q - max (ag_ttl B) 0. quoted H ''USD'' crypto x t" by blast+
qed

definition answer_ok :: "'d decimal_ops \<Rightarrow> int \<Rightarrow> rate_call set \<Rightarrow> string \<Rightarrow> gtime \<Rightarrow> string \<Rightarrow> string \<Rightarrow> rate_cache \<times> string result \<Rightarrow> bool" where
  "answer_ok D ttl H crypto now fiat cr x \<longleftrightarrow> cache_ok D ttl H crypto (fst x)
     \<and> (\<forall>v. cr = crypto \<longrightarrow> snd x = Inr v \<longrightarrow> served D ttl H fiat crypto now v)"

lemma answer_error: "cache_ok D ttl H crypto c \<Longrightarrow> answer_ok D ttl H crypto now fiat cr (c, Inl e)"
  by (simp add: answer_ok_def)

lemma answer_cached:
  "cache_ok D ttl H crypto c \<Longrightarrow> length fiat = 3
   \<Longrightarrow> cache_Get ttl now c (cr @ '':'' @ fiat) = Some v \<or> cache_StaleValue now c (cr @ '':'' @ fiat) = Some v
   \<Longrightarrow> answer_ok D ttl H crypto now fiat cr (c, Inr v)"
  using cached_served [of D ttl H crypto c fiat now v] by (auto simp: answer_ok_def)

lemma answer_stale:
  "cache_ok D ttl H crypto c \<Longrightarrow> length fiat = 3 \<Longrightarrow> answer_ok D ttl H crypto now fiat cr (stale_or now c (cr @ '':'' @ fiat) e)"
  unfolding stale_or_def by (auto intro: answer_cached answer_error split: option.splits)

lemma answer_set:
  assumes "cache_ok D ttl H crypto c" and "length fiat = 3"
    and "cr = crypto \<Longrightarrow> entry_ok D ttl H fiat crypto \<lparr>cr_value = v, cr_cached = now\<rparr>"
  shows "answer_ok D ttl H crypto now fiat cr (cache_Set now c (cr @ '':'' @ fiat) v, Inr v)"
  using cache_ok_Set [OF assms] entry_served [OF assms(3), of now] stale_bound_pos by (auto simp: answer_ok_def)

text \<open>The way over dollars, when no provider quotes the pair.\<close>

lemma answer_over_dollars:
  assumes "cache_ok D (ag_ttl B) H crypto c" and "\<not> isStablecoin crypto" and "q \<in> H"
    and "ag_providers B = qc_providers q" and "ag_forex B = qc_forex q" and "length f = 3"
    and "cache_Get (ag_ttl B) (qc_now q) c (cr @ '':'' @ f) = None"
  shows "answer_ok D (ag_ttl B) H crypto (qc_now q) f cr
    (case cryptoToUSD B (qc_now q) c cr of
       (c1, Inl err) \<Rightarrow> stale_or (qc_now q) c1 (cr @ '':'' @ f) e1
     | (c1, Inr x) \<Rightarrow>
         if f = ''USD'' then (cache_Set (qc_now q) c1 (cr @ '':'' @ f) x, Inr x)
         else (case convertUSDToFiat D B f x of
                 Inl err \<Rightarrow> stale_or (qc_now q) c1 (cr @ '':'' @ f) (e2 err)
               | Inr y \<Rightarrow> (cache_Set (qc_now q) c1 (cr @ '':'' @ f) y, Inr y)))"
proof -
  obtain c1 r where usd: "cryptoToUSD B (qc_now q) c cr = (c1, r)" by force
  note u = cryptoToUSD_quoted [OF assms(1-4) usd]
  have direct: "entry_ok D (ag_ttl B) H f crypto \<lparr>cr_value = x, cr_cached = qc_now q\<rparr>"
    if "cr = crypto" "f = ''USD''" "r = Inr x" for x
  proof -
    have "provider_first (qc_providers q) 1 ''USD'' cr = Some x"
      using usd that assms(2,4,7) by (auto simp: cryptoToUSD_def Let_def split: option.splits)
    then show ?thesis using quoted_now [OF _ assms(3)] that by (simp add: entry_ok_def)
  qed
  have product: "entry_ok D (ag_ttl B) H f crypto \<lparr>cr_value = y, cr_cached = qc_now q\<rparr>"
    if same: "cr = crypto" and f: "f \<noteq> ''USD''" and r: "r = Inr x" "convertUSDToFiat D B f x = Inr y" for x y
  proof -
    obtain t where "t \<ge> qc_now q - max (ag_ttl B) 0" "quoted H ''USD'' crypto x t" using u(2) [OF same r(1)] by blast
    moreover obtain rate where "forex_GetRate (qc_forex q) f = Inr rate" "MulDecimalStrings D x rate = Inr y"
      using r(2) assms(5) by (auto simp: convertUSDToFiat_def split: sum.splits)
    ultimately show ?thesis using f assms(3) unfolding entry_ok_def converted_def by auto
  qed
  show ?thesis
  proof (cases r)
    case (Inl err)
    then show ?thesis using usd answer_stale [OF u(1) assms(6)] by simp
  next
    case (Inr x)
    then show ?thesis
      using usd answer_set [OF u(1) assms(6) direct] answer_set [OF u(1) assms(6) product] answer_stale [OF u(1) assms(6)]
      by (cases "f = ''USD''") (auto split: sum.splits)
  qed
qed

lemma rates_GetRate_answer:
  assumes "cache_ok D (ag_ttl B) H crypto c" and "mget (ag_manual B) crypto = None" and "\<not> isStablecoin crypto" and "q \<in> H"
    and "ag_providers B = qc_providers q" and "ag_forex B = qc_forex q"
  shows "answer_ok D (ag_ttl B) H crypto (qc_now q) (ToUpper (qc_fiat q)) (ToUpper (qc_crypto q))
    (rates_GetRate D B (qc_now q) c (qc_fiat q) (qc_crypto q))"
proof -
  define f where "f = ToUpper (qc_fiat q)"
  define cr where "cr = ToUpper (qc_crypto q)"
  let ?ok = "answer_ok D (ag_ttl B) H crypto (qc_now q) f cr" and ?now = "qc_now q" and ?key = "cr @ '':'' @ f"
  have len: "IsSupportedFiat f \<Longrightarrow> length f = 3" using supported_length [of f] by (simp add: ToUpper_def)
  note run = rates_GetRate_def [of D B ?now c "qc_fiat q" "qc_crypto q", folded f_def cr_def, unfolded Let_def]
  consider "\<not> IsSupportedFiat f" | "IsSupportedFiat f" "f = ''USD''" "isStablecoin cr"
    | v where "IsSupportedFiat f" "\<not> (f = ''USD'' \<and> isStablecoin cr)" "cache_Get (ag_ttl B) ?now c ?key = Some v"
    | "IsSupportedFiat f" "\<not> (f = ''USD'' \<and> isStablecoin cr)" "cache_Get (ag_ttl B) ?now c ?key = None"
    by (cases "cache_Get (ag_ttl B) ?now c ?key") blast+
  then have "?ok (rates_GetRate D B ?now c (qc_fiat q) (qc_crypto q))"
  proof cases
    case 1
    then show ?thesis unfolding run using answer_error [OF assms(1)] by simp
  next
    case 2
    then show ?thesis unfolding run using assms(1,3) by (auto simp: answer_ok_def)
  next
    case (3 v)
    have "?ok (c, Inr v)" using answer_cached [OF assms(1)] len [OF 3(1)] 3(3) by blast
    with 3 show ?thesis unfolding run by auto
  next
    case 4
    then have "IsSupportedFiat f = True" "(f = ''USD'' \<and> isStablecoin cr) = False" by auto
    note miss = run [unfolded this not_True_eq_False if_False 4(3) option.case]
    note set = answer_set [OF assms(1) len [OF 4(1)]]
    consider (manual) m where "mget (ag_manual B) cr = Some m" "cr \<noteq> crypto"
      | (direct) v where "mget (ag_manual B) cr = None" "provider_first (qc_providers q) 0 f cr = Some v"
      | (over) "mget (ag_manual B) cr = None" "provider_first (qc_providers q) 0 f cr = None"
      using assms(2) by (metis option.distinct(1) not_None_eq)
    then show ?thesis
    proof cases
      case (manual m)
      then show ?thesis unfolding miss using set [of cr] answer_error [OF assms(1)]
        by (cases "f = ''USD''") (auto split: sum.splits)
    next
      case (direct v)
      then have "?ok (cache_Set ?now c ?key v, Inr v)"
        by (intro set) (use quoted_now [OF direct(2) assms(4)] in \<open>auto simp: entry_ok_def\<close>)
      with direct assms(5) show ?thesis unfolding miss by simp
    next
      case over
      show ?thesis
        unfolding miss assms(5) over option.case by (rule answer_over_dollars [OF assms(1,3-6) len [OF 4(1)] 4(3)])
    qed
  qed
  then show ?thesis by (simp add: f_def cr_def)
qed

lemma cache_ok_empty: "cache_ok D ttl H crypto []"
  by (simp add: cache_ok_def)

lemma run_rate_answer:
  assumes "cache_ok D (ag_ttl A) H crypto c" and "mget (ag_manual A) crypto = None" and "\<not> isStablecoin crypto" and "q \<in> H"
  shows "answer_ok D (ag_ttl A) H crypto (qc_now q) (ToUpper (qc_fiat q)) (ToUpper (qc_crypto q)) (run_rate D A q c)"
  using rates_GetRate_answer [of D "A\<lparr>ag_providers := qc_providers q, ag_forex := qc_forex q\<rparr>" H crypto c q] assms
  by (simp add: run_rate_def)

lemma run_rates_ok:
  assumes "mget (ag_manual A) crypto = None" and "\<not> isStablecoin crypto"
  shows "cache_ok D (ag_ttl A) H crypto c \<Longrightarrow> set qs \<subseteq> H \<Longrightarrow> cache_ok D (ag_ttl A) H crypto (run_rates D A qs c)"
proof (induction qs arbitrary: c)
  case (Cons q qs)
  then show ?case using run_rate_answer [OF Cons.prems(1) assms, of q] by (simp add: answer_ok_def)
qed simp

text \<open>
  C32: every rate served was obtained from outside, and not too long ago.  After any calls on an empty
  cache, a successful \<open>GetRate\<close> for a crypto currency that is neither a stablecoin nor set by hand returns
  either a value that a provider quoted for exactly this pair, at most the time to live or five minutes
  ago, whichever is longer; or the product of a quote in dollars and a forex rate: the product was
  computed at most that long ago, from a quote that was then not older than the time to live.
\<close>
theorem rates_staleness_bound:
  assumes "run_rate D A q (run_rates D A qs []) = (c', Inr v)"
    and "mget (ag_manual A) (ToUpper (qc_crypto q)) = None" and "\<not> isStablecoin (ToUpper (qc_crypto q))"
  shows "(\<exists>t. qc_now q - t \<le> max (ag_ttl A) stale_bound
        \<and> quoted (set (q # qs)) (ToUpper (qc_fiat q)) (ToUpper (qc_crypto q)) v t)
    \<or> (\<exists>t t2. qc_now q - t2 \<le> max (ag_ttl A) stale_bound \<and> t2 - t \<le> max (ag_ttl A) 0
        \<and> converted D (set (q # qs)) (ToUpper (qc_fiat q)) (ToUpper (qc_crypto q)) v t t2)"
proof -
  let ?H = "set (q # qs)"
  have "cache_ok D (ag_ttl A) ?H (ToUpper (qc_crypto q)) (run_rates D A qs [])"
    by (rule run_rates_ok [OF assms(2,3) cache_ok_empty]) auto
  from run_rate_answer [OF this assms(2,3), of q] assms(1)
  have "served D (ag_ttl A) ?H (ToUpper (qc_fiat q)) (ToUpper (qc_crypto q)) (qc_now q) v" by (simp add: answer_ok_def)
  then show ?thesis by (simp only: served_def)
qed

text \<open>
  The bound is reached: with a time to live of 30, a quote in dollars of instant 0 is converted at 30,
  and the product is served at 60, when every provider has failed since.
\<close>

definition euro_call :: "gtime \<Rightarrow> string \<Rightarrow> rate_provider list \<Rightarrow> rate_call" where
  "euro_call now fiat ps =
     \<lparr>qc_now = now, qc_providers = ps, qc_forex = \<lparr>fc_providers = [\<lambda>f. Inr ''2''], fc_manual = []\<rparr>, qc_fiat = fiat, qc_crypto = ''btc''\<rparr>"

definition usd_only :: rate_provider where
  "usd_only n fiat crypto = (if fiat = ''USD'' then Inr ''7'' else Inl ErrJson)"

definition euro_history :: "rate_call list" where
  "euro_history = [euro_call 0 ''usd'' [usd_only], euro_call 30 ''eur'' []]"

theorem rates_staleness_bound_witness:
  "snd (run_rate dec_ops example_rates (euro_call 60 ''eur'' []) (run_rates dec_ops example_rates euro_history [])) = Inr ''14''
   \<and> (\<exists>t t2. 60 - t2 \<le> stale_bound \<and> t2 - t \<le> 30
        \<and> converted dec_ops (set (euro_call 60 ''eur'' [] # euro_history)) ''EUR'' ''BTC'' ''14'' t t2)"
proof
  let ?q = "euro_call 60 ''eur'' []" and ?c = "run_rates dec_ops example_rates euro_history []"
  show r: "snd (run_rate dec_ops example_rates ?q ?c) = Inr ''14''" by code_simp
  have up: "ToUpper ''btc'' = ''BTC''" "ToUpper ''eur'' = ''EUR''" "\<not> isStablecoin ''BTC''" by code_simp+
  have s: "max 30 stale_bound = stale_bound" by (simp add: stale_bound_def second_ns_def)
  have none: "\<not> quoted (set (?q # euro_history)) ''EUR'' ''BTC'' ''14'' t" for t
    by (auto simp: quoted_def euro_history_def euro_call_def usd_only_def)
  show "\<exists>t t2. 60 - t2 \<le> stale_bound \<and> t2 - t \<le> 30 \<and> converted dec_ops (set (?q # euro_history)) ''EUR'' ''BTC'' ''14'' t t2"
    using rates_staleness_bound [of dec_ops example_rates ?q euro_history "fst (run_rate dec_ops example_rates ?q ?c)" "''14''"] r none s
    by (simp add: prod_eq_iff up euro_call_def [of 60] example_rates_def del: list.set)
qed

end
