(* ===== verification/Xcash.thy ===== *)
theory Xcash
  imports GoJson WalletModel
begin

text \<open>
  The client and the webhook validator of the payment provider, \<open>internal/wallet/xcash\<close>.  Not in
  the repository, and so arguments: the keyed hash \<open>mac\<close> (HMAC-SHA256, key and message to bytes),
  the parser of JSON texts, the HTTP transport, and Redis, whose \<open>SETNX\<close> with an expiry is the
  locale \<open>nonce_store\<close>.

  Proved: a webhook is accepted only with the signature of its nonce, time and body and inside
  the time window, and a nonce that was accepted is not accepted again while Redis holds it; for
  the window itself that leaves a gap at its end, stated as the exact bound.
\<close>

section \<open>types.go\<close>

record deposit_address_request =
  dq_UID :: string
  dq_Chain :: string
  dq_Crypto :: string

record webhook_data =
  wd_SysNo :: string
  wd_UID :: string
  wd_Chain :: string
  wd_Block :: int
  wd_Hash :: string
  wd_Crypto :: string
  wd_Amount :: string
  wd_Confirmed :: bool
  wd_RiskLevel :: string
  wd_RiskScore :: string

record deposit_webhook =
  dw_Type :: string
  dw_Data :: webhook_data

definition zero_webhook :: deposit_webhook where
  "zero_webhook =
     \<lparr>dw_Type = [], dw_Data = \<lparr>wd_SysNo = [], wd_UID = [], wd_Chain = [], wd_Block = 0, wd_Hash = [],
        wd_Crypto = [], wd_Amount = [], wd_Confirmed = False, wd_RiskLevel = [], wd_RiskScore = []\<rparr>\<rparr>"

definition webhook_data_fields :: "(string \<times> (json \<Rightarrow> webhook_data \<Rightarrow> webhook_data result)) list" where
  "webhook_data_fields =
     [(''sys_no'', json_into wd_SysNo (\<lambda>x d. d\<lparr>wd_SysNo := x\<rparr>) json_string),
      (''uid'', json_into wd_UID (\<lambda>x d. d\<lparr>wd_UID := x\<rparr>) json_string),
      (''chain'', json_into wd_Chain (\<lambda>x d. d\<lparr>wd_Chain := x\<rparr>) json_string),
      (''block'', json_into wd_Block (\<lambda>x d. d\<lparr>wd_Block := x\<rparr>) json_int64),
      (''hash'', json_into wd_Hash (\<lambda>x d. d\<lparr>wd_Hash := x\<rparr>) json_string),
      (''crypto'', json_into wd_Crypto (\<lambda>x d. d\<lparr>wd_Crypto := x\<rparr>) json_string),
      (''amount'', json_into wd_Amount (\<lambda>x d. d\<lparr>wd_Amount := x\<rparr>) json_string),
      (''confirmed'', json_into wd_Confirmed (\<lambda>x d. d\<lparr>wd_Confirmed := x\<rparr>) json_bool),
      (''risk_level'', json_into wd_RiskLevel (\<lambda>x d. d\<lparr>wd_RiskLevel := x\<rparr>) json_string),
      (''risk_score'', json_into wd_RiskScore (\<lambda>x d. d\<lparr>wd_RiskScore := x\<rparr>) json_string)]"

definition decode_webhook :: "json \<Rightarrow> deposit_webhook result" where
  "decode_webhook j =
     json_struct
       [(''type'', json_into dw_Type (\<lambda>x w. w\<lparr>dw_Type := x\<rparr>) json_string),
        (''data'', json_into dw_Data (\<lambda>x w. w\<lparr>dw_Data := x\<rparr>) (json_struct webhook_data_fields))]
       j zero_webhook"

section \<open>client.go\<close>

definition hex_digit :: "nat \<Rightarrow> char" where
  "hex_digit n = (''0123456789abcdef'' ! n)"

definition hex_encode :: "nat list \<Rightarrow> string" where
  "hex_encode bs = concat (List.map (\<lambda>b. [hex_digit (b div 16 mod 16), hex_digit (b mod 16)]) bs)"

definition Sign :: "(string \<Rightarrow> string \<Rightarrow> nat list) \<Rightarrow> string \<Rightarrow> string \<Rightarrow> string" where
  "Sign mac message key = hex_encode (mac key message)"

text \<open>\<open>url.QueryEscape\<close>.\<close>

definition query_unreserved :: "char \<Rightarrow> bool" where
  "query_unreserved c =
     (let n = (of_char c :: nat)
      in 48 \<le> n \<and> n \<le> 57 \<or> 65 \<le> n \<and> n \<le> 90 \<or> 97 \<le> n \<and> n \<le> 122 \<or> List.member ''-_.~'' c)"

definition QueryEscape :: "string \<Rightarrow> string" where
  "QueryEscape s =
     concat (List.map (\<lambda>c. if query_unreserved c then [c] else if c = CHR '' '' then ''+''
                           else ''%'' @ ToUpper (hex_encode [of_char c])) s)"

record xcash_client =
  xc_baseURL :: string
  xc_appID :: string
  xc_hmacKey :: string

text \<open>
  The transport is given the URL and the headers: an error, or the status and the body.  The
  query is encoded with its keys in order.
\<close>

definition xcash_GetDepositAddress ::
  "(string \<Rightarrow> string \<Rightarrow> nat list) \<Rightarrow> (string \<Rightarrow> json option) \<Rightarrow> (string \<Rightarrow> string gomap \<Rightarrow> (int \<times> string) result)
   \<Rightarrow> gtime \<Rightarrow> string \<Rightarrow> xcash_client \<Rightarrow> deposit_address_request \<Rightarrow> string result" where
  "xcash_GetDepositAddress mac parse http unix_now nonce c req =
     (let url = xc_baseURL c @ ''/v1/deposit/address?chain='' @ QueryEscape (dq_Chain req)
                @ ''&crypto='' @ QueryEscape (dq_Crypto req) @ ''&uid='' @ QueryEscape (dq_UID req);
          timestamp = itoa unix_now;
          signature = Sign mac (nonce @ timestamp @ []) (xc_hmacKey c);
          headers = [(''XC-Appid'', xc_appID c), (''XC-Timestamp'', timestamp), (''XC-Nonce'', nonce),
                     (''XC-Signature'', signature)]
      in case http url headers of
           Inl err \<Rightarrow> Inl (WrapErr ''do request: '' err)
         | Inr (code, body) \<Rightarrow>
             if code \<noteq> 200 then Inl (NewErr (''xcash '' @ itoa code @ '': '' @ body))
             else
               (case parse body of
                  None \<Rightarrow> Inl (WrapErr ''decode response: '' ErrJson)
                | Some j \<Rightarrow>
                    (case json_struct [(''deposit_address'', json_string)] j [] of
                       Inl err \<Rightarrow> Inl (WrapErr ''decode response: '' err)
                     | Inr address \<Rightarrow> Inr address)))"

section \<open>webhook.go\<close>

text \<open>
  \<open>setnx r now key value ttl\<close> is the reply of Redis and its new state; \<open>live r t key\<close> says that the
  key exists at time \<open>t\<close>.
\<close>

type_synonym 'r setnx = "'r \<Rightarrow> gtime \<Rightarrow> string \<Rightarrow> string \<Rightarrow> int \<Rightarrow> 'r \<times> bool result"

record webhook_validator =
  wv_hmacKey :: string
  wv_redis :: bool
  wv_window :: int

definition defaultWebhookWindow :: int where
  "defaultWebhookWindow = 5 * 60 * second_ns"

definition futureTolerance :: int where
  "futureTolerance = 30 * second_ns"

definition webhookNoncePrefix :: string where
  "webhookNoncePrefix = ''xcash:webhook:nonce:''"

definition NewWebhookValidator :: "string \<Rightarrow> webhook_validator" where
  "NewWebhookValidator hmacKey =
     \<lparr>wv_hmacKey = hmacKey, wv_redis = False, wv_window = defaultWebhookWindow\<rparr>"

definition WithRedis :: "webhook_validator \<Rightarrow> webhook_validator" where
  "WithRedis v = v\<lparr>wv_redis := True\<rparr>"

definition validateTimestamp :: "webhook_validator \<Rightarrow> gtime \<Rightarrow> string \<Rightarrow> unit result" where
  "validateTimestamp v now timestamp =
     (case ParseInt64 timestamp of
        Inl err \<Rightarrow> Inl (WrapErr ''invalid webhook timestamp: '' err)
      | Inr ts \<Rightarrow>
          let webhookTime = time_Unix ts
          in if webhookTime < now - wv_window v
             then Inl (NewErr ''webhook timestamp outside acceptable window'')
             else if webhookTime > now + futureTolerance
             then Inl (NewErr ''webhook timestamp too far in the future'')
             else Inr ())"

definition checkNonce ::
  "'r setnx \<Rightarrow> webhook_validator \<Rightarrow> gtime \<Rightarrow> 'r \<Rightarrow> string \<Rightarrow> string \<Rightarrow> 'r \<times> unit result" where
  "checkNonce setnx v now r nonce timestamp =
     (case setnx r now (webhookNoncePrefix @ nonce) timestamp (wv_window v) of
        (r', Inl err) \<Rightarrow> (r', Inl (WrapErr ''webhook nonce check failed: '' err))
      | (r', Inr ok) \<Rightarrow>
          if \<not> ok then (r', Inl (NewErr ''webhook nonce already used'')) else (r', Inr ()))"

definition header :: "string gomap \<Rightarrow> string \<Rightarrow> string" where
  "header headers k = (case mget headers k of None \<Rightarrow> [] | Some v \<Rightarrow> v)"

definition Validate ::
  "(string \<Rightarrow> string \<Rightarrow> nat list) \<Rightarrow> (string \<Rightarrow> json option) \<Rightarrow> 'r setnx \<Rightarrow> webhook_validator
   \<Rightarrow> gtime \<Rightarrow> 'r \<Rightarrow> string \<Rightarrow> string gomap \<Rightarrow> 'r \<times> deposit_webhook result" where
  "Validate mac parse setnx v now r body headers =
     (let nonce = header headers ''XC-Nonce''; timestamp = header headers ''XC-Timestamp'';
          signature = header headers ''XC-Signature'';
          expected = Sign mac (nonce @ timestamp @ body) (wv_hmacKey v)
      in if signature \<noteq> expected then (r, Inl (NewErr ''invalid webhook signature''))
         else case validateTimestamp v now timestamp of
           Inl err \<Rightarrow> (r, Inl err)
         | Inr _ \<Rightarrow>
           (case (if wv_redis v then checkNonce setnx v now r nonce timestamp else (r, Inr ())) of
              (r', Inl err) \<Rightarrow> (r', Inl err)
            | (r', Inr _) \<Rightarrow>
              (case parse body of
                 None \<Rightarrow> (r', Inl (WrapErr ''unmarshal webhook: '' ErrJson))
               | Some j \<Rightarrow>
                   (case decode_webhook j of
                      Inl err \<Rightarrow> (r', Inl (WrapErr ''unmarshal webhook: '' err))
                    | Inr webhook \<Rightarrow> (r', Inr webhook)))))"

section \<open>Redis as documented\<close>

locale nonce_store =
  fixes setnx :: "'r setnx" and live :: "'r \<Rightarrow> gtime \<Rightarrow> string \<Rightarrow> bool"
  assumes setnx_sets: "setnx r t k v ttl = (r', Inr True) \<Longrightarrow> t \<le> t' \<Longrightarrow> t' < t + ttl \<Longrightarrow> live r' t' k"
    and setnx_refuses: "live r t k \<Longrightarrow> snd (setnx r t k v ttl) \<noteq> Inr True"
    and setnx_keeps: "live r t' k \<Longrightarrow> t \<le> t' \<Longrightarrow> live (fst (setnx r t k' v ttl)) t' k"
begin

lemma Validate_Inr:
  assumes "Validate mac parse setnx v now r body headers = (r', Inr w)"
  shows "header headers ''XC-Signature''
      = Sign mac (header headers ''XC-Nonce'' @ header headers ''XC-Timestamp'' @ body) (wv_hmacKey v)"
    and "\<exists>ts. ParseInt64 (header headers ''XC-Timestamp'') = Inr ts
      \<and> now - wv_window v \<le> time_Unix ts \<and> time_Unix ts \<le> now + futureTolerance"
    and "wv_redis v \<Longrightarrow> setnx r now (webhookNoncePrefix @ header headers ''XC-Nonce'')
      (header headers ''XC-Timestamp'') (wv_window v) = (r', Inr True)"
  using assms
  by (auto simp: Validate_def Let_def validateTimestamp_def checkNonce_def
      split: if_splits sum.splits prod.splits option.splits)

lemma Validate_keeps:
  assumes "live r t' k" and "t \<le> t'"
  shows "live (fst (Validate mac parse setnx v t r body headers)) t' k"
proof -
  let ?n = "header headers ''XC-Nonce''" and ?ts = "header headers ''XC-Timestamp''"
  have "fst (Validate mac parse setnx v t r body headers) = r
    \<or> fst (Validate mac parse setnx v t r body headers) = fst (setnx r t (webhookNoncePrefix @ ?n) ?ts (wv_window v))"
    by (auto simp: Validate_def Let_def checkNonce_def split: sum.splits prod.splits option.splits)
  then show ?thesis
    using assms setnx_keeps by metis
qed

lemma Validate_replay:
  assumes "Validate mac parse setnx v now r body headers = (r', Inr w)" and "wv_redis v"
    and "live r' now' (webhookNoncePrefix @ header headers ''XC-Nonce'') \<Longrightarrow>
      live r'' now' (webhookNoncePrefix @ header headers ''XC-Nonce'')"
    and "now \<le> now'" and "now' < now + wv_window v"
    and "header headers' ''XC-Nonce'' = header headers ''XC-Nonce''"
  shows "\<not> is_ok (snd (Validate mac parse setnx v now' r'' body' headers'))"
proof
  assume "is_ok (snd (Validate mac parse setnx v now' r'' body' headers'))"
  then obtain r3 w' where v': "Validate mac parse setnx v now' r'' body' headers' = (r3, Inr w')"
    by (cases "Validate mac parse setnx v now' r'' body' headers'"; cases "snd (Validate mac parse setnx v now' r'' body' headers')") auto
  have "live r' now' (webhookNoncePrefix @ header headers ''XC-Nonce'')"
    using Validate_Inr(3) [OF assms(1,2)] assms(4,5) setnx_sets by blast
  then have "live r'' now' (webhookNoncePrefix @ header headers ''XC-Nonce'')" by (rule assms(3))
  then show False
    using Validate_Inr(3) [OF v' assms(2)] setnx_refuses assms(6) by (metis snd_conv)
qed

text \<open>Any validations at times from \<open>t\<close> to \<open>t'\<close>, in order.\<close>

lemma validations_keep:
  assumes "live r t' k" and "sorted_wrt (\<le>) (t # List.map fst evs)" and "\<forall>e\<in>set evs. fst e \<le> t'"
  shows "live (fold (\<lambda>(now, body, headers) r. fst (Validate mac parse setnx v now r body headers)) evs r) t' k"
  using assms
proof (induction evs arbitrary: r t)
  case (Cons e evs)
  obtain now body headers where e: "e = (now, body, headers)" by (cases e) auto
  have "live (fst (Validate mac parse setnx v now r body headers)) t' k"
    using Cons.prems by (intro Validate_keeps) (auto simp: e)
  then show ?case
    using Cons.IH [of "fst (Validate mac parse setnx v now r body headers)" now] Cons.prems by (simp add: e)
qed simp

end

section \<open>An instance: keys with their expiry\<close>

definition exp_live :: "int gomap \<Rightarrow> gtime \<Rightarrow> string \<Rightarrow> bool" where
  "exp_live m t k = (case mget m k of None \<Rightarrow> False | Some e \<Rightarrow> t < e)"

definition exp_setnx :: "int gomap setnx" where
  "exp_setnx m t k v ttl = (if exp_live m t k then (m, Inr False) else (mput k (t + ttl) m, Inr True))"

interpretation expiring: nonce_store exp_setnx exp_live
  by unfold_locales (auto simp: exp_setnx_def exp_live_def split: if_splits option.splits)

section \<open>Properties\<close>

text \<open>
  C30: \<open>Validate\<close> accepts a webhook only if its signature header is the HMAC of nonce, timestamp
  and body under the key, and its timestamp is a number of seconds at most the window old and at
  most 30 seconds in the future.
\<close>
theorem Validate_sound:
  assumes "nonce_store setnx live"
    and "Validate mac parse setnx v now r body headers = (r', Inr w)"
  shows "header headers ''XC-Signature''
      = Sign mac (header headers ''XC-Nonce'' @ header headers ''XC-Timestamp'' @ body) (wv_hmacKey v)
    \<and> (\<exists>ts. ParseInt64 (header headers ''XC-Timestamp'') = Inr ts
         \<and> now - wv_window v \<le> time_Unix ts \<and> time_Unix ts \<le> now + 30 * second_ns)"
  using nonce_store.Validate_Inr [OF assms] by (simp add: futureTolerance_def)

text \<open>
  No replay inside the window.  After a webhook was accepted, and after any further
  validations, a webhook with the same nonce is refused until the window has passed since the
  acceptance.
\<close>
theorem Validate_no_replay:
  assumes "nonce_store setnx live" and "wv_redis v"
    and "Validate mac parse setnx v now r body headers = (r', Inr w)"
    and "sorted_wrt (\<le>) (now # List.map fst evs)" and "\<forall>e\<in>set evs. fst e \<le> now'"
    and "now \<le> now'" and "now' < now + wv_window v"
    and "header headers' ''XC-Nonce'' = header headers ''XC-Nonce''"
  shows "\<not> is_ok (snd (Validate mac parse setnx v now'
      (fold (\<lambda>(now, body, headers) r. fst (Validate mac parse setnx v now r body headers)) evs r') body' headers'))"
  by (rule nonce_store.Validate_replay [OF assms(1,3,2) _ assms(6,7,8)])
    (rule nonce_store.validations_keep [OF assms(1) _ assms(4,5)])

definition example_mac :: "string \<Rightarrow> string \<Rightarrow> nat list" where
  "example_mac key message = List.map of_char key @ List.map of_char message"

definition example_validator :: webhook_validator where
  "example_validator = WithRedis (NewWebhookValidator ''k'')"

text \<open>A message stamped at second 100 of the clock.\<close>

definition example_headers :: "string gomap" where
  "example_headers =
     [(''XC-Nonce'', ''n1''), (''XC-Timestamp'', ''100''),
      (''XC-Signature'', Sign example_mac (''n1'' @ ''100'' @ ''body'') ''k'')]"

definition example_parse :: "string \<Rightarrow> json option" where
  "example_parse s =
     Some (JObj [(''type'', JStr ''deposit''),
       (''data'', JObj [(''sys_no'', JStr ''s1''), (''uid'', JStr ''u''), (''chain'', JStr ''ETH''), (''crypto'', JStr ''USDT''),
          (''amount'', JStr ''5''), (''confirmed'', JBool True)])])"

text \<open>The clock at second \<open>n\<close> of Unix time.\<close>

definition at_second :: "int \<Rightarrow> gtime" where
  "at_second n = time_Unix n"

definition example_validate :: "int \<Rightarrow> int gomap \<Rightarrow> int gomap \<times> deposit_webhook result" where
  "example_validate n r = Validate example_mac example_parse exp_setnx example_validator (at_second n) r ''body'' example_headers"

lemma example_validate_ok: "\<exists>w. example_validate 100 [] = (fst (example_validate 100 []), Inr w)"
proof -
  have "is_ok (snd (example_validate 100 []))" by code_simp
  then show ?thesis by (cases "example_validate 100 []"; cases "snd (example_validate 100 [])") auto
qed

theorem Validate_sound_witness:
  "header example_headers ''XC-Signature''
      = Sign example_mac (header example_headers ''XC-Nonce'' @ header example_headers ''XC-Timestamp'' @ ''body'')
          (wv_hmacKey example_validator)"
proof -
  obtain w where "example_validate 100 [] = (fst (example_validate 100 []), Inr w)"
    using example_validate_ok by blast
  from Validate_sound [OF expiring.nonce_store_axioms this [unfolded example_validate_def]]
  show ?thesis by blast
qed

theorem Validate_no_replay_witness: "\<not> is_ok (snd (example_validate 200 (fst (example_validate 100 []))))"
proof -
  obtain w where w: "example_validate 100 [] = (fst (example_validate 100 []), Inr w)"
    using example_validate_ok by blast
  have t: "wv_redis example_validator" "at_second 100 \<le> at_second 200" "at_second 200 < at_second 100 + wv_window example_validator"
    by code_simp+
  from Validate_no_replay [OF expiring.nonce_store_axioms t(1) w [unfolded example_validate_def], of "[]" "at_second 200"]
  show ?thesis using t by (simp add: example_validate_def)
qed

text \<open>
  The nonce is forgotten before the timestamp expires.  A message stamped at second 100 and
  delivered at second 80 is accepted; delivered again at second 399, unchanged, it is accepted
  again, because Redis keeps the nonce for the window (300 seconds from the delivery) while the
  timestamp stays acceptable for the window after its own time.
\<close>
theorem Validate_replay_gap:
  "is_ok (snd (example_validate 80 [])) \<and> is_ok (snd (example_validate 399 (fst (example_validate 80 []))))"
  by code_simp

end
