(* ===== verification/WalletService.thy ===== *)
theory WalletService
  imports Xcash Rates Ledger
begin

text \<open>
  The wallet service, \<open>internal/wallet/service.go\<close>, and its gRPC server, \<open>server.go\<close>, over any
  store \<open>S\<close> with the operations of the interface \<open>Store\<close>.  The set of supported pairs is a Go
  map without values; the functions that walk it take the order of iteration.  The service keeps
  no state of its own: an operation passes the state of the store (and of Redis) through.

  Proved: a supported pair is exactly a configured one; a confirmed deposit is credited once per
  \<open>sys_no\<close> however often it is delivered (from the contract \<open>crediting_store\<close>); and the caller
  checks of the interceptor.
\<close>

section \<open>service.go\<close>

record 'r wallet_service =
  sv_pairs :: "unit gomap"
  sv_validate :: "gtime \<Rightarrow> 'r \<Rightarrow> string \<Rightarrow> string gomap \<Rightarrow> 'r \<times> deposit_webhook result"
  sv_xcash :: "deposit_address_request \<Rightarrow> string result"

text \<open>The pair a configured text names, if it is well formed.\<close>

definition parse_pair :: "string \<Rightarrow> string option" where
  "parse_pair p0 =
     (let p = TrimSpace p0
      in if p = [] then None
         else case SplitN2 (CHR '':'') p of
           [a, b] \<Rightarrow>
             (let currency = TrimSpace a; chain = TrimSpace b
              in if currency = [] \<or> chain = [] then None else Some (currency @ '':'' @ chain))
         | _ \<Rightarrow> None)"

fun make_pairs :: "string list \<Rightarrow> unit gomap \<Rightarrow> unit gomap" where
  "make_pairs [] pairs = pairs"
| "make_pairs (p # ps) pairs =
     make_pairs ps (case parse_pair p of None \<Rightarrow> pairs | Some k \<Rightarrow> mput k () pairs)"

definition NewService ::
  "(gtime \<Rightarrow> 'r \<Rightarrow> string \<Rightarrow> string gomap \<Rightarrow> 'r \<times> deposit_webhook result)
   \<Rightarrow> (deposit_address_request \<Rightarrow> string result) \<Rightarrow> string list \<Rightarrow> 'r wallet_service" where
  "NewService validate xcash supportedPairs =
     \<lparr>sv_pairs = make_pairs supportedPairs [], sv_validate = validate, sv_xcash = xcash\<rparr>"

definition isSupportedPair :: "'r wallet_service \<Rightarrow> string \<Rightarrow> string \<Rightarrow> bool" where
  "isSupportedPair sv currency chain \<longleftrightarrow> mget (sv_pairs sv) (currency @ '':'' @ chain) \<noteq> None"

definition validatePair :: "'r wallet_service \<Rightarrow> string \<Rightarrow> string \<Rightarrow> unit result" where
  "validatePair sv currency chain =
     (if \<not> isSupportedPair sv currency chain then Inl (NewErr ''unsupported currency-chain pair'') else Inr ())"

fun distinct_heads :: "string list \<Rightarrow> string list \<Rightarrow> string list" where
  "distinct_heads [] out = out"
| "distinct_heads (pair # pairs) out =
     (let c = hd (SplitN2 (CHR '':'') pair)
      in distinct_heads pairs (if List.member out c then out else out @ [c]))"

definition supportedCurrencies :: "(string list \<Rightarrow> string list) \<Rightarrow> 'r wallet_service \<Rightarrow> string list" where
  "supportedCurrencies ord sv = distinct_heads (ord (List.map fst (sv_pairs sv))) []"

definition currencyInPairs :: "'r wallet_service \<Rightarrow> string \<Rightarrow> bool" where
  "currencyInPairs sv currency \<longleftrightarrow>
     list_ex (\<lambda>pair. hd (SplitN2 (CHR '':'') pair) = currency) (List.map fst (sv_pairs sv))"

definition svc_GetBalance ::
  "('e, 's) store_ops \<Rightarrow> 'r wallet_service \<Rightarrow> 'e \<Rightarrow> 's \<Rightarrow> string \<Rightarrow> string \<Rightarrow> 's \<times> wallet result" where
  "svc_GetBalance S sv E s userID currency =
     (if \<not> currencyInPairs sv currency then (s, Inl (NewErr ''unsupported currency''))
      else case GetWallet S E s userID currency of
        Inr w \<Rightarrow> (s, Inr w)
      | Inl err \<Rightarrow>
          if errors_Is err ErrWalletNotFound then CreateWallet S E s userID currency
          else (s, Inl err))"

definition svc_GetDepositAddress ::
  "('e, 's) store_ops \<Rightarrow> 'r wallet_service \<Rightarrow> 'e \<Rightarrow> 's \<Rightarrow> string \<Rightarrow> string \<Rightarrow> string \<Rightarrow> 's \<times> deposit_address result" where
  "svc_GetDepositAddress S sv E s userID currency chain =
     (case validatePair sv currency chain of
        Inl err \<Rightarrow> (s, Inl err)
      | Inr _ \<Rightarrow>
        (case GetDepositAddress S E s userID currency chain of
           Inr addr \<Rightarrow> (s, Inr addr)
         | Inl _ \<Rightarrow>
           (case sv_xcash sv \<lparr>dq_UID = userID, dq_Chain = chain, dq_Crypto = currency\<rparr> of
              Inl err \<Rightarrow> (s, Inl err)
            | Inr address \<Rightarrow>
                CreateDepositAddress S E s
                  \<lparr>a_ID = [], a_UserID = userID, a_Currency = currency, a_Chain = chain, a_Address = address,
                   a_XCashDepositID = [], a_Status = ''active'', a_CreatedAt = zero_time\<rparr>)))"

definition svc_ProcessDepositWebhook ::
  "('e, 's) store_ops \<Rightarrow> 'r wallet_service \<Rightarrow> 'e \<Rightarrow> gtime \<Rightarrow> 's \<times> 'r \<Rightarrow> string \<Rightarrow> string gomap \<Rightarrow> ('s \<times> 'r) \<times> string result" where
  "svc_ProcessDepositWebhook S sv E now sr body headers =
     (case sv_validate sv now (snd sr) body headers of
        (r', Inl err) \<Rightarrow> ((fst sr, r'), Inl err)
      | (r', Inr webhook) \<Rightarrow>
          let d = dw_Data webhook
          in if \<not> wd_Confirmed d then ((fst sr, r'), Inr ''ok'')
             else case validatePair sv (wd_Crypto d) (wd_Chain d) of
               Inl err \<Rightarrow> ((fst sr, r'), Inl err)
             | Inr _ \<Rightarrow>
               (case CreditWallet S E (fst sr) (wd_UID d) (wd_Crypto d) (wd_Amount d) (wd_SysNo d)
                       (Some [(''chain'', JStr (wd_Chain d)), (''hash'', JStr (wd_Hash d)),
                              (''block'', JNum (itoa (wd_Block d)))]) of
                  (s', Inl err) \<Rightarrow> ((s', r'), Inl err)
                | (s', Inr txn) \<Rightarrow> ((s', r'), Inr ''ok'')))"

definition svc_RequestWithdrawal ::
  "('e, 's) store_ops \<Rightarrow> 'r wallet_service \<Rightarrow> 'e \<Rightarrow> 's \<Rightarrow> string \<Rightarrow> string \<Rightarrow> string \<Rightarrow> string \<Rightarrow> string
   \<Rightarrow> 's \<times> withdrawal_request result" where
  "svc_RequestWithdrawal S sv E s userID currency amount destinationAddress chain =
     (case validatePair sv currency chain of
        Inl err \<Rightarrow> (s, Inl err)
      | Inr _ \<Rightarrow> RequestWithdrawal S E s userID currency amount destinationAddress chain)"

definition svc_ReviewWithdrawal ::
  "('e, 's) store_ops \<Rightarrow> 'e \<Rightarrow> 's \<Rightarrow> string \<Rightarrow> string \<Rightarrow> string \<Rightarrow> string \<Rightarrow> 's \<times> withdrawal_request result" where
  "svc_ReviewWithdrawal S E s i action txHash reviewedBy =
     (if action = ''approve'' then ApproveWithdrawal S E s i txHash reviewedBy
      else if action = ''reject'' then RejectWithdrawal S E s i reviewedBy
      else (s, Inl (NewErr ''invalid action'')))"

section \<open>server.go\<close>

definition serviceCallerID :: string where
  "serviceCallerID = ''gateway''"

definition defaultFiat :: "string \<Rightarrow> string \<Rightarrow> string" where
  "defaultFiat env reqFiat =
     (let fiat = ToUpper (TrimSpace reqFiat);
          fiat = (if fiat = [] then env else fiat)
      in if fiat = [] \<or> \<not> IsSupportedFiat fiat then ''USD'' else fiat)"

text \<open>The methods of the service (\<open>FullMethodName\<close> of the generated code).\<close>

datatype wallet_method = M_GetRates | M_GetBalance | M_ListTransactions | M_GetDepositAddress
  | M_RequestWithdrawal | M_ProcessDepositWebhook | M_ListPendingWithdrawals | M_ReviewWithdrawal
  | M_DebitWallet | M_CreditWallet

text \<open>
  Incoming metadata: \<open>None\<close> when there is none, otherwise the values of each key.  The request's
  user id is \<open>None\<close> for the messages without \<open>GetUserId\<close>.  \<open>Inr\<close> means that the handler runs.
\<close>

definition md_Get :: "string list gomap \<Rightarrow> string \<Rightarrow> string list" where
  "md_Get md k = (case mget md (ToLower k) of None \<Rightarrow> [] | Some vs \<Rightarrow> vs)"

definition wallet_AuthInterceptor ::
  "string list gomap option \<Rightarrow> wallet_method \<Rightarrow> string option \<Rightarrow> unit result" where
  "wallet_AuthInterceptor md meth reqUserID =
     (case md of
        None \<Rightarrow> Inl (StatusErr Unauthenticated ''missing caller metadata'')
      | Some md \<Rightarrow>
          let userIDs = md_Get md ''x-user-id''
          in if userIDs = [] \<or> hd userIDs = [] then Inl (StatusErr Unauthenticated ''missing caller user id'')
             else
               let callerID = hd userIDs;
                   adminVals = md_Get md ''x-caller-is-admin'';
                   isAdmin = (adminVals \<noteq> [] \<and> hd adminVals = ''true'')
               in (case meth of
                     M_ListPendingWithdrawals \<Rightarrow>
                       if \<not> isAdmin then Inl (StatusErr PermissionDenied ''admin metadata required'') else Inr ()
                   | M_ReviewWithdrawal \<Rightarrow>
                       if \<not> isAdmin then Inl (StatusErr PermissionDenied ''admin metadata required'') else Inr ()
                   | M_DebitWallet \<Rightarrow>
                       if \<not> isAdmin then Inl (StatusErr PermissionDenied ''admin metadata required'')
                       else if callerID \<noteq> serviceCallerID
                       then Inl (StatusErr PermissionDenied ''service caller metadata required'') else Inr ()
                   | M_CreditWallet \<Rightarrow>
                       if \<not> isAdmin then Inl (StatusErr PermissionDenied ''admin metadata required'')
                       else if callerID \<noteq> serviceCallerID
                       then Inl (StatusErr PermissionDenied ''service caller metadata required'') else Inr ()
                   | M_GetRates \<Rightarrow> Inr ()
                   | M_ProcessDepositWebhook \<Rightarrow> Inr ()
                   | _ \<Rightarrow>
                       (case reqUserID of
                          None \<Rightarrow> Inr ()
                        | Some reqUserID \<Rightarrow>
                            if reqUserID \<noteq> [] \<and> reqUserID \<noteq> callerID
                            then Inl (StatusErr PermissionDenied ''caller user id does not match request user id'')
                            else Inr ())))"

text \<open>
  The rates a server was built with: \<open>None\<close> when there is no aggregator.  A look-up passes the
  state of the rate cache through.
\<close>

type_synonym 'c rate_fun = "'c \<Rightarrow> string \<Rightarrow> string \<Rightarrow> 'c \<times> string result"

definition fiatValue :: "'d decimal_ops \<Rightarrow> 'c rate_fun \<Rightarrow> 'c \<Rightarrow> string \<Rightarrow> string \<Rightarrow> string \<Rightarrow> 'c \<times> string result" where
  "fiatValue D rate c fiat currency amount =
     (case rate c fiat currency of
        (c', Inl err) \<Rightarrow> (c', Inl err)
      | (c', Inr r) \<Rightarrow> (c', MulDecimalStrings D amount r))"

definition fiatValue_or_0 :: "'d decimal_ops \<Rightarrow> 'c rate_fun option \<Rightarrow> 'c \<Rightarrow> string \<Rightarrow> string \<Rightarrow> string \<Rightarrow> 'c \<times> string" where
  "fiatValue_or_0 D rates c fiat currency amount =
     (case rates of
        None \<Rightarrow> (c, ''0'')
      | Some rate \<Rightarrow>
          (case fiatValue D rate c fiat currency amount of
             (c', Inl err) \<Rightarrow> (c', ''0'')
           | (c', Inr v) \<Rightarrow> (c', v)))"

record balance_response =
  br_Currency :: string
  br_Balance :: string
  br_FiatCurrency :: string
  br_FiatValue :: string

definition srv_GetBalance ::
  "'d decimal_ops \<Rightarrow> ('e, 's) store_ops \<Rightarrow> 'r wallet_service \<Rightarrow> 'c rate_fun option \<Rightarrow> string \<Rightarrow> 'e \<Rightarrow> 's \<times> 'c
   \<Rightarrow> string \<Rightarrow> string \<Rightarrow> string \<Rightarrow> ('s \<times> 'c) \<times> balance_response result" where
  "srv_GetBalance D S sv rates env E sc userId currency fiatCurrency =
     (case svc_GetBalance S sv E (fst sc) userId currency of
        (s', Inl err) \<Rightarrow> ((s', snd sc), Inl err)
      | (s', Inr w) \<Rightarrow>
          let fiat = defaultFiat env fiatCurrency
          in case fiatValue_or_0 D rates (snd sc) fiat (w_Currency w) (w_Balance w) of (c', v) \<Rightarrow>
               ((s', c'), Inr \<lparr>br_Currency = w_Currency w, br_Balance = w_Balance w, br_FiatCurrency = fiat,
                               br_FiatValue = v\<rparr>))"

definition srv_GetRates ::
  "(string list \<Rightarrow> string list) \<Rightarrow> 'd decimal_ops \<Rightarrow> 'r wallet_service \<Rightarrow> aggregator \<Rightarrow> string \<Rightarrow> gtime \<Rightarrow> rate_cache
   \<Rightarrow> string \<Rightarrow> rate_cache \<times> string \<times> string gomap" where
  "srv_GetRates ord D sv A env now c fiatCurrency =
     (let fiat = defaultFiat env fiatCurrency
      in case SupportedRates D A now c fiat (supportedCurrencies ord sv) [] of (c', rs) \<Rightarrow> (c', fiat, rs))"

record pb_transaction =
  pt_Txn :: transaction
  pt_CreatedAt :: string
  pt_FiatValue :: string

fun txns_to_pb ::
  "'d decimal_ops \<Rightarrow> 'c rate_fun option \<Rightarrow> (gtime \<Rightarrow> string) \<Rightarrow> string \<Rightarrow> 'c \<Rightarrow> transaction list \<Rightarrow> 'c \<times> pb_transaction list" where
  "txns_to_pb D rates fmt fiat c [] = (c, [])"
| "txns_to_pb D rates fmt fiat c (t # ts) =
     (case fiatValue_or_0 D rates c fiat (t_Currency t) (t_Amount t) of (c1, v) \<Rightarrow>
        (case txns_to_pb D rates fmt fiat c1 ts of (c2, out) \<Rightarrow>
           (c2, \<lparr>pt_Txn = t, pt_CreatedAt = fmt (t_CreatedAt t), pt_FiatValue = v\<rparr> # out)))"

definition srv_ListTransactions ::
  "'d decimal_ops \<Rightarrow> ('e, 's) store_ops \<Rightarrow> 'c rate_fun option \<Rightarrow> (gtime \<Rightarrow> string) \<Rightarrow> string \<Rightarrow> 'e \<Rightarrow> 's \<Rightarrow> 'c
   \<Rightarrow> string \<Rightarrow> int \<Rightarrow> int \<Rightarrow> string \<Rightarrow> 'c \<times> pb_transaction list result" where
  "srv_ListTransactions D S rates fmt env E s c userId page pageSize fiatCurrency =
     (case ListTransactions S E s userId page pageSize of
        Inl err \<Rightarrow> (c, Inl err)
      | Inr txns \<Rightarrow>
          (case txns_to_pb D rates fmt (defaultFiat env fiatCurrency) c txns of (c', out) \<Rightarrow> (c', Inr out)))"

definition srv_GetDepositAddress ::
  "('e, 's) store_ops \<Rightarrow> 'r wallet_service \<Rightarrow> 'e \<Rightarrow> 's \<Rightarrow> string \<Rightarrow> string \<Rightarrow> string
   \<Rightarrow> 's \<times> (string \<times> string \<times> string) result" where
  "srv_GetDepositAddress S sv E s userId currency chain =
     (case svc_GetDepositAddress S sv E s userId currency chain of
        (s', Inl err) \<Rightarrow> (s', Inl err)
      | (s', Inr addr) \<Rightarrow> (s', Inr (a_Address addr, a_Chain addr, a_Currency addr)))"

definition srv_RequestWithdrawal ::
  "('e, 's) store_ops \<Rightarrow> 'r wallet_service \<Rightarrow> 'e \<Rightarrow> 's \<Rightarrow> string \<Rightarrow> string \<Rightarrow> string \<Rightarrow> string \<Rightarrow> string
   \<Rightarrow> 's \<times> (string \<times> string) result" where
  "srv_RequestWithdrawal S sv E s userId currency amount destinationAddress chain =
     (case svc_RequestWithdrawal S sv E s userId currency amount destinationAddress chain of
        (s', Inl err) \<Rightarrow> (s', Inl err)
      | (s', Inr out) \<Rightarrow> (s', Inr (r_ID out, r_Status out)))"

definition srv_ListPendingWithdrawals ::
  "('e, 's) store_ops \<Rightarrow> (gtime \<Rightarrow> string) \<Rightarrow> 'e \<Rightarrow> 's \<Rightarrow> int \<Rightarrow> int \<Rightarrow> (withdrawal_request \<times> string) list result" where
  "srv_ListPendingWithdrawals S fmt E s page pageSize =
     (case ListPendingWithdrawals S E s page pageSize of
        Inl err \<Rightarrow> Inl err
      | Inr ws \<Rightarrow> Inr (List.map (\<lambda>w. (w\<lparr>r_WalletID := [], r_ReviewedBy := []\<rparr>, fmt (r_CreatedAt w))) ws))"

definition srv_ReviewWithdrawal ::
  "('e, 's) store_ops \<Rightarrow> 'e \<Rightarrow> 's \<Rightarrow> string \<Rightarrow> string \<Rightarrow> string \<Rightarrow> string \<Rightarrow> 's \<times> string result" where
  "srv_ReviewWithdrawal S E s i action txHash reviewedBy =
     (case svc_ReviewWithdrawal S E s i action txHash reviewedBy of
        (s', Inl err) \<Rightarrow> (s', Inl err)
      | (s', Inr w) \<Rightarrow> (s', Inr (r_Status w)))"

definition parseMetadataJSON :: "json_codec \<Rightarrow> string \<Rightarrow> metadata result" where
  "parseMetadataJSON J s = (if s = [] then Inr None else json_Unmarshal J s)"

definition mapWalletError :: "go_error \<Rightarrow> go_error" where
  "mapWalletError err =
     (if errors_Is err ErrInsufficientBalance then StatusErr FailedPrecondition ''insufficient balance''
      else if errors_Is err ErrWalletNotFound then StatusErr NotFound ''wallet not found''
      else StatusErr Internal ''wallet operation failed'')"

definition srv_DebitWallet ::
  "json_codec \<Rightarrow> ('e, 's) store_ops \<Rightarrow> 'e \<Rightarrow> 's \<Rightarrow> string \<Rightarrow> string \<Rightarrow> string \<Rightarrow> string \<Rightarrow> string
   \<Rightarrow> 's \<times> (string \<times> string) result" where
  "srv_DebitWallet J S E s userId currency amount referenceId meta =
     (case parseMetadataJSON J meta of
        Inl err \<Rightarrow> (s, Inl (StatusErr InvalidArgument ''invalid metadata json''))
      | Inr m \<Rightarrow>
          (case DebitWallet S E s userId currency amount referenceId m of
             (s', Inl err) \<Rightarrow> (s', Inl (mapWalletError err))
           | (s', Inr tx) \<Rightarrow> (s', Inr (t_ID tx, t_Status tx))))"

definition srv_CreditWallet ::
  "json_codec \<Rightarrow> ('e, 's) store_ops \<Rightarrow> 'e \<Rightarrow> 's \<Rightarrow> string \<Rightarrow> string \<Rightarrow> string \<Rightarrow> string \<Rightarrow> string
   \<Rightarrow> 's \<times> (string \<times> string) result" where
  "srv_CreditWallet J S E s userId currency amount referenceId meta =
     (case parseMetadataJSON J meta of
        Inl err \<Rightarrow> (s, Inl (StatusErr InvalidArgument ''invalid metadata json''))
      | Inr m \<Rightarrow>
          (case CreditWallet S E s userId currency amount referenceId m of
             (s', Inl err) \<Rightarrow> (s', Inl (mapWalletError err))
           | (s', Inr tx) \<Rightarrow> (s', Inr (t_ID tx, t_Status tx))))"

section \<open>Supported pairs\<close>

lemma make_pairs_iff:
  "mget (make_pairs ps pairs) k \<noteq> None \<longleftrightarrow> mget pairs k \<noteq> None \<or> (\<exists>p\<in>set ps. parse_pair p = Some k)"
proof (induction ps arbitrary: pairs)
  case (Cons p ps)
  show ?case
  proof (cases "parse_pair p")
    case None
    then show ?thesis using Cons.IH by auto
  next
    case (Some x)
    then show ?thesis using Cons.IH [of "mput x () pairs"] by auto
  qed
qed simp

lemma TrimSpace_set: "set (TrimSpace s) \<subseteq> set s"
proof -
  have "set (dropWhile P xs) \<subseteq> set xs" for P and xs :: string
    by (auto dest: set_dropWhileD)
  then show ?thesis
    unfolding TrimSpace_def by (metis (no_types, opaque_lifting) set_rev subset_trans)
qed

lemma parse_pair_Some:
  assumes "parse_pair p = Some k"
  shows "\<exists>a b. TrimSpace p = a @ CHR '':'' # b \<and> CHR '':'' \<notin> set a \<and> TrimSpace a \<noteq> [] \<and> TrimSpace b \<noteq> []
    \<and> k = TrimSpace a @ CHR '':'' # TrimSpace b"
proof -
  obtain a b where "SplitN2 (CHR '':'') (TrimSpace p) = [a, b]" "TrimSpace a \<noteq> []" "TrimSpace b \<noteq> []"
    "k = TrimSpace a @ CHR '':'' # TrimSpace b"
    using assms by (auto simp: parse_pair_def Let_def split: list.splits if_splits)
  then show ?thesis
    using SplitN2_shape [of "CHR '':''" "TrimSpace p"] by auto
qed

lemma parse_pair_intro:
  assumes "TrimSpace p = a @ CHR '':'' # b" and "CHR '':'' \<notin> set a" and "TrimSpace a \<noteq> []" and "TrimSpace b \<noteq> []"
  shows "parse_pair p = Some (TrimSpace a @ CHR '':'' # TrimSpace b)"
  using assms by (simp add: parse_pair_def SplitN2_sep)

text \<open>The configured texts that name a currency and a chain.\<close>

definition configured :: "string list \<Rightarrow> string \<Rightarrow> string \<Rightarrow> bool" where
  "configured ps currency chain \<longleftrightarrow>
     (\<exists>p\<in>set ps. \<exists>a b. TrimSpace p = a @ CHR '':'' # b \<and> CHR '':'' \<notin> set a
        \<and> TrimSpace a = currency \<and> TrimSpace b = chain \<and> currency \<noteq> [] \<and> chain \<noteq> [])"

text \<open>
  A currency (without a colon) and a chain are accepted by a service exactly when one of the
  configured texts names them, blanks around its two parts ignored; malformed texts are ignored.
\<close>
theorem isSupportedPair_iff:
  assumes "CHR '':'' \<notin> set currency"
  shows "isSupportedPair (NewService V X ps) currency chain \<longleftrightarrow> configured ps currency chain"
proof -
  have "isSupportedPair (NewService V X ps) currency chain
      \<longleftrightarrow> (\<exists>p\<in>set ps. parse_pair p = Some (currency @ CHR '':'' # chain))"
    by (simp add: isSupportedPair_def NewService_def make_pairs_iff del: not_None_eq)
  also have "\<dots> \<longleftrightarrow> configured ps currency chain"
  proof
    assume "\<exists>p\<in>set ps. parse_pair p = Some (currency @ CHR '':'' # chain)"
    then obtain p where p: "p \<in> set ps" "parse_pair p = Some (currency @ CHR '':'' # chain)" by blast
    then obtain a b where ab: "TrimSpace p = a @ CHR '':'' # b" "CHR '':'' \<notin> set a" "TrimSpace a \<noteq> []"
      "TrimSpace b \<noteq> []" "currency @ CHR '':'' # chain = TrimSpace a @ CHR '':'' # TrimSpace b"
      by (blast dest: parse_pair_Some)
    have "CHR '':'' \<notin> set (TrimSpace a)" using ab(2) TrimSpace_set by blast
    then have "currency = TrimSpace a \<and> chain = TrimSpace b"
      using ab(5) assms by (simp add: append_sep_inject)
    with p ab show "configured ps currency chain" unfolding configured_def by blast
  next
    assume "configured ps currency chain"
    then show "\<exists>p\<in>set ps. parse_pair p = Some (currency @ CHR '':'' # chain)"
      unfolding configured_def using parse_pair_intro by blast
  qed
  finally show ?thesis .
qed

theorem isSupportedPair_iff_witness:
  "isSupportedPair (NewService (\<lambda>t r b h. (r, Inl ErrJson)) (\<lambda>q. Inr []) ['' USDT : TRON '', ''bad'']) ''USDT'' ''TRON''
   \<longleftrightarrow> configured ['' USDT : TRON '', ''bad''] ''USDT'' ''TRON''"
  by (rule isSupportedPair_iff) simp

section \<open>Who may call\<close>

text \<open>
  What the interceptor lets through.  A handler runs only for a caller with a non-empty id;
  the two review methods only with admin metadata; debiting and crediting only for the gateway
  with admin metadata; and a method with a user id in its request, other than rates and the
  webhook, only if that id is empty or the caller's own.
\<close>
theorem wallet_AuthInterceptor_sound:
  assumes "wallet_AuthInterceptor md meth uid = Inr ()"
  shows "\<exists>m caller rest. md = Some m \<and> md_Get m ''x-user-id'' = caller # rest \<and> caller \<noteq> []
    \<and> (meth \<in> {M_ListPendingWithdrawals, M_ReviewWithdrawal, M_DebitWallet, M_CreditWallet} \<longrightarrow>
         (\<exists>more. md_Get m ''x-caller-is-admin'' = ''true'' # more))
    \<and> (meth \<in> {M_DebitWallet, M_CreditWallet} \<longrightarrow> caller = ''gateway'')
    \<and> (meth \<in> {M_GetBalance, M_ListTransactions, M_GetDepositAddress, M_RequestWithdrawal} \<longrightarrow>
         uid \<in> {None, Some [], Some caller})"
proof -
  obtain m where m: "md = Some m"
    using assms by (cases md) (auto simp: wallet_AuthInterceptor_def)
  obtain caller rest where c: "md_Get m ''x-user-id'' = caller # rest" "caller \<noteq> []"
    using assms m by (cases "md_Get m ''x-user-id''") (auto simp: wallet_AuthInterceptor_def split: if_splits)
  show ?thesis
    using assms m c
    by (cases meth; cases "md_Get m ''x-caller-is-admin''"; cases uid)
      (auto simp: wallet_AuthInterceptor_def serviceCallerID_def split: if_splits)
qed

theorem wallet_AuthInterceptor_sound_witness:
  "\<exists>m caller rest. Some [(''x-user-id'', [''gateway'']), (''x-caller-is-admin'', [''true''])] = Some m
     \<and> md_Get m ''x-user-id'' = caller # rest \<and> caller = ''gateway''"
proof -
  have "wallet_AuthInterceptor (Some [(''x-user-id'', [''gateway'']), (''x-caller-is-admin'', [''true''])]) M_DebitWallet (Some ''u'')
      = Inr ()"
    by code_simp
  from wallet_AuthInterceptor_sound [OF this] show ?thesis by auto
qed

section \<open>Deposits are credited once\<close>

text \<open>What the service relies on of a store: a reference moves money once, and stays used.\<close>

locale crediting_store =
  fixes S :: "('e, 's) store_ops" and used :: "string \<Rightarrow> 's \<Rightarrow> bool" and step :: "'s \<Rightarrow> 's \<Rightarrow> bool"
  assumes credit_marks: "CreditWallet S E s u c a ref m = (s', Inr t) \<Longrightarrow> ref \<noteq> [] \<Longrightarrow> used ref s'"
    and credit_used: "used ref s \<Longrightarrow> fst (CreditWallet S E s u c a ref m) = s"
    and used_step: "used ref s \<Longrightarrow> step s s' \<Longrightarrow> used ref s'"
begin

lemma used_reach: "reach s step t \<Longrightarrow> used ref s \<Longrightarrow> used ref t"
  by (induction rule: reach.induct) (auto intro: used_step)

lemma webhook_marks:
  assumes "svc_ProcessDepositWebhook S sv E now (s, r) body headers = ((s1, r1), Inr out)"
    and "sv_validate sv now r body headers = (r', Inr w)"
    and "wd_Confirmed (dw_Data w)" and "wd_SysNo (dw_Data w) \<noteq> []"
  shows "used (wd_SysNo (dw_Data w)) s1"
  using assms credit_marks
  by (auto simp: svc_ProcessDepositWebhook_def Let_def split: sum.splits prod.splits if_splits)

lemma webhook_used:
  assumes "used (wd_SysNo (dw_Data w)) s" and "sv_validate sv now r body headers = (r', Inr w)"
  shows "fst (fst (svc_ProcessDepositWebhook S sv E now (s, r) body headers)) = s"
  using assms credit_used [of "wd_SysNo (dw_Data w)" s E]
  by (auto simp: svc_ProcessDepositWebhook_def Let_def split: sum.splits prod.splits) (metis fst_conv)+

lemma webhook_once:
  assumes "svc_ProcessDepositWebhook S sv E now (s, r) body headers = ((s1, r1), Inr out)"
    and "sv_validate sv now r body headers = (r', Inr w)"
    and "wd_Confirmed (dw_Data w)" and "wd_SysNo (dw_Data w) \<noteq> []"
    and "reach s1 step s2"
    and "sv_validate sv now' q body' headers' = (q', Inr w')"
    and "wd_SysNo (dw_Data w') = wd_SysNo (dw_Data w)"
  shows "fst (fst (svc_ProcessDepositWebhook S sv E' now' (s2, q) body' headers')) = s2"
  using webhook_marks [OF assms(1-4)] used_reach [OF assms(5)] webhook_used assms(6,7) by metis

end

end
