(* ===== verification/WalletStores.thy ===== *)
theory WalletStores
  imports WalletService WalletMemoryProps WalletPGProps
begin

text \<open>
  The two stores as instances of the interface \<open>Store\<close>, and the contract \<open>crediting_store\<close> the
  wallet service relies on, for both: a reference that credited once never moves money again.
\<close>

section \<open>The instances\<close>

definition ms_ops ::
  "'d decimal_ops \<Rightarrow> json_codec
   \<Rightarrow> ((string \<times> deposit_address) list \<Rightarrow> (string \<times> deposit_address) list)
   \<Rightarrow> ((string \<times> withdrawal_request) list \<Rightarrow> (string \<times> withdrawal_request) list)
   \<Rightarrow> ((string \<times> nat) list \<Rightarrow> (string \<times> nat) list) \<Rightarrow> (genv, memory_store) store_ops" where
  "ms_ops D J ord1 ord2 ord3 =
     \<lparr>GetWallet = (\<lambda>E. ms_GetWallet), CreateWallet = ms_CreateWallet, CreditWallet = ms_CreditWallet D J,
      DebitWallet = ms_DebitWallet D J, ReverseDebit = ms_ReverseDebit,
      GetDepositAddress = (\<lambda>E. ms_GetDepositAddress ord1), CreateDepositAddress = ms_CreateDepositAddress,
      RequestWithdrawal = ms_RequestWithdrawal D, ApproveWithdrawal = (\<lambda>E. ms_ApproveWithdrawal),
      RejectWithdrawal = ms_RejectWithdrawal D, ListPendingWithdrawals = (\<lambda>E. ms_ListPendingWithdrawals ord2),
      ListTransactions = (\<lambda>E. ms_ListTransactions ord3)\<rparr>"

definition pg_ops ::
  "'d decimal_ops \<Rightarrow> pg_lib \<Rightarrow> (pg_request list \<Rightarrow> pg_request list) \<Rightarrow> (pg_txn list \<Rightarrow> pg_txn list)
   \<Rightarrow> (pg_env, pg_db) store_ops" where
  "pg_ops D N ord1 ord2 =
     \<lparr>GetWallet = pg_GetWallet, CreateWallet = pg_CreateWallet N, CreditWallet = pg_CreditWallet D N,
      DebitWallet = pg_DebitWallet D N, ReverseDebit = pg_ReverseDebit,
      GetDepositAddress = pg_GetDepositAddress, CreateDepositAddress = pg_CreateDepositAddress,
      RequestWithdrawal = pg_RequestWithdrawal D N, ApproveWithdrawal = pg_ApproveWithdrawal N,
      RejectWithdrawal = pg_RejectWithdrawal D N, ListPendingWithdrawals = pg_ListPendingWithdrawals ord1,
      ListTransactions = pg_ListTransactions ord2\<rparr>"

section \<open>The memory store keeps its references\<close>

definition ms_used :: "string \<Rightarrow> memory_store \<Rightarrow> bool" where
  "ms_used ref s \<longleftrightarrow> ref \<noteq> [] \<and> mget (ms_txnByRef s) ref \<noteq> None"

lemma ms_used_ops [simp]:
  "ms_used ref (ms_storeTxn s txn r) \<longleftrightarrow> ms_used ref s \<or> ref \<noteq> [] \<and> r = ref"
  "ms_used ref (ms_setBalance E s k w b) = ms_used ref s"
  "ms_used ref (ms_setTxStatus s i st) = ms_used ref s"
  "ms_used ref (s\<lparr>ms_withdrawals := ws\<rparr>) = ms_used ref s"
  "ms_used ref (s\<lparr>ms_addresses := ads\<rparr>) = ms_used ref s"
  "ms_used ref (fst (ms_createWallet E s u c)) = ms_used ref s"
  by (auto simp: ms_used_def ms_storeTxn_def ms_setBalance_def ms_setTxStatus_def ms_createWallet_def Let_def
      split: option.splits)

lemma ms_lookupRef_None: "ms_lookupRef s ref = None \<longleftrightarrow> ref = [] \<or> \<not> ms_used ref s"
  by (auto simp: ms_lookupRef_def ms_used_def)

lemma ms_used_exec:
  assumes "ms_used ref s"
  shows "ms_used ref (ms_exec D J E call s)"
proof (cases call)
  case (CallCredit u c amount r m)
  obtain s1 w where cw: "ms_createWallet E s u c = (s1, w)" by force
  then have "ms_used ref s1" using assms by (metis fst_conv ms_used_ops(6))
  with assms cw show ?thesis
    by (auto simp: CallCredit ms_CreditWallet_def Let_def split: option.splits sum.splits)
next
  case (CallCreateWallet u c)
  then show ?thesis using assms by (simp add: ms_CreateWallet_def split: prod.splits) (metis fst_conv ms_used_ops(6))
qed (use assms in \<open>auto simp: ms_DebitWallet_def ms_CreateDepositAddress_def ms_RequestWithdrawal_def
      ms_ApproveWithdrawal_def ms_RejectWithdrawal_def Let_def split: option.splits sum.splits\<close>)

interpretation ms_crediting: crediting_store "ms_ops D J ord1 ord2 ord3" ms_used "ms_step D P"
proof (unfold_locales, goal_cases)
  case (1 E s u c a ref m s' t)
  then show ?case
    by (auto simp: ms_ops_def ms_CreditWallet_def Let_def ms_lookupRef_def ms_used_def ms_storeTxn_def ms_setBalance_def
        split: option.splits sum.splits prod.splits if_splits)
next
  case (2 ref s E u c a m)
  then show ?case
    by (auto simp: ms_ops_def ms_CreditWallet_def ms_lookupRef_def ms_used_def)
next
  case (3 ref s s')
  then show ?case by (auto simp: ms_step.simps ms_used_exec)
qed

section \<open>What the Postgres store keeps\<close>

text \<open>A piece of a transaction keeps \<open>P\<close>, whether it succeeds or not.\<close>

definition pg_keeps :: "(pg_db \<Rightarrow> bool) \<Rightarrow> pg_tx \<Rightarrow> pg_tx \<times> 'a result \<Rightarrow> bool" where
  "pg_keeps P t r \<longleftrightarrow> (P (tx_db t) \<longrightarrow> P (tx_db (fst r)))"

lemma keeps_stmt:
  "(\<And>db db' x. f db = Inr (db', x) \<Longrightarrow> P db \<Longrightarrow> P db') \<Longrightarrow> pg_keeps P t (pg_stmt E n f t)"
  by (auto simp: pg_keeps_def pg_stmt_def split: option.splits sum.splits)

lemma keeps_then: "pg_keeps P t r \<Longrightarrow> (\<And>t1 x. pg_keeps P t1 (k t1 x)) \<Longrightarrow> pg_keeps P t (tx_then r w k)"
  by (auto simp: pg_keeps_def tx_then_def split: prod.splits sum.splits)

lemma keeps_result:
  "pg_keeps P t r \<Longrightarrow> (\<And>t1 e. pg_keeps P t1 (f t1 e)) \<Longrightarrow> (\<And>t1 x. pg_keeps P t1 (g t1 x))
   \<Longrightarrow> pg_keeps P t (case r of (t1, Inl e) \<Rightarrow> f t1 e | (t1, Inr x) \<Rightarrow> g t1 x)"
  by (auto simp: pg_keeps_def split: prod.splits sum.splits)

lemma keeps_cases:
  "pg_keeps P t (t, y)"
  "pg_keeps P t a \<Longrightarrow> (\<And>x. pg_keeps P t (b x)) \<Longrightarrow> pg_keeps P t (case q of None \<Rightarrow> a | Some x \<Rightarrow> b x)"
  "(\<And>e. pg_keeps P t (f e)) \<Longrightarrow> (\<And>x. pg_keeps P t (g x)) \<Longrightarrow> pg_keeps P t (case s of Inl e \<Rightarrow> f e | Inr x \<Rightarrow> g x)"
  "pg_keeps P t a \<Longrightarrow> pg_keeps P t c \<Longrightarrow> pg_keeps P t (if p then a else c)"
  "(\<And>x y. pg_keeps P t (h x y)) \<Longrightarrow> pg_keeps P t (case xy of (x, y) \<Rightarrow> h x y)"
  by (auto simp: pg_keeps_def split: option.splits sum.splits prod.splits)

lemma keeps_reads:
  "pg_keeps P t (pg_stmt E n (sel_wallet u c) t)"
  "pg_keeps P t (pg_stmt E n (sel_wallet_by_id i) t)"
  "pg_keeps P t (pg_stmt E n (sel_txn_by_ref r) t)"
  "pg_keeps P t (pg_stmt E n (sel_txn_by_id i) t)"
  by (rule keeps_stmt, simp add: sel_wallet_def sel_wallet_by_id_def sel_txn_by_ref_def sel_txn_by_id_def)+

lemma pg_auto_keeps:
  "(\<And>db' x. f db = Inr (db', x) \<Longrightarrow> P db') \<Longrightarrow> P db \<Longrightarrow> P (fst (pg_auto E f db))"
  by (auto simp: pg_auto_def split: sum.splits option.splits)

lemma pg_in_tx_keeps: "P db \<Longrightarrow> pg_keeps P (live db) (body (live db)) \<Longrightarrow> P (fst (pg_in_tx E body db))"
  by (cases "pg_in_tx E body db" rule: prod.exhaust) (auto simp: pg_keeps_def elim!: pg_in_tx_cases)

text \<open>What every statement keeps, every operation keeps, whatever fails.\<close>

locale pg_kept =
  fixes P :: "pg_db \<Rightarrow> bool"
  assumes kept_ins_wallet: "ins_wallet N G u c db = Inr (db', w) \<Longrightarrow> P db \<Longrightarrow> P db'"
    and kept_upsert_wallet: "upsert_wallet N G u c db = Inr (db', w) \<Longrightarrow> P db \<Longrightarrow> P db'"
    and kept_upd_balance: "upd_balance N G nb i v db = Inr (db', n) \<Longrightarrow> P db \<Longrightarrow> P db'"
    and kept_ins_txn: "ins_txn N row db = Inr (db', stored) \<Longrightarrow> P db \<Longrightarrow> P db'"
    and kept_upd_txn_status: "upd_txn_status r status db = Inr (db', z1) \<Longrightarrow> P db \<Longrightarrow> P db'"
    and kept_ins_request: "ins_request N req db = Inr (db', r1) \<Longrightarrow> P db \<Longrightarrow> P db'"
    and kept_upd_request: "upd_request N i f db = Inr (db', z2) \<Longrightarrow> P db \<Longrightarrow> P db'"
    and kept_ins_address: "ins_address G addr db = Inr (db', a) \<Longrightarrow> P db \<Longrightarrow> P db'"
begin

lemma keeps_writes:
  "pg_keeps P t (pg_stmt E n (ins_wallet N G u c) t)"
  "pg_keeps P t (pg_stmt E n (upd_balance N G nb i v) t)"
  "pg_keeps P t (pg_stmt E n (ins_txn N row) t)"
  "pg_keeps P t (pg_stmt E n (upd_txn_status r st) t)"
  "pg_keeps P t (pg_stmt E n (ins_request N row2) t)"
  "pg_keeps P t (pg_stmt E n (upd_request N i f) t)"
  by (rule keeps_stmt, erule (1) kept_ins_wallet kept_upd_balance kept_ins_txn kept_upd_txn_status
      kept_ins_request kept_upd_request)+

lemma keeps_parts:
  "pg_keeps P t (pg_getTransactionByID E n i t)"
  "pg_keeps P t (pg_existing E n p r t)"
  "pg_keeps P t (pg_covered D E p u c a t)"
  unfolding pg_getTransactionByID_def pg_existing_def pg_covered_def
  by (intro keeps_then keeps_cases keeps_reads)+

lemma keeps_move: "pg_keeps P t (pg_move N E u c w typ a nb r m t)"
  unfolding pg_move_def Let_def
  by (rule keeps_then keeps_writes keeps_cases(4) keeps_cases(1) keeps_result keeps_parts keeps_cases(2))+

lemma keeps_bodies:
  "pg_keeps P t (pg_credit_body D N E u c a r m t)"
  "pg_keeps P t (pg_debit_body D N E u c a r m t)"
  "pg_keeps P t (pg_request_body D N E u c a dest chain t)"
  "pg_keeps P t (pg_approve_body N E i h by1 t)"
  "pg_keeps P t (pg_reject_body D N E i by1 t)"
  unfolding pg_credit_body_def pg_debit_body_def pg_request_body_def pg_approve_body_def pg_reject_body_def
  by (intro keeps_then keeps_cases keeps_reads keeps_writes keeps_parts keeps_move)+

lemma kept_exec: "P db \<Longrightarrow> P (pg_exec D N E call db)"
proof (cases call)
  case (CallCreateWallet u c)
  assume "P db"
  then have "P (fst (pg_auto (at_site 10 E) (upsert_wallet N (genv.truncate E) u c) db))"
    by (rule pg_auto_keeps [where P = P, rotated]) (rule kept_upsert_wallet [OF _ \<open>P db\<close>])
  then show ?thesis by (auto simp: CallCreateWallet pg_CreateWallet_def split: sum.splits prod.splits)
next
  case (CallCreateAddress addr)
  assume "P db"
  then have "P (fst (pg_auto (at_site 10 E) (ins_address (genv.truncate E) addr) db))"
    by (rule pg_auto_keeps [where P = P, rotated]) (rule kept_ins_address [OF _ \<open>P db\<close>])
  then show ?thesis by (auto simp: CallCreateAddress pg_CreateDepositAddress_def split: sum.splits prod.splits)
qed (simp_all add: pg_CreditWallet_def pg_DebitWallet_def pg_RequestWithdrawal_def pg_ApproveWithdrawal_def
      pg_RejectWithdrawal_def pg_in_tx_keeps keeps_bodies)

lemma kept_reach: "reach db (pg_step D N Q) db' \<Longrightarrow> P db \<Longrightarrow> P db'"
  by (induction rule: reach.induct) (auto simp: pg_step.simps kept_exec)

end

section \<open>The Postgres store keeps its references\<close>

definition pg_used :: "string \<Rightarrow> pg_db \<Rightarrow> bool" where
  "pg_used ref db \<longleftrightarrow> ref \<noteq> [] \<and> Some ref \<in> q_Reference ` set (pg_txns db)"

lemma pg_used_ref_used: "pg_used ref db \<longleftrightarrow> ref_used ref (pg_abs D val db)"
  by (simp add: pg_used_def ref_used_def pg_abs_def)

lemma pg_used_txns: "pg_txns db' = pg_txns db \<Longrightarrow> pg_used ref db' = pg_used ref db"
  by (simp add: pg_used_def)

lemma stmt_txns:
  "ins_wallet N G u c db = Inr (db', w) \<Longrightarrow> pg_txns db' = pg_txns db"
  "upsert_wallet N G u c db = Inr (db', w) \<Longrightarrow> pg_txns db' = pg_txns db"
  "upd_balance N G nb i v db = Inr (db', n) \<Longrightarrow> pg_txns db' = pg_txns db"
  "ins_request N row2 db = Inr (db', st2) \<Longrightarrow> pg_txns db' = pg_txns db"
  "upd_request N i f db = Inr (db', z) \<Longrightarrow> pg_txns db' = pg_txns db"
  "ins_address G addr db = Inr (db', a) \<Longrightarrow> pg_txns db' = pg_txns db"
  by (auto simp: ins_wallet_def upsert_wallet_def upd_balance_def
      ins_request_def upd_request_def ins_address_def Let_def split: option.splits if_splits)

lemma ins_txn_used:
  "ins_txn N row db = Inr (db', st) \<Longrightarrow> pg_used ref db' \<longleftrightarrow> pg_used ref db \<or> ref \<noteq> [] \<and> q_Reference row = Some ref"
  by (auto simp: ins_txn_def Let_def pg_used_def split: option.splits if_splits)

lemma upd_txn_status_used:
  assumes "upd_txn_status r' status db = Inr (db', y)"
  shows "pg_used ref db' = pg_used ref db"
proof -
  have "List.map q_Reference (pg_txns db') = List.map q_Reference (pg_txns db)"
    using assms by (auto simp: upd_txn_status_def)
  then have "q_Reference ` set (pg_txns db') = q_Reference ` set (pg_txns db)"
    by (metis list.set_map)
  then show ?thesis by (simp add: pg_used_def)
qed

interpretation used: pg_kept "pg_used ref"
  by unfold_locales (auto simp: ins_txn_used upd_txn_status_used dest: stmt_txns pg_used_txns [THEN iffD2])

lemma pg_move_marks:
  assumes "pg_move N E u c w typ a nb r m (live db) = (t, Inr x)" and "r \<noteq> []"
  shows "pg_used r (tx_db t)"
proof -
  obtain db1 db2 stored where m: "ins_txn N \<lparr>q_ID = e_uuid E 1, q_UserID = u, q_WalletID = w_ID w, q_Currency = c,
                q_Type = typ, q_Amount = a, q_BalanceBefore = w_Balance w, q_BalanceAfter = nb,
                q_Status = ''completed'', q_Reference = (if r = [] then None else Some r),
                q_Metadata = pl_jsonb N m, q_CreatedAt = e_now E\<rparr> db1 = Inr (db2, stored)" "t = live db2"
    using pg_move_Inr [OF assms(1)] by blast
  then show ?thesis using ins_txn_used [OF m(1), of r] assms(2) by simp
qed

lemma pg_credit_marks:
  assumes "pg_CreditWallet D N E db u c a ref m = (db', res)" and "ref \<noteq> []" and "is_ok res \<or> db' \<noteq> db"
  shows "pg_used ref db'"
proof -
  obtain tx x where body: "pg_credit_body D N E u c a ref m (live db) = (tx, Inr x)" "db' = tx_db tx"
    using assms(1,3) unfolding pg_CreditWallet_def by (cases rule: pg_in_tx_cases) auto
  obtain t0 r0 where ex: "pg_existing E 1 ''check reference id: '' ref (live db) = (t0, Inr r0)"
    using body by (auto simp: pg_credit_body_def tx_then_Inr)
  show ?thesis
  proof (cases r0)
    case (Some txn)
    then show ?thesis
      using pg_existing_Inr [OF ex] assms(2) body ex by (auto simp: pg_used_def pg_credit_body_def tx_then_Inr)
  next
    case None
    with body ex obtain t1 w nb where mv: "pg_move N E u c w ''deposit'' a nb ref m t1 = (tx, Inr x)"
      by (auto simp: pg_credit_body_def tx_then_Inr tx_branch_Inr)
    have "\<not> tx_aborted t1"
      using mv by (auto simp: pg_move_def tx_then_Inr pg_stmt_def split: if_splits)
    then have "t1 = live (tx_db t1)" by simp
    then show ?thesis using pg_move_marks mv assms(2) body(2) by metis
  qed
qed

text \<open>
  A store on which a credit that changes anything uses its reference, also when it answers with an
  error: a commit whose reply was lost.
\<close>

locale durable_crediting_store = crediting_store +
  assumes change_marks: "CreditWallet S E s u c a ref m = (s', res) \<Longrightarrow> s' \<noteq> s \<Longrightarrow> ref \<noteq> [] \<Longrightarrow> used ref s'"
begin

lemma delivery_marks:
  assumes "svc_ProcessDepositWebhook S sv E now (s, r) body headers = ((s1, r1), res)" and "is_ok res \<or> s1 \<noteq> s"
    and "sv_validate sv now r body headers = (r', Inr w)"
    and "wd_Confirmed (dw_Data w)" and "wd_SysNo (dw_Data w) \<noteq> []"
  shows "used (wd_SysNo (dw_Data w)) s1"
proof (cases "is_ok res")
  case True
  then obtain out where "res = Inr out" by (cases res) auto
  with webhook_marks [OF _ assms(3-5)] assms(1) show ?thesis by blast
next
  case False
  with assms change_marks show ?thesis
    by (auto simp: svc_ProcessDepositWebhook_def Let_def split: sum.splits prod.splits if_splits)
qed

lemma delivery_once:
  assumes "svc_ProcessDepositWebhook S sv E now (s, r) body headers = ((s1, r1), res)" and "is_ok res \<or> s1 \<noteq> s"
    and "sv_validate sv now r body headers = (r', Inr w)"
    and "wd_Confirmed (dw_Data w)" and "wd_SysNo (dw_Data w) \<noteq> []"
    and "reach s1 step s2"
    and "sv_validate sv now' q body' headers' = (q', Inr w')"
    and "wd_SysNo (dw_Data w') = wd_SysNo (dw_Data w)"
  shows "fst (fst (svc_ProcessDepositWebhook S sv E' now' (s2, q) body' headers')) = s2"
  using delivery_marks [OF assms(1-5)] used_reach [OF assms(6)] webhook_used assms(7,8) by metis

end

interpretation pg_crediting: durable_crediting_store "pg_ops D N ord1 ord2" pg_used "pg_step D N P"
proof (unfold_locales, goal_cases)
  case (1 E s u c a ref m s' t)
  then show ?case by (intro pg_credit_marks [where res = "Inr t"]) (simp_all add: pg_ops_def)
next
  case (2 ref s E u c a m)
  then have "ref_used ref (pg_abs D (\<lambda>_. 0) s)"
    by (simp add: pg_used_ref_used [symmetric])
  from pg_used_ref_call(2) [OF this] show ?case by (simp add: pg_ops_def)
next
  case (3 ref s s')
  then show ?case by (auto simp: pg_step.simps used.kept_exec)
next
  case (4 E s u c a ref m s' res)
  then have "pg_CreditWallet D N E s u c a ref m = (s', res)" by (simp add: pg_ops_def)
  from pg_credit_marks [OF this 4(3)] 4(2) show ?case by blast
qed

text \<open>A debit under a reference that was used succeeds, whatever it asks for, if nothing fails.\<close>

lemma used_debit_succeeds:
  assumes "pg_used ref db" and "pe_fault E = (\<lambda>_. None)"
  shows "\<exists>t. pg_DebitWallet D N E db u c amount ref m = (db, Inr t)"
proof -
  have used: "ref \<noteq> []" "Some ref \<in> q_Reference ` set (pg_txns db)" using assms(1) by (simp_all add: pg_used_def)
  obtain q where q: "List.find (\<lambda>t. q_Reference t = Some ref) (pg_txns db) = Some q"
    using used(2) find_key_None [of q_Reference "Some ref" "pg_txns db"] by (metis not_None_eq)
  have "q_ID q \<in> q_ID ` set (pg_txns db)" using find_key_Some [OF q] by simp
  then obtain q2 where q2: "List.find (\<lambda>t. q_ID t = q_ID q) (pg_txns db) = Some q2"
    using find_key_None [of q_ID "q_ID q" "pg_txns db"] by (metis not_None_eq)
  have "pg_existing E 1 ''check reference id: '' ref (live db) = (live db, Inr (Some (scanTransaction q2)))"
    using assms(2) used(1) q q2
    by (simp add: pg_existing_def pg_stmt_def sel_txn_by_ref_def tx_then_def pg_getTransactionByID_def sel_txn_by_id_def)
  then show ?thesis
    using assms(2) by (simp add: pg_DebitWallet_def pg_in_tx_def pg_debit_body_def tx_then_def)
qed

section \<open>The Postgres store keeps its addresses\<close>

definition pg_address :: "string \<Rightarrow> string \<Rightarrow> string \<Rightarrow> deposit_address \<Rightarrow> pg_db \<Rightarrow> bool" where
  "pg_address u c chain addr db \<longleftrightarrow>
     List.find (\<lambda>a. a_UserID a = u \<and> a_Currency a = c \<and> a_Chain a = chain \<and> a_Status a = ''active'') (pg_addresses db) = Some addr"

interpretation address: pg_kept "pg_address u c chain addr"
  by unfold_locales (auto simp: pg_address_def ins_wallet_def upsert_wallet_def upd_balance_def ins_txn_def
      upd_txn_status_def ins_request_def upd_request_def ins_address_def Let_def find_append
      split: option.splits if_splits)

lemma pg_GetDepositAddress_Inr:
  "pg_GetDepositAddress E db u c chain = Inr a \<longleftrightarrow> pe_fault E 0 = None \<and> pg_address u c chain a db"
  by (auto simp: pg_GetDepositAddress_def pg_auto_def pg_address_def split: option.splits)

lemma pg_CreateDepositAddress_Inr:
  assumes "pg_CreateDepositAddress E db row = (db', Inr a)"
  shows "pg_address (a_UserID row) (a_Currency row) (a_Chain row) a db'"
    and "\<not> pg_address (a_UserID row) (a_Currency row) (a_Chain row) b db"
proof -
  have ins: "ins_address (genv.truncate E) row db = Inr (db', a)"
    using assms by (auto simp: pg_CreateDepositAddress_def pg_auto_def split: prod.splits sum.splits option.splits)
  have none: "List.find (\<lambda>a. a_UserID a = a_UserID row \<and> a_Currency a = a_Currency row \<and> a_Chain a = a_Chain row
      \<and> a_Status a = ''active'') (pg_addresses db) = None"
    using ins by (auto simp: ins_address_def Let_def find_None_iff split: if_splits)
  show "pg_address (a_UserID row) (a_Currency row) (a_Chain row) a db'"
    using ins none by (auto simp: pg_address_def ins_address_def Let_def find_append split: if_splits)
  show "\<not> pg_address (a_UserID row) (a_Currency row) (a_Chain row) b db"
    using none by (simp add: pg_address_def)
qed

lemma svc_address_Inr:
  assumes "svc_GetDepositAddress (pg_ops D N ord1 ord2) sv E db u c chain = (db', Inr a)"
  shows "pg_address u c chain a db'" and "pg_address u c chain b db \<Longrightarrow> a = b \<and> db' = db"
proof -
  show "pg_address u c chain a db'"
    using assms pg_CreateDepositAddress_Inr(1)
    by (fastforce simp: svc_GetDepositAddress_def pg_ops_def pg_GetDepositAddress_Inr split: sum.splits)
  show "a = b \<and> db' = db" if "pg_address u c chain b db"
    using assms that pg_CreateDepositAddress_Inr(2) [of E db _ db' a b]
    by (fastforce simp: svc_GetDepositAddress_def pg_ops_def pg_GetDepositAddress_Inr pg_address_def split: sum.splits)
qed

section \<open>Properties of the service on Postgres\<close>

text \<open>
  C15: a deposit address, once given out, is the one given out ever after.  When the service has
  answered with an address for a user, currency and chain, then after any other calls of the store,
  whichever of them fail, it answers with the same address and without changing the store, if the
  database answers; and when it does not, there is an error and not another address.
\<close>
theorem deposit_address_stable:
  assumes "svc_GetDepositAddress (pg_ops D N ord1 ord2) sv E db u c chain = (db1, Inr a)"
    and "reach db1 (pg_step D N Q) db2"
  shows "(pe_fault E' 0 = None \<longrightarrow> svc_GetDepositAddress (pg_ops D N ord1 ord2) sv E' db2 u c chain = (db2, Inr a))
    \<and> (\<forall>db3 b. svc_GetDepositAddress (pg_ops D N ord1 ord2) sv E' db2 u c chain = (db3, Inr b) \<longrightarrow> b = a \<and> db3 = db2)"
proof -
  have kept: "pg_address u c chain a db2"
    by (rule address.kept_reach [OF assms(2) svc_address_Inr(1) [OF assms(1)]])
  have "svc_GetDepositAddress (pg_ops D N ord1 ord2) sv E' db2 u c chain = (db2, Inr a)" if "pe_fault E' 0 = None"
    using assms(1) kept that
    by (auto simp: svc_GetDepositAddress_def pg_ops_def pg_GetDepositAddress_Inr [THEN iffD2] split: sum.splits)
  then show ?thesis
    using svc_address_Inr(2) [OF _ kept] by blast
qed

text \<open>
  C13: a deposit is credited at most once.  Once a delivery of a confirmed webhook with a non-empty
  \<open>sys_no\<close> was answered with success on the Postgres store, or changed the store and was answered with an
  error, because the reply of its commit was lost, a delivery of any webhook with that \<open>sys_no\<close>, after
  any other calls, leaves the store as it is, whatever its nonce, amount or user.
\<close>
theorem deposit_credited_once:
  assumes "svc_ProcessDepositWebhook (pg_ops D N ord1 ord2) sv E now (db, r) body headers = ((db1, r1), res)"
    and "is_ok res \<or> db1 \<noteq> db"
    and "sv_validate sv now r body headers = (r', Inr w)"
    and "wd_Confirmed (dw_Data w)" and "wd_SysNo (dw_Data w) \<noteq> []"
    and "reach db1 (pg_step D N (\<lambda>_. True)) db2"
    and "sv_validate sv now' q body' headers' = (q', Inr w')"
    and "wd_SysNo (dw_Data w') = wd_SysNo (dw_Data w)"
  shows "fst (fst (svc_ProcessDepositWebhook (pg_ops D N ord1 ord2) sv E' now' (db2, q) body' headers')) = db2"
  by (rule pg_crediting.delivery_once [OF assms])

definition example_service :: "int gomap wallet_service" where
  "example_service =
     NewService (\<lambda>now r body headers. Validate example_mac example_parse exp_setnx example_validator now r body headers)
       (\<lambda>q. Inr ''0xabc'') [''USDT:ETH'']"

definition example_ops :: "(pg_env, pg_db) store_ops" where
  "example_ops = pg_ops dec_ops example_server (\<lambda>x. x) (\<lambda>x. x)"

definition example_delivery :: "(string \<Rightarrow> pg_env) \<Rightarrow> int \<Rightarrow> pg_db \<times> int gomap \<Rightarrow> (pg_db \<times> int gomap) \<times> string result" where
  "example_delivery env n sr =
     svc_ProcessDepositWebhook example_ops example_service (env (itoa n)) (at_second n) sr ''body'' example_headers"

text \<open>
  A delivery whose commit is applied although its reply is lost: the provider sees an error and
  delivers again, the webhook is accepted again, and nothing is credited.
\<close>

definition lost_delivery :: "(pg_db \<times> int gomap) \<times> string result" where
  "lost_delivery = example_delivery lost_reply_env 80 (pg_empty, [])"

theorem deposit_credited_once_witness:
  "\<not> is_ok (snd lost_delivery) \<and> List.map w_Balance (pg_wallets (fst (fst lost_delivery))) \<noteq> []
   \<and> is_ok (snd (example_delivery example_pg_env 399 (fst lost_delivery)))
   \<and> fst (fst (example_delivery example_pg_env 399 (fst lost_delivery))) = fst (fst lost_delivery)"
proof -
  have v: "sv_validate example_service (at_second n) r ''body'' example_headers = example_validate n r" for n r
    by (simp add: example_service_def NewService_def example_validate_def)
  let ?r1 = "snd (fst lost_delivery)" and ?d1 = "fst (fst lost_delivery)"
  have err: "\<not> is_ok (snd lost_delivery)" "List.map w_Balance (pg_wallets ?d1) \<noteq> []"
    "is_ok (snd (example_delivery example_pg_env 399 (fst lost_delivery)))" by code_simp+
  then have changed: "is_ok (snd lost_delivery) \<or> ?d1 \<noteq> pg_empty" by (auto simp: pg_empty_def)
  have w: "map_sum (\<lambda>e. ()) (\<lambda>w. (wd_Confirmed (dw_Data w), wd_SysNo (dw_Data w))) (snd (example_validate 80 [])) = Inr (True, ''s1'')"
    "map_sum (\<lambda>e. ()) (\<lambda>w. (wd_Confirmed (dw_Data w), wd_SysNo (dw_Data w)))
       (snd (example_validate 399 ?r1)) = Inr (True, ''s1'')"
    by code_simp+
  from w(1) obtain w1 where w1: "example_validate 80 [] = (fst (example_validate 80 []), Inr w1)"
    "wd_Confirmed (dw_Data w1)" "wd_SysNo (dw_Data w1) = ''s1''"
    by (cases "example_validate 80 []"; cases "snd (example_validate 80 [])") auto
  from w(2) obtain w2 where w2: "example_validate 399 ?r1 = (fst (example_validate 399 ?r1), Inr w2)"
    "wd_SysNo (dw_Data w2) = ''s1''"
    by (cases "example_validate 399 ?r1"; cases "snd (example_validate 399 ?r1)") auto
  have d: "svc_ProcessDepositWebhook (pg_ops dec_ops example_server (\<lambda>x. x) (\<lambda>x. x)) example_service
      (lost_reply_env (itoa 80)) (at_second 80) (pg_empty, []) ''body'' example_headers = ((?d1, ?r1), snd lost_delivery)"
    by (simp add: lost_delivery_def example_delivery_def example_ops_def)
  have "fst (fst (svc_ProcessDepositWebhook (pg_ops dec_ops example_server (\<lambda>x. x) (\<lambda>x. x)) example_service
      (example_pg_env (itoa 399)) (at_second 399) (?d1, ?r1) ''body'' example_headers)) = ?d1"
    using deposit_credited_once [OF d changed, of "fst (example_validate 80 [])" w1 ?d1 "at_second 399" ?r1 "''body''"
        example_headers "fst (example_validate 399 ?r1)" w2 "example_pg_env (itoa 399)"] w1 w2
    by (simp add: v reach_init)
  then have "fst (fst (example_delivery example_pg_env 399 (fst lost_delivery))) = ?d1"
    by (simp add: example_delivery_def example_ops_def)
  with err show ?thesis by blast
qed

text \<open>The address of \<open>u\<close>, after a deposit to him, and with a provider that would now give another one.\<close>

definition address_of_u :: "string \<Rightarrow> pg_db \<Rightarrow> pg_db \<times> deposit_address result" where
  "address_of_u n db = svc_GetDepositAddress example_ops example_service (example_pg_env n) db ''u'' ''USDT'' ''ETH''"

theorem deposit_address_stable_witness:
  "address_of_u ''2'' (fst (address_of_u ''1'' pg_empty)) = address_of_u ''1'' pg_empty"
proof -
  have ok: "is_ok (snd (address_of_u ''1'' pg_empty))" by code_simp
  then obtain d a where a: "address_of_u ''1'' pg_empty = (d, Inr a)"
    by (cases "address_of_u ''1'' pg_empty"; cases "snd (address_of_u ''1'' pg_empty)") auto
  have f: "pe_fault (example_pg_env ''2'') 0 = None" by (simp add: example_pg_env_def)
  have "address_of_u ''2'' d = (d, Inr a)"
    unfolding address_of_u_def example_ops_def
    by (rule deposit_address_stable [OF a [unfolded address_of_u_def example_ops_def] reach_init, THEN conjunct1, rule_format, OF f])
  then show ?thesis by (simp add: a)
qed

text \<open>
  A debit that the balance does not cover is refused with \<open>FailedPrecondition\<close> and changes
  nothing, on Postgres when nothing fails: the wallet exists, both amounts can be parsed, the
  reference is not used and the metadata are a JSON object or empty.
\<close>
theorem srv_debit_insufficient:
  assumes "decimal_lib D val" and "pe_fault E = (\<lambda>_. None)"
    and "List.find (\<lambda>w. w_UserID w = u \<and> w_Currency w = c) (pg_wallets db) = Some w"
    and "dval D val (w_Balance w) = Some b" and "dval D val amount = Some a" and "b < a"
    and "\<not> pg_used ref db" and "parseMetadataJSON J meta = Inr m"
  shows "srv_DebitWallet J (pg_ops D N ord1 ord2) E db u c amount ref meta
    = (db, Inl (StatusErr FailedPrecondition ''insufficient balance''))"
proof -
  have ex: "pg_existing E 1 ''check reference id: '' ref (live db) = (live db, Inr None)"
  proof (cases "ref = []")
    case False
    then have "List.find (\<lambda>t. q_Reference t = Some ref) (pg_txns db) = None"
      using assms(7) by (simp add: pg_used_def find_key_None)
    with False assms(2) show ?thesis
      by (simp add: pg_existing_def pg_stmt_def sel_txn_by_ref_def tx_then_def)
  qed (simp add: pg_existing_def)
  obtain db0 d0 where p: "NewFromString D (w_Balance w) = Inr db0" "NewFromString D amount = Inr d0" "val db0 = b" "val d0 = a"
    using assms(4,5) by (auto simp: dval_Some_iff)
  have "DLessThan D db0 d0"
    using p assms(6) decimal_lib.less_than [OF assms(1)] by simp
  then have "pg_covered D E ''debit wallet: '' u c amount (live db) = (live db, Inl ErrInsufficientBalance)"
    using assms(2,3) p by (simp add: pg_covered_def pg_stmt_def sel_wallet_def tx_then_def)
  then have "pg_DebitWallet D N E db u c amount ref m = (db, Inl ErrInsufficientBalance)"
    using assms(2) ex by (simp add: pg_DebitWallet_def pg_in_tx_def pg_debit_body_def tx_then_def)
  then show ?thesis
    using assms(8) by (simp add: srv_DebitWallet_def pg_ops_def mapWalletError_def)
qed

theorem srv_debit_insufficient_witness:
  "srv_DebitWallet example_json example_ops (example_pg_env ''y'') example_db ''u'' ''EUR'' ''7'' ''b9'' []
   = (example_db, Inl (StatusErr FailedPrecondition ''insufficient balance''))"
  unfolding example_ops_def
proof (rule srv_debit_insufficient [where val = dec_val and b = 6 and a = 7])
  obtain w where w: "pg_wallets example_db = [w]" "w_Balance w = ''6.0''" "w_UserID w = ''u''" "w_Currency w = ''EUR''"
    using example_db_wallets by blast
  show "List.find (\<lambda>w. w_UserID w = ''u'' \<and> w_Currency w = ''EUR'') (pg_wallets example_db) = Some (hd (pg_wallets example_db))"
    using w by simp
  have "dval dec_ops dec_val ''6.0'' = Some 6" by code_simp
  then show "dval dec_ops dec_val (w_Balance (hd (pg_wallets example_db))) = Some 6" using w by simp
  show "dval dec_ops dec_val ''7'' = Some 7" by code_simp
  show "\<not> pg_used ''b9'' example_db" by code_simp
qed (simp_all add: refdec.decimal_lib_axioms example_pg_env_def parseMetadataJSON_def)

end
