(* ===== verification/WalletOverlap.thy ===== *)
theory WalletOverlap
  imports WalletStores
begin

text \<open>
  Debits and credits that overlap on Postgres.  A transaction of \<open>pgstore.go\<close> reads the reference,
  then the wallet (\<open>FOR UPDATE\<close>), and then changes both tables; other transactions can commit
  between its statements.  The model allows more of them than the server does: it does not use that
  the row stays locked from the look-up on, only that the update names the version that was read.

  Proved: whatever commits in between, an operation that overlaps others leaves the tables as they
  are or does what it would do alone at the moment of its update.
\<close>

section \<open>The transactions with their snapshots\<close>

text \<open>
  Each statement sees what is committed when it starts: the check of the reference sees \<open>db0\<close>, the
  look-up of the wallet \<open>db1\<close>, and everything from the first change to the commit happens on \<open>db2\<close>.
\<close>

definition overlapped_debit ::
  "'d decimal_ops \<Rightarrow> pg_lib \<Rightarrow> pg_env \<Rightarrow> pg_db \<Rightarrow> pg_db \<Rightarrow> pg_db \<Rightarrow> string \<Rightarrow> string \<Rightarrow> string \<Rightarrow> string \<Rightarrow> metadata
   \<Rightarrow> pg_db \<times> transaction result" where
  "overlapped_debit D N E db0 db1 db2 userID currency amount referenceID metadata =
     pg_in_tx E (\<lambda>t.
       case snd (pg_existing E 1 ''check reference id: '' referenceID (live db0)) of
         Inl e \<Rightarrow> (t, Inl e)
       | Inr (Some txn) \<Rightarrow> (t, Inr txn)
       | Inr None \<Rightarrow>
           (case snd (pg_covered D E ''debit wallet: '' userID currency amount (live db1)) of
              Inl e \<Rightarrow> (t, Inl e)
            | Inr (w, newBalance) \<Rightarrow>
                pg_move N E userID currency w ''withdrawal'' amount newBalance referenceID metadata t)) db2"

definition overlapped_credit ::
  "'d decimal_ops \<Rightarrow> pg_lib \<Rightarrow> pg_env \<Rightarrow> pg_db \<Rightarrow> pg_db \<Rightarrow> pg_db \<Rightarrow> string \<Rightarrow> string \<Rightarrow> string \<Rightarrow> string \<Rightarrow> metadata
   \<Rightarrow> pg_db \<times> transaction result" where
  "overlapped_credit D N E db0 db1 db2 userID currency amount referenceID metadata =
     pg_in_tx E (\<lambda>t.
       case snd (pg_existing E 1 ''check reference id: '' referenceID (live db0)) of
         Inl e \<Rightarrow> (t, Inl e)
       | Inr (Some txn) \<Rightarrow> (t, Inr txn)
       | Inr None \<Rightarrow>
           tx_then
             (case snd (pg_stmt E 3 (sel_wallet userID currency) (live db1)) of
                Inl e \<Rightarrow> (t, Inl e)
              | Inr (Some w) \<Rightarrow> (t, Inr w)
              | Inr None \<Rightarrow> pg_stmt E 4 (ins_wallet N (genv.truncate E) userID currency) t)
             (WrapErr ''get wallet: '')
             (\<lambda>t w. case addDecimal D (w_Balance w) amount of
                Inl err \<Rightarrow> (t, Inl (WrapErr ''credit wallet: '' err))
              | Inr newBalance \<Rightarrow>
                  pg_move N E userID currency w ''deposit'' amount newBalance referenceID metadata t)) db2"

section \<open>What the reads are worth later\<close>

text \<open>A row that was read: it is still there, and as it was unless its version has grown.\<close>

definition row_since :: "wallet \<Rightarrow> pg_db \<Rightarrow> bool" where
  "row_since w db \<longleftrightarrow> (\<exists>w'\<in>set (pg_wallets db). w_ID w' = w_ID w \<and> pg_key w' = pg_key w \<and> w_Version w \<le> w_Version w'
     \<and> (w_Version w' = w_Version w \<longrightarrow> w_Balance w' = w_Balance w))"

definition pg_unique :: "pg_db \<Rightarrow> bool" where
  "pg_unique db \<longleftrightarrow> distinct (List.map w_ID (pg_wallets db)) \<and> distinct (List.map pg_key (pg_wallets db))"

lemma row_since_wallets: "pg_wallets db' = pg_wallets db \<Longrightarrow> row_since w db' = row_since w db"
  by (simp add: row_since_def)

lemma pg_unique_wallets: "pg_wallets db' = pg_wallets db \<Longrightarrow> pg_unique db' = pg_unique db"
  by (simp add: pg_unique_def)

lemma stmt_wallets:
  "ins_txn N row db = Inr (db', st) \<Longrightarrow> pg_wallets db' = pg_wallets db"
  "upd_txn_status r status db = Inr (db', z1) \<Longrightarrow> pg_wallets db' = pg_wallets db"
  "ins_request N req db = Inr (db', r1) \<Longrightarrow> pg_wallets db' = pg_wallets db"
  "upd_request N i f db = Inr (db', z2) \<Longrightarrow> pg_wallets db' = pg_wallets db"
  "ins_address G addr db = Inr (db', a) \<Longrightarrow> pg_wallets db' = pg_wallets db"
  by (auto simp: ins_txn_def upd_txn_status_def ins_request_def upd_request_def ins_address_def Let_def
      split: option.splits if_splits)

text \<open>The statements on wallets append a row or change rows in place.\<close>

lemma row_since_map:
  assumes "row_since w db" and "pg_wallets db' = List.map f (pg_wallets db)"
    and "\<And>x. w_ID (f x) = w_ID x \<and> pg_key (f x) = pg_key x \<and> w_Version x \<le> w_Version (f x)
      \<and> (w_Version (f x) = w_Version x \<longrightarrow> w_Balance (f x) = w_Balance x)"
  shows "row_since w db'"
proof -
  obtain x where "x \<in> set (pg_wallets db)" "w_ID x = w_ID w" "pg_key x = pg_key w" "w_Version w \<le> w_Version x"
    "w_Version x = w_Version w \<longrightarrow> w_Balance x = w_Balance w" using assms(1) by (auto simp: row_since_def)
  then show ?thesis unfolding row_since_def
    by (intro bexI [of _ "f x"]) (use assms(3) [of x] in \<open>auto simp: assms(2)\<close>)
qed

lemma pg_unique_map:
  assumes "pg_unique db" and "pg_wallets db' = List.map f (pg_wallets db)" and "\<And>x. w_ID (f x) = w_ID x \<and> pg_key (f x) = pg_key x"
  shows "pg_unique db'"
  using assms by (simp add: pg_unique_def comp_def)

lemma ins_wallet_row: "ins_wallet N G u c db = Inr (db', w) \<Longrightarrow>
    pg_wallets db' = pg_wallets db @ [w] \<and> w_ID w \<notin> w_ID ` set (pg_wallets db) \<and> pg_key w \<notin> pg_key ` set (pg_wallets db)"
  by (auto simp: ins_wallet_def pg_key_def Let_def image_iff split: option.splits if_splits)

lemma upsert_wallet_row:
  assumes "upsert_wallet N G u c db = Inr (db', w)"
  shows "ins_wallet N G u c db = Inr (db', w)
    \<or> (\<exists>P. pg_wallets db' = List.map (\<lambda>x. if P x then x\<lparr>w_UpdatedAt := e_now G\<rparr> else x) (pg_wallets db))"
  using assms by (auto simp: upsert_wallet_def Let_def split: option.splits)

lemma upd_balance_row:
  assumes "upd_balance N G nb i v db = Inr (db', n)"
  shows "\<exists>b. pg_wallets db' = List.map (\<lambda>x. if w_ID x = i \<and> w_Version x = v
      then x\<lparr>w_Balance := b, w_Version := w_Version x + 1, w_UpdatedAt := e_now G\<rparr> else x) (pg_wallets db)"
  using assms by (auto simp: upd_balance_def Let_def split: option.splits if_splits)

interpretation since: pg_kept "row_since w"
proof (unfold_locales, goal_cases)
  case (1 N G u c db db' w1)
  from ins_wallet_row [OF 1(1)] 1(2) show ?case by (auto simp: row_since_def)
next
  case (2 N G u c db db' w1)
  from upsert_wallet_row [OF 2(1)] show ?case
  proof
    assume "ins_wallet N G u c db = Inr (db', w1)"
    from ins_wallet_row [OF this] 2(2) show ?thesis by (auto simp: row_since_def)
  qed (auto intro!: row_since_map [OF 2(2)] simp: pg_key_def)
next
  case (3 N G nb i v db db' n)
  from upd_balance_row [OF 3(1)] show ?case by (auto intro!: row_since_map [OF 3(2)] simp: pg_key_def)
next
  case (4 N row db db' st)
  then show ?case using row_since_wallets [OF stmt_wallets(1)] by blast
next
  case (5 r status db db' z1)
  then show ?case using row_since_wallets [OF stmt_wallets(2)] by blast
next
  case (6 N req db db' r1)
  then show ?case using row_since_wallets [OF stmt_wallets(3)] by blast
next
  case (7 N i f db db' z2)
  then show ?case using row_since_wallets [OF stmt_wallets(4)] by blast
next
  case (8 G addr db db' a)
  then show ?case using row_since_wallets [OF stmt_wallets(5)] by blast
qed

interpretation unique: pg_kept pg_unique
proof (unfold_locales, goal_cases)
  case (1 N G u c db db' w1)
  from ins_wallet_row [OF 1(1)] 1(2) show ?case by (auto simp: pg_unique_def)
next
  case (2 N G u c db db' w1)
  from upsert_wallet_row [OF 2(1)] show ?case
  proof
    assume "ins_wallet N G u c db = Inr (db', w1)"
    from ins_wallet_row [OF this] 2(2) show ?thesis by (auto simp: pg_unique_def)
  qed (auto intro!: pg_unique_map [OF 2(2)] simp: pg_key_def)
next
  case (3 N G nb i v db db' n)
  from upd_balance_row [OF 3(1)] show ?case by (auto intro!: pg_unique_map [OF 3(2)] simp: pg_key_def)
next
  case (4 N row db db' st)
  then show ?case using pg_unique_wallets [OF stmt_wallets(1)] by blast
next
  case (5 r status db db' z1)
  then show ?case using pg_unique_wallets [OF stmt_wallets(2)] by blast
next
  case (6 N req db db' r1)
  then show ?case using pg_unique_wallets [OF stmt_wallets(3)] by blast
next
  case (7 N i f db db' z2)
  then show ?case using pg_unique_wallets [OF stmt_wallets(4)] by blast
next
  case (8 G addr db db' a)
  then show ?case using pg_unique_wallets [OF stmt_wallets(5)] by blast
qed

section \<open>The row that an update hits\<close>

lemma since_init: "w \<in> set (pg_wallets db) \<Longrightarrow> row_since w db"
  by (auto simp: row_since_def)

lemma unique_reach: "reach pg_empty (pg_step D N Q) db \<Longrightarrow> pg_unique db"
  by (erule unique.kept_reach) (simp add: pg_unique_def pg_empty_def)

lemma find_wallet_key:
  "List.find (\<lambda>w. w_UserID w = u \<and> w_Currency w = c) ws = List.find (\<lambda>w. pg_key w = (u, c)) ws"
  by (simp add: pg_key_def)

text \<open>If the update hits, the row is still the one that was read.\<close>

lemma hit_is_read:
  assumes "List.find (\<lambda>w. w_UserID w = u \<and> w_Currency w = c) (pg_wallets db1) = Some w"
    and "reach db1 (pg_step D N Q) db2" and "pg_unique db2"
    and "upd_balance N' G nb (w_ID w) (w_Version w) db2 = Inr (db3, n)" and "n \<noteq> 0"
  obtains w2 where "List.find (\<lambda>w. w_UserID w = u \<and> w_Currency w = c) (pg_wallets db2) = Some w2"
    and "w_ID w2 = w_ID w" and "w_Version w2 = w_Version w" and "w_Balance w2 = w_Balance w"
proof -
  have w: "w \<in> set (pg_wallets db1)" "pg_key w = (u, c)"
    using find_key_Some [OF assms(1) [unfolded find_wallet_key]] by simp_all
  obtain w2 where w2: "w2 \<in> set (pg_wallets db2)" "w_ID w2 = w_ID w" "pg_key w2 = pg_key w"
    "w_Version w2 = w_Version w \<longrightarrow> w_Balance w2 = w_Balance w"
    using since.kept_reach [OF assms(2) since_init [OF w(1)]] by (auto simp: row_since_def)
  obtain h where h: "h \<in> set (pg_wallets db2)" "w_ID h = w_ID w" "w_Version h = w_Version w"
    using assms(4,5) by (force simp: upd_balance_def Let_def filter_empty_conv split: option.splits if_splits)
  have u: "inj_on w_ID (set (pg_wallets db2))" "inj_on pg_key (set (pg_wallets db2))"
    using assms(3) by (simp_all add: pg_unique_def distinct_map)
  have "h = w2" using h(1,2) w2(1,2) inj_onD [OF u(1)] by simp
  moreover have "List.find (\<lambda>w. w_UserID w = u \<and> w_Currency w = c) (pg_wallets db2) = Some w2"
  proof (cases "List.find (\<lambda>w. pg_key w = (u, c)) (pg_wallets db2)")
    case None
    then have "(u, c) \<notin> pg_key ` set (pg_wallets db2)" by (simp add: find_key_None)
    then show ?thesis using w2(1,3) w(2) by (metis image_eqI)
  next
    case (Some k)
    then show ?thesis
      using find_key_Some [OF Some] inj_onD [OF u(2), of k w2] w2(1,3) w(2) by (simp add: find_wallet_key)
  qed
  ultimately show ?thesis using that w2 h by blast
qed

lemma pg_move_row:
  "w_ID w' = w_ID w \<Longrightarrow> w_Version w' = w_Version w \<Longrightarrow> w_Balance w' = w_Balance w
   \<Longrightarrow> pg_move N E u c w' typ a nb ref m t = pg_move N E u c w typ a nb ref m t"
  by (simp only: pg_move_def)

text \<open>A move that succeeds finds its reference unused and its wallet as it was read.\<close>

lemma move_fresh:
  assumes "pg_move N E u c w typ a nb ref m (live db) = (t, Inr x)"
  shows "pg_existing (nofault E) 1 p ref (live db) = (live db, Inr None)"
proof (cases "ref = []")
  case False
  obtain db1 n db2 stored where mv: "upd_balance N (genv.truncate E) nb (w_ID w) (w_Version w) db = Inr (db1, n)"
    "ins_txn N \<lparr>q_ID = e_uuid E 1, q_UserID = u, q_WalletID = w_ID w, q_Currency = c,
                q_Type = typ, q_Amount = a, q_BalanceBefore = w_Balance w, q_BalanceAfter = nb,
                q_Status = ''completed'', q_Reference = (if ref = [] then None else Some ref),
                q_Metadata = pl_jsonb N m, q_CreatedAt = e_now E\<rparr> db1 = Inr (db2, stored)"
    using pg_move_Inr [OF assms] by blast
  have "pg_txns db1 = pg_txns db" using stmt_txns(3) [OF mv(1)] .
  then have "Some ref \<notin> q_Reference ` set (pg_txns db)"
    using mv(2) False by (auto simp: ins_txn_def split: option.splits if_splits)
  then have "List.find (\<lambda>t. q_Reference t = Some ref) (pg_txns db) = None"
    by (simp add: find_key_None)
  with False show ?thesis by (simp add: pg_existing_def pg_stmt_def sel_txn_by_ref_def tx_then_def)
qed (simp add: pg_existing_def)

section \<open>What an overlapped transaction does\<close>

text \<open>
  \<open>alone\<close> is what the operation does by itself on \<open>db\<close>, when nothing fails.  The tables are as they
  were or as \<open>alone\<close> leaves them; after a success they are as \<open>alone\<close> leaves them, and the answer is the
  same unless the reference had been used.
\<close>

definition as_alone :: "bool \<Rightarrow> pg_db \<Rightarrow> pg_db \<times> 'a result \<Rightarrow> pg_db \<times> 'a result \<Rightarrow> bool" where
  "as_alone used db alone r \<longleftrightarrow>
     (fst r = db \<or> fst r = fst alone) \<and> (is_ok (snd r) \<longrightarrow> fst r = fst alone \<and> (used \<or> r = alone))"

lemma as_alone_tx:
  assumes "\<And>t x. body (live db) = (t, Inr x)
      \<Longrightarrow> used \<and> t = live db \<or> \<not> used \<and> body' (live db) = (t, Inr x)"
    and "used \<Longrightarrow> fst (pg_in_tx (nofault E) body' db) = db"
  shows "as_alone used db (pg_in_tx (nofault E) body' db) (pg_in_tx E body db)"
proof -
  obtain db' res where r: "pg_in_tx E body db = (db', res)" by force
  then show ?thesis
  proof (cases rule: pg_in_tx_cases)
    case nothing
    with r show ?thesis by (simp add: as_alone_def)
  next
    case (all t x)
    then have "body' (live db) = (t, Inr x) \<Longrightarrow> pg_in_tx (nofault E) body' db = (db', Inr x)"
      by (simp add: pg_in_tx_def)
    with assms(1) [OF all(1)] assms(2) r all show ?thesis by (auto simp: as_alone_def)
  qed
qed

lemma existing_later:
  assumes "snd (pg_existing E 1 p ref (live db0)) = Inr r" and "reach db0 (pg_step D N Q) db2"
  shows "pg_used ref db0 \<longleftrightarrow> r \<noteq> None" and "pg_used ref db0 \<Longrightarrow> pg_used ref db2"
proof -
  obtain t where "pg_existing E 1 p ref (live db0) = (t, Inr r)"
    using assms(1) by (metis prod.collapse)
  from pg_existing_Inr(2) [OF this] show "pg_used ref db0 \<longleftrightarrow> r \<noteq> None" by (auto simp: pg_used_def)
  show "pg_used ref db0 \<Longrightarrow> pg_used ref db2" by (rule used.kept_reach [OF assms(2)])
qed

lemma used_alone:
  assumes "pg_used ref db"
  shows "fst (pg_DebitWallet D N E db u c amount ref m) = db" and "fst (pg_CreditWallet D N E db u c amount ref m) = db"
  using pg_used_ref_call [of ref D "\<lambda>_. 0" db] assms by (simp_all add: pg_used_ref_used [symmetric])

text \<open>The part after the reference was found unused.\<close>

lemma debit_later:
  assumes "snd (pg_covered D E ''debit wallet: '' u c amount (live db1)) = Inr (w, nb)"
    and "pg_move N E u c w ''withdrawal'' amount nb ref m (live db2) = (t, Inr x)"
    and "reach db1 (pg_step D N Q) db2" and "pg_unique db2"
  shows "pg_debit_body D N (nofault E) u c amount ref m (live db2) = (t, Inr x)"
proof -
  obtain t1 where "pg_covered D E ''debit wallet: '' u c amount (live db1) = (t1, Inr (w, nb))"
    using assms(1) by (metis prod.collapse)
  then obtain cb d where f: "List.find (\<lambda>w. w_UserID w = u \<and> w_Currency w = c) (pg_wallets db1) = Some w"
    and p: "NewFromString D (w_Balance w) = Inr cb" "NewFromString D amount = Inr d"
    and le: "\<not> DLessThan D cb d" and sb: "subDecimal D (w_Balance w) amount = Inr nb"
    by (auto simp: pg_covered_def tx_then_Inr pg_stmt_Inr sel_wallet_def split: option.splits sum.splits if_splits)
  obtain db3 n where "upd_balance N (genv.truncate E) nb (w_ID w) (w_Version w) db2 = Inr (db3, n)" "n \<noteq> 0"
    using pg_move_Inr [OF assms(2)] by blast
  from hit_is_read [OF f assms(3,4) this] obtain w2 where
    w2: "List.find (\<lambda>w. w_UserID w = u \<and> w_Currency w = c) (pg_wallets db2) = Some w2"
      "w_ID w2 = w_ID w" "w_Version w2 = w_Version w" "w_Balance w2 = w_Balance w" .
  then have cov: "pg_covered D (nofault E) ''debit wallet: '' u c amount (live db2) = (live db2, Inr (w2, nb))"
    using p le sb by (simp add: pg_covered_def pg_stmt_def sel_wallet_def tx_then_def)
  show ?thesis
    unfolding pg_debit_body_def move_fresh [OF assms(2)] tx_then_def
    by (simp add: cov pg_move_row [OF w2(2-4)] pg_move_nofault [OF assms(2)])
qed

lemma credit_later:
  assumes "(case snd (pg_stmt E 3 (sel_wallet u c) (live db1)) of
               Inl e \<Rightarrow> (live db2, Inl e) | Inr (Some w) \<Rightarrow> (live db2, Inr w)
             | Inr None \<Rightarrow> pg_stmt E 4 (ins_wallet N (genv.truncate E) u c) (live db2)) = (live db3, Inr w)"
    and "addDecimal D (w_Balance w) amount = Inr nb"
    and "pg_move N E u c w ''deposit'' amount nb ref m (live db3) = (t, Inr x)"
    and "reach db1 (pg_step D N Q) db2" and "pg_unique db2"
  shows "pg_credit_body D N (nofault E) u c amount ref m (live db2) = (t, Inr x)"
proof (cases "List.find (\<lambda>w. w_UserID w = u \<and> w_Currency w = c) (pg_wallets db1)")
  case (Some v)
  then have v: "v = w" "db3 = db2"
    using assms(1) by (auto simp: pg_stmt_def sel_wallet_def split: option.splits)
  obtain db4 n where "upd_balance N (genv.truncate E) nb (w_ID w) (w_Version w) db2 = Inr (db4, n)" "n \<noteq> 0"
    using pg_move_Inr [OF assms(3)] v by blast
  from hit_is_read [OF Some [unfolded v] assms(4,5) this] obtain w2 where
    w2: "List.find (\<lambda>w. w_UserID w = u \<and> w_Currency w = c) (pg_wallets db2) = Some w2"
      "w_ID w2 = w_ID w" "w_Version w2 = w_Version w" "w_Balance w2 = w_Balance w" .
  show ?thesis
    unfolding pg_credit_body_def move_fresh [OF assms(3) [unfolded v]] tx_then_def
    using w2(1,4) assms(2) pg_move_nofault [OF assms(3) [unfolded v]]
    by (simp add: pg_stmt_def sel_wallet_def pg_move_row [OF w2(2-4)])
next
  case None
  then have ins: "ins_wallet N (genv.truncate E) u c db2 = Inr (db3, w)"
    using assms(1) by (auto simp: pg_stmt_def sel_wallet_def split: option.splits sum.splits)
  have "(u, c) \<notin> pg_key ` set (pg_wallets db2)" using ins_wallet_row [OF ins] ins
    by (auto simp: ins_wallet_def pg_key_def Let_def split: option.splits if_splits)
  then have none: "List.find (\<lambda>w. w_UserID w = u \<and> w_Currency w = c) (pg_wallets db2) = None"
    by (simp add: find_wallet_key find_key_None)
  have ex: "pg_existing (nofault E) 1 p ref (live db2) = (live db2, Inr None)" for p
    using move_fresh [OF assms(3), of p] stmt_txns(1) [OF ins]
    by (auto simp: pg_existing_def tx_then_Inr pg_stmt_Inr sel_txn_by_ref_def split: option.splits if_splits)
  show ?thesis
    unfolding pg_credit_body_def ex tx_then_def
    using none ins assms(2) pg_move_nofault [OF assms(3)] by (simp add: pg_stmt_def sel_wallet_def)
qed

lemma overlapped_debit_alone:
  assumes "reach pg_empty (pg_step D N Q) db0" and "reach db0 (pg_step D N Q) db1" and "reach db1 (pg_step D N Q) db2"
  shows "as_alone (pg_used ref db0) db2 (pg_DebitWallet D N (nofault E) db2 u c amount ref m)
      (overlapped_debit D N E db0 db1 db2 u c amount ref m)"
  unfolding overlapped_debit_def pg_DebitWallet_def
proof (rule as_alone_tx, goal_cases)
  case (1 t x)
  have later: "reach db0 (pg_step D N Q) db2" "pg_unique db2"
    using reach_trans [OF assms(3,2)] unique_reach [OF reach_trans [OF reach_trans [OF assms(3,2)] assms(1)]] by simp_all
  show ?case
  proof (cases "snd (pg_existing E 1 ''check reference id: '' ref (live db0))")
    case (Inr r)
    note u = existing_later(1) [OF Inr later(1)]
    show ?thesis
    proof (cases r)
      case None
      with Inr 1 u show ?thesis
        by (auto intro: debit_later [OF _ _ assms(3) later(2)] split: sum.splits)
    qed (use Inr 1 u in auto)
  qed (use 1 in simp)
next
  case 2
  then have "pg_used ref db2" by (rule used.kept_reach [OF reach_trans [OF assms(3,2)]])
  from used_alone(1) [OF this] show ?case by (simp add: pg_DebitWallet_def)
qed

lemma overlapped_credit_alone:
  assumes "reach pg_empty (pg_step D N Q) db0" and "reach db0 (pg_step D N Q) db1" and "reach db1 (pg_step D N Q) db2"
  shows "as_alone (pg_used ref db0) db2 (pg_CreditWallet D N (nofault E) db2 u c amount ref m)
      (overlapped_credit D N E db0 db1 db2 u c amount ref m)"
  unfolding overlapped_credit_def pg_CreditWallet_def
proof (rule as_alone_tx, goal_cases)
  case (1 t x)
  have later: "reach db0 (pg_step D N Q) db2" "pg_unique db2"
    using reach_trans [OF assms(3,2)] unique_reach [OF reach_trans [OF reach_trans [OF assms(3,2)] assms(1)]] by simp_all
  show ?case
  proof (cases "snd (pg_existing E 1 ''check reference id: '' ref (live db0))")
    case (Inr r)
    note u = existing_later(1) [OF Inr later(1)]
    show ?thesis
    proof (cases r)
      case None
      with Inr 1 obtain t1 w nb where
        w: "(case snd (pg_stmt E 3 (sel_wallet u c) (live db1)) of
               Inl e \<Rightarrow> (live db2, Inl e) | Inr (Some w) \<Rightarrow> (live db2, Inr w)
             | Inr None \<Rightarrow> pg_stmt E 4 (ins_wallet N (genv.truncate E) u c) (live db2)) = (t1, Inr w)"
        and mv: "addDecimal D (w_Balance w) amount = Inr nb"
          "pg_move N E u c w ''deposit'' amount nb ref m t1 = (t, Inr x)"
        by (auto simp: tx_then_Inr tx_branch_Inr)
      obtain db3 where t1: "t1 = live db3"
        using w by (auto simp: pg_stmt_Inr split: sum.splits option.splits)
      note credit_later [OF w [unfolded t1] mv(1) mv(2) [unfolded t1] assms(3) later(2)]
      with u None show ?thesis by simp
    qed (use Inr 1 u in auto)
  qed (use 1 in simp)
next
  case 2
  then have "pg_used ref db2" by (rule used.kept_reach [OF reach_trans [OF assms(3,2)]])
  from used_alone(2) [OF this] show ?case by (simp add: pg_CreditWallet_def)
qed

section \<open>The property\<close>

text \<open>
  C4: overlapping movements act one after the other on Postgres.  A debit or credit whose check of
  the reference, look-up of the wallet and changes see three successive states, with any calls
  committed in between, leaves the tables as they are or exactly as the same operation leaves them
  when it runs alone on the last state; when it succeeds it has done the latter, with the same
  answer if the reference was unused.
\<close>
theorem overlapped_moves_serialize:
  assumes "reach pg_empty (pg_step D N Q) db0" and "reach db0 (pg_step D N Q) db1" and "reach db1 (pg_step D N Q) db2"
  shows "as_alone (pg_used ref db0) db2 (pg_DebitWallet D N (nofault E) db2 u c amount ref m)
        (overlapped_debit D N E db0 db1 db2 u c amount ref m)
    \<and> as_alone (pg_used ref db0) db2 (pg_CreditWallet D N (nofault E) db2 u c amount ref m)
        (overlapped_credit D N E db0 db1 db2 u c amount ref m)"
  using overlapped_debit_alone [OF assms] overlapped_credit_alone [OF assms] by blast

text \<open>
  Two debits of 4 with a balance of 6, both of which found it covered: the one that comes second
  is refused.  If the other movement was a deposit of another user, the debit goes through.
\<close>

definition after_call :: "wallet_call \<Rightarrow> pg_db" where
  "after_call call = pg_exec dec_ops example_server (example_pg_env ''x'') call example_db"

definition raced_debit :: "wallet_call \<Rightarrow> pg_db \<times> transaction result" where
  "raced_debit call = overlapped_debit dec_ops example_server (example_pg_env ''y'') example_db example_db
     (after_call call) ''u'' ''EUR'' ''4'' ''b8'' None"

theorem overlapped_moves_serialize_witness:
  "snd (raced_debit (CallDebit ''u'' ''EUR'' ''4'' ''b7'' None)) = Inl ErrWalletConflict
   \<and> is_ok (snd (raced_debit (CallCredit ''v'' ''EUR'' ''4'' ''b7'' None)))
   \<and> raced_debit (CallCredit ''v'' ''EUR'' ''4'' ''b7'' None)
     = pg_DebitWallet dec_ops example_server (nofault (example_pg_env ''y'')) (after_call (CallCredit ''v'' ''EUR'' ''4'' ''b7'' None))
         ''u'' ''EUR'' ''4'' ''b8'' None"
proof -
  let ?call = "CallCredit ''v'' ''EUR'' ''4'' ''b7'' None"
  have conflict: "snd (raced_debit (CallDebit ''u'' ''EUR'' ''4'' ''b7'' None)) = Inl ErrWalletConflict" by code_simp
  have ok: "is_ok (snd (raced_debit ?call))" by code_simp
  have unused: "\<not> pg_used ''b8'' example_db" by code_simp
  have "scale8_call dec_ops dec_val ?call" by code_simp
  then have "reach example_db (pg_step dec_ops example_server (scale8_call dec_ops dec_val)) (after_call ?call)"
    unfolding after_call_def by (intro reach_step [OF reach_init] pg_step.intros)
  from overlapped_moves_serialize [OF example_db_reach reach_init this, of "''b8''" "example_pg_env ''y''" "''u''" "''EUR''" "''4''" None]
  have "as_alone (pg_used ''b8'' example_db) (after_call ?call)
      (pg_DebitWallet dec_ops example_server (nofault (example_pg_env ''y'')) (after_call ?call) ''u'' ''EUR'' ''4'' ''b8'' None)
      (raced_debit ?call)"
    unfolding raced_debit_def by (rule conjunct1)
  then have "raced_debit ?call
      = pg_DebitWallet dec_ops example_server (nofault (example_pg_env ''y'')) (after_call ?call) ''u'' ''EUR'' ''4'' ''b8'' None"
    using ok unused by (simp only: as_alone_def) blast
  with conflict ok show ?thesis by blast
qed

end
