(* ===== verification/SportsbookModel.thy ===== *)
theory SportsbookModel
  imports WalletModel
begin

text \<open>
  The data of the sportsbook, \<open>internal/sportsbook\<close>: bets and their statuses (\<open>models.go\<close>), the
  decimal helpers (\<open>decimal.go\<close>), the interfaces \<open>Store\<close> (\<open>store.go\<close>), \<open>WalletClient\<close> and
  \<open>OddsFeedClient\<close> (\<open>service.go\<close>) as records of operations, and the contract of a bet store as
  the locale \<open>bet_store\<close>: what each operation may do to the bets, with any of them failing.
\<close>

section \<open>Pages\<close>

lemma wrap64_page:
  assumes "1 \<le> p" and "1 \<le> n" and "p * n < 2 ^ 62"
  shows "0 \<le> (p - 1) * n" and "(p - 1) * n + n < 2 ^ 62" and "wrap64 ((p - 1) * n) = (p - 1) * n"
proof -
  define q where "q = (p - 1) * n"
  have q: "0 \<le> q" "q + n < 2 ^ 62" using assms by (simp_all add: q_def left_diff_distrib)
  then show "0 \<le> (p - 1) * n" "(p - 1) * n + n < 2 ^ 62" by (simp_all add: q_def)
  have "wrap64 q = q" using q assms(2) by (intro wrap64_id) simp_all
  then show "wrap64 ((p - 1) * n) = (p - 1) * n" by (simp add: q_def)
qed

section \<open>models.go\<close>

record bet =
  b_ID :: string
  b_UserID :: string
  b_EventID :: string
  b_MarketID :: string
  b_OutcomeID :: string
  b_Odds :: string
  b_Stake :: string
  b_PotentialPayout :: string
  b_Currency :: string
  b_Status :: string
  b_ReferenceID :: string
  b_DebitTransactionID :: string
  b_CreditTransactionID :: string
  b_CreatedAt :: gtime
  b_SettledAt :: "gtime option"

definition StatusDebitPending :: string where "StatusDebitPending = ''debit_pending''"
definition StatusPending :: string where "StatusPending = ''pending''"
definition StatusWon :: string where "StatusWon = ''won''"
definition StatusLost :: string where "StatusLost = ''lost''"
definition StatusCancelled :: string where "StatusCancelled = ''cancelled''"

lemmas status_defs = StatusDebitPending_def StatusPending_def StatusWon_def StatusLost_def StatusCancelled_def

definition final_status :: "string \<Rightarrow> bool" where
  "final_status st \<longleftrightarrow> st \<in> {StatusWon, StatusLost, StatusCancelled}"

lemma final_status_simps [simp]:
  "final_status StatusWon" "final_status StatusLost" "final_status StatusCancelled"
  "\<not> final_status StatusPending" "\<not> final_status StatusDebitPending"
  "StatusPending \<noteq> StatusDebitPending" "StatusDebitPending \<noteq> StatusPending"
  "StatusWon \<noteq> StatusPending" "StatusLost \<noteq> StatusPending" "StatusCancelled \<noteq> StatusPending"
  by (simp_all add: final_status_def status_defs)

section \<open>Errors\<close>

definition ErrBetNotFound :: go_error where
  "ErrBetNotFound = Sentinel ''sportsbook'' ''bet not found''"

section \<open>decimal.go\<close>

definition parseDecimal :: "'d decimal_ops \<Rightarrow> string \<Rightarrow> 'd result" where
  "parseDecimal D s =
     (case NewFromString D s of
        Inl err \<Rightarrow> Inl (WrapErr (''parse decimal '' @ go_quote s @ '': '') err)
      | Inr d \<Rightarrow> Inr d)"

definition multiplyDecimal :: "'d decimal_ops \<Rightarrow> string \<Rightarrow> string \<Rightarrow> string result" where
  "multiplyDecimal D a b =
     (case parseDecimal D a of
        Inl err \<Rightarrow> Inl err
      | Inr da \<Rightarrow>
        (case parseDecimal D b of
           Inl err \<Rightarrow> Inl err
         | Inr db \<Rightarrow> Inr (DString D (DMul D da db))))"

definition decimalGreaterThanZero :: "'d decimal_ops \<Rightarrow> string \<Rightarrow> bool result" where
  "decimalGreaterThanZero D s =
     (case parseDecimal D s of
        Inl err \<Rightarrow> Inl err
      | Inr d \<Rightarrow> Inr (DGreaterThan D d (DZero D)))"

context decimal_lib
begin

lemma multiplyDecimal_Inr:
  assumes "multiplyDecimal D a b = Inr c"
  shows "dval D val c = Some (num D val a * num D val b)" and "num D val c = num D val a * num D val b"
proof -
  obtain da db where "NewFromString D a = Inr da" "NewFromString D b = Inr db" "c = DString D (DMul D da db)"
    using assms by (auto simp: multiplyDecimal_def parseDecimal_def split: sum.splits)
  then show "dval D val c = Some (num D val a * num D val b)" "num D val c = num D val a * num D val b"
    by (simp_all add: num_def dval_Some_parse)
qed

lemma decimalGreaterThanZero_Inr:
  "decimalGreaterThanZero D s = Inr g \<Longrightarrow> dval D val s \<noteq> None \<and> (g \<longleftrightarrow> 0 < num D val s)"
  by (auto simp: decimalGreaterThanZero_def parseDecimal_def num_def dval_def split: sum.splits)

end

section \<open>Interfaces\<close>

record ('e, 's) bet_ops =
  BO_CreateBet :: "'e \<Rightarrow> 's \<Rightarrow> bet \<Rightarrow> 's \<times> string result"
  BO_GetBet :: "'e \<Rightarrow> 's \<Rightarrow> string \<Rightarrow> bet result"
  BO_ListBets :: "'e \<Rightarrow> 's \<Rightarrow> string \<Rightarrow> string \<Rightarrow> int \<Rightarrow> int \<Rightarrow> bet list result"
  BO_ListPendingBets :: "'e \<Rightarrow> 's \<Rightarrow> int \<Rightarrow> int \<Rightarrow> bet list result"
  BO_UpdateBetStatus :: "'e \<Rightarrow> 's \<Rightarrow> string \<Rightarrow> string \<Rightarrow> gtime \<Rightarrow> 's \<times> unit result"
  BO_UpdateBetStatusAndDebitTx :: "'e \<Rightarrow> 's \<Rightarrow> string \<Rightarrow> string \<Rightarrow> string \<Rightarrow> gtime \<Rightarrow> 's \<times> unit result"
  BO_UpdateBetStatusAndOutcome :: "'e \<Rightarrow> 's \<Rightarrow> string \<Rightarrow> string \<Rightarrow> gtime \<Rightarrow> 's \<times> unit result"
  BO_SetCreditTransactionID :: "'e \<Rightarrow> 's \<Rightarrow> string \<Rightarrow> string \<Rightarrow> 's \<times> unit result"
  BO_GetBetByReference :: "'e \<Rightarrow> 's \<Rightarrow> string \<Rightarrow> string \<Rightarrow> bet result"

text \<open>A client call changes the state of the service behind it, also when it fails.\<close>

record 'w wallet_client =
  WC_DebitWallet :: "'w \<Rightarrow> string \<Rightarrow> string \<Rightarrow> string \<Rightarrow> string \<Rightarrow> metadata \<Rightarrow> 'w \<times> string result"
  WC_CreditWallet :: "'w \<Rightarrow> string \<Rightarrow> string \<Rightarrow> string \<Rightarrow> string \<Rightarrow> metadata \<Rightarrow> 'w \<times> string result"

record pb_event =
  pe_Id :: string
  pe_Status :: string

record pb_market =
  pm_Id :: string
  pm_EventId :: string
  pm_Status :: string

record pb_outcome =
  po_Id :: string
  po_MarketId :: string
  po_Odds :: string
  po_Status :: string

text \<open>The answers of the odds feed during one operation; \<open>None\<close> is a nil event.\<close>

record feed_client =
  FC_GetEvent :: "string \<Rightarrow> pb_event option result"
  FC_ListMarkets :: "string \<Rightarrow> string \<Rightarrow> int \<Rightarrow> int \<Rightarrow> pb_market list result"
  FC_ListOutcomes :: "string \<Rightarrow> string \<Rightarrow> int \<Rightarrow> int \<Rightarrow> pb_outcome list result"

section \<open>The contract of a bet store\<close>

text \<open>
  The bets by their id.  An operation changes at most the one bet it names, and may fail before or
  after it took effect.
\<close>

type_synonym bets = "string \<Rightarrow> bet option"

definition created :: "bet \<Rightarrow> bet \<Rightarrow> bool" where
  "created b b' \<longleftrightarrow>
     b_UserID b' = b_UserID b \<and> b_ReferenceID b' = b_ReferenceID b \<and> b_Status b' = b_Status b
     \<and> b_Stake b' = b_Stake b \<and> b_PotentialPayout b' = b_PotentialPayout b \<and> b_Currency b' = b_Currency b
     \<and> b_Odds b' = b_Odds b \<and> b_DebitTransactionID b' = b_DebitTransactionID b
     \<and> b_CreditTransactionID b' = b_CreditTransactionID b"

text \<open>What an update leaves of a bet: everything but status, transactions and settlement time.\<close>

definition same_terms :: "bet \<Rightarrow> bet \<Rightarrow> bool" where
  "same_terms b b' \<longleftrightarrow>
     b_ID b' = b_ID b \<and> b_UserID b' = b_UserID b \<and> b_ReferenceID b' = b_ReferenceID b
     \<and> b_Stake b' = b_Stake b \<and> b_PotentialPayout b' = b_PotentialPayout b \<and> b_Currency b' = b_Currency b
     \<and> b_EventID b' = b_EventID b \<and> b_MarketID b' = b_MarketID b \<and> b_OutcomeID b' = b_OutcomeID b
     \<and> b_Odds b' = b_Odds b \<and> b_CreatedAt b' = b_CreatedAt b"

lemma same_terms_refl [simp]: "same_terms b b"
  by (simp add: same_terms_def)

lemma same_terms_trans: "same_terms a b \<Longrightarrow> same_terms b c \<Longrightarrow> same_terms a c"
  by (simp add: same_terms_def)

text \<open>
  \<open>fresh\<close> is what a creation needs of its surroundings: a new identifier where the store does not
  check it.
\<close>

locale bet_store =
  fixes B :: "('e, 's) bet_ops" and bets :: "'s \<Rightarrow> bets" and inv :: "'s \<Rightarrow> bool"
    and fresh :: "'e \<Rightarrow> 's \<Rightarrow> bool"
  assumes bet_id: "inv s \<Longrightarrow> bets s i = Some b \<Longrightarrow> b_ID b = i"
    and unique_ref: "inv s \<Longrightarrow> bets s i = Some b \<Longrightarrow> bets s j = Some b' \<Longrightarrow> b_UserID b = b_UserID b' \<Longrightarrow>
      b_ReferenceID b = b_ReferenceID b' \<Longrightarrow> i = j"
    and create: "inv s \<Longrightarrow> fresh E s \<Longrightarrow> b_ID b = [] \<Longrightarrow> BO_CreateBet B E s b = (s', r1) \<Longrightarrow>
      inv s' \<and> (bets s' = bets s \<and> \<not> is_ok r1
        \<or> (\<exists>i b'. bets s i = None \<and> bets s' = (bets s)(i \<mapsto> b') \<and> created b b' \<and> b_ID b' = i
             \<and> (r1 = Inr i \<or> \<not> is_ok r1)))"
    and get_bet: "inv s \<Longrightarrow> BO_GetBet B E s i = Inr b \<Longrightarrow> bets s (b_ID b) = Some b"
    and by_reference: "inv s \<Longrightarrow> BO_GetBetByReference B E s u ref = Inr b \<Longrightarrow>
      bets s (b_ID b) = Some b \<and> b_UserID b = u \<and> b_ReferenceID b = ref"
    and reference_found: "inv s \<Longrightarrow> bets s i = Some b \<Longrightarrow>
      BO_GetBetByReference B E s (b_UserID b) (b_ReferenceID b) = Inr b
      \<or> (\<exists>e. BO_GetBetByReference B E s (b_UserID b) (b_ReferenceID b) = Inl e \<and> \<not> errors_Is e ErrBetNotFound)"
    and pending: "inv s \<Longrightarrow> BO_ListPendingBets B E s p n = Inr bs \<Longrightarrow> b \<in> set bs \<Longrightarrow>
      bets s (b_ID b) = Some b \<and> b_Status b = StatusPending"
    and update_status: "inv s \<Longrightarrow> bets s i = Some b \<Longrightarrow> BO_UpdateBetStatus B E s i st t = (s', r) \<Longrightarrow>
      inv s' \<and> (bets s' = bets s \<and> \<not> is_ok r
        \<or> (\<exists>b'. bets s' = (bets s)(i \<mapsto> b') \<and> same_terms b b' \<and> b_Status b' = st))"
    and update_debit: "inv s \<Longrightarrow> bets s i = Some b \<Longrightarrow> BO_UpdateBetStatusAndDebitTx B E s i st tx t = (s', r) \<Longrightarrow>
      inv s' \<and> (bets s' = bets s \<and> \<not> is_ok r
        \<or> (\<exists>b'. bets s' = (bets s)(i \<mapsto> b') \<and> same_terms b b' \<and> b_Status b' = st
             \<and> b_DebitTransactionID b' = tx))"
    and update_outcome: "inv s \<Longrightarrow> bets s i = Some b \<Longrightarrow> BO_UpdateBetStatusAndOutcome B E s i st t = (s', r) \<Longrightarrow>
      inv s' \<and> (bets s' = bets s \<and> \<not> is_ok r
        \<or> (\<exists>b'. bets s' = (bets s)(i \<mapsto> b') \<and> same_terms b b' \<and> b_Status b' = st))"
    and set_credit: "inv s \<Longrightarrow> bets s i = Some b \<Longrightarrow> BO_SetCreditTransactionID B E s i tx = (s', r) \<Longrightarrow>
      inv s' \<and> (bets s' = bets s \<and> \<not> is_ok r
        \<or> (\<exists>b'. bets s' = (bets s)(i \<mapsto> b') \<and> same_terms b b' \<and> b_Status b' = b_Status b))"

end
