(* ===== verification/SportsbookMemory.thy ===== *)
theory SportsbookMemory
  imports SportsbookModel "HOL-Library.Multiset"
begin

text \<open>
  The in-memory bet store, \<open>internal/sportsbook/memory_store.go\<close>.  The bets are a Go map; an
  operation that walks it takes the order as the argument \<open>ord\<close>.  The two insertion sorts are
  modelled with their swaps and proved to sort; since the identifiers make the order strict, the
  lists returned do not depend on the order of the map.
\<close>

section \<open>Operations\<close>

type_synonym bet_map = "bet gomap"
type_synonym bet_order = "(string \<times> bet) list \<Rightarrow> (string \<times> bet) list"

record bet_env =
  be_now :: gtime
  be_uuid :: string

definition mb_CreateBet :: "bet_env \<Rightarrow> bet_map \<Rightarrow> bet \<Rightarrow> bet_map \<times> string result" where
  "mb_CreateBet E m b =
     (if list_ex (\<lambda>(k, e). b_UserID e = b_UserID b \<and> b_ReferenceID e = b_ReferenceID b) m
      then (m, Inl ErrBetNotFound)
      else
        let i = (if b_ID b = [] then be_uuid E else b_ID b);
            b = b\<lparr>b_ID := i\<rparr>;
            b = (if IsZero (b_CreatedAt b) then b\<lparr>b_CreatedAt := be_now E\<rparr> else b)
        in (mput i b m, Inr i))"

definition mb_GetBet :: "bet_map \<Rightarrow> string \<Rightarrow> bet result" where
  "mb_GetBet m i = (case mget m i of None \<Rightarrow> Inl ErrBetNotFound | Some b \<Rightarrow> Inr b)"

text \<open>\<open>sortBetsByCreatedDesc\<close> and \<open>sortBetsByCreatedAsc\<close>: the comparison, the inner and the outer loop.\<close>

definition newer :: "bet \<Rightarrow> bet \<Rightarrow> bool" where
  "newer a b \<longleftrightarrow> b_CreatedAt a > b_CreatedAt b \<or> b_CreatedAt a = b_CreatedAt b \<and> b_ID a > b_ID b"

definition older :: "bet \<Rightarrow> bet \<Rightarrow> bool" where
  "older a b \<longleftrightarrow> b_CreatedAt a < b_CreatedAt b \<or> b_CreatedAt a = b_CreatedAt b \<and> b_ID a < b_ID b"

fun sift :: "('a \<Rightarrow> 'a \<Rightarrow> bool) \<Rightarrow> 'a list \<Rightarrow> nat \<Rightarrow> 'a list" where
  "sift lt xs 0 = xs"
| "sift lt xs (Suc j) =
     (if lt (xs ! Suc j) (xs ! j) then sift lt (xs[Suc j := xs ! j, j := xs ! Suc j]) j else xs)"

definition insertion_sort :: "('a \<Rightarrow> 'a \<Rightarrow> bool) \<Rightarrow> 'a list \<Rightarrow> 'a list" where
  "insertion_sort lt xs = fold (\<lambda>i xs. sift lt xs i) [1..<length xs] xs"

definition sortBetsByCreatedDesc :: "bet list \<Rightarrow> bet list" where
  "sortBetsByCreatedDesc = insertion_sort newer"

definition sortBetsByCreatedAsc :: "bet list \<Rightarrow> bet list" where
  "sortBetsByCreatedAsc = insertion_sort older"

text \<open>\<open>xs[start:end]\<close> for a page; an index out of range panics.\<close>

definition page_slice :: "int \<Rightarrow> int \<Rightarrow> 'a list \<Rightarrow> 'a list result" where
  "page_slice page pageSize xs =
     (let page = (if page \<le> 0 then 1 else page);
          pageSize = (if pageSize \<le> 0 then 20 else pageSize);
          n = int (length xs);
          start = wrap64 ((page - 1) * pageSize);
          start = (if start > n then n else start);
          end' = wrap64 (start + pageSize);
          end' = (if end' > n then n else end')
      in if start < 0 \<or> end' < start then Inl (ExtErr ''panic: slice bounds out of range'')
         else Inr (take (nat (end' - start)) (drop (nat start) xs)))"

definition mb_ListBets :: "bet_order \<Rightarrow> bet_map \<Rightarrow> string \<Rightarrow> string \<Rightarrow> int \<Rightarrow> int \<Rightarrow> bet list result" where
  "mb_ListBets ord m userID status page pageSize =
     (let filtered = List.filter (\<lambda>b. b_UserID b = userID \<and> (status = [] \<or> b_Status b = status)) (List.map snd (ord m))
      in page_slice page pageSize (sortBetsByCreatedDesc filtered))"

definition mb_update :: "(bet \<Rightarrow> bet) \<Rightarrow> bet_map \<Rightarrow> string \<Rightarrow> bet_map \<times> unit result" where
  "mb_update f m i = (case mget m i of None \<Rightarrow> (m, Inl ErrBetNotFound) | Some b \<Rightarrow> (mput i (f b) m, Inr ()))"

definition settle_at :: "gtime \<Rightarrow> bet \<Rightarrow> bet" where
  "settle_at settledAt b = (if IsZero settledAt then b else b\<lparr>b_SettledAt := Some settledAt\<rparr>)"

definition mb_UpdateBetStatus :: "bet_map \<Rightarrow> string \<Rightarrow> string \<Rightarrow> gtime \<Rightarrow> bet_map \<times> unit result" where
  "mb_UpdateBetStatus m i status settledAt = mb_update (\<lambda>b. settle_at settledAt (b\<lparr>b_Status := status\<rparr>)) m i"

definition mb_UpdateBetStatusAndDebitTx ::
  "bet_map \<Rightarrow> string \<Rightarrow> string \<Rightarrow> string \<Rightarrow> gtime \<Rightarrow> bet_map \<times> unit result" where
  "mb_UpdateBetStatusAndDebitTx m i status debitTxID settledAt =
     mb_update (\<lambda>b. settle_at settledAt (b\<lparr>b_Status := status, b_DebitTransactionID := debitTxID\<rparr>)) m i"

definition mb_UpdateBetStatusAndOutcome :: "bet_map \<Rightarrow> string \<Rightarrow> string \<Rightarrow> gtime \<Rightarrow> bet_map \<times> unit result" where
  "mb_UpdateBetStatusAndOutcome m i status settledAt =
     mb_update (\<lambda>b. settle_at settledAt (b\<lparr>b_Status := status\<rparr>)) m i"

definition mb_SetCreditTransactionID :: "bet_map \<Rightarrow> string \<Rightarrow> string \<Rightarrow> bet_map \<times> unit result" where
  "mb_SetCreditTransactionID m i creditTxID = mb_update (\<lambda>b. b\<lparr>b_CreditTransactionID := creditTxID\<rparr>) m i"

definition mb_ListPendingBets :: "bet_order \<Rightarrow> bet_map \<Rightarrow> int \<Rightarrow> int \<Rightarrow> bet list result" where
  "mb_ListPendingBets ord m page pageSize =
     page_slice page pageSize
       (sortBetsByCreatedAsc (List.filter (\<lambda>b. b_Status b = StatusPending) (List.map snd (ord m))))"

definition mb_GetBetByReference :: "bet_order \<Rightarrow> bet_map \<Rightarrow> string \<Rightarrow> string \<Rightarrow> bet result" where
  "mb_GetBetByReference ord m userID referenceID =
     (case List.find (\<lambda>b. b_UserID b = userID \<and> b_ReferenceID b = referenceID) (List.map snd (ord m)) of
        Some b \<Rightarrow> Inr b
      | None \<Rightarrow> Inl ErrBetNotFound)"

definition mb_ops :: "bet_order \<Rightarrow> (bet_env, bet_map) bet_ops" where
  "mb_ops ord =
     \<lparr>BO_CreateBet = mb_CreateBet, BO_GetBet = (\<lambda>E. mb_GetBet), BO_ListBets = (\<lambda>E. mb_ListBets ord),
      BO_ListPendingBets = (\<lambda>E. mb_ListPendingBets ord), BO_UpdateBetStatus = (\<lambda>E. mb_UpdateBetStatus),
      BO_UpdateBetStatusAndDebitTx = (\<lambda>E. mb_UpdateBetStatusAndDebitTx),
      BO_UpdateBetStatusAndOutcome = (\<lambda>E. mb_UpdateBetStatusAndOutcome),
      BO_SetCreditTransactionID = (\<lambda>E. mb_SetCreditTransactionID),
      BO_GetBetByReference = (\<lambda>E. mb_GetBetByReference ord)\<rparr>"

section \<open>The insertion sort sorts\<close>

text \<open>
  The comparison of the sorts is a strict order, total on bets with different identifiers.  The
  lemmas hold for any such order.
\<close>

definition strict_on :: "('a \<Rightarrow> 'a \<Rightarrow> bool) \<Rightarrow> 'a set \<Rightarrow> bool" where
  "strict_on lt A \<longleftrightarrow>
     (\<forall>x\<in>A. \<not> lt x x) \<and> (\<forall>x\<in>A. \<forall>y\<in>A. \<forall>z\<in>A. lt x y \<longrightarrow> lt y z \<longrightarrow> lt x z)
     \<and> (\<forall>x\<in>A. \<forall>y\<in>A. x \<noteq> y \<longrightarrow> lt x y \<or> lt y x)"

lemma length_sift [simp]: "length (sift lt xs j) = length xs"
  by (induction lt xs j rule: sift.induct) auto

lemma mset_sift: "j < length xs \<Longrightarrow> mset (sift lt xs j) = mset xs"
proof (induction lt xs j rule: sift.induct)
  case (2 lt xs j)
  then show ?case by (auto simp: mset_swap)
qed simp

lemma sift_insert:
  "j = length ys \<Longrightarrow> sift lt (ys @ x # zs) j
     = rev (dropWhile (lt x) (rev ys)) @ x # rev (takeWhile (lt x) (rev ys)) @ zs"
proof (induction ys arbitrary: j zs rule: rev_induct)
  case (snoc y ys)
  then obtain j' where j: "j = Suc j'" "j' = length ys" by simp
  have ix: "(ys @ y # x # zs) ! Suc (length ys) = x" "(ys @ y # x # zs) ! length ys = y"
    by (simp_all add: nth_append)
  have upd: "(ys @ y # x # zs)[Suc (length ys) := y, length ys := x] = ys @ x # y # zs"
    by (simp add: list_update_append)
  show ?case
  proof (cases "lt x y")
    case True
    then show ?thesis using snoc.IH [of "length ys" "y # zs"] j ix upd by simp
  qed (use j ix in simp)
qed simp

lemma set_takeWhile_dropWhile: "set (takeWhile P xs) \<union> set (dropWhile P xs) = set xs"
  by (simp add: set_append [symmetric] del: set_append)

lemma strict_on_trans: "strict_on lt A \<Longrightarrow> lt x y \<Longrightarrow> lt y z \<Longrightarrow> x \<in> A \<Longrightarrow> y \<in> A \<Longrightarrow> z \<in> A \<Longrightarrow> lt x z"
  unfolding strict_on_def by blast

lemma strict_on_subset: "strict_on lt A \<Longrightarrow> B \<subseteq> A \<Longrightarrow> strict_on lt B"
  unfolding strict_on_def by blast

lemma sorted_insert:
  assumes "sorted_wrt lt ys" and "strict_on lt (insert x (set ys))" and "x \<notin> set ys"
  shows "sorted_wrt lt (rev (dropWhile (lt x) (rev ys)) @ x # rev (takeWhile (lt x) (rev ys)))"
  using assms
proof (induction ys rule: rev_induct)
  case (snoc y ys)
  have IH: "sorted_wrt lt (rev (dropWhile (lt x) (rev ys)) @ x # rev (takeWhile (lt x) (rev ys)))"
  proof (rule snoc.IH)
    show "sorted_wrt lt ys" using snoc.prems(1) by (simp add: sorted_wrt_append)
    show "strict_on lt (insert x (set ys))" by (rule strict_on_subset [OF snoc.prems(2)]) auto
    show "x \<notin> set ys" using snoc.prems(3) by simp
  qed
  have set_ins: "set (rev (dropWhile (lt x) (rev ys)) @ x # rev (takeWhile (lt x) (rev ys))) = insert x (set ys)"
    using set_takeWhile_dropWhile [of "lt x" "rev ys"] by auto
  show ?case
  proof (cases "lt x y")
    case True
    then have "\<forall>z\<in>insert x (set ys). lt z y" using snoc.prems(1) by (simp add: sorted_wrt_append)
    with IH set_ins have "sorted_wrt lt ((rev (dropWhile (lt x) (rev ys)) @ x # rev (takeWhile (lt x) (rev ys))) @ [y])"
      by (simp only: sorted_wrt_append) simp
    with True show ?thesis by simp
  next
    case False
    moreover have "x \<noteq> y" using snoc.prems(3) by auto
    ultimately have "lt y x" using snoc.prems(2) unfolding strict_on_def by simp
    moreover have "lt z x" if "z \<in> set ys" for z
    proof -
      have "lt z y" using that snoc.prems(1) by (simp add: sorted_wrt_append)
      then show ?thesis using that \<open>lt y x\<close> by (intro strict_on_trans [OF snoc.prems(2), of z y x]) auto
    qed
    ultimately show ?thesis using False snoc.prems(1) by (simp add: sorted_wrt_append)
  qed
qed simp

lemma insertion_sort_loop:
  assumes "distinct xs" and "strict_on lt (set xs)" and "1 \<le> n" and "n \<le> length xs"
  shows "\<exists>ys. fold (\<lambda>i xs. sift lt xs i) [1..<n] xs = ys @ drop n xs \<and> sorted_wrt lt ys
    \<and> mset ys = mset (take n xs)"
  using assms(3,4)
proof (induction n rule: nat_induct_at_least)
  case base
  then obtain x zs where "xs = x # zs" by (cases xs) auto
  then show ?case by (intro exI [of _ "[x]"]) simp
next
  case (Suc n)
  then obtain ys where ys: "fold (\<lambda>i xs. sift lt xs i) [1..<n] xs = ys @ drop n xs" "sorted_wrt lt ys"
    "mset ys = mset (take n xs)" by auto
  let ?x = "xs ! n"
  have d: "drop n xs = ?x # drop (Suc n) xs" using Suc.prems by (simp add: Cons_nth_drop_Suc)
  have len: "n = length ys" using arg_cong [OF ys(3), of size] Suc.prems by simp
  have sets: "set ys = set (take n xs)" using ys(3) by (metis set_mset_mset)
  have fresh: "?x \<notin> set ys"
    using assms(1) d sets by (metis append_take_drop_id disjoint_iff distinct_append list.set_intros(1))
  have "insert ?x (set ys) \<subseteq> set xs" using sets Suc.prems by (auto dest: in_set_takeD)
  then have "sorted_wrt lt (rev (dropWhile (lt ?x) (rev ys)) @ ?x # rev (takeWhile (lt ?x) (rev ys)))" (is "sorted_wrt lt ?r")
    using sorted_insert [OF ys(2) strict_on_subset [OF assms(2)] fresh] by blast
  moreover have "mset ?r = mset (take (Suc n) xs)"
  proof -
    have "mset (takeWhile (lt ?x) (rev ys)) + mset (dropWhile (lt ?x) (rev ys)) = mset ys"
      by (metis mset_append mset_rev takeWhile_dropWhile_id)
    then show ?thesis using ys(3) Suc.prems by (simp add: take_Suc_conv_app_nth add.commute)
  qed
  moreover have "fold (\<lambda>i xs. sift lt xs i) [1..<Suc n] xs = ?r @ drop (Suc n) xs"
    using Suc.hyps ys(1) d sift_insert [OF len, of lt ?x] by simp
  ultimately show ?case by blast
qed

lemma insertion_sort_correct:
  assumes "distinct xs" and "strict_on lt (set xs)"
  shows "sorted_wrt lt (insertion_sort lt xs)" and "mset (insertion_sort lt xs) = mset xs"
proof -
  have "sorted_wrt lt (insertion_sort lt xs) \<and> mset (insertion_sort lt xs) = mset xs"
  proof (cases xs)
    case Nil
    then show ?thesis by (simp add: insertion_sort_def)
  next
    case (Cons y ys)
    then show ?thesis
      using insertion_sort_loop [OF assms, of "length xs"] by (auto simp: insertion_sort_def)
  qed
  then show "sorted_wrt lt (insertion_sort lt xs)" "mset (insertion_sort lt xs) = mset xs" by simp_all
qed

lemma sorted_wrt_unique:
  "sorted_wrt lt xs \<Longrightarrow> sorted_wrt lt ys \<Longrightarrow> set xs = set ys \<Longrightarrow> strict_on lt (set xs) \<Longrightarrow> xs = ys"
proof (induction xs arbitrary: ys)
  case (Cons x xs)
  then obtain y ys' where ys: "ys = y # ys'" by (cases ys) auto
  have irr: "\<not> lt z z" if "z \<in> set (x # xs)" for z using Cons.prems(4) that by (auto simp: strict_on_def)
  have "x = y"
  proof (rule ccontr)
    assume "x \<noteq> y"
    then have "x \<in> set ys'" "y \<in> set xs" using Cons.prems(3) ys by auto
    then have "lt y x" "lt x y" using Cons.prems(1,2) ys by auto
    then have "lt x x" using strict_on_trans [OF Cons.prems(4), of x y x] \<open>y \<in> set xs\<close> by simp
    then show False using irr by simp
  qed
  moreover have "x \<notin> set xs" "y \<notin> set ys'" using Cons.prems(1,2) irr ys \<open>x = y\<close> by auto
  ultimately have "set xs = set ys'" using Cons.prems(3) ys by auto
  then show ?case using Cons ys \<open>x = y\<close> strict_on_subset [OF Cons.prems(4), of "set xs"] by auto
qed simp

lemma strict_newer: "inj_on b_ID A \<Longrightarrow> strict_on newer A"
  unfolding strict_on_def newer_def by auto (metis inj_onD linorder_neqE)

lemma strict_older: "inj_on b_ID A \<Longrightarrow> strict_on older A"
  unfolding strict_on_def older_def by auto (metis inj_onD linorder_neqE)

lemma set_insertion_sort: "distinct xs \<Longrightarrow> strict_on lt (set xs) \<Longrightarrow> set (insertion_sort lt xs) = set xs"
  using insertion_sort_correct(2) [of xs lt] by (metis set_mset_mset)

lemma distinct_insertion_sort: "distinct xs \<Longrightarrow> strict_on lt (set xs) \<Longrightarrow> distinct (insertion_sort lt xs)"
  using insertion_sort_correct(2) [of xs lt] by (metis mset_eq_imp_distinct_iff)

section \<open>The invariant of the map\<close>

text \<open>Every bet is stored under its identifier, and a user's reference names one bet.\<close>

definition mb_inv :: "bet_map \<Rightarrow> bool" where
  "mb_inv m \<longleftrightarrow> wf_map m \<and> (\<forall>(i, b)\<in>set m. b_ID b = i)
     \<and> (\<forall>(i, b)\<in>set m. \<forall>(j, b')\<in>set m. b_UserID b = b_UserID b' \<and> b_ReferenceID b = b_ReferenceID b' \<longrightarrow> i = j)"

definition mb_fresh :: "bet_env \<Rightarrow> bet_map \<Rightarrow> bool" where
  "mb_fresh E m \<longleftrightarrow> mget m (be_uuid E) = None"

lemma mb_inv_wf: "mb_inv m \<Longrightarrow> wf_map m"
  by (simp add: mb_inv_def)

lemma mb_inv_iff:
  "mb_inv m \<longleftrightarrow> wf_map m \<and> (\<forall>i b. mget m i = Some b \<longrightarrow> b_ID b = i)
     \<and> (\<forall>i j b b'. mget m i = Some b \<longrightarrow> mget m j = Some b' \<longrightarrow> b_UserID b = b_UserID b' \<longrightarrow>
          b_ReferenceID b = b_ReferenceID b' \<longrightarrow> i = j)"
  by (cases "wf_map m") (auto simp: mb_inv_def)

lemma mb_inv_empty [simp]: "mb_inv []"
  by (simp add: mb_inv_def)

lemma mb_update_spec:
  assumes "mb_inv m" and "mget m i = Some b" and "mb_update f m i = (m', r)" and "same_terms b (f b) \<and> Q (f b)"
  shows "mb_inv m' \<and> (mget m' = mget m \<and> \<not> is_ok r
    \<or> (\<exists>b'. mget m' = (mget m)(i \<mapsto> b') \<and> same_terms b b' \<and> Q b'))"
proof -
  have m': "m' = mput i (f b) m" using assms(2,3) by (auto simp: mb_update_def)
  have eq: "b_ID (f b) = b_ID b" "b_UserID (f b) = b_UserID b" "b_ReferenceID (f b) = b_ReferenceID b"
    using assms(4) by (simp_all add: same_terms_def)
  have "mb_inv m'"
    using assms(1,2) unfolding mb_inv_iff m' by (auto simp: eq split: if_splits)
  moreover have "mget m' = (mget m)(i \<mapsto> f b)" by (simp add: m')
  ultimately show ?thesis using assms(4) by blast
qed

lemma mb_create_spec:
  assumes "mb_inv m" and "mb_fresh E m" and "b_ID b = []" and "mb_CreateBet E m b = (m', r)"
  shows "mb_inv m' \<and> (m' = m \<and> r = Inl ErrBetNotFound
     \<or> (\<exists>b'. r = Inr (be_uuid E) \<and> mget m (be_uuid E) = None \<and> mget m' = (mget m)(be_uuid E \<mapsto> b')
          \<and> created b b' \<and> b_ID b' = be_uuid E))"
proof (cases "list_ex (\<lambda>(k, e). b_UserID e = b_UserID b \<and> b_ReferenceID e = b_ReferenceID b) m")
  case True
  then show ?thesis using assms by (auto simp: mb_CreateBet_def)
next
  case False
  let ?b = "if IsZero (b_CreatedAt b) then b\<lparr>b_ID := be_uuid E, b_CreatedAt := be_now E\<rparr> else b\<lparr>b_ID := be_uuid E\<rparr>"
  have m': "m' = mput (be_uuid E) ?b m" "r = Inr (be_uuid E)"
    using False assms(3,4) by (auto simp: mb_CreateBet_def Let_def split: if_splits)
  have none: "mget m (be_uuid E) = None" using assms(2) by (simp add: mb_fresh_def)
  have new: "\<not> (b_UserID e = b_UserID b \<and> b_ReferenceID e = b_ReferenceID b)" if "mget m j = Some e" for j e
    using False map_of_SomeD [OF that] by (auto simp: list_ex_iff)
  have "mb_inv m'"
    using assms(1) new unfolding mb_inv_iff m' by (auto split: if_splits) metis+
  moreover have "created b ?b" "b_ID ?b = be_uuid E" by (simp_all add: created_def)
  ultimately show ?thesis using m' none by auto
qed

lemma mb_values:
  assumes "mb_inv m" and "permutes_entries ord"
  shows "set (List.map snd (ord m)) = {b. mget m (b_ID b) = Some b}"
    and "inj_on b_ID (set (List.map snd (ord m)))" and "distinct (List.map snd (ord m))"
proof -
  have wf: "wf_map m" using assms(1) by (rule mb_inv_wf)
  have so: "set (ord m) = set m" using permutes_entries_set [OF assms(2) wf_map_distinct [OF wf]] .
  have ids: "\<And>i b. (i, b) \<in> set m \<Longrightarrow> b_ID b = i" using assms(1) by (auto simp: mb_inv_def)
  have inj: "inj_on snd (set m)" using ids by (intro inj_onI) (metis prod.collapse)
  show vals: "set (List.map snd (ord m)) = {b. mget m (b_ID b) = Some b}"
  proof (intro equalityI subsetI)
    fix b
    assume "b \<in> set (List.map snd (ord m))"
    then obtain i where "(i, b) \<in> set m" using so by auto
    then show "b \<in> {b. mget m (b_ID b) = Some b}" using ids wf by auto
  next
    fix b
    assume "b \<in> {b. mget m (b_ID b) = Some b}"
    then have "(b_ID b, b) \<in> set (ord m)" using so by (auto dest: map_of_SomeD)
    then show "b \<in> set (List.map snd (ord m))" by force
  qed
  show "inj_on b_ID (set (List.map snd (ord m)))"
    unfolding vals by (rule inj_onI) auto
  show "distinct (List.map snd (ord m))"
    using permutes_entries_distinct [OF assms(2) wf_map_distinct [OF wf]] inj so by (simp add: distinct_map)
qed

lemma page_slice_subset: "page_slice p n xs = Inr ys \<Longrightarrow> set ys \<subseteq> set xs"
  by (auto simp: page_slice_def Let_def split: if_splits dest!: in_set_takeD in_set_dropD)

lemma settle_at_simps [simp]:
  "same_terms b (settle_at t (b\<lparr>b_Status := st\<rparr>))" "b_Status (settle_at t b) = b_Status b"
  "same_terms b (settle_at t (b\<lparr>b_Status := st, b_DebitTransactionID := tx\<rparr>))"
  "b_DebitTransactionID (settle_at t b) = b_DebitTransactionID b"
  by (simp_all add: settle_at_def same_terms_def)

text \<open>The two lists, whatever the order of the map: sorted, and the bets asked for, each once.\<close>

lemma sorted_list:
  assumes "mb_inv m" and "permutes_entries ord" and "\<And>A. inj_on b_ID A \<Longrightarrow> strict_on lt A"
  shows "sorted_wrt lt (insertion_sort lt (List.filter P (List.map snd (ord m))))"
    and "set (insertion_sort lt (List.filter P (List.map snd (ord m)))) = {b. mget m (b_ID b) = Some b \<and> P b}"
    and "distinct (insertion_sort lt (List.filter P (List.map snd (ord m))))"
    and "inj_on b_ID {b. mget m (b_ID b) = Some b \<and> P b}"
proof -
  let ?xs = "List.filter P (List.map snd (ord m))"
  note v = mb_values [OF assms(1,2)]
  have d: "distinct ?xs" using v(3) by simp
  have inj: "inj_on b_ID (set ?xs)" by (rule inj_on_subset [OF v(2)]) auto
  show "sorted_wrt lt (insertion_sort lt ?xs)" "distinct (insertion_sort lt ?xs)"
    using insertion_sort_correct(1) distinct_insertion_sort d assms(3) [OF inj] by blast+
  show "set (insertion_sort lt ?xs) = {b. mget m (b_ID b) = Some b \<and> P b}"
    using set_insertion_sort [OF d assms(3) [OF inj]] v(1) by auto
  show "inj_on b_ID {b. mget m (b_ID b) = Some b \<and> P b}"
    by (rule inj_onI) auto
qed

lemma sorted_list_unique:
  assumes "mb_inv m" and "permutes_entries ord" and "permutes_entries ord'"
    and "\<And>A. inj_on b_ID A \<Longrightarrow> strict_on lt A"
  shows "insertion_sort lt (List.filter P (List.map snd (ord m))) = insertion_sort lt (List.filter P (List.map snd (ord' m)))"
  using sorted_list [OF assms(1,2,4), of P] sorted_list [OF assms(1,3,4), of P] assms(4)
  by (intro sorted_wrt_unique) auto

lemma mb_pending_spec:
  "mb_inv m \<Longrightarrow> permutes_entries ord \<Longrightarrow> mb_ListPendingBets ord m p n = Inr bs \<Longrightarrow> b \<in> set bs \<Longrightarrow>
    mget m (b_ID b) = Some b \<and> b_Status b = StatusPending"
  using sorted_list(2) [OF _ _ strict_older, of m ord "\<lambda>b. b_Status b = StatusPending"]
  by (auto simp: mb_ListPendingBets_def sortBetsByCreatedAsc_def dest!: page_slice_subset)

lemma mb_by_reference_spec:
  assumes "mb_inv m" and "permutes_entries ord" and "mb_GetBetByReference ord m u ref = Inr b"
  shows "mget m (b_ID b) = Some b" and "b_UserID b = u" and "b_ReferenceID b = ref"
proof -
  have f: "List.find (\<lambda>b. b_UserID b = u \<and> b_ReferenceID b = ref) (List.map snd (ord m)) = Some b"
    using assms(3) by (auto simp: mb_GetBetByReference_def split: option.splits)
  then have "b \<in> set (List.map snd (ord m))" "b_UserID b = u \<and> b_ReferenceID b = ref"
    by (auto simp: find_Some_iff)
  then show "mget m (b_ID b) = Some b" "b_UserID b = u" "b_ReferenceID b = ref"
    using mb_values(1) [OF assms(1,2)] by auto
qed

lemma mb_reference_found:
  assumes "mb_inv m" and "permutes_entries ord" and "mget m i = Some b"
  shows "mb_GetBetByReference ord m (b_UserID b) (b_ReferenceID b) = Inr b"
proof -
  have "b_ID b = i" using assms(1,3) by (simp add: mb_inv_iff)
  then have b: "b \<in> set (List.map snd (ord m))" using mb_values(1) [OF assms(1,2)] assms(3) by simp
  then obtain b' where b': "List.find (\<lambda>x. b_UserID x = b_UserID b \<and> b_ReferenceID x = b_ReferenceID b) (List.map snd (ord m)) = Some b'"
    by (cases "List.find (\<lambda>x. b_UserID x = b_UserID b \<and> b_ReferenceID x = b_ReferenceID b) (List.map snd (ord m))")
      (auto simp: find_None_iff)
  then have r: "mb_GetBetByReference ord m (b_UserID b) (b_ReferenceID b) = Inr b'"
    by (simp add: mb_GetBetByReference_def)
  note b'_spec = mb_by_reference_spec [OF assms(1,2) r]
  have "b_ID b' = i" using assms(1,3) b'_spec unfolding mb_inv_iff by metis
  then show ?thesis using r b'_spec(1) assms(3) by simp
qed

lemma mb_bet_store:
  assumes "permutes_entries ord"
  shows "bet_store (mb_ops ord) mget mb_inv mb_fresh"
proof (unfold_locales, goal_cases)
  case (1 s i b)
  then show ?case by (simp add: mb_inv_iff)
next
  case (2 s i b j b')
  then show ?case unfolding mb_inv_iff by blast
next
  case (3 s E b s' r1)
  then show ?case using mb_create_spec [of s E b s' r1] by (auto simp: mb_ops_def)
next
  case (4 s E i b)
  then show ?case by (auto simp: mb_ops_def mb_GetBet_def mb_inv_iff split: option.splits)
next
  case (5 s E u ref b)
  then show ?case using mb_by_reference_spec [OF _ assms] by (simp add: mb_ops_def)
next
  case (6 s i b E)
  then show ?case using mb_reference_found [OF 6(1) assms 6(2)] by (simp add: mb_ops_def)
next
  case (7 s E p n bs b)
  then show ?case using mb_pending_spec [OF _ assms] by (simp add: mb_ops_def)
next
  case (8 s i b E st t s' r)
  then show ?case
    by (intro mb_update_spec [where Q = "\<lambda>b'. b_Status b' = st"]) (auto simp: mb_ops_def mb_UpdateBetStatus_def same_terms_def settle_at_def)
next
  case (9 s i b E st tx t s' r)
  then show ?case
    by (intro mb_update_spec [where Q = "\<lambda>b'. b_Status b' = st \<and> b_DebitTransactionID b' = tx"]) (auto simp: mb_ops_def mb_UpdateBetStatusAndDebitTx_def same_terms_def settle_at_def)
next
  case (10 s i b E st t s' r)
  then show ?case
    by (intro mb_update_spec [where Q = "\<lambda>b'. b_Status b' = st"]) (auto simp: mb_ops_def mb_UpdateBetStatusAndOutcome_def same_terms_def settle_at_def)
next
  case (11 s i b E tx s' r)
  then show ?case
    by (intro mb_update_spec [where f = "\<lambda>b. b\<lparr>b_CreditTransactionID := tx\<rparr>" and Q = "\<lambda>b'. b_Status b' = b_Status b"]) (auto simp: mb_ops_def mb_SetCreditTransactionID_def same_terms_def settle_at_def)
qed

text \<open>The store with the entries walked in the order of their insertion.\<close>

interpretation mb: bet_store "mb_ops (\<lambda>m. m)" mget mb_inv mb_fresh
  by (rule mb_bet_store) simp

section \<open>Properties\<close>

lemma page_slice_page:
  assumes "1 \<le> p" and "1 \<le> n" and "p * n < 2 ^ 62"
  shows "page_slice p n xs = Inr (take (nat n) (drop (nat ((p - 1) * n)) xs))"
proof -
  define q where "q = (p - 1) * n"
  have pn: "0 \<le> q" "q + n < 2 ^ 62"
    using wrap64_page [OF assms] by (simp_all add: q_def)
  define len where "len = int (length xs)"
  have len: "nat len = length xs" "0 \<le> len" by (simp_all add: len_def)
  have w1: "wrap64 (q) = q"
    using pn assms(2) by (intro wrap64_id) auto
  show ?thesis
  proof (cases "q > len")
    case True
    have w: "wrap64 (len + n) = len + n" using pn len assms(2) True by (intro wrap64_id) auto
    have "length xs \<le> nat (q)" using True len by linarith
    with True show ?thesis using assms(1,2) len by (simp add: page_slice_def Let_def w1 w q_def [symmetric] len_def [symmetric])
  next
    case False
    have w: "wrap64 (q + n) = q + n" using pn assms(2) by (intro wrap64_id) simp_all
    show ?thesis
    proof (cases "q + n > len")
      case True
      have "nat (len - q) = length xs - nat (q)"
        using pn(1) len by (simp add: nat_diff_distrib)
      moreover have "length xs - nat (q) \<le> nat n" using True len by linarith
      ultimately show ?thesis using True False assms(1,2) pn(1) len
        by (simp add: page_slice_def Let_def w1 w q_def [symmetric] len_def [symmetric])
    next
      case False
      with \<open>\<not> q > len\<close> show ?thesis using assms(1,2) pn(1) len
        by (simp add: page_slice_def Let_def w1 w q_def [symmetric] len_def [symmetric])
    qed
  qed
qed

text \<open>
  What the lists of the in-memory store return does not depend on the order in which Go walks
  the map of bets, which changes from call to call.
\<close>
theorem mb_lists_deterministic:
  assumes "mb_inv m" and "permutes_entries ord" and "permutes_entries ord'"
  shows "mb_ListBets ord m userID status page pageSize = mb_ListBets ord' m userID status page pageSize
    \<and> mb_ListPendingBets ord m page pageSize = mb_ListPendingBets ord' m page pageSize"
  using sorted_list_unique [OF assms strict_newer] sorted_list_unique [OF assms strict_older]
  by (simp add: mb_ListBets_def mb_ListPendingBets_def sortBetsByCreatedDesc_def sortBetsByCreatedAsc_def)

text \<open>
  The pending list of the in-memory store is one list of exactly the pending bets, each once,
  oldest first, and page \<open>p\<close> of size \<open>n\<close> is its \<open>p\<close>-th block of \<open>n\<close> bets.
\<close>
theorem mb_pending_pages:
  assumes "mb_inv m" and "permutes_entries ord"
  shows "\<exists>L. sorted_wrt older L \<and> distinct L \<and> set L = {b. mget m (b_ID b) = Some b \<and> b_Status b = StatusPending}
    \<and> (\<forall>p n. 1 \<le> p \<and> 1 \<le> n \<and> p * n < 2 ^ 62 \<longrightarrow>
          mb_ListPendingBets ord m p n = Inr (take (nat n) (drop (nat ((p - 1) * n)) L)))"
proof -
  note L = sorted_list [OF assms strict_older, where P = "\<lambda>b. b_Status b = StatusPending"]
  have "mb_ListPendingBets ord m p n = Inr (take (nat n) (drop (nat ((p - 1) * n))
      (insertion_sort older (List.filter (\<lambda>b. b_Status b = StatusPending) (List.map snd (ord m))))))"
    if "1 \<le> p \<and> 1 \<le> n \<and> p * n < 2 ^ 62" for p n
    using page_slice_page [of p n] that by (simp add: mb_ListPendingBets_def sortBetsByCreatedAsc_def)
  with L(1,2,3) show ?thesis by blast
qed

definition example_bet :: "string \<Rightarrow> gtime \<Rightarrow> string \<Rightarrow> bet" where
  "example_bet ref t status =
     \<lparr>b_ID = [], b_UserID = ''u'', b_EventID = ''e1'', b_MarketID = ''m1'', b_OutcomeID = ''o1'', b_Odds = ''1.5'',
      b_Stake = ''4'', b_PotentialPayout = ''6.0'', b_Currency = ''EUR'', b_Status = status, b_ReferenceID = ref,
      b_DebitTransactionID = ''t'', b_CreditTransactionID = [], b_CreatedAt = t, b_SettledAt = None\<rparr>"

definition example_bets :: bet_map where
  "example_bets =
     (let m = fst (mb_CreateBet \<lparr>be_now = 3, be_uuid = ''b1''\<rparr> [] (example_bet ''r1'' 0 StatusPending));
          m = fst (mb_CreateBet \<lparr>be_now = 9, be_uuid = ''b2''\<rparr> m (example_bet ''r2'' 2 StatusPending));
          m = fst (mb_CreateBet \<lparr>be_now = 9, be_uuid = ''b3''\<rparr> m (example_bet ''r2'' 2 StatusPending))
      in fst (mb_CreateBet \<lparr>be_now = 9, be_uuid = ''b4''\<rparr> m (example_bet ''r4'' 3 StatusPending)))"

lemma example_bets_inv: "mb_inv example_bets"
  by code_simp

theorem mb_lists_deterministic_witness:
  "mb_ListBets rev example_bets ''u'' [] 1 2 = mb_ListBets (\<lambda>m. m) example_bets ''u'' [] 1 2
   \<and> mb_ListPendingBets rev example_bets 1 2 = mb_ListPendingBets (\<lambda>m. m) example_bets 1 2
   \<and> map_sum (\<lambda>e. ()) (List.map b_ID) (mb_ListPendingBets rev example_bets 1 2) = Inr [''b2'', ''b1'']
   \<and> map_sum (\<lambda>e. ()) (List.map b_ID) (mb_ListPendingBets rev example_bets 2 2) = Inr [''b4'']"
proof -
  have "map_sum (\<lambda>e. ()) (List.map b_ID) (mb_ListPendingBets rev example_bets 1 2) = Inr [''b2'', ''b1'']"
    by code_simp
  moreover have "map_sum (\<lambda>e. ()) (List.map b_ID) (mb_ListPendingBets rev example_bets 2 2) = Inr [''b4'']"
    by code_simp
  ultimately show ?thesis
    using mb_lists_deterministic [OF example_bets_inv permutes_entries_rev permutes_entries_id] by blast
qed

theorem mb_pending_pages_witness:
  "\<exists>L. sorted_wrt older L \<and> set L = {b. mget example_bets (b_ID b) = Some b \<and> b_Status b = StatusPending}
    \<and> mb_ListPendingBets rev example_bets 2 2 = Inr (take 2 (drop 2 L))"
  using mb_pending_pages [OF example_bets_inv permutes_entries_rev] by fastforce

end
