(* ===== verification/SportsbookPG.thy ===== *)
theory SportsbookPG
  imports SportsbookModel WalletPG
begin

text \<open>
  The Postgres bet store, \<open>internal/sportsbook/pgstore.go\<close>.  A state is the rows of the table
  \<open>bets\<close>; every operation is one statement that commits by itself, may fail from outside, and may
  have been applied although it failed (\<open>pg_auto\<close>).  The constraints of the migrations that an
  operation can meet are the primary key, \<open>UNIQUE (user_id, reference_id)\<close>, the type \<open>uuid\<close>
  of four columns and the check on the status.
\<close>

section \<open>The table\<close>

type_synonym bet_rows = "bet list"

text \<open>
  What the server does with parameters: \<open>bl_uuid\<close> reads a \<open>uuid\<close> (\<open>None\<close>: invalid text) in its
  canonical form, \<open>bl_time\<close> stores an instant in a \<open>timestamptz\<close>.
\<close>

record bet_lib =
  bl_uuid :: "string \<Rightarrow> string option"
  bl_time :: "gtime \<Rightarrow> gtime"

definition ErrUniqueViolation :: go_error where
  "ErrUniqueViolation = ExtErr ''duplicate key value violates unique constraint (SQLSTATE 23505)''"

definition ErrInvalidUUID :: go_error where
  "ErrInvalidUUID = ExtErr ''invalid input syntax for type uuid''"

definition status_allowed :: "string \<Rightarrow> bool" where
  "status_allowed st \<longleftrightarrow>
     List.member [StatusDebitPending, StatusPending, StatusWon, StatusLost, StatusCancelled, ''settled''] st"

definition ErrStatusCheck :: go_error where
  "ErrStatusCheck = ExtErr ''violates check constraint bets_status_check''"

definition isUniqueViolation :: "go_error \<Rightarrow> bool" where
  "isUniqueViolation err \<longleftrightarrow> errors_Is err ErrUniqueViolation"

section \<open>Statements\<close>

definition ins_bet :: "bet_lib \<Rightarrow> bet \<Rightarrow> bet_rows \<Rightarrow> (bet_rows \<times> string) result" where
  "ins_bet N b db =
     (case (bl_uuid N (b_ID b), bl_uuid N (b_EventID b), bl_uuid N (b_MarketID b), bl_uuid N (b_OutcomeID b)) of
        (Some i, Some e, Some m, Some out) \<Rightarrow>
          if \<not> status_allowed (b_Status b) then Inl ErrStatusCheck
          else if i \<in> set (List.map b_ID db)
             \<or> (b_UserID b, b_ReferenceID b) \<in> set (List.map (\<lambda>x. (b_UserID x, b_ReferenceID x)) db)
          then Inl ErrUniqueViolation
          else Inr (db @ [b\<lparr>b_ID := i, b_EventID := e, b_MarketID := m, b_OutcomeID := out,
                             b_CreatedAt := bl_time N (b_CreatedAt b), b_SettledAt := None\<rparr>], i)
      | _ \<Rightarrow> Inl ErrInvalidUUID)"

definition sel_bet :: "bet_lib \<Rightarrow> string \<Rightarrow> bet_rows \<Rightarrow> (bet_rows \<times> bet option) result" where
  "sel_bet N i db =
     (case bl_uuid N i of None \<Rightarrow> Inl ErrInvalidUUID | Some u \<Rightarrow> Inr (db, List.find (\<lambda>b. b_ID b = u) db))"

definition sel_bet_by_ref :: "string \<Rightarrow> string \<Rightarrow> bet_rows \<Rightarrow> (bet_rows \<times> bet option) result" where
  "sel_bet_by_ref userID ref db =
     Inr (db, List.find (\<lambda>b. (b_UserID b, b_ReferenceID b) = (userID, ref)) db)"

text \<open>\<open>UPDATE bets SET ... WHERE id RETURNING id\<close>; \<open>status\<close> is the new value of the checked column.\<close>

definition upd_bet :: "bet_lib \<Rightarrow> string \<Rightarrow> string option \<Rightarrow> (bet \<Rightarrow> bet) \<Rightarrow> bet_rows \<Rightarrow> (bet_rows \<times> string option) result" where
  "upd_bet N i status f db =
     (case bl_uuid N i of
        None \<Rightarrow> Inl ErrInvalidUUID
      | Some u \<Rightarrow>
          (case List.find (\<lambda>b. b_ID b = u) db of
             None \<Rightarrow> Inr (db, None)
           | Some b \<Rightarrow>
               if (case status of None \<Rightarrow> False | Some st \<Rightarrow> \<not> status_allowed st) then Inl ErrStatusCheck
               else Inr (List.map (\<lambda>b. if b_ID b = u then f b else b) db, Some u)))"

section \<open>Operations\<close>

definition pb_CreateBet :: "bet_lib \<Rightarrow> pg_env \<Rightarrow> bet_rows \<Rightarrow> bet \<Rightarrow> bet_rows \<times> string result" where
  "pb_CreateBet N E db b =
     (let b = (if b_ID b = [] then b\<lparr>b_ID := e_uuid E 0\<rparr> else b);
          b = (if IsZero (b_CreatedAt b) then b\<lparr>b_CreatedAt := e_now E\<rparr> else b)
      in case pg_auto E (ins_bet N b) db of
           (db', Inl err) \<Rightarrow>
             if isUniqueViolation err then (db', Inl (WrapErr ''create bet: '' ErrBetNotFound))
             else (db', Inl (WrapErr ''create bet: '' err))
         | (db', Inr i) \<Rightarrow> (db', Inr i))"

definition pb_scan_one :: "string \<Rightarrow> 'a option result \<Rightarrow> 'a result" where
  "pb_scan_one prefix r =
     (case r of
        Inl err \<Rightarrow> Inl (WrapErr prefix err)
      | Inr None \<Rightarrow> Inl ErrBetNotFound
      | Inr (Some x) \<Rightarrow> Inr x)"

definition pb_GetBet :: "bet_lib \<Rightarrow> pg_env \<Rightarrow> bet_rows \<Rightarrow> string \<Rightarrow> bet result" where
  "pb_GetBet N E db i = pb_scan_one ''get bet: '' (snd (pg_auto E (sel_bet N i) db))"

definition pb_GetBetByReference :: "pg_env \<Rightarrow> bet_rows \<Rightarrow> string \<Rightarrow> string \<Rightarrow> bet result" where
  "pb_GetBetByReference E db userID referenceID =
     pb_scan_one ''get bet by reference: '' (snd (pg_auto E (sel_bet_by_ref userID referenceID) db))"

text \<open>The rows come in an order the server chooses among equal instants: \<open>ord\<close> permutes them before the stable sort.\<close>

definition pb_list ::
  "(bet_rows \<Rightarrow> bet_rows) \<Rightarrow> string \<Rightarrow> (bet \<Rightarrow> int) \<Rightarrow> (bet \<Rightarrow> bool) \<Rightarrow> pg_env \<Rightarrow> bet_rows \<Rightarrow> int \<Rightarrow> int \<Rightarrow> bet list result" where
  "pb_list ord prefix key P E db page pageSize =
     (case pg_page page pageSize of (limit, offset) \<Rightarrow>
        (case snd (pg_auto E (\<lambda>db. case limit_offset limit offset (sort_key key (ord (List.filter P db))) of
                      Inl e \<Rightarrow> Inl e | Inr rows \<Rightarrow> Inr (db, rows)) db) of
           Inl err \<Rightarrow> Inl (WrapErr prefix err)
         | Inr rows \<Rightarrow> Inr rows))"

definition pb_ListBets ::
  "(bet_rows \<Rightarrow> bet_rows) \<Rightarrow> pg_env \<Rightarrow> bet_rows \<Rightarrow> string \<Rightarrow> string \<Rightarrow> int \<Rightarrow> int \<Rightarrow> bet list result" where
  "pb_ListBets ord E db userID status page pageSize =
     pb_list ord ''list bets: '' (\<lambda>b. - b_CreatedAt b)
       (if status \<noteq> [] then (\<lambda>b. b_UserID b = userID \<and> b_Status b = status) else (\<lambda>b. b_UserID b = userID))
       E db page pageSize"

definition pb_ListPendingBets :: "(bet_rows \<Rightarrow> bet_rows) \<Rightarrow> pg_env \<Rightarrow> bet_rows \<Rightarrow> int \<Rightarrow> int \<Rightarrow> bet list result" where
  "pb_ListPendingBets ord E db page pageSize =
     pb_list ord ''list pending bets: '' b_CreatedAt (\<lambda>b. b_Status b = StatusPending) E db page pageSize"

definition pb_update ::
  "string \<Rightarrow> bet_lib \<Rightarrow> pg_env \<Rightarrow> bet_rows \<Rightarrow> string \<Rightarrow> string option \<Rightarrow> (bet \<Rightarrow> bet) \<Rightarrow> bet_rows \<times> unit result" where
  "pb_update prefix N E db i status f =
     (case pg_auto E (upd_bet N i status f) db of
        (db', Inl err) \<Rightarrow> (db', Inl (WrapErr prefix err))
      | (db', Inr None) \<Rightarrow> (db', Inl ErrBetNotFound)
      | (db', Inr (Some u)) \<Rightarrow> (db', Inr ()))"

definition pb_settle_at :: "bet_lib \<Rightarrow> gtime \<Rightarrow> bet \<Rightarrow> bet" where
  "pb_settle_at N settledAt b = (if IsZero settledAt then b else b\<lparr>b_SettledAt := Some (bl_time N settledAt)\<rparr>)"

definition pb_UpdateBetStatus ::
  "bet_lib \<Rightarrow> pg_env \<Rightarrow> bet_rows \<Rightarrow> string \<Rightarrow> string \<Rightarrow> gtime \<Rightarrow> bet_rows \<times> unit result" where
  "pb_UpdateBetStatus N E db i status settledAt =
     pb_update ''update bet status: '' N E db i (Some status)
       (\<lambda>b. pb_settle_at N settledAt (b\<lparr>b_Status := status\<rparr>))"

definition pb_UpdateBetStatusAndDebitTx ::
  "bet_lib \<Rightarrow> pg_env \<Rightarrow> bet_rows \<Rightarrow> string \<Rightarrow> string \<Rightarrow> string \<Rightarrow> gtime \<Rightarrow> bet_rows \<times> unit result" where
  "pb_UpdateBetStatusAndDebitTx N E db i status debitTxID settledAt =
     pb_update ''update bet status and debit tx: '' N E db i (Some status)
       (\<lambda>b. pb_settle_at N settledAt (b\<lparr>b_Status := status, b_DebitTransactionID := debitTxID\<rparr>))"

definition pb_UpdateBetStatusAndOutcome ::
  "bet_lib \<Rightarrow> pg_env \<Rightarrow> bet_rows \<Rightarrow> string \<Rightarrow> string \<Rightarrow> gtime \<Rightarrow> bet_rows \<times> unit result" where
  "pb_UpdateBetStatusAndOutcome N E db i status settledAt =
     pb_update ''update bet status and outcome: '' N E db i (Some status)
       (\<lambda>b. pb_settle_at N settledAt (b\<lparr>b_Status := status\<rparr>))"

definition pb_SetCreditTransactionID ::
  "bet_lib \<Rightarrow> pg_env \<Rightarrow> bet_rows \<Rightarrow> string \<Rightarrow> string \<Rightarrow> bet_rows \<times> unit result" where
  "pb_SetCreditTransactionID N E db i creditTxID =
     pb_update ''set credit transaction id: '' N E db i None (\<lambda>b. b\<lparr>b_CreditTransactionID := creditTxID\<rparr>)"

definition pb_ops :: "bet_lib \<Rightarrow> (bet_rows \<Rightarrow> bet_rows) \<Rightarrow> (pg_env, bet_rows) bet_ops" where
  "pb_ops N ord =
     \<lparr>BO_CreateBet = pb_CreateBet N, BO_GetBet = pb_GetBet N, BO_ListBets = pb_ListBets ord,
      BO_ListPendingBets = pb_ListPendingBets ord, BO_UpdateBetStatus = pb_UpdateBetStatus N,
      BO_UpdateBetStatusAndDebitTx = pb_UpdateBetStatusAndDebitTx N,
      BO_UpdateBetStatusAndOutcome = pb_UpdateBetStatusAndOutcome N,
      BO_SetCreditTransactionID = pb_SetCreditTransactionID N, BO_GetBetByReference = pb_GetBetByReference\<rparr>"

section \<open>The table implements the contract\<close>

definition pb_bets :: "bet_rows \<Rightarrow> bets" where
  "pb_bets db i = List.find (\<lambda>b. b_ID b = i) db"

definition pb_inv :: "bet_lib \<Rightarrow> bet_rows \<Rightarrow> bool" where
  "pb_inv N db \<longleftrightarrow> distinct (List.map b_ID db) \<and> distinct (List.map (\<lambda>b. (b_UserID b, b_ReferenceID b)) db)
     \<and> (\<forall>b\<in>set db. bl_uuid N (b_ID b) = Some (b_ID b))"

lemma pb_inv_empty [simp]: "pb_inv N []"
  by (simp add: pb_inv_def)

lemma pb_bets_empty [simp]: "pb_bets [] = (\<lambda>_. None)"
  by (simp add: pb_bets_def fun_eq_iff)

text \<open>The text the server gives back for a \<open>uuid\<close> is canonical.\<close>

locale uuid_server =
  fixes N :: bet_lib
  assumes canonical: "bl_uuid N i = Some u \<Longrightarrow> bl_uuid N u = Some u"

lemma pb_bets_iff: "pb_inv N db \<Longrightarrow> pb_bets db i = Some b \<longleftrightarrow> b \<in> set db \<and> b_ID b = i"
  by (simp add: pb_bets_def pb_inv_def find_key_iff)

lemma pb_bets_None: "pb_bets db i = None \<longleftrightarrow> i \<notin> b_ID ` set db"
  by (simp add: pb_bets_def find_key_None)

lemma ins_bet_Inr:
  assumes "ins_bet N b db = Inr (db', i)"
  shows "\<exists>b'. db' = db @ [b'] \<and> b_ID b' = i \<and> bl_uuid N (b_ID b) = Some i \<and> created b b'
    \<and> i \<notin> b_ID ` set db \<and> (b_UserID b', b_ReferenceID b') \<notin> (\<lambda>x. (b_UserID x, b_ReferenceID x)) ` set db"
  using assms by (auto simp: ins_bet_def created_def split: option.splits if_splits)

lemma pb_bets_append:
  "b_ID b' \<notin> b_ID ` set db \<Longrightarrow> pb_bets (db @ [b']) = (pb_bets db)(b_ID b' \<mapsto> b')"
proof (rule ext)
  fix i
  assume new: "b_ID b' \<notin> b_ID ` set db"
  then have n: "List.find (\<lambda>b. b_ID b = b_ID b') db = None" by (simp add: find_key_None)
  show "pb_bets (db @ [b']) i = ((pb_bets db)(b_ID b' \<mapsto> b')) i"
    using n by (cases "i = b_ID b'") (simp_all add: pb_bets_def split: option.splits)
qed

context uuid_server
begin

lemma ins_bet_spec:
  assumes "pb_inv N db" and "ins_bet N b db = Inr (db', i)"
  shows "pb_inv N db' \<and> (\<exists>b'. pb_bets db i = None \<and> pb_bets db' = (pb_bets db)(i \<mapsto> b') \<and> created b b' \<and> b_ID b' = i)"
proof -
  obtain b' where b': "db' = db @ [b']" "b_ID b' = i" "bl_uuid N (b_ID b) = Some i" "created b b'"
    "i \<notin> b_ID ` set db" "(b_UserID b', b_ReferenceID b') \<notin> (\<lambda>x. (b_UserID x, b_ReferenceID x)) ` set db"
    using ins_bet_Inr [OF assms(2)] by blast
  have "pb_inv N db'"
    using assms(1) b' canonical [OF b'(3)] by (auto simp: pb_inv_def)
  moreover have "pb_bets db' = (pb_bets db)(i \<mapsto> b')"
    using pb_bets_append [of b' db] b' by simp
  ultimately show ?thesis using b' by (auto simp: pb_bets_None)
qed

lemma upd_bet_spec:
  assumes "pb_inv N db" and "pb_bets db i = Some b" and "upd_bet N i st f db = Inr (db', x)" and "same_terms b (f b)"
  shows "pb_inv N db' \<and> pb_bets db' = (pb_bets db)(i \<mapsto> f b) \<and> x = Some i"
proof -
  have b: "b \<in> set db" "b_ID b = i" using assms(1,2) by (simp_all add: pb_bets_iff)
  then have u: "bl_uuid N i = Some i" using assms(1) by (auto simp: pb_inv_def)
  have f: "List.find (\<lambda>b. b_ID b = i) db = Some b" using assms(2) by (simp add: pb_bets_def)
  let ?m = "\<lambda>y. if b_ID y = i then f y else y"
  have db': "db' = List.map ?m db" "x = Some i"
    using assms(3) u f by (auto simp: upd_bet_def split: if_splits option.splits)
  have dist: "distinct (List.map b_ID db)" using assms(1) by (simp add: pb_inv_def)
  have hit: "y \<in> set db \<Longrightarrow> b_ID y = i \<longleftrightarrow> y = b" for y
    using distinct_key_eq [OF dist b(1)] b(2) by simp
  have same: "b_ID (f b) = b_ID b" "b_UserID (f b) = b_UserID b" "b_ReferenceID (f b) = b_ReferenceID b"
    using assms(4) by (simp_all add: same_terms_def)
  have keys: "List.map b_ID db' = List.map b_ID db"
    "List.map (\<lambda>b. (b_UserID b, b_ReferenceID b)) db' = List.map (\<lambda>b. (b_UserID b, b_ReferenceID b)) db"
    unfolding db' using hit same by (auto simp: map_key_update)
  moreover have "\<forall>y\<in>set db'. bl_uuid N (b_ID y) = Some (b_ID y)"
    using assms(1) hit same unfolding db' pb_inv_def by auto
  ultimately have "pb_inv N db'" using assms(1) unfolding pb_inv_def by metis
  moreover have "pb_bets db' = (pb_bets db)(i \<mapsto> f b)"
    unfolding db' pb_bets_def
  proof (rule ext)
    fix k
    have "List.find (\<lambda>b. b_ID b = k) (List.map ?m db) = (if k = b_ID b then Some (f b) else List.find (\<lambda>b. b_ID b = k) db)"
      using hit same(1) by (intro find_key_update [OF dist b(1)]) auto
    then show "List.find (\<lambda>b. b_ID b = k) (List.map ?m db) = ((\<lambda>i. List.find (\<lambda>b. b_ID b = i) db)(i \<mapsto> f b)) k"
      using b(2) by simp
  qed
  ultimately show ?thesis using db' by simp
qed

lemma pb_update_spec:
  assumes "pb_inv N db" and "pb_bets db i = Some b" and "pb_update prefix N E db i st f = (db', r)"
    and "same_terms b (f b) \<and> Q (f b)"
  shows "pb_inv N db' \<and> (pb_bets db' = pb_bets db \<and> \<not> is_ok r
    \<or> (\<exists>b'. pb_bets db' = (pb_bets db)(i \<mapsto> b') \<and> same_terms b b' \<and> Q b'))"
proof -
  obtain r0 where a: "pg_auto E (upd_bet N i st f) db = (db', r0)" "\<not> is_ok r0 \<Longrightarrow> \<not> is_ok r"
    using assms(3) by (auto simp: pb_update_def split: prod.splits sum.splits option.splits)
  have upd: "pb_inv N db' \<and> pb_bets db' = (pb_bets db)(i \<mapsto> f b)" if "upd_bet N i st f db = Inr (db', x)" for x
    using upd_bet_spec [OF assms(1,2) that] assms(4) by blast
  from a(1) show ?thesis
  proof (cases rule: pg_auto_cases)
    case (ok x)
    then show ?thesis using upd assms(4) by blast
  next
    case (lost x)
    then show ?thesis using upd assms(4) by blast
  next
    case nothing
    then show ?thesis using assms(1) a(2) by simp
  qed
qed

lemma pb_create_spec:
  assumes "pb_inv N db" and "b_ID b = []" and "pb_CreateBet N E db b = (db', r)"
  shows "pb_inv N db' \<and> (pb_bets db' = pb_bets db \<and> \<not> is_ok r
     \<or> (\<exists>i b'. pb_bets db i = None \<and> pb_bets db' = (pb_bets db)(i \<mapsto> b') \<and> created b b' \<and> b_ID b' = i
          \<and> (r = Inr i \<or> \<not> is_ok r)))"
proof -
  let ?b = "if IsZero (b_CreatedAt b) then b\<lparr>b_ID := e_uuid E 0, b_CreatedAt := e_now E\<rparr> else b\<lparr>b_ID := e_uuid E 0\<rparr>"
  have cr: "created ?b b' \<longleftrightarrow> created b b'" for b' by (simp add: created_def)
  obtain r0 where a: "pg_auto E (ins_bet N ?b) db = (db', r0)" "\<not> is_ok r0 \<Longrightarrow> \<not> is_ok r" "\<And>i. r0 = Inr i \<Longrightarrow> r = Inr i"
    using assms(2,3) by (auto simp: pb_CreateBet_def Let_def split: prod.splits sum.splits if_splits)
  from a(1) show ?thesis
  proof (cases rule: pg_auto_cases)
    case (ok i)
    with ins_bet_spec [OF assms(1) ok(1)] a(3) cr show ?thesis by blast
  next
    case (lost i)
    with ins_bet_spec [OF assms(1) lost(1)] a(2) cr show ?thesis by blast
  next
    case nothing
    then show ?thesis using assms(1) a(2) by simp
  qed
qed

end

section \<open>Reads\<close>

lemma pb_scan_one_Inr: "pb_scan_one prefix r = Inr x \<longleftrightarrow> r = Inr (Some x)"
  by (auto simp: pb_scan_one_def split: sum.splits option.splits)

lemma pg_auto_Inr: "snd (pg_auto E f db) = Inr x \<Longrightarrow> \<exists>db'. f db = Inr (db', x)"
  by (auto simp: pg_auto_def split: sum.splits option.splits prod.splits)

lemma pb_GetBet_Inr: "pb_GetBet N E db i = Inr b \<Longrightarrow> b \<in> set db \<and> bl_uuid N i = Some (b_ID b)"
  by (auto simp: pb_GetBet_def pb_scan_one_Inr sel_bet_def split: option.splits dest!: pg_auto_Inr find_key_Some)

lemma pb_GetBetByReference_Inr:
  "pb_GetBetByReference E db u ref = Inr b \<Longrightarrow> b \<in> set db \<and> b_UserID b = u \<and> b_ReferenceID b = ref"
  by (auto simp: pb_GetBetByReference_def pb_scan_one_Inr sel_bet_by_ref_def find_Some_iff dest!: pg_auto_Inr)

lemma pb_list_Inr:
  assumes "pb_list ord prefix key P E db page pageSize = Inr bs"
  shows "\<exists>limit offset. 0 \<le> offset \<and> pg_page page pageSize = (limit, offset)
    \<and> bs = take (nat limit) (drop (nat offset) (sort_key key (ord (List.filter P db))))"
  using assms
  by (auto simp: pb_list_def limit_offset_def split: prod.splits sum.splits if_splits dest!: pg_auto_Inr)

lemma pb_list_set:
  assumes "pb_list ord prefix key P E db page pageSize = Inr bs" and "permutes_entries ord" and "distinct db"
  shows "set bs \<subseteq> {b \<in> set db. P b}"
proof -
  obtain limit offset where bs: "bs = take limit (drop offset (sort_key key (ord (List.filter P db))))"
    using pb_list_Inr [OF assms(1)] by blast
  have "set bs \<subseteq> set (sort_key key (ord (List.filter P db)))"
    unfolding bs by (rule order_trans [OF set_take_subset set_drop_subset])
  also have "\<dots> = {b \<in> set db. P b}"
    using permutes_entries_set [OF assms(2), of "List.filter P db"] assms(3) by simp
  finally show ?thesis .
qed

lemma pb_inv_distinct: "pb_inv N db \<Longrightarrow> distinct db"
  by (auto simp: pb_inv_def distinct_map)

lemma pb_reference_found:
  assumes "pb_inv N db" and "pb_bets db i = Some b"
  shows "pb_GetBetByReference E db (b_UserID b) (b_ReferenceID b) = Inr b
    \<or> (\<exists>e. pb_GetBetByReference E db (b_UserID b) (b_ReferenceID b) = Inl e \<and> \<not> errors_Is e ErrBetNotFound)"
proof -
  have "distinct (List.map (\<lambda>b. (b_UserID b, b_ReferenceID b)) db)" "b \<in> set db"
    using assms(1) pb_bets_iff [OF assms(1)] assms(2) by (simp_all add: pb_inv_def)
  then have "List.find (\<lambda>y. (b_UserID y, b_ReferenceID y) = (b_UserID b, b_ReferenceID b)) db = Some b"
    by (simp only: find_key_iff)
  then show ?thesis
    by (auto simp: pb_GetBetByReference_def pb_scan_one_def pg_auto_def sel_bet_by_ref_def ErrBetNotFound_def
        split: option.splits)
qed

lemma pb_bet_store:
  assumes "uuid_server N" and "permutes_entries ord"
  shows "bet_store (pb_ops N ord) pb_bets (pb_inv N) (\<lambda>_ _. True)"
proof (unfold_locales, goal_cases)
  case (1 s i b)
  then show ?case by (simp add: pb_bets_iff)
next
  case (2 s i b j b')
  then have b: "b \<in> set s" "b' \<in> set s" "b_ID b = i" "b_ID b' = j" by (simp_all add: pb_bets_iff)
  have "distinct (List.map (\<lambda>b. (b_UserID b, b_ReferenceID b)) s)" using 2(1) by (simp add: pb_inv_def)
  from distinct_key_eq [OF this b(1,2)] 2(4,5) have "b' = b" by simp
  with b(3,4) show ?case by simp
next
  case (3 s E b s' r1)
  then show ?case using uuid_server.pb_create_spec [OF assms(1)] by (simp add: pb_ops_def)
next
  case (4 s E i b)
  then show ?case using pb_GetBet_Inr by (simp add: pb_ops_def pb_bets_iff)
next
  case (5 s E u ref b)
  then show ?case using pb_GetBetByReference_Inr by (simp add: pb_ops_def pb_bets_iff)
next
  case (6 s i b E)
  then show ?case using pb_reference_found [OF 6(1,2)] by (simp add: pb_ops_def)
next
  case (7 s E p n bs b)
  then have "pb_ListPendingBets ord E s p n = Inr bs" by (simp add: pb_ops_def)
  with pb_list_set [OF _ assms(2) pb_inv_distinct [OF 7(1)]] 7(1,3) show ?case
    by (fastforce simp: pb_ListPendingBets_def pb_bets_iff)
next
  case (8 s i b E st t s' r)
  then show ?case
    by (intro uuid_server.pb_update_spec [OF assms(1), where Q = "\<lambda>b'. b_Status b' = st"])
      (auto simp: pb_ops_def pb_UpdateBetStatus_def same_terms_def pb_settle_at_def)
next
  case (9 s i b E st tx t s' r)
  then show ?case
    by (intro uuid_server.pb_update_spec [OF assms(1), where Q = "\<lambda>b'. b_Status b' = st \<and> b_DebitTransactionID b' = tx"])
      (auto simp: pb_ops_def pb_UpdateBetStatusAndDebitTx_def same_terms_def pb_settle_at_def)
next
  case (10 s i b E st t s' r)
  then show ?case
    by (intro uuid_server.pb_update_spec [OF assms(1), where Q = "\<lambda>b'. b_Status b' = st"])
      (auto simp: pb_ops_def pb_UpdateBetStatusAndOutcome_def same_terms_def pb_settle_at_def)
next
  case (11 s i b E tx s' r)
  then show ?case
    by (intro uuid_server.pb_update_spec [OF assms(1), where f = "\<lambda>b. b\<lparr>b_CreditTransactionID := tx\<rparr>"
          and Q = "\<lambda>b'. b_Status b' = b_Status b"])
      (auto simp: pb_ops_def pb_SetCreditTransactionID_def same_terms_def)
qed

text \<open>A server whose canonical texts are all non-empty ones, and a store on it.\<close>

definition example_bet_lib :: bet_lib where
  "example_bet_lib = \<lparr>bl_uuid = (\<lambda>i. if i = [] then None else Some (ToLower i)), bl_time = (\<lambda>t. t div 1000 * 1000)\<rparr>"

lemma ToLower_idem: "ToLower (ToLower s) = ToLower s"
proof -
  have "lower_char (lower_char c) = lower_char c" for c
    by (auto simp: lower_char_def Let_def of_char_of)
  then show ?thesis by (simp add: ToLower_def)
qed

lemma ToLower_empty [simp]: "ToLower s = [] \<longleftrightarrow> s = []"
  by (simp add: ToLower_def)

interpretation ref_uuid: uuid_server example_bet_lib
  by unfold_locales (auto simp: example_bet_lib_def ToLower_idem split: if_splits)

interpretation pb: bet_store "pb_ops example_bet_lib (\<lambda>db. db)" pb_bets "pb_inv example_bet_lib" "\<lambda>_ _. True"
  by (rule pb_bet_store [OF ref_uuid.uuid_server_axioms]) simp

end
