(* ===== verification/SportsbookService.thy ===== *)
theory SportsbookService
  imports SportsbookModel
begin

text \<open>
  The sportsbook service, \<open>internal/sportsbook/service.go\<close>, its scheduler (\<open>scheduler.go\<close>), its
  gRPC server (\<open>server.go\<close>) and its clients (\<open>clients.go\<close>), over any bet store, wallet and odds
  feed.

  Store and wallet calls are made in sequence on the pair of their states.  \<open>E n\<close> is what the
  \<open>n\<close>-th store call of an operation reads from outside, \<open>F\<close> the answers of the odds feed and
  \<open>now\<close> the clock.  Where the code returns a bet beside an error only the error is kept.
\<close>

section \<open>Small helpers\<close>

definition empty_bet :: bet where
  "empty_bet =
     \<lparr>b_ID = [], b_UserID = [], b_EventID = [], b_MarketID = [], b_OutcomeID = [], b_Odds = [], b_Stake = [],
      b_PotentialPayout = [], b_Currency = [], b_Status = [], b_ReferenceID = [], b_DebitTransactionID = [],
      b_CreditTransactionID = [], b_CreatedAt = zero_time, b_SettledAt = None\<rparr>"

text \<open>\<open>b, _ := json.Marshal(m); string(b)\<close>: the empty text when marshalling fails.\<close>

definition marshal_or_empty :: "json_codec \<Rightarrow> metadata \<Rightarrow> string" where
  "marshal_or_empty J m = (case json_Marshal J m of Inl err \<Rightarrow> [] | Inr b \<Rightarrow> b)"

section \<open>Placing a bet\<close>

text \<open>
  The checks against the odds feed: the event exists, the market is active in it and the outcome in
  the market, and its odds are a number.  They give the odds and the potential payout.
\<close>

definition price_bet ::
  "'d decimal_ops \<Rightarrow> feed_client \<Rightarrow> string \<Rightarrow> string \<Rightarrow> string \<Rightarrow> string \<Rightarrow> (string \<times> string) result" where
  "price_bet D F eventID marketID outcomeID stake =
     (case FC_GetEvent F eventID of
        Inl err \<Rightarrow> Inl (WrapErr ''validate event: '' err)
      | Inr event \<Rightarrow>
        (if (case event of None \<Rightarrow> True | Some ev \<Rightarrow> pe_Id ev = []) then Inl (NewErr ''event not found'')
         else
        (case FC_ListMarkets F eventID ''active'' 1 100 of
           Inl err \<Rightarrow> Inl (WrapErr ''list markets: '' err)
         | Inr markets \<Rightarrow>
        (case List.find (\<lambda>m. pm_Id m = marketID) markets of
           None \<Rightarrow> Inl (NewErr ''market not found or not active for event'')
         | Some market \<Rightarrow>
        (case FC_ListOutcomes F marketID ''active'' 1 100 of
           Inl err \<Rightarrow> Inl (WrapErr ''list outcomes: '' err)
         | Inr outcomes \<Rightarrow>
        (case List.find (\<lambda>oc. po_Id oc = outcomeID) outcomes of
           None \<Rightarrow> Inl (NewErr ''outcome not found or not active for market'')
         | Some outcome \<Rightarrow>
        (case parseDecimal D (po_Odds outcome) of
           Inl err \<Rightarrow> Inl (WrapErr ''invalid outcome odds: '' err)
         | Inr d \<Rightarrow>
        (case multiplyDecimal D stake (po_Odds outcome) of
           Inl err \<Rightarrow> Inl (WrapErr ''calculate payout: '' err)
         | Inr potentialPayout \<Rightarrow> Inr (po_Odds outcome, potentialPayout)))))))))"

definition stake_metadata :: "json_codec \<Rightarrow> string \<Rightarrow> string \<Rightarrow> string \<Rightarrow> string \<Rightarrow> string \<Rightarrow> metadata" where
  "stake_metadata J eventID marketID outcomeID odds referenceID =
     Some [(''type'', JStr ''bet_stake''),
           (''metadata'', JStr (marshal_or_empty J
              (Some [(''event_id'', JStr eventID), (''market_id'', JStr marketID), (''outcome_id'', JStr outcomeID),
                     (''odds'', JStr odds), (''bet_ref'', JStr referenceID)])))]"

text \<open>
  From \<open>CreateBet\<close> on: the bet is stored as \<open>debit_pending\<close>, the stake debited, and the bet made
  pending.  A conflicting reference returns the bet stored under it.
\<close>

definition PlaceBet_commit ::
  "json_codec \<Rightarrow> ('e, 's) bet_ops \<Rightarrow> 'w wallet_client \<Rightarrow> (nat \<Rightarrow> 'e) \<Rightarrow> gtime \<Rightarrow> 's \<times> 'w \<Rightarrow> bet
   \<Rightarrow> ('s \<times> 'w) \<times> bet result" where
  "PlaceBet_commit J B W E now sw bet =
     (case BO_CreateBet B (E 1) (fst sw) bet of
        (s1, Inl err) \<Rightarrow>
          if errors_Is err ErrBetNotFound
          then (case BO_GetBetByReference B (E 2) s1 (b_UserID bet) (b_ReferenceID bet) of
                  Inl err \<Rightarrow> ((s1, snd sw), Inl (WrapErr ''create bet conflict: '' err))
                | Inr existing \<Rightarrow> ((s1, snd sw), Inr existing))
          else ((s1, snd sw), Inl (WrapErr ''create bet: '' err))
      | (s1, Inr i) \<Rightarrow>
          (case WC_DebitWallet W (snd sw) (b_UserID bet) (b_Currency bet) (b_Stake bet) (b_ReferenceID bet)
                  (stake_metadata J (b_EventID bet) (b_MarketID bet) (b_OutcomeID bet) (b_Odds bet) (b_ReferenceID bet)) of
             (w1, Inl err) \<Rightarrow>
               ((fst (BO_UpdateBetStatus B (E 3) s1 i StatusCancelled now), w1), Inl (WrapErr ''debit stake: '' err))
           | (w1, Inr debitTxID) \<Rightarrow>
               (case BO_UpdateBetStatusAndDebitTx B (E 4) s1 i StatusPending debitTxID zero_time of
                  (s2, Inl err) \<Rightarrow> ((s2, w1), Inl (WrapErr ''finalize bet after debit: '' err))
                | (s2, Inr u) \<Rightarrow>
                    ((s2, w1), Inr (bet\<lparr>b_ID := i, b_DebitTransactionID := debitTxID, b_Status := StatusPending\<rparr>)))))"

definition new_bet ::
  "string \<Rightarrow> string \<Rightarrow> string \<Rightarrow> string \<Rightarrow> string \<Rightarrow> string \<Rightarrow> string \<Rightarrow> string \<Rightarrow> string \<Rightarrow> gtime \<Rightarrow> bet" where
  "new_bet userID eventID marketID outcomeID stake currency referenceID odds potentialPayout now =
     empty_bet\<lparr>b_UserID := userID, b_EventID := eventID, b_MarketID := marketID, b_OutcomeID := outcomeID,
               b_Odds := odds, b_Stake := stake, b_PotentialPayout := potentialPayout, b_Currency := currency,
               b_Status := StatusDebitPending, b_ReferenceID := referenceID, b_CreatedAt := now\<rparr>"

definition PlaceBet ::
  "'d decimal_ops \<Rightarrow> json_codec \<Rightarrow> ('e, 's) bet_ops \<Rightarrow> 'w wallet_client \<Rightarrow> feed_client \<Rightarrow> (nat \<Rightarrow> 'e) \<Rightarrow> gtime
   \<Rightarrow> 's \<times> 'w \<Rightarrow> string \<Rightarrow> string \<Rightarrow> string \<Rightarrow> string \<Rightarrow> string \<Rightarrow> string \<Rightarrow> string \<Rightarrow> ('s \<times> 'w) \<times> bet result" where
  "PlaceBet D J B W F E now sw userID eventID marketID outcomeID stake currency referenceID =
     (if userID = [] \<or> eventID = [] \<or> marketID = [] \<or> outcomeID = [] \<or> stake = [] \<or> currency = [] \<or> referenceID = []
      then (sw, Inl (NewErr ''missing required bet field''))
      else
        case decimalGreaterThanZero D stake of
          Inl err \<Rightarrow> (sw, Inl (WrapErr ''invalid stake: '' err))
        | Inr gt \<Rightarrow>
          if \<not> gt then (sw, Inl (NewErr ''stake must be greater than zero''))
          else
            case BO_GetBetByReference B (E 0) (fst sw) userID referenceID of
              Inr existing \<Rightarrow> (sw, Inr existing)
            | Inl err \<Rightarrow>
              if \<not> errors_Is err ErrBetNotFound then (sw, Inl (WrapErr ''check existing bet: '' err))
              else
                case price_bet D F eventID marketID outcomeID stake of
                  Inl err \<Rightarrow> (sw, Inl err)
                | Inr (odds, potentialPayout) \<Rightarrow>
                    PlaceBet_commit J B W E now sw
                      (new_bet userID eventID marketID outcomeID stake currency referenceID odds potentialPayout now))"

section \<open>Reading bets\<close>

definition svc_GetBet :: "('e, 's) bet_ops \<Rightarrow> 'e \<Rightarrow> 's \<Rightarrow> string \<Rightarrow> bet result" where
  "svc_GetBet B E s i = (if i = [] then Inl (NewErr ''bet id required'') else BO_GetBet B E s i)"

definition svc_ListBets :: "('e, 's) bet_ops \<Rightarrow> 'e \<Rightarrow> 's \<Rightarrow> string \<Rightarrow> string \<Rightarrow> int \<Rightarrow> int \<Rightarrow> bet list result" where
  "svc_ListBets B E s userID status page pageSize =
     (if userID = [] then Inl (NewErr ''user id required'') else BO_ListBets B E s userID status page pageSize)"

definition svc_ListPendingBets :: "('e, 's) bet_ops \<Rightarrow> 'e \<Rightarrow> 's \<Rightarrow> int \<Rightarrow> int \<Rightarrow> bet list result" where
  "svc_ListPendingBets B E s page pageSize = BO_ListPendingBets B E s page pageSize"

definition mustGetBet :: "('e, 's) bet_ops \<Rightarrow> 'e \<Rightarrow> 's \<Rightarrow> string \<Rightarrow> bet" where
  "mustGetBet B E s i = (case BO_GetBet B E s i of Inl err \<Rightarrow> empty_bet\<lparr>b_ID := i\<rparr> | Inr bet \<Rightarrow> bet)"

section \<open>Settling a bet\<close>

text \<open>Store sites: 0 the bet, 1 its status, 2 the credit transaction, 3 the bet returned.\<close>

definition settle_paid ::
  "('e, 's) bet_ops \<Rightarrow> 'w wallet_client \<Rightarrow> (nat \<Rightarrow> 'e) \<Rightarrow> 's \<times> 'w \<Rightarrow> bet \<Rightarrow> string \<Rightarrow> string \<Rightarrow> metadata
   \<Rightarrow> string \<Rightarrow> string \<Rightarrow> ('s \<times> 'w) \<times> bet result" where
  "settle_paid B W E sw bet amount ref meta what1 what2 =
     (case WC_CreditWallet W (snd sw) (b_UserID bet) (b_Currency bet) amount ref meta of
        (w1, Inl err) \<Rightarrow> ((fst sw, w1), Inl (WrapErr what1 err))
      | (w1, Inr creditTxID) \<Rightarrow>
          (case BO_SetCreditTransactionID B (E 2) (fst sw) (b_ID bet) creditTxID of
             (s2, Inl err) \<Rightarrow> ((s2, w1), Inl (WrapErr what2 err))
           | (s2, Inr u) \<Rightarrow> ((s2, w1), Inr (mustGetBet B (E 3) s2 (b_ID bet)))))"

text \<open>After the bet was read and found pending.\<close>

definition SettleBet_commit ::
  "('e, 's) bet_ops \<Rightarrow> 'w wallet_client \<Rightarrow> (nat \<Rightarrow> 'e) \<Rightarrow> gtime \<Rightarrow> 's \<times> 'w \<Rightarrow> bet \<Rightarrow> string
   \<Rightarrow> ('s \<times> 'w) \<times> bet result" where
  "SettleBet_commit B W E now sw bet outcome =
     (case BO_UpdateBetStatusAndOutcome B (E 1) (fst sw) (b_ID bet) outcome now of
        (s1, Inl err) \<Rightarrow> ((s1, snd sw), Inl (WrapErr (''mark bet '' @ outcome @ '': '') err))
      | (s1, Inr u) \<Rightarrow>
          if outcome = StatusWon then
            settle_paid B W E (s1, snd sw) bet (b_PotentialPayout bet) (''settle-'' @ b_ReferenceID bet)
              (Some [(''bet_id'', JStr (b_ID bet)), (''outcome'', JStr ''won''), (''payout'', JStr (b_PotentialPayout bet))])
              ''credit winnings: '' ''record credit tx: ''
          else if outcome = StatusCancelled then
            settle_paid B W E (s1, snd sw) bet (b_Stake bet) (''cancel-'' @ b_ReferenceID bet)
              (Some [(''bet_id'', JStr (b_ID bet)), (''outcome'', JStr ''cancelled''), (''refund'', JStr (b_Stake bet))])
              ''credit refund: '' ''record refund tx: ''
          else ((s1, snd sw), Inr (mustGetBet B (E 3) s1 (b_ID bet))))"

definition SettleBet ::
  "('e, 's) bet_ops \<Rightarrow> 'w wallet_client \<Rightarrow> (nat \<Rightarrow> 'e) \<Rightarrow> gtime \<Rightarrow> 's \<times> 'w \<Rightarrow> string \<Rightarrow> string
   \<Rightarrow> ('s \<times> 'w) \<times> bet result" where
  "SettleBet B W E now sw betID outcome =
     (if betID = [] then (sw, Inl (NewErr ''bet id required''))
      else if outcome \<noteq> StatusWon \<and> outcome \<noteq> StatusLost \<and> outcome \<noteq> StatusCancelled
      then (sw, Inl (NewErr (''invalid settlement outcome: '' @ outcome)))
      else
        case BO_GetBet B (E 0) (fst sw) betID of
          Inl err \<Rightarrow> (sw, Inl (WrapErr ''get bet: '' err))
        | Inr bet \<Rightarrow>
            if b_Status bet \<noteq> StatusPending
            then (sw, Inl (NewErr (''bet cannot be settled: status='' @ b_Status bet)))
            else SettleBet_commit B W E now sw bet outcome)"

text \<open>
  \<open>SettleBet\<close> when other calls run between its look-up of the bet, which sees \<open>s0\<close>, and its changes.
\<close>

definition overlapped_settle ::
  "('e, 's) bet_ops \<Rightarrow> 'w wallet_client \<Rightarrow> (nat \<Rightarrow> 'e) \<Rightarrow> gtime \<Rightarrow> 's \<Rightarrow> 's \<times> 'w \<Rightarrow> string \<Rightarrow> string
   \<Rightarrow> ('s \<times> 'w) \<times> bet result" where
  "overlapped_settle B W E now s0 sw betID outcome =
     (if betID = [] then (sw, Inl (NewErr ''bet id required''))
      else if outcome \<noteq> StatusWon \<and> outcome \<noteq> StatusLost \<and> outcome \<noteq> StatusCancelled
      then (sw, Inl (NewErr (''invalid settlement outcome: '' @ outcome)))
      else
        case BO_GetBet B (E 0) s0 betID of
          Inl err \<Rightarrow> (sw, Inl (WrapErr ''get bet: '' err))
        | Inr bet \<Rightarrow>
            if b_Status bet \<noteq> StatusPending
            then (sw, Inl (NewErr (''bet cannot be settled: status='' @ b_Status bet)))
            else SettleBet_commit B W E now sw bet outcome)"

lemma SettleBet_alone: "SettleBet B W E now sw i outcome = overlapped_settle B W E now (fst sw) sw i outcome"
  by (simp add: SettleBet_def overlapped_settle_def)

definition resolveOutcomeStatus :: "feed_client \<Rightarrow> string \<Rightarrow> string \<Rightarrow> string \<Rightarrow> string result" where
  "resolveOutcomeStatus F eventID marketID outcomeID =
     (case FC_GetEvent F eventID of
        Inl err \<Rightarrow> Inl err
      | Inr None \<Rightarrow> Inl (NewErr ''event not found'')
      | Inr (Some event) \<Rightarrow>
        (case FC_ListMarkets F eventID [] 1 100 of
           Inl err \<Rightarrow> Inl err
         | Inr markets \<Rightarrow>
        (if \<not> list_ex (\<lambda>m. pm_Id m = marketID) markets then Inl (NewErr ''market not found'')
         else
        (case FC_ListOutcomes F marketID [] 1 100 of
           Inl err \<Rightarrow> Inl err
         | Inr outcomes \<Rightarrow>
        (case List.find (\<lambda>oc. po_Id oc = outcomeID) outcomes of
           None \<Rightarrow> Inl (NewErr ''outcome not found'')
         | Some oc \<Rightarrow>
             if List.member [StatusWon, StatusLost, StatusCancelled] (po_Status oc) then Inr (po_Status oc)
             else Inr [])))))"

section \<open>Automatic settlement\<close>

text \<open>
  What a pass over the pending bets reads from outside: the \<open>k\<close>-th bet of a page has its own
  answers of store, wallet, feed and clock (\<open>k\<close> from 1; index 0 is the listing of the page).
\<close>

record ('e, 'w) pass_env =
  pz_env :: "nat \<Rightarrow> nat \<Rightarrow> 'e"
  pz_wallet :: "nat \<Rightarrow> 'w wallet_client"
  pz_feed :: "nat \<Rightarrow> feed_client"
  pz_now :: "nat \<Rightarrow> gtime"

definition auto_settle_bet :: "('e, 's) bet_ops \<Rightarrow> ('e, 'w) pass_env \<Rightarrow> nat \<Rightarrow> bet \<Rightarrow> 's \<times> 'w \<Rightarrow> 's \<times> 'w" where
  "auto_settle_bet B Z k bet sw =
     (case resolveOutcomeStatus (pz_feed Z k) (b_EventID bet) (b_MarketID bet) (b_OutcomeID bet) of
        Inl err \<Rightarrow> sw
      | Inr outcome \<Rightarrow>
          if outcome = [] then sw
          else fst (SettleBet B (pz_wallet Z k) (pz_env Z k) (pz_now Z k) sw (b_ID bet) outcome))"

fun auto_settle_page :: "('e, 's) bet_ops \<Rightarrow> ('e, 'w) pass_env \<Rightarrow> nat \<Rightarrow> bet list \<Rightarrow> 's \<times> 'w \<Rightarrow> 's \<times> 'w" where
  "auto_settle_page B Z k [] sw = sw"
| "auto_settle_page B Z k (bet # pending) sw = auto_settle_page B Z (Suc k) pending (auto_settle_bet B Z k bet sw)"

text \<open>The loops over the pages, with fuel; \<open>None\<close> when it runs out.  \<open>Z n\<close> is the surroundings of page \<open>n\<close>.\<close>

fun AutoSettle_loop ::
  "nat \<Rightarrow> ('e, 's) bet_ops \<Rightarrow> (int \<Rightarrow> ('e, 'w) pass_env) \<Rightarrow> int \<Rightarrow> 's \<times> 'w \<Rightarrow> (('s \<times> 'w) \<times> unit result) option" where
  "AutoSettle_loop 0 B Z page sw = None"
| "AutoSettle_loop (Suc fuel) B Z page sw =
     (case BO_ListPendingBets B (pz_env (Z page) 0 0) (fst sw) page 100 of
        Inl err \<Rightarrow> Some (sw, Inl (WrapErr ''list pending bets: '' err))
      | Inr pending \<Rightarrow>
          if length pending = 0 then Some (sw, Inr ())
          else
            let sw' = auto_settle_page B (Z page) 1 pending sw
            in if length pending < 100 then Some (sw', Inr ())
               else AutoSettle_loop fuel B Z (wrap64 (page + 1)) sw')"

definition AutoSettleFromEvents ::
  "nat \<Rightarrow> ('e, 's) bet_ops \<Rightarrow> (int \<Rightarrow> ('e, 'w) pass_env) \<Rightarrow> 's \<times> 'w \<Rightarrow> (('s \<times> 'w) \<times> unit result) option" where
  "AutoSettleFromEvents fuel B Z sw = AutoSettle_loop fuel B Z 1 sw"

definition schedulerPageSize :: int where
  "schedulerPageSize = 100"

definition scheduler_bet :: "('e, 's) bet_ops \<Rightarrow> ('e, 'w) pass_env \<Rightarrow> nat \<Rightarrow> bet \<Rightarrow> 's \<times> 'w \<Rightarrow> ('s \<times> 'w) \<times> string option" where
  "scheduler_bet B Z k bet sw =
     (case resolveOutcomeStatus (pz_feed Z k) (b_EventID bet) (b_MarketID bet) (b_OutcomeID bet) of
        Inl err \<Rightarrow> (sw, Some ''resolve outcome status'')
      | Inr outcome \<Rightarrow>
          if outcome = [] then (sw, None)
          else
            (case SettleBet B (pz_wallet Z k) (pz_env Z k) (pz_now Z k) sw (b_ID bet) outcome of
               (sw', Inl err) \<Rightarrow> (sw', Some ''auto settle bet'')
             | (sw', Inr b) \<Rightarrow> (sw', None)))"

fun scheduler_page ::
  "('e, 's) bet_ops \<Rightarrow> ('e, 'w) pass_env \<Rightarrow> nat \<Rightarrow> bet list \<Rightarrow> 's \<times> 'w \<Rightarrow> ('s \<times> 'w) \<times> string list" where
  "scheduler_page B Z k [] sw = (sw, [])"
| "scheduler_page B Z k (bet # bets) sw =
     (case scheduler_bet B Z k bet sw of (sw1, msg) \<Rightarrow>
        (case scheduler_page B Z (Suc k) bets sw1 of (sw2, msgs) \<Rightarrow>
           (sw2, (case msg of None \<Rightarrow> [] | Some m \<Rightarrow> [m]) @ msgs)))"

text \<open>\<open>runOnce\<close> returns nothing; the second component is what it logs at level error.\<close>

fun runOnce_loop ::
  "nat \<Rightarrow> ('e, 's) bet_ops \<Rightarrow> (int \<Rightarrow> ('e, 'w) pass_env) \<Rightarrow> int \<Rightarrow> 's \<times> 'w \<Rightarrow> (('s \<times> 'w) \<times> string list) option" where
  "runOnce_loop 0 B Z page sw = None"
| "runOnce_loop (Suc fuel) B Z page sw =
     (case svc_ListPendingBets B (pz_env (Z page) 0 0) (fst sw) page schedulerPageSize of
        Inl err \<Rightarrow> Some (sw, [''list pending bets''])
      | Inr bets \<Rightarrow>
          if length bets = 0 then Some (sw, [])
          else
            (case scheduler_page B (Z page) 1 bets sw of (sw', msgs) \<Rightarrow>
               if int (length bets) < schedulerPageSize then Some (sw', msgs)
               else map_option (\<lambda>(sw2, msgs2). (sw2, msgs @ msgs2)) (runOnce_loop fuel B Z (wrap64 (page + 1)) sw')))"

definition runOnce ::
  "nat \<Rightarrow> ('e, 's) bet_ops \<Rightarrow> (int \<Rightarrow> ('e, 'w) pass_env) \<Rightarrow> 's \<times> 'w \<Rightarrow> (('s \<times> 'w) \<times> string list) option" where
  "runOnce fuel B Z sw = runOnce_loop fuel B Z 1 sw"

definition scheduler_interval :: "int \<Rightarrow> int" where
  "scheduler_interval interval = (if interval \<le> 0 then 60 * second_ns else interval)"

section \<open>Clients\<close>

definition noopWalletClient :: "'w wallet_client" where
  "noopWalletClient =
     \<lparr>WC_DebitWallet = (\<lambda>w userID currency amount referenceID metadata. (w, Inr [])),
      WC_CreditWallet = (\<lambda>w userID currency amount referenceID metadata. (w, Inr []))\<rparr>"

definition noopOddsFeedClient :: feed_client where
  "noopOddsFeedClient =
     \<lparr>FC_GetEvent = (\<lambda>i. Inr None), FC_ListMarkets = (\<lambda>e st p n. Inr []), FC_ListOutcomes = (\<lambda>m st p n. Inr [])\<rparr>"

definition service_clients ::
  "'w wallet_client option \<Rightarrow> feed_client option \<Rightarrow> 'w wallet_client \<times> feed_client" where
  "service_clients wallet oddsfeed =
     (case wallet of None \<Rightarrow> noopWalletClient | Some w \<Rightarrow> w, case oddsfeed of None \<Rightarrow> noopOddsFeedClient | Some f \<Rightarrow> f)"

record debit_request =
  dr_UserId :: string
  dr_Currency :: string
  dr_Amount :: string
  dr_ReferenceId :: string
  dr_Metadata :: string

text \<open>
  A gRPC connection to the wallet: outgoing metadata and a request give the transaction id of the
  response, \<open>None\<close> for a nil response.
\<close>

record 'w wallet_conn =
  cn_DebitWallet :: "'w \<Rightarrow> string list gomap \<Rightarrow> debit_request \<Rightarrow> 'w \<times> string option result"
  cn_CreditWallet :: "'w \<Rightarrow> string list gomap \<Rightarrow> debit_request \<Rightarrow> 'w \<times> string option result"

definition gatewayCallerID :: string where
  "gatewayCallerID = ''gateway''"

definition grpc_pairs :: "string list gomap" where
  "grpc_pairs = [(''x-user-id'', [gatewayCallerID]), (''x-caller-is-admin'', [''true''])]"

definition wallet_request :: "json_codec \<Rightarrow> string \<Rightarrow> string \<Rightarrow> string \<Rightarrow> string \<Rightarrow> metadata \<Rightarrow> debit_request" where
  "wallet_request J userID currency amount referenceID meta =
     \<lparr>dr_UserId = userID, dr_Currency = currency, dr_Amount = amount, dr_ReferenceId = referenceID,
      dr_Metadata = (case meta of None \<Rightarrow> [] | Some m \<Rightarrow> marshal_or_empty J meta)\<rparr>"

definition transaction_id :: "'w \<times> string option result \<Rightarrow> 'w \<times> string result" where
  "transaction_id r =
     (case r of
        (w, Inl err) \<Rightarrow> (w, Inl err)
      | (w, Inr None) \<Rightarrow> (w, Inr [])
      | (w, Inr (Some i)) \<Rightarrow> (w, Inr i))"

definition GRPCWalletClient :: "json_codec \<Rightarrow> 'w wallet_conn \<Rightarrow> 'w wallet_client" where
  "GRPCWalletClient J conn =
     \<lparr>WC_DebitWallet = (\<lambda>w userID currency amount referenceID meta.
        transaction_id (cn_DebitWallet conn w grpc_pairs (wallet_request J userID currency amount referenceID meta))),
      WC_CreditWallet = (\<lambda>w userID currency amount referenceID meta.
        transaction_id (cn_CreditWallet conn w grpc_pairs (wallet_request J userID currency amount referenceID meta)))\<rparr>"

section \<open>The gRPC server\<close>

datatype sportsbook_method = M_PlaceBet | M_GetBet | M_ListBets | M_SettleBet

definition sb_serviceCallerID :: string where
  "sb_serviceCallerID = ''gateway''"

definition header_values :: "string list gomap \<Rightarrow> string \<Rightarrow> string list" where
  "header_values md k = (case mget md k of None \<Rightarrow> [] | Some vs \<Rightarrow> vs)"

definition sb_AuthInterceptor :: "string list gomap option \<Rightarrow> sportsbook_method \<Rightarrow> unit result" where
  "sb_AuthInterceptor md meth =
     (case md of
        None \<Rightarrow> Inl (StatusErr Unauthenticated ''missing caller metadata'')
      | Some md \<Rightarrow>
          let userIDs = header_values md ''x-user-id''
          in if userIDs = [] \<or> hd userIDs = [] then Inl (StatusErr Unauthenticated ''missing caller user id'')
             else
               let callerID = hd userIDs;
                   adminVals = header_values md ''x-caller-is-admin'';
                   isAdmin = (adminVals \<noteq> [] \<and> hd adminVals = ''true'')
               in case meth of
                    M_SettleBet \<Rightarrow>
                      if \<not> isAdmin \<or> callerID \<noteq> sb_serviceCallerID
                      then Inl (StatusErr PermissionDenied ''admin service caller required'') else Inr ()
                  | _ \<Rightarrow>
                      if callerID \<noteq> sb_serviceCallerID
                      then Inl (StatusErr PermissionDenied ''service caller required'') else Inr ())"

definition mapServiceError :: "go_error \<Rightarrow> go_error" where
  "mapServiceError err =
     (if errors_Is err ErrBetNotFound then StatusErr NotFound (error_text err)
      else
        let msg = error_text err
        in if HasPrefix msg ''missing'' \<or> HasPrefix msg ''invalid'' \<or> HasPrefix msg ''stake''
           then StatusErr InvalidArgument msg
           else StatusErr Internal msg)"

record pb_bet =
  pv_Id :: string
  pv_UserId :: string
  pv_EventId :: string
  pv_MarketId :: string
  pv_OutcomeId :: string
  pv_Odds :: string
  pv_Stake :: string
  pv_PotentialPayout :: string
  pv_Currency :: string
  pv_Status :: string
  pv_ReferenceId :: string
  pv_CreatedAt :: string
  pv_SettledAt :: string
  pv_DebitTransactionId :: string
  pv_CreditTransactionId :: string

text \<open>\<open>fmt\<close> is the formatting of an instant as RFC 3339.\<close>

definition betToProto :: "(gtime \<Rightarrow> string) \<Rightarrow> bet \<Rightarrow> pb_bet" where
  "betToProto fmt b =
     \<lparr>pv_Id = b_ID b, pv_UserId = b_UserID b, pv_EventId = b_EventID b, pv_MarketId = b_MarketID b,
      pv_OutcomeId = b_OutcomeID b, pv_Odds = b_Odds b, pv_Stake = b_Stake b,
      pv_PotentialPayout = b_PotentialPayout b, pv_Currency = b_Currency b, pv_Status = b_Status b,
      pv_ReferenceId = b_ReferenceID b, pv_CreatedAt = fmt (b_CreatedAt b),
      pv_SettledAt = (case b_SettledAt b of None \<Rightarrow> [] | Some t \<Rightarrow> fmt t),
      pv_DebitTransactionId = b_DebitTransactionID b, pv_CreditTransactionId = b_CreditTransactionID b\<rparr>"

definition srv_reply :: "('a \<Rightarrow> 'b) \<Rightarrow> 'a result \<Rightarrow> 'b result" where
  "srv_reply f r = (case r of Inl err \<Rightarrow> Inl (mapServiceError err) | Inr x \<Rightarrow> Inr (f x))"

definition srv_PlaceBet ::
  "(gtime \<Rightarrow> string) \<Rightarrow> 'd decimal_ops \<Rightarrow> json_codec \<Rightarrow> ('e, 's) bet_ops \<Rightarrow> 'w wallet_client \<Rightarrow> feed_client \<Rightarrow> (nat \<Rightarrow> 'e)
   \<Rightarrow> gtime \<Rightarrow> 's \<times> 'w \<Rightarrow> string \<Rightarrow> string \<Rightarrow> string \<Rightarrow> string \<Rightarrow> string \<Rightarrow> string \<Rightarrow> string \<Rightarrow> ('s \<times> 'w) \<times> pb_bet result" where
  "srv_PlaceBet fmt D J B W F E now sw userId eventId marketId outcomeId stake currency referenceId =
     (case PlaceBet D J B W F E now sw userId eventId marketId outcomeId stake currency referenceId of
        (sw', r) \<Rightarrow> (sw', srv_reply (betToProto fmt) r))"

definition srv_GetBet :: "(gtime \<Rightarrow> string) \<Rightarrow> ('e, 's) bet_ops \<Rightarrow> 'e \<Rightarrow> 's \<Rightarrow> string \<Rightarrow> pb_bet result" where
  "srv_GetBet fmt B E s i = srv_reply (betToProto fmt) (svc_GetBet B E s i)"

definition srv_ListBets ::
  "(gtime \<Rightarrow> string) \<Rightarrow> ('e, 's) bet_ops \<Rightarrow> 'e \<Rightarrow> 's \<Rightarrow> string \<Rightarrow> string \<Rightarrow> int \<Rightarrow> int \<Rightarrow> pb_bet list result" where
  "srv_ListBets fmt B E s userId status page pageSize =
     srv_reply (List.map (betToProto fmt)) (svc_ListBets B E s userId status page pageSize)"

definition srv_SettleBet ::
  "(gtime \<Rightarrow> string) \<Rightarrow> ('e, 's) bet_ops \<Rightarrow> 'w wallet_client \<Rightarrow> (nat \<Rightarrow> 'e) \<Rightarrow> gtime \<Rightarrow> 's \<times> 'w \<Rightarrow> string \<Rightarrow> string
   \<Rightarrow> ('s \<times> 'w) \<times> pb_bet result" where
  "srv_SettleBet fmt B W E now sw betId outcome =
     (case SettleBet B W E now sw betId outcome of (sw', r) \<Rightarrow> (sw', srv_reply (betToProto fmt) r))"

end
