(* ===== verification/SportsbookProps.thy ===== *)
theory SportsbookProps
  imports SportsbookService SportsbookMemory SportsbookPG Ledger
begin

text \<open>
  What the sportsbook service guarantees on every store that satisfies \<open>bet_store\<close>, whatever fails,
  and the same on the two stores of the repository.
\<close>

section \<open>Outcomes of the operations\<close>

definition bet_of :: "bets \<Rightarrow> string \<Rightarrow> string \<Rightarrow> bet \<Rightarrow> bool" where
  "bet_of m u ref b \<longleftrightarrow> m (b_ID b) = Some b \<and> b_UserID b = u \<and> b_ReferenceID b = ref"

context bet_store
begin

text \<open>
  From \<open>CreateBet\<close> on: nothing stored; or a new bet stored and no debit asked for; or a new bet
  stored, its stake asked for once, and the answer reflected in its status.
\<close>

lemma place_commit_cases:
  assumes "inv s" and "fresh (E 1) s" and "b_ID bet = []"
    and "PlaceBet_commit J B W E now (s, w) bet = ((s', w'), r)"
  obtains (kept) "inv s'" "w' = w" "bets s' = bets s" "\<And>b. r = Inr b \<Longrightarrow> bet_of (bets s') (b_UserID bet) (b_ReferenceID bet) b"
  | (unpaid) i b' where "inv s'" "w' = w" "bets s i = None" "bets s' = (bets s)(i \<mapsto> b')" "created bet b'" "b_ID b' = i"
      "\<And>b. r = Inr b \<Longrightarrow> bet_of (bets s') (b_UserID bet) (b_ReferenceID bet) b"
  | (debited) i b1 b' meta rd where "inv s'" "bets s i = None" "bets s' = (bets s)(i \<mapsto> b')"
      "created bet b1" "same_terms b1 b'" "b_ID b1 = i"
      "WC_DebitWallet W w (b_UserID bet) (b_Currency bet) (b_Stake bet) (b_ReferenceID bet) meta = (w', rd)"
      "b_Status b' = b_Status bet \<and> \<not> is_ok r \<or> b_Status b' = StatusCancelled \<and> \<not> is_ok rd \<and> \<not> is_ok r
       \<or> b_Status b' = StatusPending \<and> rd = Inr (b_DebitTransactionID b')
          \<and> (is_ok r \<longrightarrow> r = Inr (bet\<lparr>b_ID := i, b_DebitTransactionID := b_DebitTransactionID b', b_Status := StatusPending\<rparr>))"
proof -
  obtain s1 r1 where c: "BO_CreateBet B (E 1) s bet = (s1, r1)" by force
  note cr = create [OF assms(1,2,3) c]
  then have inv1: "inv s1" by simp
  show thesis
  proof (cases r1)
    case (Inl err)
    have s': "s' = s1" "w' = w"
      using assms(4) c Inl by (auto simp: PlaceBet_commit_def split: if_splits sum.splits)
    have found: "bet_of (bets s') (b_UserID bet) (b_ReferenceID bet) b" if r: "r = Inr b" for b
    proof -
      have "BO_GetBetByReference B (E 2) s1 (b_UserID bet) (b_ReferenceID bet) = Inr b"
        using assms(4) c Inl r by (auto simp: PlaceBet_commit_def split: if_splits sum.splits)
      from by_reference [OF inv1 this] show ?thesis by (simp add: s' bet_of_def)
    qed
    have "bets s1 = bets s \<or> (\<exists>i b'. bets s i = None \<and> bets s1 = (bets s)(i \<mapsto> b') \<and> created bet b' \<and> b_ID b' = i)"
      using cr by blast
    then show thesis
    proof (elim conjE disjE exE)
      assume "bets s1 = bets s"
      then show thesis using kept [OF _ s'(2)] inv1 s' found by simp
    next
      fix i b'
      assume "bets s i = None" "bets s1 = (bets s)(i \<mapsto> b')" "created bet b'" "b_ID b' = i"
      then show thesis using unpaid [OF _ s'(2)] inv1 s' found by simp
    qed
  next
    case (Inr i)
    then obtain b1 where b1: "bets s i = None" "bets s1 = (bets s)(i \<mapsto> b1)" "created bet b1" "b_ID b1 = i"
      using cr by auto
    then have at_i: "bets s1 i = Some b1" by simp
    let ?meta = "stake_metadata J (b_EventID bet) (b_MarketID bet) (b_OutcomeID bet) (b_Odds bet) (b_ReferenceID bet)"
    obtain w1 rd where d: "WC_DebitWallet W w (b_UserID bet) (b_Currency bet) (b_Stake bet) (b_ReferenceID bet) ?meta = (w1, rd)"
      by force
    have st1: "b_Status b1 = b_Status bet" using b1(3) by (simp add: created_def)
    show thesis
    proof (cases rd)
      case (Inl err)
      obtain s2 r2 where u: "BO_UpdateBetStatus B (E 3) s1 i StatusCancelled now = (s2, r2)" by force
      have eq: "s' = s2" "w' = w1" "\<not> is_ok r"
        using assms(4) c \<open>r1 = Inr i\<close> d Inl u by (auto simp: PlaceBet_commit_def)
      from update_status [OF inv1 at_i u] obtain b' where b': "inv s2" "bets s2 = (bets s)(i \<mapsto> b')" "same_terms b1 b'"
        "b_Status b' = b_Status bet \<or> b_Status b' = StatusCancelled"
        using b1(2) st1 by (metis fun_upd_upd same_terms_refl)
      show thesis
        by (rule debited [of i b' b1 ?meta rd]) (use b1 b' d eq Inl in auto)
    next
      case (Inr tx)
      obtain s2 r2 where u: "BO_UpdateBetStatusAndDebitTx B (E 4) s1 i StatusPending tx zero_time = (s2, r2)" by force
      have eq: "s' = s2" "w' = w1"
        "(case r2 of Inl e \<Rightarrow> \<not> is_ok r | Inr _ \<Rightarrow>
            r = Inr (bet\<lparr>b_ID := i, b_DebitTransactionID := tx, b_Status := StatusPending\<rparr>))"
        using assms(4) c \<open>r1 = Inr i\<close> d Inr u by (auto simp: PlaceBet_commit_def split: sum.splits)
      from update_debit [OF inv1 at_i u] show thesis
      proof (elim conjE disjE exE)
        assume "inv s2" "bets s2 = bets s1" "\<not> is_ok r2"
        then show thesis
          by (intro debited [of i b1 b1 ?meta rd]) (use b1 d eq st1 in \<open>auto simp: is_ok_def split: sum.splits\<close>)
      next
        fix b'
        assume "inv s2" "bets s2 = (bets s1)(i \<mapsto> b')" "same_terms b1 b'" "b_Status b' = StatusPending"
          "b_DebitTransactionID b' = tx"
        then show thesis
          by (intro debited [of i b' b1 ?meta rd]) (use b1 d eq Inr in \<open>auto simp: is_ok_def split: sum.splits\<close>)
      qed
    qed
  qed
qed

text \<open>Settling a pending bet: nothing; or its status set and no credit asked for; or its status set and one credit.\<close>

lemma settle_commit_cases:
  assumes "inv s" and "bets s (b_ID bet) = Some bet"
    and "SettleBet_commit B W E now (s, w) bet outcome = ((s', w'), r)"
  obtains (kept) "inv s'" "w' = w" "bets s' = bets s" "\<not> is_ok r"
  | (marked) b' where "inv s'" "w' = w" "bets s' = (bets s)(b_ID bet \<mapsto> b')" "same_terms bet b'" "b_Status b' = outcome"
      "is_ok r \<Longrightarrow> outcome \<noteq> StatusWon \<and> outcome \<noteq> StatusCancelled"
  | (won) b' meta rc where "inv s'" "outcome = StatusWon" "bets s' = (bets s)(b_ID bet \<mapsto> b')" "same_terms bet b'"
      "b_Status b' = outcome" "is_ok r \<Longrightarrow> is_ok rc"
      "WC_CreditWallet W w (b_UserID bet) (b_Currency bet) (b_PotentialPayout bet) (''settle-'' @ b_ReferenceID bet) meta = (w', rc)"
  | (cancelled) b' meta rc where "inv s'" "outcome = StatusCancelled" "bets s' = (bets s)(b_ID bet \<mapsto> b')" "same_terms bet b'"
      "b_Status b' = outcome" "is_ok r \<Longrightarrow> is_ok rc"
      "WC_CreditWallet W w (b_UserID bet) (b_Currency bet) (b_Stake bet) (''cancel-'' @ b_ReferenceID bet) meta = (w', rc)"
proof -
  obtain s1 r1 where u: "BO_UpdateBetStatusAndOutcome B (E 1) s (b_ID bet) outcome now = (s1, r1)" by force
  note up = update_outcome [OF assms(1,2) u]
  show thesis
  proof (cases r1)
    case (Inl err)
    then have eq: "s' = s1" "w' = w" "\<not> is_ok r" using assms(3) u by (auto simp: SettleBet_commit_def)
    from up show thesis
    proof (elim conjE disjE exE)
      assume "inv s1" "bets s1 = bets s"
      then show thesis using kept eq by simp
    next
      fix b'
      assume "inv s1" "bets s1 = (bets s)(b_ID bet \<mapsto> b')" "same_terms bet b'" "b_Status b' = outcome"
      then show thesis using marked eq by simp
    qed
  next
    case (Inr x)
    then obtain b1 where b1: "inv s1" "bets s1 = (bets s)(b_ID bet \<mapsto> b1)" "same_terms bet b1" "b_Status b1 = outcome"
      using up by auto
    have at: "bets s1 (b_ID bet) = Some b1" using b1(2) by simp
    have paid: "\<exists>b' rc. inv s' \<and> bets s' = (bets s)(b_ID bet \<mapsto> b') \<and> same_terms bet b' \<and> b_Status b' = outcome
        \<and> (is_ok r \<longrightarrow> is_ok rc) \<and> WC_CreditWallet W w (b_UserID bet) (b_Currency bet) amount ref meta = (w', rc)"
      if p: "settle_paid B W E (s1, w) bet amount ref meta m1 m2 = ((s', w'), r)" for amount ref meta m1 m2
    proof -
      obtain w1 rc where c: "WC_CreditWallet W w (b_UserID bet) (b_Currency bet) amount ref meta = (w1, rc)" by force
      show ?thesis
      proof (cases rc)
        case (Inl err)
        then have "s' = s1" "w' = w1" "\<not> is_ok r" using p c by (auto simp: settle_paid_def)
        with b1 c Inl show ?thesis by auto
      next
        case (Inr tx)
        obtain s2 r2 where sc: "BO_SetCreditTransactionID B (E 2) s1 (b_ID bet) tx = (s2, r2)" by force
        have eq: "s' = s2" "w' = w1" using p c Inr sc by (auto simp: settle_paid_def split: sum.splits)
        from set_credit [OF b1(1) at sc]
        have "\<exists>b'. inv s2 \<and> bets s2 = (bets s)(b_ID bet \<mapsto> b') \<and> same_terms bet b' \<and> b_Status b' = outcome"
          using b1 same_terms_trans [OF b1(3)] by (metis fun_upd_upd)
        then show ?thesis using eq c Inr by auto
      qed
    qed
    show thesis
    proof (cases "outcome = StatusWon")
      case True
      then show thesis
        using paid assms(3) u Inr won [OF _ True] by (simp add: SettleBet_commit_def) blast
    next
      case not_won: False
      show thesis
      proof (cases "outcome = StatusCancelled")
        case True
        then show thesis
          using paid assms(3) u Inr not_won cancelled [OF _ True] by (simp add: SettleBet_commit_def) blast
      next
        case False
        then have "s' = s1" "w' = w" using assms(3) u Inr not_won by (simp_all add: SettleBet_commit_def)
        then show thesis using marked [of b1] b1 not_won False by simp
      qed
    qed
  qed
qed

text \<open>A call of \<open>PlaceBet\<close> answers without a trace, or its checks passed and the bet is committed.\<close>

lemma place_cases:
  assumes "inv s" and "PlaceBet D J B W F E now (s, w) u ev m oc stake cur ref = ((s', w'), r)"
  obtains (early) "s' = s" "w' = w" "\<And>b. r = Inr b \<Longrightarrow> bet_of (bets s) u ref b"
  | (commit) odds payout where "PlaceBet_commit J B W E now (s, w) (new_bet u ev m oc stake cur ref odds payout now) = ((s', w'), r)"
      "price_bet D F ev m oc stake = Inr (odds, payout)" "decimalGreaterThanZero D stake = Inr True"
      "\<And>i b. bets s i = Some b \<Longrightarrow> b_UserID b = u \<Longrightarrow> b_ReferenceID b \<noteq> ref"
      "u \<noteq> [] \<and> ev \<noteq> [] \<and> m \<noteq> [] \<and> oc \<noteq> [] \<and> stake \<noteq> [] \<and> cur \<noteq> [] \<and> ref \<noteq> []"
proof (cases "u = [] \<or> ev = [] \<or> m = [] \<or> oc = [] \<or> stake = [] \<or> cur = [] \<or> ref = []")
  case True
  then show thesis using assms(2) early unfolding PlaceBet_def by auto
next
  case fields: False
  show thesis
  proof (cases "decimalGreaterThanZero D stake = Inr True")
    case False
    then have "s' = s \<and> w' = w \<and> \<not> is_ok r"
      using assms(2) fields by (auto simp: PlaceBet_def split: sum.splits if_splits)
    then show thesis by (intro early) auto
  next
    case gt: True
    show thesis
    proof (cases "BO_GetBetByReference B (E 0) s u ref")
      case (Inr b)
      then have "s' = s \<and> w' = w \<and> r = Inr b" using assms(2) fields gt by (auto simp: PlaceBet_def)
      then show thesis using early by_reference [OF assms(1) Inr] by (simp add: bet_of_def)
    next
      case (Inl err)
      show thesis
      proof (cases "errors_Is err ErrBetNotFound")
        case False
        then have "s' = s \<and> w' = w \<and> \<not> is_ok r" using assms(2) fields gt Inl by (auto simp: PlaceBet_def)
        then show thesis by (intro early) auto
      next
        case True
        have new: "b_ReferenceID b \<noteq> ref" if "bets s i = Some b" "b_UserID b = u" for i b
          using reference_found [OF assms(1) that(1), of "E 0"] that(2) Inl True by auto
        show thesis
        proof (cases "price_bet D F ev m oc stake")
          case (Inl err2)
          then have "s' = s \<and> w' = w \<and> \<not> is_ok r"
            using assms(2) fields gt \<open>BO_GetBetByReference B (E 0) s u ref = Inl err\<close> True by (auto simp: PlaceBet_def)
          then show thesis by (intro early) auto
        next
          case (Inr op)
          then obtain odds payout where op: "price_bet D F ev m oc stake = Inr (odds, payout)" by (cases op) auto
          then have "PlaceBet_commit J B W E now (s, w) (new_bet u ev m oc stake cur ref odds payout now) = ((s', w'), r)"
            using assms(2) fields gt \<open>BO_GetBetByReference B (E 0) s u ref = Inl err\<close> True by (auto simp: PlaceBet_def)
          then show thesis using commit op gt new fields by blast
        qed
      qed
    qed
  qed
qed

lemma settle_cases:
  assumes "inv s" and "SettleBet B W E now (s, w) i outcome = ((s', w'), r)"
  obtains (early) "s' = s" "w' = w" "\<not> is_ok r"
  | (commit) bet where "SettleBet_commit B W E now (s, w) bet outcome = ((s', w'), r)" "bets s (b_ID bet) = Some bet"
      "b_Status bet = StatusPending" "final_status outcome" "BO_GetBet B (E 0) s i = Inr bet"
proof (cases "i = [] \<or> outcome \<noteq> StatusWon \<and> outcome \<noteq> StatusLost \<and> outcome \<noteq> StatusCancelled")
  case True
  then show thesis using assms(2) early by (auto simp: SettleBet_def split: if_splits)
next
  case ok: False
  then have final: "final_status outcome" by (auto simp: final_status_def)
  have eq: "SettleBet B W E now (s, w) i outcome = (case BO_GetBet B (E 0) s i of
      Inl err \<Rightarrow> ((s, w), Inl (WrapErr ''get bet: '' err))
    | Inr bet \<Rightarrow> if b_Status bet \<noteq> StatusPending
        then ((s, w), Inl (NewErr (''bet cannot be settled: status='' @ b_Status bet)))
        else SettleBet_commit B W E now (s, w) bet outcome)"
    using ok by (simp add: SettleBet_def del: de_Morgan_conj)
  show thesis
  proof (cases "BO_GetBet B (E 0) s i")
    case (Inl err)
    then show thesis using assms(2) early unfolding eq by auto
  next
    case (Inr bet)
    then show thesis using assms(2) early commit final get_bet [OF assms(1) Inr] unfolding eq
      by (cases "b_Status bet = StatusPending") auto
  qed
qed

end

section \<open>Safety of the money\<close>

text \<open>
  A wallet that writes down every call and its answer, whatever the answer is.  The bets and this
  record show what the sportsbook asks of the wallet.
\<close>

record wallet_entry =
  we_Credit :: bool
  we_UserID :: string
  we_Currency :: string
  we_Amount :: string
  we_Ref :: string
  we_Ok :: bool

type_synonym wallet_log = "wallet_entry list"

definition recording :: "string result \<Rightarrow> string result \<Rightarrow> wallet_log wallet_client" where
  "recording onDebit onCredit =
     \<lparr>WC_DebitWallet = (\<lambda>l u c a ref m. (l @ [\<lparr>we_Credit = False, we_UserID = u, we_Currency = c, we_Amount = a,
         we_Ref = ref, we_Ok = is_ok onDebit\<rparr>], onDebit)),
      WC_CreditWallet = (\<lambda>l u c a ref m. (l @ [\<lparr>we_Credit = True, we_UserID = u, we_Currency = c, we_Amount = a,
         we_Ref = ref, we_Ok = is_ok onCredit\<rparr>], onCredit))\<rparr>"

definition stake_of :: "bet \<Rightarrow> wallet_entry \<Rightarrow> bool" where
  "stake_of b x \<longleftrightarrow> \<not> we_Credit x \<and> we_UserID x = b_UserID b \<and> we_Currency x = b_Currency b
     \<and> we_Amount x = b_Stake b \<and> we_Ref x = b_ReferenceID b"

definition payment_of :: "bet \<Rightarrow> wallet_entry \<Rightarrow> bool" where
  "payment_of b x \<longleftrightarrow> we_Credit x \<and> we_UserID x = b_UserID b \<and> we_Currency x = b_Currency b
     \<and> (b_Status b = StatusWon \<and> we_Amount x = b_PotentialPayout b \<and> we_Ref x = ''settle-'' @ b_ReferenceID b
        \<or> b_Status b = StatusCancelled \<and> we_Amount x = b_Stake b \<and> we_Ref x = ''cancel-'' @ b_ReferenceID b)"

definition taken :: "bet \<Rightarrow> wallet_log \<Rightarrow> bool" where
  "taken b l \<longleftrightarrow> (\<exists>x\<in>set l. stake_of b x \<and> we_Ok x)"

text \<open>
  Every call is a stake of a stored bet, or the one payment a settled bet is owed, and then its
  stake was taken; a pending, won or lost bet has its stake taken; no two debits carry the same
  user and reference, and no two credits.
\<close>

definition book_ok :: "bets \<Rightarrow> wallet_log \<Rightarrow> bool" where
  "book_ok m l \<longleftrightarrow>
     (\<forall>x\<in>set l. \<exists>i b. m i = Some b \<and> (stake_of b x \<or> payment_of b x \<and> taken b l))
     \<and> (\<forall>i b. m i = Some b \<longrightarrow> b_Status b \<in> {StatusPending, StatusWon, StatusLost} \<longrightarrow> taken b l)
     \<and> distinct (List.map (\<lambda>x. (we_Credit x, we_UserID x, we_Ref x)) l)"

inductive book_step ::
  "'d decimal_ops \<Rightarrow> json_codec \<Rightarrow> ('e, 's) bet_ops \<Rightarrow> ('e \<Rightarrow> 's \<Rightarrow> bool) \<Rightarrow> 's \<times> wallet_log \<Rightarrow> 's \<times> wallet_log \<Rightarrow> bool"
  for D J B fresh where
  place: "fresh (E 1) s \<Longrightarrow>
    book_step D J B fresh (s, l) (fst (PlaceBet D J B (recording dr cr) F E now (s, l) u ev m oc stake cur ref))"
| settle: "book_step D J B fresh (s, l) (fst (SettleBet B (recording dr cr) E now (s, l) i outcome))"
| auto: "AutoSettleFromEvents fuel B Z (s, l) = Some (sw', r) \<Longrightarrow> (\<And>p k. \<exists>dr cr. pz_wallet (Z p) k = recording dr cr) \<Longrightarrow>
    book_step D J B fresh (s, l) sw'"
| schedule: "runOnce fuel B Z (s, l) = Some (sw', msgs) \<Longrightarrow> (\<And>p k. \<exists>dr cr. pz_wallet (Z p) k = recording dr cr) \<Longrightarrow>
    book_step D J B fresh (s, l) sw'"

lemma same_terms_stake: "same_terms b b' \<Longrightarrow> stake_of b' x \<longleftrightarrow> stake_of b x"
  by (simp add: same_terms_def stake_of_def)

lemma same_terms_taken: "same_terms b b' \<Longrightarrow> taken b' l \<longleftrightarrow> taken b l"
  by (simp add: taken_def same_terms_stake)

lemma taken_append: "taken b l \<Longrightarrow> taken b (l @ l')"
  by (auto simp: taken_def)

lemma payment_status: "payment_of b x \<Longrightarrow> final_status (b_Status b)"
  by (auto simp: payment_of_def)

text \<open>One bet changes its status and transactions only, no call is made.\<close>

lemma book_ok_update:
  assumes "book_ok m l" and "m i = Some b" and "same_terms b b'" and "\<not> final_status (b_Status b)"
    and "b_Status b' \<in> {StatusPending, StatusWon, StatusLost} \<Longrightarrow> taken b l"
  shows "book_ok (m(i \<mapsto> b')) l"
  unfolding book_ok_def
proof (intro conjI ballI allI impI)
  fix x
  assume "x \<in> set l"
  then obtain j c where c: "m j = Some c" "stake_of c x \<or> payment_of c x \<and> taken c l"
    using assms(1) unfolding book_ok_def by blast
  show "\<exists>j c. (m(i \<mapsto> b')) j = Some c \<and> (stake_of c x \<or> payment_of c x \<and> taken c l)"
  proof (cases "j = i")
    case True
    then have "stake_of b x" using c assms(2,4) payment_status [of c x] by auto
    then show ?thesis using assms(3) by (intro exI [of _ i] exI [of _ b']) (simp add: same_terms_stake)
  next
    case False
    then show ?thesis using c by (intro exI [of _ j] exI [of _ c]) simp
  qed
next
  fix j c
  assume "(m(i \<mapsto> b')) j = Some c" "b_Status c \<in> {StatusPending, StatusWon, StatusLost}"
  then show "taken c l"
    using assms(1,3,5) same_terms_taken unfolding book_ok_def by (cases "j = i") auto
next
  show "distinct (List.map (\<lambda>x. (we_Credit x, we_UserID x, we_Ref x)) l)"
    using assms(1) unfolding book_ok_def by blast
qed

text \<open>A call more is in order when it belongs to a bet and its reference is new.\<close>

lemma book_ok_call:
  assumes "book_ok m l" and "m i = Some b" and "stake_of b x \<or> payment_of b x \<and> taken b l"
    and "(we_Credit x, we_UserID x, we_Ref x) \<notin> (\<lambda>x. (we_Credit x, we_UserID x, we_Ref x)) ` set l"
  shows "book_ok m (l @ [x])"
  using assms taken_append [of _ l "[x]"] unfolding book_ok_def by (auto; blast)

lemma book_ok_new:
  assumes "book_ok m l" and "m i = None" and "b_Status b \<notin> {StatusPending, StatusWon, StatusLost}"
  shows "book_ok (m(i \<mapsto> b)) l"
proof -
  have "\<exists>j c. (m(i \<mapsto> b)) j = Some c \<and> P c" if "\<exists>j c. m j = Some c \<and> P c" for P
    using that assms(2) by (metis fun_upd_other option.distinct(1))
  then show ?thesis using assms unfolding book_ok_def by (auto split: if_splits)
qed

text \<open>The reference of a bet not stored yet, and of a pending bet's payment, is new to the record.\<close>

lemma stake_new:
  assumes "book_ok m l" and "\<And>i b. m i = Some b \<Longrightarrow> b_UserID b = u \<Longrightarrow> b_ReferenceID b \<noteq> ref"
  shows "(False, u, ref) \<notin> (\<lambda>x. (we_Credit x, we_UserID x, we_Ref x)) ` set l"
  using assms by (fastforce simp: book_ok_def stake_of_def payment_of_def)

lemma created_taken: "created b b' \<Longrightarrow> stake_of b' = stake_of b"
  by (rule ext) (simp add: created_def stake_of_def)

context bet_store
begin

lemma payment_new:
  assumes "inv s" and "book_ok (bets s) l" and "bets s i = Some b" and "b_Status b = StatusPending"
    and "ref = ''settle-'' @ b_ReferenceID b \<or> ref = ''cancel-'' @ b_ReferenceID b"
  shows "(True, b_UserID b, ref) \<notin> (\<lambda>x. (we_Credit x, we_UserID x, we_Ref x)) ` set l"
proof
  assume "(True, b_UserID b, ref) \<in> (\<lambda>x. (we_Credit x, we_UserID x, we_Ref x)) ` set l"
  then obtain x where x: "x \<in> set l" "we_Credit x" "we_UserID x = b_UserID b" "we_Ref x = ref" by auto
  then obtain j c where c: "bets s j = Some c" "payment_of c x"
    using assms(2) unfolding book_ok_def stake_of_def by blast
  then have "b_UserID c = b_UserID b" "b_ReferenceID c = b_ReferenceID b"
    using x assms(5) by (auto simp: payment_of_def)
  then have "j = i" using unique_ref [OF assms(1) c(1) assms(3)] by simp
  then show False using c assms(3,4) payment_status [of c x] by auto
qed

lemma place_keeps:
  assumes "inv s" and "fresh (E 1) s" and "book_ok (bets s) l"
    and "PlaceBet D J B (recording dr cr) F E now (s, l) u ev m oc stake cur ref = ((s', l'), r)"
  shows "inv s' \<and> book_ok (bets s') l'"
  using assms(1,4)
proof (cases rule: place_cases)
  case early
  then show ?thesis using assms(1,3) by simp
next
  case (commit odds payout)
  let ?b = "new_bet u ev m oc stake cur ref odds payout now"
  have b: "b_ID ?b = []" "b_UserID ?b = u" "b_ReferenceID ?b = ref" "b_Status ?b = StatusDebitPending"
    "b_Currency ?b = cur" "b_Stake ?b = stake"
    by (simp_all add: new_bet_def empty_bet_def)
  from assms(1,2) b(1) commit(1) show ?thesis
  proof (cases rule: place_commit_cases)
    case kept
    then show ?thesis using assms(3) by simp
  next
    case (unpaid i b')
    then show ?thesis using book_ok_new [OF assms(3) unpaid(3), of b'] b(4)
      by (simp add: created_def status_defs)
  next
    case (debited i b1 b' meta rd)
    let ?x = "\<lparr>we_Credit = False, we_UserID = u, we_Currency = cur, we_Amount = stake, we_Ref = ref, we_Ok = is_ok dr\<rparr>"
    have l': "l' = l @ [?x]" "rd = dr" using debited(7) b by (auto simp: recording_def)
    have b1: "b_Status b1 = StatusDebitPending" "stake_of b1 ?x"
      using debited(4) b by (simp_all add: created_def stake_of_def)
    have k1: "book_ok ((bets s)(i \<mapsto> b1)) l"
      by (rule book_ok_new [OF assms(3) debited(2)]) (simp add: b1 status_defs)
    have k2: "book_ok ((bets s)(i \<mapsto> b1)) (l @ [?x])"
      by (rule book_ok_call [OF k1, of i b1]) (use b1 stake_new [OF assms(3) commit(4)] in auto)
    have tk: "taken b1 (l @ [?x])" if "b_Status b' \<in> {StatusPending, StatusWon, StatusLost}"
      using debited(8) that b(4) b1 l'(2) by (auto simp: taken_def status_defs)
    have "book_ok (((bets s)(i \<mapsto> b1))(i \<mapsto> b')) (l @ [?x])"
      by (rule book_ok_update [OF k2 _ debited(5)]) (use b1 tk in auto)
    then show ?thesis using debited(1,3) l' by simp
  qed
qed

lemma settle_keeps:
  assumes "inv s" and "book_ok (bets s) l"
    and "SettleBet B (recording dr cr) E now (s, l) i outcome = ((s', l'), r)"
  shows "inv s' \<and> book_ok (bets s') l'"
  using assms(1,3)
proof (cases rule: settle_cases)
  case early
  then show ?thesis using assms(1,2) by simp
next
  case (commit bet)
  have tk: "taken bet l" using assms(2) commit(2,3) unfolding book_ok_def by blast
  have upd: "book_ok ((bets s)(b_ID bet \<mapsto> b')) l" if "same_terms bet b'" for b'
    by (rule book_ok_update [OF assms(2) commit(2) that]) (use commit(3) tk in auto)
  have pay: "book_ok ((bets s)(b_ID bet \<mapsto> b')) (l @ [x])"
    if "same_terms bet b'" "payment_of b' x" "we_UserID x = b_UserID bet"
      "we_Ref x = ''settle-'' @ b_ReferenceID bet \<or> we_Ref x = ''cancel-'' @ b_ReferenceID bet" for b' x
    by (rule book_ok_call [OF upd [OF that(1)], of "b_ID bet" b'])
      (use that tk same_terms_taken payment_new [OF assms(1,2) commit(2,3) that(4)] in \<open>auto simp: payment_of_def\<close>)
  from assms(1) commit(2,1) show ?thesis
  proof (cases rule: settle_commit_cases)
    case kept
    then show ?thesis using assms(2) by simp
  next
    case (marked b')
    then show ?thesis using upd by simp
  next
    case (won b' meta rc)
    let ?x = "\<lparr>we_Credit = True, we_UserID = b_UserID bet, we_Currency = b_Currency bet,
      we_Amount = b_PotentialPayout bet, we_Ref = ''settle-'' @ b_ReferenceID bet, we_Ok = is_ok cr\<rparr>"
    have "payment_of b' ?x" using won by (simp add: payment_of_def same_terms_def)
    then show ?thesis using pay [OF won(4), of ?x] won by (auto simp: recording_def)
  next
    case (cancelled b' meta rc)
    let ?x = "\<lparr>we_Credit = True, we_UserID = b_UserID bet, we_Currency = b_Currency bet,
      we_Amount = b_Stake bet, we_Ref = ''cancel-'' @ b_ReferenceID bet, we_Ok = is_ok cr\<rparr>"
    have "payment_of b' ?x" using cancelled by (simp add: payment_of_def same_terms_def)
    then show ?thesis using pay [OF cancelled(4), of ?x] cancelled by (auto simp: recording_def)
  qed
qed

lemma auto_bet_keeps:
  assumes "inv (fst sw)" and "book_ok (bets (fst sw)) (snd sw)" and "\<exists>dr cr. pz_wallet Z k = recording dr cr"
  shows "inv (fst (auto_settle_bet B Z k bet sw)) \<and>
    book_ok (bets (fst (auto_settle_bet B Z k bet sw))) (snd (auto_settle_bet B Z k bet sw))"
proof -
  obtain s l dr cr where sw: "sw = (s, l)" "pz_wallet Z k = recording dr cr" using assms(3) by (cases sw) auto
  have "inv (fst (fst (SettleBet B (recording dr cr) E now (s, l) i oc)))
      \<and> book_ok (bets (fst (fst (SettleBet B (recording dr cr) E now (s, l) i oc))))
          (snd (fst (SettleBet B (recording dr cr) E now (s, l) i oc)))" for E now i oc
    using settle_keeps [of s l dr cr E now i oc] assms(1,2) sw(1)
    by (cases "SettleBet B (recording dr cr) E now (s, l) i oc") auto
  with assms(1,2) sw show ?thesis by (simp add: auto_settle_bet_def split: sum.splits)
qed

lemma auto_page_keeps:
  assumes "\<And>k. \<exists>dr cr. pz_wallet Z k = recording dr cr"
  shows "inv (fst sw) \<Longrightarrow> book_ok (bets (fst sw)) (snd sw) \<Longrightarrow> inv (fst (auto_settle_page B Z k bs sw)) \<and>
    book_ok (bets (fst (auto_settle_page B Z k bs sw))) (snd (auto_settle_page B Z k bs sw))"
  using auto_bet_keeps [OF _ _ assms] by (induction bs arbitrary: k sw) auto

lemma auto_loop_keeps:
  assumes "\<And>p k. \<exists>dr cr. pz_wallet (Z p) k = recording dr cr"
  shows "AutoSettle_loop fuel B Z page sw = Some (sw', r) \<Longrightarrow> inv (fst sw) \<Longrightarrow> book_ok (bets (fst sw)) (snd sw) \<Longrightarrow>
    inv (fst sw') \<and> book_ok (bets (fst sw')) (snd sw')"
proof (induction fuel arbitrary: page sw)
  case (Suc fuel)
  show ?case
  proof (cases "BO_ListPendingBets B (pz_env (Z page) 0 0) (fst sw) page 100")
    case (Inl err)
    then show ?thesis using Suc.prems by auto
  next
    case (Inr pending)
    then show ?thesis
      using Suc auto_page_keeps [OF assms Suc.prems(2,3), of page 1 pending]
      by (auto simp: Let_def split: if_splits)
  qed
qed simp

end

text \<open>The scheduler's pass does to the states what \<open>AutoSettleFromEvents\<close> does.\<close>

lemma scheduler_bet_state: "fst (scheduler_bet B Z k bet sw) = auto_settle_bet B Z k bet sw"
  by (auto simp: scheduler_bet_def auto_settle_bet_def split: sum.splits prod.splits)

lemma scheduler_page_state: "fst (scheduler_page B Z k bs sw) = auto_settle_page B Z k bs sw"
proof (induction bs arbitrary: k sw)
  case (Cons b bs)
  obtain sw1 msg where b: "scheduler_bet B Z k b sw = (sw1, msg)" by (cases "scheduler_bet B Z k b sw")
  then have "auto_settle_bet B Z k b sw = sw1" using scheduler_bet_state [of B Z k b sw] by simp
  with b Cons [of "Suc k" sw1] show ?case by (simp add: case_prod_unfold)
qed simp

lemma runOnce_loop_state:
  "map_option fst (runOnce_loop fuel B Z page sw) = map_option fst (AutoSettle_loop fuel B Z page sw)"
proof (induction fuel arbitrary: page sw)
  case (Suc fuel)
  show ?case
  proof (cases "BO_ListPendingBets B (pz_env (Z page) 0 0) (fst sw) page 100")
    case (Inl err)
    then show ?thesis by (simp add: svc_ListPendingBets_def schedulerPageSize_def)
  next
    case (Inr pending)
    obtain sw1 msgs where p: "scheduler_page B (Z page) 1 pending sw = (sw1, msgs)" by (cases "scheduler_page B (Z page) 1 pending sw")
    then have "auto_settle_page B (Z page) 1 pending sw = sw1" using scheduler_page_state [of B "Z page" 1 pending sw] by simp
    with p Inr Suc.IH [of "wrap64 (page + 1)" sw1] show ?thesis
      by (simp add: svc_ListPendingBets_def schedulerPageSize_def option.map_comp o_def case_prod_unfold)
  qed
qed simp

context bet_store
begin

lemma book_step_keeps:
  assumes "book_step D J B fresh sl sl'" and "inv (fst sl)" and "book_ok (bets (fst sl)) (snd sl)"
  shows "inv (fst sl') \<and> book_ok (bets (fst sl')) (snd sl')"
  using assms
proof (cases rule: book_step.cases)
  case (place E s l dr cr F now u ev m oc stake cur ref)
  then show ?thesis using assms(2,3) place_keeps [of s E l D J dr cr F now u ev m oc stake cur ref]
    by (cases "PlaceBet D J B (recording dr cr) F E now (s, l) u ev m oc stake cur ref") auto
next
  case (settle s l dr cr E now i outcome)
  then show ?thesis using assms(2,3) settle_keeps [of s l dr cr E now i outcome]
    by (cases "SettleBet B (recording dr cr) E now (s, l) i outcome") auto
next
  case (auto fuel Z s l r)
  then show ?thesis using assms(2,3) auto_loop_keeps [of Z fuel 1 "(s, l)"] by (simp add: AutoSettleFromEvents_def)
next
  case (schedule fuel Z s l msgs)
  then have "map_option fst (AutoSettle_loop fuel B Z 1 (s, l)) = Some sl'"
    using runOnce_loop_state [of fuel B Z 1 "(s, l)"] by (simp add: runOnce_def)
  then obtain r where "AutoSettle_loop fuel B Z 1 (s, l) = Some (sl', r)" by auto
  then show ?thesis using schedule assms(2,3) auto_loop_keeps [of Z fuel 1 "(s, l)"] by simp
qed

lemma book_reach:
  assumes "reach (s0, []) (book_step D J B fresh) sl" and "inv s0" and "bets s0 = (\<lambda>_. None)"
  shows "inv (fst sl)" and "book_ok (bets (fst sl)) (snd sl)"
proof -
  have "inv (fst sl) \<and> book_ok (bets (fst sl)) (snd sl)"
    using assms(1)
  proof (induction rule: reach.induct)
    case reach_init
    then show ?case using assms(2,3) by (simp add: book_ok_def)
  next
    case (reach_step sl sl')
    then show ?case using book_step_keeps by blast
  qed
  then show "inv (fst sl)" "book_ok (bets (fst sl)) (snd sl)" by simp_all
qed

end

section \<open>Automatic settlement returns\<close>

text \<open>More fuel does not change the result.\<close>

lemma AutoSettle_loop_more:
  "AutoSettle_loop fuel B Z page sw = Some x \<Longrightarrow> fuel \<le> fuel' \<Longrightarrow> AutoSettle_loop fuel' B Z page sw = Some x"
proof (induction fuel arbitrary: page sw fuel')
  case (Suc fuel)
  then obtain f where "fuel' = Suc f" "fuel \<le> f" by (cases fuel') auto
  then show ?case
    using Suc.prems(1) Suc.IH [of "wrap64 (page + 1)" _ f]
    by (cases "BO_ListPendingBets B (pz_env (Z page) 0 0) (fst sw) page 100") (auto simp: Let_def split: if_splits)
qed simp

context bet_store
begin

lemma settle_dom:
  assumes "inv s" and "SettleBet B W E now (s, w) i outcome = ((s', w'), r)"
  shows "inv s' \<and> dom (bets s') = dom (bets s)"
  using assms
proof (cases rule: settle_cases)
  case early
  then show ?thesis using assms(1) by simp
next
  case (commit bet)
  from assms(1) commit(2,1) show ?thesis
    by (cases rule: settle_commit_cases) (use commit(2) in auto)
qed

lemma auto_page_dom:
  "inv (fst sw) \<Longrightarrow> inv (fst (auto_settle_page B Z k bs sw)) \<and> dom (bets (fst (auto_settle_page B Z k bs sw))) = dom (bets (fst sw))"
proof (induction bs arbitrary: k sw)
  case (Cons b bs)
  obtain s w where sw: "sw = (s, w)" by force
  have "inv (fst (auto_settle_bet B Z k b sw)) \<and> dom (bets (fst (auto_settle_bet B Z k b sw))) = dom (bets s)"
  proof (cases "resolveOutcomeStatus (pz_feed Z k) (b_EventID b) (b_MarketID b) (b_OutcomeID b)")
    case (Inr oc)
    obtain s' w' r where set: "SettleBet B (pz_wallet Z k) (pz_env Z k) (pz_now Z k) (s, w) (b_ID b) oc = ((s', w'), r)"
      by (metis prod.collapse)
    have "inv s" using Cons.prems sw by simp
    note settle_dom [OF this set]
    then show ?thesis using Inr set sw \<open>inv s\<close> by (simp add: auto_settle_bet_def)
  qed (use Cons.prems sw in \<open>simp add: auto_settle_bet_def\<close>)
  then show ?case using Cons.IH [of "auto_settle_bet B Z k b sw" "Suc k"] sw by simp
qed simp

end

text \<open>A store with finitely many bets whose pending list ends.\<close>

locale paged_bet_store = bet_store +
  assumes finite_bets: "inv s \<Longrightarrow> finite (dom (bets s))"
    and pages_end: "inv s \<Longrightarrow> 1 \<le> p \<Longrightarrow> 1 \<le> n \<Longrightarrow> p * n < 2 ^ 62 \<Longrightarrow> int (card (dom (bets s))) \<le> (p - 1) * n \<Longrightarrow>
      BO_ListPendingBets B E s p n = Inr bs \<Longrightarrow> bs = []"
begin

lemma AutoSettle_loop_returns:
  assumes "inv (fst sw)" and "card (dom (bets (fst sw))) < 2 ^ 40" and "1 \<le> page" and "page \<le> 2 ^ 40"
    and "int (card (dom (bets (fst sw)))) \<le> (page - 1 + int fuel) * 100"
  shows "AutoSettle_loop (Suc fuel) B Z page sw \<noteq> None"
  using assms
proof (induction fuel arbitrary: page sw)
  case 0
  then show ?case
    using pages_end [of "fst sw" page 100]
    by (auto split: sum.splits)
next
  case (Suc fuel)
  let ?N = "int (card (dom (bets (fst sw))))"
  show ?case
  proof (cases "BO_ListPendingBets B (pz_env (Z page) 0 0) (fst sw) page 100")
    case (Inr pending)
    show ?thesis
    proof (cases "pending = []")
      case False
      have "\<not> ?N \<le> (page - 1) * 100"
        using pages_end [OF Suc.prems(1,3) _ _ _ Inr] Suc.prems(4) False by auto
      moreover have "?N < 1099511627776" using Suc.prems(2) by simp
      ultimately have page: "page + 1 \<le> 2 ^ 40" by simp
      let ?sw = "auto_settle_page B (Z page) 1 pending sw"
      have kept: "inv (fst ?sw)" "dom (bets (fst ?sw)) = dom (bets (fst sw))"
        using auto_page_dom [OF Suc.prems(1), of "Z page" 1 pending] by simp_all
      have w: "wrap64 (page + 1) = page + 1" using Suc.prems(3) page by (intro wrap64_id) auto
      have "AutoSettle_loop (Suc fuel) B Z (page + 1) ?sw \<noteq> None"
        by (rule Suc.IH) (use kept Suc.prems page in auto)
      then show ?thesis using Inr False by (simp add: Let_def w del: AutoSettle_loop.simps(2) add: AutoSettle_loop.simps(2) [of "Suc fuel"])
    qed (simp add: Inr)
  qed simp
qed

lemma AutoSettle_returns:
  assumes "inv s" and "card (dom (bets s)) < 2 ^ 40" and "card (dom (bets s)) div 100 + 2 \<le> fuel"
  shows "\<exists>x. AutoSettleFromEvents fuel B Z (s, w) = Some x"
proof -
  let ?f = "card (dom (bets s)) div 100 + 1"
  have "int (card (dom (bets s))) \<le> (1 - 1 + int ?f) * 100" by simp
  then have "AutoSettle_loop (Suc ?f) B Z 1 (s, w) \<noteq> None"
    using assms(1,2) by (intro AutoSettle_loop_returns) simp_all
  then show ?thesis
    using AutoSettle_loop_more [of "Suc ?f" B Z 1 "(s, w)" _ fuel] assms(3) by (auto simp: AutoSettleFromEvents_def)
qed

end

text \<open>Both stores end their pages.\<close>

lemma mb_dom: "mb_inv m \<Longrightarrow> dom (mget m) = set (List.map fst m) \<and> card (dom (mget m)) = length m"
  using distinct_card [of "List.map fst m"] by (simp add: dom_map_of_conv_image_fst mb_inv_wf)

lemma mb_paged:
  assumes "permutes_entries ord"
  shows "paged_bet_store (mb_ops ord) mget mb_inv mb_fresh"
proof -
  have ends: "paged_bet_store_axioms (mb_ops ord) mget mb_inv"
  proof (unfold_locales, goal_cases)
    case (1 s)
    then show ?case by (simp add: finite_dom_map_of)
  next
    case (2 s p n E bs)
    let ?P = "\<lambda>b. b_Status b = StatusPending"
    let ?L = "insertion_sort older (List.filter ?P (List.map snd (ord s)))"
    note L = sorted_list [OF 2(1) assms strict_older, where P = ?P]
    have "length ?L = card (b_ID ` set ?L)"
      using distinct_card [OF L(3)] L(2,4) by (simp add: card_image)
    also have "\<dots> \<le> card (dom (mget s))"
      using L(2) by (intro card_mono) (auto simp: finite_dom_map_of)
    finally have "length ?L \<le> nat ((p - 1) * n)" using 2(5) by linarith
    moreover have "bs = take (nat n) (drop (nat ((p - 1) * n)) ?L)"
      using 2(6) page_slice_page [OF 2(2,3,4), of ?L]
      by (simp add: mb_ops_def mb_ListPendingBets_def sortBetsByCreatedAsc_def)
    ultimately show ?case by simp
  qed
  show ?thesis by (rule paged_bet_store.intro [OF mb_bet_store [OF assms] ends])
qed

lemma pb_dom: "pb_inv N db \<Longrightarrow> finite (dom (pb_bets db)) \<and> card (dom (pb_bets db)) = length db"
proof -
  assume inv: "pb_inv N db"
  have "dom (pb_bets db) = set (List.map b_ID db)"
    using pb_bets_None [of db] by (auto simp: dom_def)
  then show ?thesis using distinct_card [of "List.map b_ID db"] inv by (simp add: pb_inv_def)
qed

lemma pb_paged:
  assumes "uuid_server N" and "permutes_entries ord"
  shows "paged_bet_store (pb_ops N ord) pb_bets (pb_inv N) (\<lambda>_ _. True)"
proof -
  have ends: "paged_bet_store_axioms (pb_ops N ord) pb_bets (pb_inv N)"
  proof (unfold_locales, goal_cases)
    case (1 s)
    then show ?case by (simp add: pb_dom)
  next
    case (2 s p n E bs)
    let ?xs = "List.filter (\<lambda>b. b_Status b = StatusPending) s"
    have d: "distinct ?xs" using pb_inv_distinct [OF 2(1)] by simp
    then have "length (ord ?xs) = length ?xs"
      using permutes_entries_set [OF assms(2) d] permutes_entries_distinct [OF assms(2) d] by (metis distinct_card)
    moreover have "int (length ?xs) \<le> (p - 1) * n"
      using 2(5) pb_dom [OF 2(1)] length_filter_le [of "\<lambda>b. b_Status b = StatusPending" s] by linarith
    ultimately have len: "length (sort_key b_CreatedAt (ord ?xs)) \<le> nat ((p - 1) * n)"
      by simp
    have "pg_page p n = (n, (p - 1) * n)" using 2(2,3) wrap64_page [OF 2(2,3,4)] by (simp add: pg_page_def Let_def)
    moreover have "pb_list ord ''list pending bets: '' b_CreatedAt (\<lambda>b. b_Status b = StatusPending) E s p n = Inr bs"
      using 2(6) by (simp add: pb_ops_def pb_ListPendingBets_def)
    ultimately show ?case using pb_list_Inr len by fastforce
  qed
  show ?thesis by (rule paged_bet_store.intro [OF pb_bet_store [OF assms] ends])
qed

section \<open>What a settled bet keeps\<close>

context bet_store
begin

lemma settle_final_kept:
  assumes "inv s" and "bets s j = Some b" and "final_status (b_Status b)"
    and "SettleBet B W E now (s, w) i outcome = ((s', w'), r)"
  shows "bets s' j = Some b"
  using assms(1,4)
proof (cases rule: settle_cases)
  case early
  then show ?thesis using assms(2) by simp
next
  case (commit bet)
  then have "j \<noteq> b_ID bet" using assms(2,3) by auto
  from assms(1) commit(2,1) show ?thesis
    by (cases rule: settle_commit_cases) (use assms(2) \<open>j \<noteq> b_ID bet\<close> in auto)
qed

lemma auto_page_final_kept:
  "inv (fst sw) \<Longrightarrow> bets (fst sw) j = Some b \<Longrightarrow> final_status (b_Status b) \<Longrightarrow>
    bets (fst (auto_settle_page B Z k bs sw)) j = Some b"
proof (induction bs arbitrary: k sw)
  case (Cons c bs)
  obtain s w where sw: "sw = (s, w)" by force
  have "inv (fst (auto_settle_bet B Z k c sw)) \<and> bets (fst (auto_settle_bet B Z k c sw)) j = Some b"
  proof (cases "resolveOutcomeStatus (pz_feed Z k) (b_EventID c) (b_MarketID c) (b_OutcomeID c)")
    case (Inr oc)
    obtain s' w' r where set: "SettleBet B (pz_wallet Z k) (pz_env Z k) (pz_now Z k) (s, w) (b_ID c) oc = ((s', w'), r)"
      by (metis prod.collapse)
    have "inv s" "bets s j = Some b" using Cons.prems sw by simp_all
    note settle_dom [OF this(1) set] settle_final_kept [OF this(1,2) Cons.prems(3) set]
    then show ?thesis using Inr set sw \<open>inv s\<close> \<open>bets s j = Some b\<close> by (simp add: auto_settle_bet_def)
  qed (use Cons.prems sw in \<open>simp add: auto_settle_bet_def\<close>)
  then show ?case using Cons.IH [of "auto_settle_bet B Z k c sw" "Suc k"] Cons.prems(3) by simp
qed simp

lemma auto_loop_final_kept:
  "AutoSettle_loop fuel B Z page sw = Some (sw', r) \<Longrightarrow> inv (fst sw) \<Longrightarrow> bets (fst sw) j = Some b \<Longrightarrow>
    final_status (b_Status b) \<Longrightarrow> bets (fst sw') j = Some b"
proof (induction fuel arbitrary: page sw)
  case (Suc fuel)
  show ?case
  proof (cases "BO_ListPendingBets B (pz_env (Z page) 0 0) (fst sw) page 100")
    case (Inl err)
    then show ?thesis using Suc.prems by auto
  next
    case (Inr pending)
    then show ?thesis
      using Suc auto_page_final_kept [OF Suc.prems(2,3,4), of "Z page" 1 pending]
        auto_page_dom [OF Suc.prems(2), of "Z page" 1 pending]
      by (auto simp: Let_def split: if_splits)
  qed
qed simp

lemma place_final_kept:
  assumes "inv s" and "fresh (E 1) s" and "bets s j = Some b" and "final_status (b_Status b)"
    and "PlaceBet D J B W F E now (s, w) u ev m oc stake cur ref = ((s', w'), r)"
  shows "bets s' j = Some b"
  using assms(1,5)
proof (cases rule: place_cases)
  case early
  then show ?thesis using assms(3) by simp
next
  case (commit odds payout)
  have "b_ID (new_bet u ev m oc stake cur ref odds payout now) = []" by (simp add: new_bet_def empty_bet_def)
  from assms(1,2) this commit(1) show ?thesis
    by (cases rule: place_commit_cases) (use assms(3) in auto)
qed

lemma book_step_final_kept:
  assumes "book_step D J B fresh sl sl'" and "inv (fst sl)" and "bets (fst sl) j = Some b" and "final_status (b_Status b)"
  shows "bets (fst sl') j = Some b"
  using assms
proof (cases rule: book_step.cases)
  case (place E s l dr cr F now u ev m oc stake cur ref)
  then show ?thesis using assms(2,3,4) place_final_kept [of s E j b D J "recording dr cr" F now l u ev m oc stake cur ref]
    by (cases "PlaceBet D J B (recording dr cr) F E now (s, l) u ev m oc stake cur ref") auto
next
  case (settle s l dr cr E now i outcome)
  then show ?thesis using assms(2,3,4) settle_final_kept [of s j b "recording dr cr" E now l i outcome]
    by (cases "SettleBet B (recording dr cr) E now (s, l) i outcome") auto
next
  case (auto fuel Z s l r)
  then show ?thesis using assms(2,3,4) auto_loop_final_kept [of fuel Z 1 "(s, l)" sl' r j b]
    by (simp add: AutoSettleFromEvents_def)
next
  case (schedule fuel Z s l msgs)
  then have "map_option fst (AutoSettle_loop fuel B Z 1 (s, l)) = Some sl'"
    using runOnce_loop_state [of fuel B Z 1 "(s, l)"] by (simp add: runOnce_def)
  then obtain r where "AutoSettle_loop fuel B Z 1 (s, l) = Some (sl', r)" by auto
  then show ?thesis using schedule assms(2,3,4) auto_loop_final_kept [of fuel Z 1 "(s, l)" sl' r j b] by simp
qed

lemma reach_final_kept:
  assumes "reach (s0, []) (book_step D J B fresh) sl" and "inv s0" and "bets s0 = (\<lambda>_. None)"
    and "bets (fst sl) j = Some b" and "final_status (b_Status b)" and "reach sl (book_step D J B fresh) sl'"
  shows "bets (fst sl') j = Some b"
  using assms(6)
proof (induction rule: reach.induct)
  case reach_init
  then show ?case using assms(4) .
next
  case (reach_step sl1 sl2)
  have "inv (fst sl1)" using book_reach(1) [OF reach_trans [OF reach_step.hyps(1) assms(1)] assms(2,3)] .
  then show ?case using book_step_final_kept [OF reach_step.hyps(2) _ reach_step.IH assms(5)] by simp
qed

lemma place_again:
  assumes "inv s" and "bets s i = Some b"
    and "PlaceBet D J B W F E now (s, w) (b_UserID b) ev m oc stake cur (b_ReferenceID b) = ((s', w'), r)"
  shows "s' = s \<and> w' = w \<and> (\<forall>b'. r = Inr b' \<longrightarrow> b' = b)"
  using assms(1,3)
proof (cases rule: place_cases)
  case early
  have "b' = b" if "r = Inr b'" for b'
  proof -
    have b': "bets s (b_ID b') = Some b'" "b_UserID b' = b_UserID b" "b_ReferenceID b' = b_ReferenceID b"
      using early(3) [OF that] by (simp_all add: bet_of_def)
    from unique_ref [OF assms(1) b'(1) assms(2) b'(2,3)] show ?thesis using b'(1) assms(2) by simp
  qed
  then show ?thesis using early(1,2) by simp
next
  case (commit odds payout)
  then show ?thesis using assms(2) by blast
qed

text \<open>Once a placing is accepted under a new reference, its checks pass with every wallet.\<close>

lemma place_commits:
  assumes "inv s" and "\<forall>i b. bets s i = Some b \<longrightarrow> b_UserID b = u \<longrightarrow> b_ReferenceID b \<noteq> ref"
    and "PlaceBet D J B W F E now (s, w) u ev m oc stake cur ref = ((s', w'), Inr b)"
  obtains odds payout where "\<And>W w. PlaceBet D J B W F E now (s, w) u ev m oc stake cur ref
      = PlaceBet_commit J B W E now (s, w) (new_bet u ev m oc stake cur ref odds payout now)"
proof -
  have fields: "\<not> (u = [] \<or> ev = [] \<or> m = [] \<or> oc = [] \<or> stake = [] \<or> cur = [] \<or> ref = [])"
    using assms(3) by (auto simp: PlaceBet_def split: if_splits)
  have gt: "decimalGreaterThanZero D stake = Inr True"
    using assms(3) fields by (auto simp: PlaceBet_def split: sum.splits if_splits)
  have get: "\<exists>err. BO_GetBetByReference B (E 0) s u ref = Inl err \<and> errors_Is err ErrBetNotFound"
  proof (cases "BO_GetBetByReference B (E 0) s u ref")
    case (Inl err)
    then show ?thesis using assms(3) fields gt by (auto simp: PlaceBet_def split: if_splits)
  next
    case (Inr b')
    then show ?thesis using by_reference [OF assms(1) Inr] assms(2) by (auto simp: bet_of_def)
  qed
  have "\<exists>odds payout. price_bet D F ev m oc stake = Inr (odds, payout)"
    using assms(3) fields gt get by (auto simp: PlaceBet_def split: sum.splits)
  then show thesis using that fields gt get by (auto simp: PlaceBet_def)
qed

text \<open>What a placing that ends as pending has done.\<close>

lemma place_accepted_commit:
  assumes "inv s" and "fresh (E 1) s" and "\<forall>i b. bets s i = Some b \<longrightarrow> b_UserID b = b_UserID bet \<longrightarrow> b_ReferenceID b \<noteq> b_ReferenceID bet"
    and "b_ID bet = []" and "b_Status bet = StatusDebitPending"
    and "PlaceBet_commit J B W E now (s, w) bet = ((s', w'), Inr b)" and "b_Status b = StatusPending"
  obtains s1 b1 tx where "BO_CreateBet B (E 1) s bet = (s1, Inr (b_ID b))" and "inv s1" and "bets s1 (b_ID b) = Some b1"
    and "created bet b1"
    and "WC_DebitWallet W w (b_UserID bet) (b_Currency bet) (b_Stake bet) (b_ReferenceID bet)
      (stake_metadata J (b_EventID bet) (b_MarketID bet) (b_OutcomeID bet) (b_Odds bet) (b_ReferenceID bet)) = (w', Inr tx)"
    and "BO_UpdateBetStatusAndDebitTx B (E 4) s1 (b_ID b) StatusPending tx zero_time = (s', Inr ())"
proof -
  obtain s1 r1 where c: "BO_CreateBet B (E 1) s bet = (s1, r1)" by force
  note cr = create [OF assms(1,2,4) c]
  show thesis
  proof (cases r1)
    case (Inl err)
    have "BO_GetBetByReference B (E 2) s1 (b_UserID bet) (b_ReferenceID bet) = Inr b"
      using assms(6) c Inl by (auto simp: PlaceBet_commit_def split: if_splits sum.splits)
    from by_reference [OF conjunct1 [OF cr] this]
    have b: "bets s1 (b_ID b) = Some b" "b_UserID b = b_UserID bet" "b_ReferenceID b = b_ReferenceID bet" by simp_all
    then have "bets s (b_ID b) \<noteq> Some b" using assms(3) by blast
    then obtain i b' where "bets s1 = (bets s)(i \<mapsto> b')" "created bet b'" using cr b(1) by auto
    with b(1) \<open>bets s (b_ID b) \<noteq> Some b\<close> have "created bet b" by (auto split: if_splits)
    then show thesis using assms(5,7) by (simp add: created_def status_defs)
  next
    case (Inr i)
    then obtain b1 where b1: "inv s1" "bets s1 i = Some b1" "created bet b1" using cr by auto
    obtain w1 rd where d: "WC_DebitWallet W w (b_UserID bet) (b_Currency bet) (b_Stake bet) (b_ReferenceID bet)
      (stake_metadata J (b_EventID bet) (b_MarketID bet) (b_OutcomeID bet) (b_Odds bet) (b_ReferenceID bet)) = (w1, rd)" by force
    then obtain tx where tx: "rd = Inr tx" using assms(6) c Inr by (cases rd) (auto simp: PlaceBet_commit_def)
    obtain s2 r2 where u: "BO_UpdateBetStatusAndDebitTx B (E 4) s1 i StatusPending tx zero_time = (s2, r2)" by force
    have "r2 = Inr () \<and> s2 = s' \<and> w1 = w' \<and> b_ID b = i"
      using assms(6) c Inr d tx u by (auto simp: PlaceBet_commit_def split: sum.splits)
    then show thesis using that c Inr b1 d tx u by blast
  qed
qed

text \<open>
  A bet accepted as pending under a new reference: it is stored with its stake, and the wallet was
  asked for exactly the stake, once, and said yes.
\<close>

lemma place_accepted:
  assumes "inv s" and "fresh (E 1) s" and "\<forall>i b. bets s i = Some b \<longrightarrow> b_UserID b = u \<longrightarrow> b_ReferenceID b \<noteq> ref"
    and "PlaceBet D J B W F E now (s, w) u ev m oc stake cur ref = ((s', w'), Inr b)" and "b_Status b = StatusPending"
  shows "\<exists>b' meta tx odds payout. bets s' (b_ID b) = Some b' \<and> bets s (b_ID b) = None \<and> b_Status b' = StatusPending
      \<and> b_UserID b' = u \<and> b_Currency b' = cur \<and> b_Stake b' = stake \<and> b_ReferenceID b' = ref \<and> b_PotentialPayout b' = payout
      \<and> b_Odds b' = odds \<and> ev \<noteq> [] \<and> m \<noteq> []
      \<and> b_DebitTransactionID b' = tx \<and> price_bet D F ev m oc stake = Inr (odds, payout) \<and> decimalGreaterThanZero D stake = Inr True
      \<and> WC_DebitWallet W w u cur stake ref meta = (w', Inr tx)"
  using assms(1,4)
proof (cases rule: place_cases)
  case early
  then show ?thesis using assms(3) by (auto simp: bet_of_def)
next
  case (commit odds payout)
  let ?b = "new_bet u ev m oc stake cur ref odds payout now"
  have nb: "b_ID ?b = []" "b_UserID ?b = u" "b_ReferenceID ?b = ref" "b_Status ?b = StatusDebitPending"
    "b_Currency ?b = cur" "b_Stake ?b = stake" "b_PotentialPayout ?b = payout" "b_Odds ?b = odds"
    by (simp_all add: new_bet_def empty_bet_def)
  from assms(1,2) nb(1) commit(1) show ?thesis
  proof (cases rule: place_commit_cases)
    case kept
    have "bet_of (bets s) u ref b" using kept(3,4) nb by simp
    then show ?thesis using assms(3) by (auto simp: bet_of_def)
  next
    case (unpaid i b')
    have bo: "bets s' (b_ID b) = Some b" "b_UserID b = u" "b_ReferenceID b = ref"
      using unpaid(7) nb by (simp_all add: bet_of_def)
    then have "b = b'" using unpaid(4) assms(3) by (auto split: if_splits)
    then show ?thesis using unpaid(5) assms(5) nb(4) by (simp add: created_def)
  next
    case (debited i b1 b' meta rd)
    then have b': "b_Status b' = StatusPending" "rd = Inr (b_DebitTransactionID b')" "b_ID b = i"
      by auto
    have "bets s' i = Some b'" using debited(3) by simp
    moreover have "b_UserID b' = u \<and> b_Currency b' = cur \<and> b_Stake b' = stake \<and> b_ReferenceID b' = ref \<and> b_PotentialPayout b' = payout
      \<and> b_Odds b' = odds"
      using debited(4,5) nb by (simp add: created_def same_terms_def)
    ultimately show ?thesis using b' debited(2,7) nb commit(2,3,5) by auto
  qed
qed

lemma settle_won:
  assumes "inv s" and "SettleBet B W E now (s, w) i StatusWon = ((s', w'), Inr b)"
  shows "\<exists>b0 b' meta rc. bets s (b_ID b0) = Some b0 \<and> b_Status b0 = StatusPending \<and> BO_GetBet B (E 0) s i = Inr b0
      \<and> bets s' = (bets s)(b_ID b0 \<mapsto> b') \<and> same_terms b0 b' \<and> b_Status b' = StatusWon \<and> is_ok rc
      \<and> WC_CreditWallet W w (b_UserID b0) (b_Currency b0) (b_PotentialPayout b0) (''settle-'' @ b_ReferenceID b0) meta = (w', rc)"
  using assms
proof (cases rule: settle_cases)
  case early
  then show ?thesis by simp
next
  case (commit bet)
  from assms(1) commit(2,1) show ?thesis
  proof (cases rule: settle_commit_cases)
    case (won b' meta rc)
    then show ?thesis using commit by fastforce
  qed (auto simp: status_defs)
qed

end

section \<open>Calls on Postgres that go through\<close>

lemma pb_update_ok:
  assumes "uuid_server N" and "pb_inv N db" and "pb_bets db i = Some b" and "pe_fault E 0 = None" and "same_terms b (f b)"
    and "case st of None \<Rightarrow> True | Some x \<Rightarrow> status_allowed x"
  obtains db' where "pb_update prefix N E db i st f = (db', Inr ())" and "pb_inv N db'" and "pb_bets db' = (pb_bets db)(i \<mapsto> f b)"
proof -
  have u: "bl_uuid N i = Some i" using assms(2,3) by (auto simp: pb_bets_iff pb_inv_def)
  have "\<exists>db' x. upd_bet N i st f db = Inr (db', x)"
    using u assms(3,6) by (auto simp: upd_bet_def pb_bets_def split: option.splits)
  then obtain db' x where up: "upd_bet N i st f db = Inr (db', x)" by blast
  note spec = uuid_server.upd_bet_spec [OF assms(1-3) up assms(5)]
  then have "pb_update prefix N E db i st f = (db', Inr ())" using up assms(4) by (simp add: pb_update_def pg_auto_def)
  with spec that show thesis by blast
qed

lemma pb_update_is_ok: "is_ok (snd (pb_update p N E db i st f)) = is_ok (snd (pb_update p N E db i st g))"
  by (auto simp: pb_update_def pg_auto_def upd_bet_def split: option.splits)

lemma settle_update_ok:
  assumes "uuid_server N" and "pb_inv N db" and "pb_bets db i = Some b" and "pe_fault E 0 = None" and "status_allowed outcome"
  obtains db' b' where "BO_UpdateBetStatusAndOutcome (pb_ops N ord) E db i outcome now = (db', Inr ())" and "pb_inv N db'"
    and "pb_bets db' i = Some b'" and "same_terms b b'" and "b_Status b' = outcome"
proof -
  let ?f = "\<lambda>b. pb_settle_at N now (b\<lparr>b_Status := outcome\<rparr>)"
  have f: "same_terms b (?f b)" "b_Status (?f b) = outcome" by (simp_all add: same_terms_def pb_settle_at_def)
  obtain db' where "pb_update ''update bet status and outcome: '' N E db i (Some outcome) ?f = (db', Inr ())" "pb_inv N db'"
    "pb_bets db' = (pb_bets db)(i \<mapsto> ?f b)"
    using pb_update_ok [where f = ?f and st = "Some outcome", OF assms(1-4) f(1)] assms(5) by auto
  with that f show thesis by (simp add: pb_ops_def pb_UpdateBetStatusAndOutcome_def)
qed

lemma settle_paid_ok:
  assumes "uuid_server N" and "pb_inv N db" and "pb_bets db (b_ID bet) = Some b" and "pe_fault (E 2) 0 = None"
    and "WC_CreditWallet W w (b_UserID bet) (b_Currency bet) amount ref meta = (w', Inr tx)"
  obtains db' b' r where "settle_paid (pb_ops N ord) W E (db, w) bet amount ref meta m1 m2 = ((db', w'), Inr r)" and "pb_inv N db'"
    and "pb_bets db' (b_ID bet) = Some b'" and "same_terms b b'" and "b_Status b' = b_Status b"
proof -
  let ?f = "\<lambda>b. b\<lparr>b_CreditTransactionID := tx\<rparr>"
  have f: "same_terms b (?f b)" by (simp add: same_terms_def)
  obtain db' where "pb_update ''set credit transaction id: '' N (E 2) db (b_ID bet) None ?f = (db', Inr ())" "pb_inv N db'"
    "pb_bets db' = (pb_bets db)(b_ID bet \<mapsto> ?f b)"
    using pb_update_ok [where f = ?f and st = None, OF assms(1-4) f] by auto
  with that f assms(5) show thesis by (simp add: settle_paid_def pb_ops_def pb_SetCreditTransactionID_def)
qed

text \<open>The changes of a settlement that pays go through whatever the status of the row has become.\<close>

definition paid_by :: "bet \<Rightarrow> string \<Rightarrow> wallet_entry" where
  "paid_by bet outcome =
     \<lparr>we_Credit = True, we_UserID = b_UserID bet, we_Currency = b_Currency bet,
      we_Amount = (if outcome = StatusWon then b_PotentialPayout bet else b_Stake bet),
      we_Ref = (if outcome = StatusWon then ''settle-'' else ''cancel-'') @ b_ReferenceID bet, we_Ok = True\<rparr>"

lemma settle_commit_pays:
  assumes "uuid_server N" and "pb_inv N db" and "pb_bets db (b_ID bet) = Some b" and "\<And>n. pe_fault (E n) 0 = None"
    and "outcome = StatusWon \<or> outcome = StatusCancelled"
  obtains db' b' r where
    "SettleBet_commit (pb_ops N ord) (recording d (Inr c)) E now (db, l) bet outcome = ((db', l @ [paid_by bet outcome]), Inr r)"
    and "pb_inv N db'" and "pb_bets db' (b_ID bet) = Some b'" and "same_terms b b'" and "b_Status b' = outcome"
proof -
  have "status_allowed outcome" using assms(5) by (auto simp: status_allowed_def)
  from settle_update_ok [OF assms(1-3) assms(4) [of 1] this] obtain db1 b1 where
    1: "BO_UpdateBetStatusAndOutcome (pb_ops N ord) (E 1) db (b_ID bet) outcome now = (db1, Inr ())" "pb_inv N db1"
      "pb_bets db1 (b_ID bet) = Some b1" "same_terms b b1" "b_Status b1 = outcome" .
  let ?meta = "Some [(''bet_id'', JStr (b_ID bet)), (''outcome'', JStr (if outcome = StatusWon then ''won'' else ''cancelled'')),
    (if outcome = StatusWon then ''payout'' else ''refund'', JStr (we_Amount (paid_by bet outcome)))]"
  have credit: "WC_CreditWallet (recording d (Inr c)) l (b_UserID bet) (b_Currency bet) (we_Amount (paid_by bet outcome))
      (we_Ref (paid_by bet outcome)) ?meta = (l @ [paid_by bet outcome], Inr c)"
    by (simp add: recording_def paid_by_def)
  obtain db' b' r where p: "settle_paid (pb_ops N ord) (recording d (Inr c)) E (db1, l) bet (we_Amount (paid_by bet outcome))
      (we_Ref (paid_by bet outcome)) ?meta
      (if outcome = StatusWon then ''credit winnings: '' else ''credit refund: '')
      (if outcome = StatusWon then ''record credit tx: '' else ''record refund tx: '') = ((db', l @ [paid_by bet outcome]), Inr r)"
    "pb_inv N db'" "pb_bets db' (b_ID bet) = Some b'" "same_terms b1 b'" "b_Status b' = b_Status b1"
    by (rule settle_paid_ok [where E = E, OF assms(1) 1(2,3) assms(4) [of 2] credit])
  have "SettleBet_commit (pb_ops N ord) (recording d (Inr c)) E now (db, l) bet outcome = ((db', l @ [paid_by bet outcome]), Inr r)"
    using assms(5)
  proof
    assume "outcome = StatusWon"
    with 1(1) p(1) show ?thesis by (simp add: SettleBet_commit_def paid_by_def)
  next
    assume o: "outcome = StatusCancelled"
    then have "outcome \<noteq> StatusWon" by (simp add: status_defs)
    with 1(1) p(1) o show ?thesis by (simp add: SettleBet_commit_def paid_by_def)
  qed
  then show thesis by (rule that) (use p 1 same_terms_trans in auto)
qed

end
