(* ===== verification/SportsbookStores.thy ===== *)
theory SportsbookStores
  imports SportsbookProps WalletStores
begin

text \<open>
  The sportsbook on the stores of the repository and on the wallet service: the connection of the
  two services, the interpretations of the paged store contract, and the properties that span
  bets and money.
\<close>

section \<open>The wallet service behind the client\<close>

text \<open>
  A call over gRPC arrives and is answered, never arrives, or is carried out while its answer is
  lost.
\<close>

datatype rpc_fate = Delivered | NotSent string | ReplyLost string

definition over_grpc :: "rpc_fate \<Rightarrow> ('w \<Rightarrow> 'w \<times> 'a result) \<Rightarrow> 'w \<Rightarrow> 'w \<times> 'a result" where
  "over_grpc fate call w =
     (case fate of
        Delivered \<Rightarrow> call w
      | NotSent e \<Rightarrow> (w, Inl (ExtErr e))
      | ReplyLost e \<Rightarrow> (fst (call w), Inl (ExtErr e)))"

definition wallet_server_conn :: "json_codec \<Rightarrow> ('e, 's) store_ops \<Rightarrow> 'e \<Rightarrow> rpc_fate \<Rightarrow> 's wallet_conn" where
  "wallet_server_conn J S E fate =
     \<lparr>cn_DebitWallet = (\<lambda>w md req. over_grpc fate
        (\<lambda>w. case wallet_AuthInterceptor (Some md) M_DebitWallet (Some (dr_UserId req)) of
           Inl err \<Rightarrow> (w, Inl err)
         | Inr u \<Rightarrow> apsnd (map_sum id (\<lambda>resp. Some (fst resp)))
             (srv_DebitWallet J S E w (dr_UserId req) (dr_Currency req) (dr_Amount req) (dr_ReferenceId req) (dr_Metadata req))) w),
      cn_CreditWallet = (\<lambda>w md req. over_grpc fate
        (\<lambda>w. case wallet_AuthInterceptor (Some md) M_CreditWallet (Some (dr_UserId req)) of
           Inl err \<Rightarrow> (w, Inl err)
         | Inr u \<Rightarrow> apsnd (map_sum id (\<lambda>resp. Some (fst resp)))
             (srv_CreditWallet J S E w (dr_UserId req) (dr_Currency req) (dr_Amount req) (dr_ReferenceId req) (dr_Metadata req))) w)\<rparr>"

definition wallet_over_grpc :: "json_codec \<Rightarrow> ('e, 's) store_ops \<Rightarrow> 'e \<Rightarrow> rpc_fate \<Rightarrow> 's wallet_client" where
  "wallet_over_grpc J S E fate = GRPCWalletClient J (wallet_server_conn J S E fate)"

text \<open>The metadata of the client pass the interceptor of the wallet.\<close>

lemma grpc_pairs_pass:
  "wallet_AuthInterceptor (Some grpc_pairs) M_DebitWallet u = Inr ()"
  "wallet_AuthInterceptor (Some grpc_pairs) M_CreditWallet u = Inr ()"
  by (simp_all add: wallet_AuthInterceptor_def grpc_pairs_def gatewayCallerID_def serviceCallerID_def md_Get_def
      ToLower_def lower_char_def)

lemma wallet_debit_over_grpc:
  assumes "WC_DebitWallet (wallet_over_grpc J S E fate) w u c a ref m = (w', r)"
  shows "w' = w \<and> \<not> is_ok r
    \<or> (\<exists>meta rd. DebitWallet S E w u c a ref meta = (w', rd) \<and> (is_ok r \<longrightarrow> is_ok rd))"
proof -
  let ?call = "srv_DebitWallet J S E w u c a ref (dr_Metadata (wallet_request J u c a ref m))"
  have srv: "w1 = w \<and> \<not> is_ok r1 \<or> (\<exists>meta rd. DebitWallet S E w u c a ref meta = (w1, rd) \<and> (is_ok r1 \<longrightarrow> is_ok rd))"
    if call: "?call = (w1, r1)" for w1 r1
  proof (cases "parseMetadataJSON J (dr_Metadata (wallet_request J u c a ref m))")
    case (Inl err)
    then show ?thesis using call by (auto simp: srv_DebitWallet_def)
  next
    case (Inr mm)
    obtain w2 rd where d: "DebitWallet S E w u c a ref mm = (w2, rd)" by force
    then have "w2 = w1" "is_ok r1 \<longrightarrow> is_ok rd"
      using call Inr by (auto simp: srv_DebitWallet_def split: sum.splits)
    then show ?thesis using d by blast
  qed
  obtain w1 r1 where c1: "?call = (w1, r1)" by force
  have w: "WC_DebitWallet (wallet_over_grpc J S E fate) w u c a ref m
      = transaction_id (over_grpc fate (\<lambda>w. apsnd (map_sum id (\<lambda>resp. Some (fst resp)))
          (srv_DebitWallet J S E w u c a ref (dr_Metadata (wallet_request J u c a ref m)))) w)"
    by (simp add: wallet_over_grpc_def GRPCWalletClient_def wallet_server_conn_def grpc_pairs_pass wallet_request_def)
  have "w' = w \<and> \<not> is_ok r \<or> w' = w1 \<and> (is_ok r \<longrightarrow> is_ok r1)"
    using assms c1 unfolding w
    by (cases fate; cases r1) (auto simp: over_grpc_def transaction_id_def)
  then show ?thesis using srv [OF c1] by blast
qed

lemma wallet_credit_over_grpc:
  assumes "WC_CreditWallet (wallet_over_grpc J S E fate) w u c a ref m = (w', r)"
  shows "w' = w \<and> \<not> is_ok r
    \<or> (\<exists>meta rd. CreditWallet S E w u c a ref meta = (w', rd) \<and> (is_ok r \<longrightarrow> is_ok rd))"
proof -
  let ?call = "srv_CreditWallet J S E w u c a ref (dr_Metadata (wallet_request J u c a ref m))"
  have srv: "w1 = w \<and> \<not> is_ok r1 \<or> (\<exists>meta rd. CreditWallet S E w u c a ref meta = (w1, rd) \<and> (is_ok r1 \<longrightarrow> is_ok rd))"
    if call: "?call = (w1, r1)" for w1 r1
  proof (cases "parseMetadataJSON J (dr_Metadata (wallet_request J u c a ref m))")
    case (Inl err)
    then show ?thesis using call by (auto simp: srv_CreditWallet_def)
  next
    case (Inr mm)
    obtain w2 rd where d: "CreditWallet S E w u c a ref mm = (w2, rd)" by force
    then have "w2 = w1" "is_ok r1 \<longrightarrow> is_ok rd"
      using call Inr by (auto simp: srv_CreditWallet_def split: sum.splits)
    then show ?thesis using d by blast
  qed
  obtain w1 r1 where c1: "?call = (w1, r1)" by force
  have w: "WC_CreditWallet (wallet_over_grpc J S E fate) w u c a ref m
      = transaction_id (over_grpc fate (\<lambda>w. apsnd (map_sum id (\<lambda>resp. Some (fst resp)))
          (srv_CreditWallet J S E w u c a ref (dr_Metadata (wallet_request J u c a ref m)))) w)"
    by (simp add: wallet_over_grpc_def GRPCWalletClient_def wallet_server_conn_def grpc_pairs_pass wallet_request_def)
  have "w' = w \<and> \<not> is_ok r \<or> w' = w1 \<and> (is_ok r \<longrightarrow> is_ok r1)"
    using assms c1 unfolding w
    by (cases fate; cases r1) (auto simp: over_grpc_def transaction_id_def)
  then show ?thesis using srv [OF c1] by blast
qed

section \<open>The stores as paged stores\<close>

interpretation mbp: paged_bet_store "mb_ops (\<lambda>m. m)" mget mb_inv mb_fresh
  by (rule mb_paged) simp

interpretation pbp: paged_bet_store "pb_ops example_bet_lib (\<lambda>db. db)" pb_bets "pb_inv example_bet_lib" "\<lambda>_ _. True"
  by (rule pb_paged [OF ref_uuid.uuid_server_axioms]) simp

section \<open>Properties of the sportsbook on Postgres\<close>

lemma at_most_one:
  assumes "distinct (List.map f l)" and "\<And>x. x \<in> set l \<Longrightarrow> P x \<Longrightarrow> f x = k"
  shows "length (List.filter P l) \<le> 1"
proof -
  have "\<forall>y\<in>set (List.map f (List.filter P l)). y = k" using assms(2) by auto
  moreover have "distinct (List.map f (List.filter P l))"
    using assms(1) by (induction l) auto
  ultimately have "card (set (List.map f (List.filter P l))) = length (List.filter P l)"
    and "set (List.map f (List.filter P l)) \<subseteq> {k}"
    using distinct_card [of "List.map f (List.filter P l)"] by auto
  then show ?thesis by (metis card_mono card.empty card_insert_disjoint empty_iff finite.emptyI finite_insert One_nat_def)
qed

lemma book_ok_once:
  assumes "book_ok m l"
  shows "length (List.filter (stake_of b) l) \<le> 1" and "length (List.filter (payment_of b) l) \<le> 1"
proof -
  have d: "distinct (List.map (\<lambda>x. (we_Credit x, we_UserID x, we_Ref x)) l)"
    using assms unfolding book_ok_def by blast
  show "length (List.filter (stake_of b) l) \<le> 1"
    by (rule at_most_one [OF d, where k = "(False, b_UserID b, b_ReferenceID b)"]) (simp add: stake_of_def)
  show "length (List.filter (payment_of b) l) \<le> 1"
    by (rule at_most_one [OF d, where k = "(True, b_UserID b,
          (if b_Status b = StatusWon then ''settle-'' else ''cancel-'') @ b_ReferenceID b)"])
      (auto simp: payment_of_def status_defs)
qed

text \<open>
  C6: the money of the bets is safe on Postgres, whatever the database, the wallet and the feed
  answer and whichever calls fail.  In every state the service reaches from an empty table, each
  call it made to the wallet is the stake of a stored bet, or the payment of a settled one whose
  stake the wallet had taken: the payout of a won bet, the stake of a cancelled one.  No stake is
  asked for twice, no bet is paid twice, and a pending, won or lost bet has its stake taken.  The
  operations run one after the other.
\<close>
theorem pb_money_safe:
  assumes "uuid_server N" and "permutes_entries ord"
    and "reach ([], []) (book_step D J (pb_ops N ord) (\<lambda>_ _. True)) (db, l)"
  shows "(\<forall>x\<in>set l. \<exists>b\<in>set db. stake_of b x \<or> payment_of b x \<and> taken b l)
    \<and> (\<forall>b\<in>set db. length (List.filter (stake_of b) l) \<le> 1 \<and> length (List.filter (payment_of b) l) \<le> 1
        \<and> (b_Status b \<in> {StatusPending, StatusWon, StatusLost} \<longrightarrow> taken b l))"
proof -
  note keep = bet_store.book_reach [OF pb_bet_store [OF assms(1,2)] assms(3)]
  have inv: "pb_inv N db" and ok: "book_ok (pb_bets db) l"
    using keep by simp_all
  have mem: "pb_bets db i = Some b \<longleftrightarrow> b \<in> set db \<and> b_ID b = i" for i b
    by (rule pb_bets_iff [OF inv])
  have "\<forall>x\<in>set l. \<exists>b\<in>set db. stake_of b x \<or> payment_of b x \<and> taken b l"
    using ok unfolding book_ok_def mem by blast
  moreover have "\<forall>b\<in>set db. b_Status b \<in> {StatusPending, StatusWon, StatusLost} \<longrightarrow> taken b l"
    using ok unfolding book_ok_def mem by blast
  ultimately show ?thesis using book_ok_once [OF ok] by blast
qed

text \<open>
  C16: a settled bet is final on Postgres: once its status is won, lost or cancelled, its row stays
  as it is whatever calls follow.
\<close>
theorem pb_settled_final:
  assumes "uuid_server N" and "permutes_entries ord"
    and "reach ([], []) (book_step D J (pb_ops N ord) (\<lambda>_ _. True)) (db, l)"
    and "b \<in> set db" and "final_status (b_Status b)"
    and "reach (db, l) (book_step D J (pb_ops N ord) (\<lambda>_ _. True)) (db', l')"
  shows "b \<in> set db'"
proof -
  note store = pb_bet_store [OF assms(1,2)]
  have inv: "pb_inv N db" using bet_store.book_reach(1) [OF store assms(3) pb_inv_empty pb_bets_empty] by simp
  have "pb_bets (fst (db, l)) (b_ID b) = Some b" using assms(4) by (simp add: pb_bets_iff [OF inv])
  from bet_store.reach_final_kept [OF store assms(3) pb_inv_empty pb_bets_empty this assms(5,6)]
  have "pb_bets db' (b_ID b) = Some b" by simp
  then show ?thesis by (simp add: pb_bets_def find_Some_iff) (metis nth_mem)
qed

text \<open>
  C21: placing a bet again is idempotent on Postgres: when the user's reference names a stored bet,
  \<open>PlaceBet\<close> changes neither the bets nor the wallet, and if it returns a bet it is that one,
  whatever the other arguments are.
\<close>
theorem pb_place_again:
  assumes "uuid_server N" and "permutes_entries ord" and "pb_inv N db" and "b \<in> set db"
  shows "fst (PlaceBet D J (pb_ops N ord) W F E now (db, w) (b_UserID b) ev m oc stake cur (b_ReferenceID b)) = (db, w)
    \<and> (\<forall>b'. snd (PlaceBet D J (pb_ops N ord) W F E now (db, w) (b_UserID b) ev m oc stake cur (b_ReferenceID b)) = Inr b' \<longrightarrow> b' = b)"
proof -
  let ?p = "PlaceBet D J (pb_ops N ord) W F E now (db, w) (b_UserID b) ev m oc stake cur (b_ReferenceID b)"
  have "pb_bets db (b_ID b) = Some b" using assms(4) by (simp add: pb_bets_iff [OF assms(3)])
  moreover have "?p = ((fst (fst ?p), snd (fst ?p)), snd ?p)" by simp
  ultimately show ?thesis
    using bet_store.place_again [OF pb_bet_store [OF assms(1,2)] assms(3)] by (metis prod.collapse)
qed

text \<open>
  C22: automatic settlement returns on Postgres, whatever the store, the wallet and the feed answer:
  one round per hundred bets and two more are enough.
\<close>
theorem pb_auto_settle_returns:
  assumes "uuid_server N" and "permutes_entries ord" and "pb_inv N db" and "length db < 2 ^ 40"
    and "length db div 100 + 2 \<le> fuel"
  shows "\<exists>x. AutoSettleFromEvents fuel (pb_ops N ord) Z (db, w) = Some x"
  using paged_bet_store.AutoSettle_returns [OF pb_paged [OF assms(1,2)] assms(3)] pb_dom [OF assms(3)] assms(4,5)
  by simp

text \<open>
  C29: a run of the scheduler leaves the bets and the wallet exactly as \<open>AutoSettleFromEvents\<close> does
  in the same surroundings, on any store; it differs in what it logs and in that it returns no
  error.
\<close>
theorem scheduler_equals_auto_settle:
  "map_option fst (runOnce fuel B Z sw) = map_option fst (AutoSettleFromEvents fuel B Z sw)"
  by (simp add: runOnce_def AutoSettleFromEvents_def runOnce_loop_state)

text \<open>
  Who may call the sportsbook.  A handler runs exactly when the first user id of the caller's
  metadata is that of the gateway, and for \<open>SettleBet\<close> its first admin value is \<open>true\<close> as well.
\<close>
theorem sb_AuthInterceptor_iff:
  "sb_AuthInterceptor md meth = Inr () \<longleftrightarrow>
     (\<exists>h us. md = Some h \<and> header_values h ''x-user-id'' = ''gateway'' # us
        \<and> (case meth of M_SettleBet \<Rightarrow> \<exists>vs. header_values h ''x-caller-is-admin'' = ''true'' # vs
            | _ \<Rightarrow> True))"
proof (cases md)
  case None
  then show ?thesis by (simp add: sb_AuthInterceptor_def)
next
  case (Some h)
  show ?thesis
    by (cases "header_values h ''x-user-id''"; cases "header_values h ''x-caller-is-admin''"; cases meth)
      (auto simp: Some sb_AuthInterceptor_def sb_serviceCallerID_def Let_def)
qed

section \<open>Bets and balances\<close>

lemma price_bet_Inr:
  "price_bet D F ev m oc stake = Inr (odds, payout) \<Longrightarrow> multiplyDecimal D stake odds = Inr payout"
  by (auto simp: price_bet_def split: sum.splits option.splits if_splits)

text \<open>The fate of the call decides on the answer, not on what the wallet has done.\<close>

lemma grpc_debit_lost:
  "WC_DebitWallet (wallet_over_grpc J S E (ReplyLost e)) w u c a ref m
   = (fst (WC_DebitWallet (wallet_over_grpc J S E Delivered) w u c a ref m), Inl (ExtErr e))"
  by (simp add: wallet_over_grpc_def GRPCWalletClient_def wallet_server_conn_def over_grpc_def transaction_id_def
      split: prod.splits sum.splits option.splits)

lemma grpc_debit_delivered:
  "WC_DebitWallet (wallet_over_grpc J S E Delivered) w u c a ref m = (w', Inr tx) \<longleftrightarrow>
    (\<exists>mm t. parseMetadataJSON J (dr_Metadata (wallet_request J u c a ref m)) = Inr mm
      \<and> DebitWallet S E w u c a ref mm = (w', Inr t) \<and> tx = t_ID t)"
  by (auto simp: wallet_over_grpc_def GRPCWalletClient_def wallet_server_conn_def over_grpc_def transaction_id_def
      grpc_pairs_pass srv_DebitWallet_def wallet_request_def split: prod.splits sum.splits option.splits)

lemma grpc_debit_exact:
  assumes "pg_server D val NW" and "reach pg_empty (pg_step D NW (scale8_call D val)) wdb" and "scale8 (num D val stake)"
    and "WC_DebitWallet (wallet_over_grpc J (pg_ops D NW ord1 ord2) EW fate) wdb u cur stake ref meta = (wdb', Inr tx)"
  shows "ref_used ref (pg_abs D val wdb) \<and> wdb' = wdb
    \<or> num D val stake \<le> balance0 (pg_abs D val wdb) (u, cur)
      \<and> (\<forall>k. balance0 (pg_abs D val wdb') k
            = balance0 (pg_abs D val wdb) k - (if k = (u, cur) then num D val stake else 0))"
proof -
  obtain md rd where "DebitWallet (pg_ops D NW ord1 ord2) EW wdb u cur stake ref md = (wdb', rd)" "is_ok rd"
    using wallet_debit_over_grpc [OF assms(4)] by auto
  then obtain t where "pg_DebitWallet D NW EW wdb u cur stake ref md = (wdb', Inr t)"
    by (cases rd) (auto simp: pg_ops_def)
  from debit_exact [OF assms(1) pg_server.pg_reach_inv [OF assms(1,2)] assms(3) this] show ?thesis .
qed

lemma new_bet_fields:
  "b_ID (new_bet u ev m oc stake cur ref odds payout now) = []" "b_UserID (new_bet u ev m oc stake cur ref odds payout now) = u"
  "b_ReferenceID (new_bet u ev m oc stake cur ref odds payout now) = ref" "b_Currency (new_bet u ev m oc stake cur ref odds payout now) = cur"
  "b_Stake (new_bet u ev m oc stake cur ref odds payout now) = stake"
  "b_Status (new_bet u ev m oc stake cur ref odds payout now) = StatusDebitPending"
  by (simp_all add: new_bet_def empty_bet_def)

text \<open>
  C7: what placing a bet costs, with both services on Postgres and the wallet reached over gRPC, for a
  stake of at most eight decimals (and every amount before it).  When \<open>PlaceBet\<close> returns a pending bet
  under a reference the user had not used, the bet is stored with that stake, positive, and a payout of
  the stake times the odds; and either the wallet had already used the reference, and then no money
  moves, or the user's account had at least the stake and loses exactly it, and no other account changes.
\<close>
theorem place_bet_takes_stake:
  assumes "pg_server D val NW" and "reach pg_empty (pg_step D NW (scale8_call D val)) wdb" and "scale8 (num D val stake)"
    and "uuid_server N" and "permutes_entries ord" and "pb_inv N db"
    and "\<forall>b\<in>set db. b_UserID b = u \<longrightarrow> b_ReferenceID b \<noteq> ref"
    and "PlaceBet D J (pb_ops N ord) (wallet_over_grpc J (pg_ops D NW ord1 ord2) EW fate) F E now (db, wdb) u ev m oc stake cur ref
      = ((db', wdb'), Inr b)"
    and "b_Status b = StatusPending"
  shows "(\<exists>b'\<in>set db'. b_ID b' = b_ID b \<and> b_Status b' = StatusPending \<and> b_UserID b' = u \<and> b_Currency b' = cur
        \<and> b_Stake b' = stake \<and> b_ReferenceID b' = ref
        \<and> (\<exists>odds. price_bet D F ev m oc stake = Inr (odds, b_PotentialPayout b')
            \<and> num D val (b_PotentialPayout b') = num D val stake * num D val odds))
    \<and> 0 < num D val stake
    \<and> (ref_used ref (pg_abs D val wdb) \<and> wdb' = wdb
       \<or> num D val stake \<le> balance0 (pg_abs D val wdb) (u, cur)
         \<and> (\<forall>k. balance0 (pg_abs D val wdb') k
               = balance0 (pg_abs D val wdb) k - (if k = (u, cur) then num D val stake else 0)))"
proof -
  have lib: "decimal_lib D val" using assms(1) by (rule pg_server.axioms(1))
  have new: "\<forall>i b. pb_bets db i = Some b \<longrightarrow> b_UserID b = u \<longrightarrow> b_ReferenceID b \<noteq> ref"
    using assms(7) by (simp add: pb_bets_iff [OF assms(6)])
  obtain b' meta tx odds payout where b': "pb_bets db' (b_ID b) = Some b'" "b_Status b' = StatusPending"
    "b_UserID b' = u" "b_Currency b' = cur" "b_Stake b' = stake" "b_ReferenceID b' = ref" "b_PotentialPayout b' = payout"
    "price_bet D F ev m oc stake = Inr (odds, payout)" "decimalGreaterThanZero D stake = Inr True"
    "WC_DebitWallet (wallet_over_grpc J (pg_ops D NW ord1 ord2) EW fate) wdb u cur stake ref meta = (wdb', Inr tx)"
    using bet_store.place_accepted [OF pb_bet_store [OF assms(4,5)] assms(6) TrueI new assms(8,9)] by blast
  have in': "b' \<in> set db'" "b_ID b' = b_ID b"
    using find_key_Some [OF b'(1) [unfolded pb_bets_def]] by simp_all
  have mul: "num D val payout = num D val stake * num D val odds"
    using decimal_lib.multiplyDecimal_Inr(2) [OF lib price_bet_Inr [OF b'(8)]] .
  have pos: "0 < num D val stake" using decimal_lib.decimalGreaterThanZero_Inr [OF lib b'(9)] by simp
  from grpc_debit_exact [OF assms(1-3) b'(10)] show ?thesis using b' in' mul pos by blast
qed

text \<open>
  C8: what a won bet pays, with both services on Postgres, when its potential payout has at most eight
  decimals (and so had every amount before it); the bets keep the product of stake and odds unrounded,
  and a longer one would be rounded by the wallet.  When \<open>SettleBet\<close> with outcome \<open>won\<close> succeeds, the bet
  it names was pending and its row is now won with its terms unchanged; and either the wallet had already
  used the reference of the payment, and then no money moves, or the bettor's account gains exactly the
  potential payout, and no other account changes.
\<close>
theorem settle_won_pays_payout:
  assumes "pg_server D val NW" and "reach pg_empty (pg_step D NW (scale8_call D val)) wdb"
    and "\<forall>b\<in>set db. bl_uuid N i = Some (b_ID b) \<longrightarrow> scale8 (num D val (b_PotentialPayout b))"
    and "uuid_server N" and "permutes_entries ord" and "pb_inv N db"
    and "SettleBet (pb_ops N ord) (wallet_over_grpc J (pg_ops D NW ord1 ord2) EW fate) E now (db, wdb) i StatusWon
      = ((db', wdb'), Inr b)"
  shows "\<exists>b0\<in>set db. \<exists>b1\<in>set db'. bl_uuid N i = Some (b_ID b0) \<and> b_Status b0 = StatusPending \<and> b_Status b1 = StatusWon
    \<and> same_terms b0 b1
    \<and> (ref_used (''settle-'' @ b_ReferenceID b0) (pg_abs D val wdb) \<and> wdb' = wdb
       \<or> (\<forall>k. balance0 (pg_abs D val wdb') k = balance0 (pg_abs D val wdb) k
               + (if k = (b_UserID b0, b_Currency b0) then num D val (b_PotentialPayout b0) else 0)))"
proof -
  obtain b0 b1 meta rc where b0: "pb_bets db (b_ID b0) = Some b0" "b_Status b0 = StatusPending"
    "BO_GetBet (pb_ops N ord) (E 0) db i = Inr b0" "pb_bets db' = (pb_bets db)(b_ID b0 \<mapsto> b1)" "same_terms b0 b1"
    "b_Status b1 = StatusWon" "is_ok rc"
    "WC_CreditWallet (wallet_over_grpc J (pg_ops D NW ord1 ord2) EW fate) wdb (b_UserID b0) (b_Currency b0)
       (b_PotentialPayout b0) (''settle-'' @ b_ReferenceID b0) meta = (wdb', rc)"
    using bet_store.settle_won [OF pb_bet_store [OF assms(4,5)] assms(6,7)] by blast
  have i: "b0 \<in> set db" "bl_uuid N i = Some (b_ID b0)"
    using pb_GetBet_Inr [of N "E 0" db i b0] b0(3) by (simp_all add: pb_ops_def)
  have "pb_bets db' (b_ID b0) = Some b1" using b0(4) by simp
  then have b1: "b1 \<in> set db'" using find_key_Some by (fastforce simp: pb_bets_def)
  obtain md rd where "CreditWallet (pg_ops D NW ord1 ord2) EW wdb (b_UserID b0) (b_Currency b0) (b_PotentialPayout b0)
      (''settle-'' @ b_ReferenceID b0) md = (wdb', rd)" "is_ok rd"
    using wallet_credit_over_grpc [OF b0(8)] b0(7) by auto
  then obtain t where "pg_CreditWallet D NW EW wdb (b_UserID b0) (b_Currency b0) (b_PotentialPayout b0)
      (''settle-'' @ b_ReferenceID b0) md = (wdb', Inr t)"
    by (cases rd) (auto simp: pg_ops_def)
  from credit_exact [OF assms(1) pg_server.pg_reach_inv [OF assms(1,2)] mp [OF bspec [OF assms(3) i(1)] i(2)] this]
  show ?thesis using i b1 b0(2,5,6) by blast
qed

section \<open>Where money goes astray\<close>

text \<open>
  C38: a debit whose answer is lost cancels a bet that was paid for.  Take a placing under references new
  to both services, of a stake of at most eight decimals and on a wallet all of whose amounts so far had
  at most eight, that is accepted as pending when the wallet answers.  When instead the answer of the wallet is lost, and the cancellation of the bet goes through,
  \<open>PlaceBet\<close> returns an error and the bet is stored as cancelled, but the wallet is in the same state as
  after the accepted one: the account has lost the stake and nothing refunds it.
\<close>
theorem place_bet_lost_reply:
  assumes "pg_server D val NW" and "reach pg_empty (pg_step D NW (scale8_call D val)) wdb" and "scale8 (num D val stake)"
    and "uuid_server N" and "permutes_entries ord" and "pb_inv N db"
    and "\<forall>b\<in>set db. b_UserID b = u \<longrightarrow> b_ReferenceID b \<noteq> ref"
    and "\<not> ref_used ref (pg_abs D val wdb)"
    and "PlaceBet D J (pb_ops N ord) (wallet_over_grpc J (pg_ops D NW ord1 ord2) EW Delivered) F E now (db, wdb) u ev m oc stake cur ref
      = ((db1, wdb1), Inr b)"
    and "b_Status b = StatusPending" and "pe_fault (E 3) 0 = None"
  shows "\<exists>db2 b2 err.
      PlaceBet D J (pb_ops N ord) (wallet_over_grpc J (pg_ops D NW ord1 ord2) EW (ReplyLost e)) F E now (db, wdb) u ev m oc stake cur ref
        = ((db2, wdb1), Inl err)
    \<and> b2 \<in> set db2 \<and> b_ID b2 = b_ID b \<and> b_Status b2 = StatusCancelled \<and> b_Stake b2 = stake
    \<and> (\<forall>k. balance0 (pg_abs D val wdb1) k
          = balance0 (pg_abs D val wdb) k - (if k = (u, cur) then num D val stake else 0))"
proof -
  note store = pb_bet_store [OF assms(4,5)]
  have new: "\<forall>i b. pb_bets db i = Some b \<longrightarrow> b_UserID b = u \<longrightarrow> b_ReferenceID b \<noteq> ref"
    using assms(7) by (simp add: pb_bets_iff [OF assms(6)])
  obtain odds payout where run: "\<And>(W :: pg_db wallet_client) w. PlaceBet D J (pb_ops N ord) W F E now (db, w) u ev m oc stake cur ref
      = PlaceBet_commit J (pb_ops N ord) W E now (db, w) (new_bet u ev m oc stake cur ref odds payout now)"
    using bet_store.place_commits [OF store assms(6) new assms(9)] by blast
  let ?nb = "new_bet u ev m oc stake cur ref odds payout now"
  obtain s1 b1 tx where c: "BO_CreateBet (pb_ops N ord) (E 1) db ?nb = (s1, Inr (b_ID b))" "pb_inv N s1" "pb_bets s1 (b_ID b) = Some b1"
    "created ?nb b1" and d: "WC_DebitWallet (wallet_over_grpc J (pg_ops D NW ord1 ord2) EW Delivered) wdb u cur stake ref
      (stake_metadata J (b_EventID ?nb) (b_MarketID ?nb) (b_OutcomeID ?nb) (b_Odds ?nb) ref) = (wdb1, Inr tx)"
    using bet_store.place_accepted_commit [OF store assms(6) TrueI _ _ _ assms(9) [unfolded run] assms(10), unfolded new_bet_fields,
        OF new refl refl] by blast
  let ?f = "\<lambda>b. pb_settle_at N now (b\<lparr>b_Status := StatusCancelled\<rparr>)"
  have f: "same_terms b1 (?f b1)" "b_Status (?f b1) = StatusCancelled" by (simp_all add: same_terms_def pb_settle_at_def)
  obtain db2 where up: "pb_update ''update bet status: '' N (E 3) s1 (b_ID b) (Some StatusCancelled) ?f = (db2, Inr ())" "pb_inv N db2"
    "pb_bets db2 = (pb_bets s1)(b_ID b \<mapsto> ?f b1)"
    using pb_update_ok [where f = ?f and st = "Some StatusCancelled", OF assms(4) c(2,3) assms(11) f(1)] by (auto simp: status_allowed_def)
  have "PlaceBet_commit J (pb_ops N ord) (wallet_over_grpc J (pg_ops D NW ord1 ord2) EW (ReplyLost e)) E now (db, wdb) ?nb
      = ((db2, wdb1), Inl (WrapErr ''debit stake: '' (ExtErr e)))"
    using c(1) d up(1)
    by (simp add: PlaceBet_commit_def new_bet_fields grpc_debit_lost) (simp add: pb_ops_def pb_UpdateBetStatus_def)
  moreover have "?f b1 \<in> set db2" "b_ID (?f b1) = b_ID b" "b_Stake (?f b1) = stake"
    using up(3) c(4) f(1) pb_bets_iff [OF up(2), of "b_ID b" "?f b1"] new_bet_fields(5)
    by (auto simp: same_terms_def created_def)
  ultimately show ?thesis
    using grpc_debit_exact [OF assms(1-3) d] assms(8) f(2) unfolding run by blast
qed

text \<open>
  C40: a bet whose reference the wallet has used for anything else costs nothing.  If a placing, under a
  reference new to the sportsbook, would be accepted with the wallet in some state \<open>rich\<close>, then it is
  accepted as pending with every state of the wallet in which the reference is used, whatever the
  balances, and leaves the wallet as it is, when no statement of the wallet fails.
\<close>
theorem place_bet_reused_reference:
  assumes "uuid_server N" and "permutes_entries ord" and "pb_inv N db"
    and "\<forall>b\<in>set db. b_UserID b = u \<longrightarrow> b_ReferenceID b \<noteq> ref"
    and "PlaceBet D J (pb_ops N ord) (wallet_over_grpc J (pg_ops D NW ord1 ord2) EW Delivered) F E now (db, rich) u ev m oc stake cur ref
      = ((db0, rich0), Inr b0)"
    and "b_Status b0 = StatusPending" and "pg_used ref wdb" and "pe_fault EW = (\<lambda>_. None)"
  shows "\<exists>db' b b'.
      PlaceBet D J (pb_ops N ord) (wallet_over_grpc J (pg_ops D NW ord1 ord2) EW Delivered) F E now (db, wdb) u ev m oc stake cur ref
        = ((db', wdb), Inr b)
    \<and> b_Status b = StatusPending \<and> b' \<in> set db' \<and> b_ID b' = b_ID b \<and> b_Status b' = StatusPending \<and> b_Stake b' = stake"
proof -
  note store = pb_bet_store [OF assms(1,2)]
  have new: "\<forall>i b. pb_bets db i = Some b \<longrightarrow> b_UserID b = u \<longrightarrow> b_ReferenceID b \<noteq> ref"
    using assms(4) by (simp add: pb_bets_iff [OF assms(3)])
  let ?W = "wallet_over_grpc J (pg_ops D NW ord1 ord2) EW Delivered"
  obtain odds payout where run: "\<And>(W :: pg_db wallet_client) w. PlaceBet D J (pb_ops N ord) W F E now (db, w) u ev m oc stake cur ref
      = PlaceBet_commit J (pb_ops N ord) W E now (db, w) (new_bet u ev m oc stake cur ref odds payout now)"
    using bet_store.place_commits [OF store assms(3) new assms(5)] by blast
  let ?nb = "new_bet u ev m oc stake cur ref odds payout now"
  let ?meta = "stake_metadata J (b_EventID ?nb) (b_MarketID ?nb) (b_OutcomeID ?nb) (b_Odds ?nb) ref"
  obtain s1 tx where c: "BO_CreateBet (pb_ops N ord) (E 1) db ?nb = (s1, Inr (b_ID b0))"
    and d: "WC_DebitWallet ?W rich u cur stake ref ?meta = (rich0, Inr tx)"
    and up: "BO_UpdateBetStatusAndDebitTx (pb_ops N ord) (E 4) s1 (b_ID b0) StatusPending tx zero_time = (db0, Inr ())"
    using bet_store.place_accepted_commit [OF store assms(3) TrueI _ _ _ assms(5) [unfolded run] assms(6), unfolded new_bet_fields,
        OF new refl refl] by blast
  obtain mm where mm: "parseMetadataJSON J (dr_Metadata (wallet_request J u cur stake ref ?meta)) = Inr mm"
    using d by (auto simp: grpc_debit_delivered)
  obtain t where "pg_DebitWallet D NW EW wdb u cur stake ref mm = (wdb, Inr t)"
    using used_debit_succeeds [OF assms(7,8)] by blast
  then have d2: "WC_DebitWallet ?W wdb u cur stake ref ?meta = (wdb, Inr (t_ID t))"
    using mm by (auto simp: grpc_debit_delivered pg_ops_def)
  have "is_ok (snd (BO_UpdateBetStatusAndDebitTx (pb_ops N ord) (E 4) s1 (b_ID b0) StatusPending tx' zero_time))" for tx'
    using up pb_update_is_ok [of _ N "E 4" s1 "b_ID b0" "Some StatusPending"
        "\<lambda>b. pb_settle_at N zero_time (b\<lparr>b_Status := StatusPending, b_DebitTransactionID := tx'\<rparr>)"
        "\<lambda>b. pb_settle_at N zero_time (b\<lparr>b_Status := StatusPending, b_DebitTransactionID := tx\<rparr>)"]
    by (simp add: pb_ops_def pb_UpdateBetStatusAndDebitTx_def)
  note ok = this [of "t_ID t"]
  obtain db' r2 where "BO_UpdateBetStatusAndDebitTx (pb_ops N ord) (E 4) s1 (b_ID b0) StatusPending (t_ID t) zero_time = (db', r2)"
    by force
  with ok have "BO_UpdateBetStatusAndDebitTx (pb_ops N ord) (E 4) s1 (b_ID b0) StatusPending (t_ID t) zero_time = (db', Inr ())"
    by (cases r2) simp_all
  then obtain b where r: "PlaceBet_commit J (pb_ops N ord) ?W E now (db, wdb) ?nb = ((db', wdb), Inr b)" and b: "b_Status b = StatusPending"
    using c d2 by (simp add: PlaceBet_commit_def new_bet_fields)
  obtain b' where "pb_bets db' (b_ID b) = Some b'" "b_Status b' = StatusPending" "b_Stake b' = stake"
    using bet_store.place_accepted [OF store assms(3) TrueI new r [folded run] b] by blast
  moreover from this(1) have "b' \<in> set db'" "b_ID b' = b_ID b"
    using find_key_Some [of b_ID "b_ID b" db' b'] by (simp_all add: pb_bets_def)
  ultimately show ?thesis using r b unfolding run by blast
qed

text \<open>
  C39: two settlements of one bet that overlap both pay.  On Postgres, for any pending bet, when nothing
  fails and the wallet accepts: if a settlement as cancelled looked the bet up before a settlement as won
  ran, both succeed, and the wallet is asked to credit the payout and then the stake, under two different
  references; the row ends as cancelled.
\<close>
theorem settle_race:
  assumes "uuid_server N" and "pb_inv N db" and "b \<in> set db" and "b_Status b = StatusPending"
    and "bl_uuid N i = Some (b_ID b)" and "i \<noteq> []"
    and "\<And>n. pe_fault (E n) 0 = None" and "\<And>n. pe_fault (E' n) 0 = None"
  shows "\<exists>db1 r1 db2 r2 b2. SettleBet (pb_ops N ord) (recording d (Inr c)) E now (db, l) i StatusWon
        = ((db1, l @ [paid_by b StatusWon]), Inr r1)
    \<and> overlapped_settle (pb_ops N ord) (recording d (Inr c)) E' now' db (db1, l @ [paid_by b StatusWon]) i StatusCancelled
        = ((db2, l @ [paid_by b StatusWon, paid_by b StatusCancelled]), Inr r2)
    \<and> b2 \<in> set db2 \<and> b_ID b2 = b_ID b \<and> b_Status b2 = StatusCancelled"
proof -
  have at: "pb_bets db (b_ID b) = Some b" using assms(3) by (simp add: pb_bets_iff [OF assms(2)])
  then have get: "BO_GetBet (pb_ops N ord) G db i = Inr b" if "pe_fault G 0 = None" for G
    using that assms(5) by (simp add: pb_ops_def pb_GetBet_def pb_scan_one_def sel_bet_def pg_auto_def pb_bets_def)
  obtain db1 b1 r1 where 1: "SettleBet_commit (pb_ops N ord) (recording d (Inr c)) E now (db, l) b StatusWon
      = ((db1, l @ [paid_by b StatusWon]), Inr r1)" "pb_inv N db1" "pb_bets db1 (b_ID b) = Some b1"
    by (rule settle_commit_pays [where E = E and outcome = StatusWon, OF assms(1,2) at assms(7)]) auto
  obtain db2 b2 r2 where 2: "SettleBet_commit (pb_ops N ord) (recording d (Inr c)) E' now' (db1, l @ [paid_by b StatusWon]) b StatusCancelled
      = ((db2, (l @ [paid_by b StatusWon]) @ [paid_by b StatusCancelled]), Inr r2)" "pb_inv N db2" "pb_bets db2 (b_ID b) = Some b2"
      "b_Status b2 = StatusCancelled"
    by (rule settle_commit_pays [where E = E' and outcome = StatusCancelled and l = "l @ [paid_by b StatusWon]", OF assms(1) 1(2,3) assms(8)]) auto
  have "b2 \<in> set db2" "b_ID b2 = b_ID b" using 2(3) by (simp_all add: pb_bets_iff [OF 2(2)])
  then show ?thesis
    using 1(1) 2(1,4) get [OF assms(7)] get [OF assms(8)] assms(4,6) by (auto simp: SettleBet_alone overlapped_settle_def)
qed

section \<open>Examples\<close>

definition example_feed :: "string \<Rightarrow> feed_client" where
  "example_feed status =
     \<lparr>FC_GetEvent = (\<lambda>i. Inr (Some \<lparr>pe_Id = ''e1'', pe_Status = ''live''\<rparr>)),
      FC_ListMarkets = (\<lambda>e st p n. Inr [\<lparr>pm_Id = ''m1'', pm_EventId = ''e1'', pm_Status = ''active''\<rparr>]),
      FC_ListOutcomes = (\<lambda>m st p n. Inr [\<lparr>po_Id = ''o1'', po_MarketId = ''m1'', po_Odds = ''1.5'', po_Status = status\<rparr>])\<rparr>"

definition example_bet_ops :: "(pg_env, bet_rows) bet_ops" where
  "example_bet_ops = pb_ops example_bet_lib (\<lambda>db. db)"

definition example_place ::
  "'w wallet_client \<Rightarrow> string \<Rightarrow> string \<Rightarrow> bet_rows \<times> 'w \<Rightarrow> (bet_rows \<times> 'w) \<times> bet result" where
  "example_place W p ref sw =
     PlaceBet dec_ops example_json example_bet_ops W (example_feed ''active'') (\<lambda>n. example_pg_env p) 5000 sw
       ''u'' ''e1'' ''m1'' ''o1'' ''4'' ''EUR'' ref"

abbreviation yes_wallet :: "wallet_log wallet_client" where
  "yes_wallet \<equiv> recording (Inr ''t1'') (Inr ''c1'')"

definition placed :: "bet_rows \<times> wallet_log" where
  "placed = fst (example_place yes_wallet ''p'' ''r1'' ([], []))"

definition settled :: "bet_rows \<times> wallet_log" where
  "settled = fst (SettleBet example_bet_ops yes_wallet (\<lambda>n. example_pg_env ''q'') 9000 placed ''P0'' StatusWon)"

definition placed_more :: "bet_rows \<times> wallet_log" where
  "placed_more = fst (example_place (recording (Inl ErrInsufficientBalance) (Inr ''c1'')) ''s'' ''r2'' settled)"

abbreviation example_book_step :: "bet_rows \<times> wallet_log \<Rightarrow> bet_rows \<times> wallet_log \<Rightarrow> bool" where
  "example_book_step \<equiv> book_step dec_ops example_json example_bet_ops (\<lambda>_ _. True)"

lemma example_placed: "reach ([], []) example_book_step placed"
proof -
  have "example_book_step ([], []) placed"
    unfolding placed_def example_place_def by (rule book_step.place) simp
  then show ?thesis by (simp add: reach_step [OF reach_init])
qed

lemma example_settled: "reach ([], []) example_book_step settled"
proof -
  have "example_book_step (fst placed, snd placed) settled"
    unfolding settled_def by (subst prod.collapse [symmetric], rule book_step.settle)
  then show ?thesis using example_placed by (simp add: reach_step)
qed

lemma example_placed_more: "reach settled example_book_step placed_more"
proof -
  have "example_book_step (fst settled, snd settled) placed_more"
    unfolding placed_more_def example_place_def by (subst prod.collapse [symmetric], rule book_step.place) simp
  then show ?thesis by (simp add: reach_step [OF reach_init])
qed

lemma placed_rows: "\<exists>b. fst placed = [b] \<and> b_Status b = StatusPending \<and> b_UserID b = ''u'' \<and> b_ReferenceID b = ''r1''"
proof -
  have "List.map (\<lambda>b. (b_Status b, b_UserID b, b_ReferenceID b)) (fst placed) = [(StatusPending, ''u'', ''r1'')]"
    by code_simp
  then show ?thesis by auto
qed

lemma settled_rows: "\<exists>b. fst settled = [b] \<and> b_Status b = StatusWon"
proof -
  have "List.map b_Status (fst settled) = [StatusWon]" by code_simp
  then show ?thesis by auto
qed

theorem pb_money_safe_witness:
  "length (snd placed_more) = 3
   \<and> list_all (\<lambda>b. length (List.filter (payment_of b) (snd placed_more)) \<le> 1) (fst placed_more)"
proof
  show "length (snd placed_more) = 3" by code_simp
  have "reach ([], []) (book_step dec_ops example_json (pb_ops example_bet_lib (\<lambda>db. db)) (\<lambda>_ _. True))
      (fst placed_more, snd placed_more)"
    using reach_trans [OF example_placed_more example_settled] by (simp add: example_bet_ops_def)
  from pb_money_safe [OF ref_uuid.uuid_server_axioms permutes_entries_id this]
  show "list_all (\<lambda>b. length (List.filter (payment_of b) (snd placed_more)) \<le> 1) (fst placed_more)"
    unfolding list_all_iff by blast
qed

theorem pb_settled_final_witness: "fst settled \<noteq> [] \<and> hd (fst settled) \<in> set (fst placed_more)"
proof -
  obtain b where b: "fst settled = [b]" "b_Status b = StatusWon" using settled_rows by blast
  have r: "reach ([], []) (book_step dec_ops example_json (pb_ops example_bet_lib (\<lambda>db. db)) (\<lambda>_ _. True)) (fst settled, snd settled)"
    "reach (fst settled, snd settled) (book_step dec_ops example_json (pb_ops example_bet_lib (\<lambda>db. db)) (\<lambda>_ _. True))
       (fst placed_more, snd placed_more)"
    using example_settled example_placed_more by (simp_all add: example_bet_ops_def)
  have "b \<in> set (fst placed_more)"
    by (rule pb_settled_final [OF ref_uuid.uuid_server_axioms permutes_entries_id r(1) _ _ r(2)]) (simp_all add: b)
  then show ?thesis using b by simp
qed

lemma placed_inv: "pb_inv example_bet_lib (fst placed)"
  using pb.book_reach(1) [OF example_placed [unfolded example_bet_ops_def]] by simp

theorem pb_place_again_witness:
  "fst (PlaceBet dec_ops example_json (pb_ops example_bet_lib (\<lambda>db. db)) yes_wallet (example_feed ''active'')
     (\<lambda>n. example_pg_env ''z'') 7000 placed ''u'' ''e1'' ''m1'' ''o1'' ''9'' ''EUR'' ''r1'') = placed"
proof -
  obtain b where b: "fst placed = [b]" "b_UserID b = ''u''" "b_ReferenceID b = ''r1''" using placed_rows by blast
  then have "b \<in> set (fst placed)" by simp
  from pb_place_again [OF ref_uuid.uuid_server_axioms permutes_entries_id placed_inv this, of dec_ops example_json yes_wallet
      "example_feed ''active''" "\<lambda>n. example_pg_env ''z''" 7000 "snd placed" "''e1''" "''m1''" "''o1''" "''9''" "''EUR''"]
  show ?thesis using b(2,3) by simp
qed

definition example_pass :: "int \<Rightarrow> (pg_env, wallet_log) pass_env" where
  "example_pass page =
     \<lparr>pz_env = (\<lambda>k n. example_pg_env ''v''), pz_wallet = (\<lambda>k. yes_wallet), pz_feed = (\<lambda>k. example_feed StatusWon),
      pz_now = (\<lambda>k. 8000)\<rparr>"

theorem pb_auto_settle_returns_witness:
  "\<exists>x. AutoSettleFromEvents 2 (pb_ops example_bet_lib (\<lambda>db. db)) example_pass (fst placed, []) = Some x"
proof -
  obtain b where "fst placed = [b]" using placed_rows by blast
  then have "length (fst placed) < 2 ^ 40" "length (fst placed) div 100 + 2 \<le> 2" by simp_all
  then show ?thesis by (rule pb_auto_settle_returns [OF ref_uuid.uuid_server_axioms permutes_entries_id placed_inv])
qed

subsection \<open>Bets and balances\<close>

definition example_wallet :: "string \<Rightarrow> rpc_fate \<Rightarrow> pg_db wallet_client" where
  "example_wallet p fate = wallet_over_grpc example_json (pg_ops dec_ops example_server (\<lambda>x. x) (\<lambda>x. x)) (example_pg_env p) fate"

definition bet_on_wallet :: "rpc_fate \<Rightarrow> string \<Rightarrow> (bet_rows \<times> pg_db) \<times> bet result" where
  "bet_on_wallet fate ref = example_place (example_wallet ''w'' fate) ''p'' ref ([], example_db)"

definition balances :: "pg_db \<Rightarrow> string list" where
  "balances db = List.map w_Balance (pg_wallets db)"

lemma bet_on_wallet_ok:
  "\<exists>b. bet_on_wallet Delivered ''r1'' = (fst (bet_on_wallet Delivered ''r1''), Inr b) \<and> b_Status b = StatusPending"
proof -
  have "map_sum (\<lambda>e. ()) b_Status (snd (bet_on_wallet Delivered ''r1'')) = Inr StatusPending" by code_simp
  then show ?thesis by (cases "snd (bet_on_wallet Delivered ''r1'')") (auto simp: prod_eq_iff)
qed

theorem place_bet_takes_stake_witness:
  "0 < num dec_ops dec_val ''4'' \<and> \<not> ref_used ''r1'' (pg_abs dec_ops dec_val example_db)
   \<and> num dec_ops dec_val ''4'' \<le> balance0 (pg_abs dec_ops dec_val example_db) (''u'', ''EUR'')"
proof -
  obtain b where b: "bet_on_wallet Delivered ''r1'' = (fst (bet_on_wallet Delivered ''r1''), Inr b)" "b_Status b = StatusPending"
    using bet_on_wallet_ok by blast
  obtain bs ws where fs: "fst (bet_on_wallet Delivered ''r1'') = (bs, ws)" by force
  have r: "PlaceBet dec_ops example_json (pb_ops example_bet_lib (\<lambda>db. db))
      (wallet_over_grpc example_json (pg_ops dec_ops example_server (\<lambda>x. x) (\<lambda>x. x)) (example_pg_env ''w'') Delivered)
      (example_feed ''active'') (\<lambda>n. example_pg_env ''p'') 5000 ([], example_db)
      ''u'' ''e1'' ''m1'' ''o1'' ''4'' ''EUR'' ''r1'' = ((bs, ws), Inr b)"
    using b(1) fs by (simp add: bet_on_wallet_def example_place_def example_wallet_def example_bet_ops_def)
  have u: "\<not> ref_used ''r1'' (pg_abs dec_ops dec_val example_db)"
    unfolding pg_used_ref_used [symmetric] by code_simp
  have s8: "scale8 (num dec_ops dec_val ''4'')" by code_simp
  show ?thesis
    using place_bet_takes_stake [OF refpg.pg_server_axioms example_db_reach s8 ref_uuid.uuid_server_axioms permutes_entries_id
        pb_inv_empty _ r b(2)] u by auto
qed

text \<open>The reply to the debit of 4 is lost: 2 are left of 6, and the bet is cancelled.\<close>

theorem place_bet_lost_reply_witness:
  "balances example_db = [''6.0''] \<and> balances (snd (fst (bet_on_wallet (ReplyLost ''deadline exceeded'') ''r1''))) = [''2.0'']
   \<and> \<not> is_ok (snd (bet_on_wallet (ReplyLost ''deadline exceeded'') ''r1''))
   \<and> (\<exists>b2\<in>set (fst (fst (bet_on_wallet (ReplyLost ''deadline exceeded'') ''r1''))). b_Status b2 = StatusCancelled)"
proof -
  obtain b where b: "bet_on_wallet Delivered ''r1'' = (fst (bet_on_wallet Delivered ''r1''), Inr b)" "b_Status b = StatusPending"
    using bet_on_wallet_ok by blast
  obtain bs ws where fs: "fst (bet_on_wallet Delivered ''r1'') = (bs, ws)" by force
  have r: "PlaceBet dec_ops example_json (pb_ops example_bet_lib (\<lambda>db. db))
      (wallet_over_grpc example_json (pg_ops dec_ops example_server (\<lambda>x. x) (\<lambda>x. x)) (example_pg_env ''w'') Delivered)
      (example_feed ''active'') (\<lambda>n. example_pg_env ''p'') 5000 ([], example_db)
      ''u'' ''e1'' ''m1'' ''o1'' ''4'' ''EUR'' ''r1'' = ((bs, ws), Inr b)"
    using b(1) fs by (simp add: bet_on_wallet_def example_place_def example_wallet_def example_bet_ops_def)
  have u: "\<not> ref_used ''r1'' (pg_abs dec_ops dec_val example_db)"
    unfolding pg_used_ref_used [symmetric] by code_simp
  have s8: "scale8 (num dec_ops dec_val ''4'')" by code_simp
  have bal: "balances example_db = [''6.0'']" "balances (snd (fst (bet_on_wallet Delivered ''r1''))) = [''2.0'']" by code_simp+
  have "pe_fault (example_pg_env ''p'') 0 = None" by (simp add: example_pg_env_def)
  then obtain db2 b2 err where "bet_on_wallet (ReplyLost ''deadline exceeded'') ''r1'' = ((db2, ws), Inl err)"
    "b2 \<in> set db2" "b_Status b2 = StatusCancelled"
    using place_bet_lost_reply [OF refpg.pg_server_axioms example_db_reach s8 ref_uuid.uuid_server_axioms permutes_entries_id
        pb_inv_empty _ u r b(2), of "''deadline exceeded''"]
    by (auto simp: bet_on_wallet_def example_place_def example_wallet_def example_bet_ops_def)
  with bal fs show ?thesis by auto
qed

text \<open>The reference \<open>d1\<close> belongs to a deposit; a bet under it is accepted and no money moves.\<close>

definition rich_wallet :: pg_db where
  "rich_wallet = pg_run [CallCredit ''u'' ''EUR'' ''10'' ''d9'' None] pg_empty"

definition bet_on_rich :: "(bet_rows \<times> pg_db) \<times> bet result" where
  "bet_on_rich = example_place (example_wallet ''w'' Delivered) ''p'' ''d1'' ([], rich_wallet)"

theorem place_bet_reused_reference_witness:
  "is_ok (snd (bet_on_wallet Delivered ''d1'')) \<and> snd (fst (bet_on_wallet Delivered ''d1'')) = example_db
   \<and> (\<exists>b\<in>set (fst (fst (bet_on_wallet Delivered ''d1''))). b_Status b = StatusPending \<and> b_Stake b = ''4'')"
proof -
  have "map_sum (\<lambda>e. ()) b_Status (snd bet_on_rich) = Inr StatusPending" by code_simp
  then obtain b where b: "snd bet_on_rich = Inr b" "b_Status b = StatusPending" by (cases "snd bet_on_rich") auto
  obtain bs ws where fs: "fst bet_on_rich = (bs, ws)" by force
  have r: "PlaceBet dec_ops example_json (pb_ops example_bet_lib (\<lambda>db. db))
      (wallet_over_grpc example_json (pg_ops dec_ops example_server (\<lambda>x. x) (\<lambda>x. x)) (example_pg_env ''w'') Delivered)
      (example_feed ''active'') (\<lambda>n. example_pg_env ''p'') 5000 ([], rich_wallet)
      ''u'' ''e1'' ''m1'' ''o1'' ''4'' ''EUR'' ''d1'' = ((bs, ws), Inr b)"
    using b(1) fs by (simp add: bet_on_rich_def example_place_def example_wallet_def example_bet_ops_def prod_eq_iff)
  have u: "pg_used ''d1'' example_db" by code_simp
  have "pe_fault (example_pg_env ''w'') = (\<lambda>_. None)" by (simp add: example_pg_env_def)
  then obtain db' b1 b' where "bet_on_wallet Delivered ''d1'' = ((db', example_db), Inr b1)" "b' \<in> set db'"
    "b_Status b' = StatusPending" "b_Stake b' = ''4''"
    using place_bet_reused_reference [OF ref_uuid.uuid_server_axioms permutes_entries_id pb_inv_empty _ r b(2) u]
    by (auto simp: bet_on_wallet_def example_place_def example_wallet_def example_bet_ops_def)
  then show ?thesis by auto
qed

text \<open>A payout of 6 and the stake of 4 for the bet that was placed.\<close>

definition won_first :: "(bet_rows \<times> wallet_log) \<times> bet result" where
  "won_first = SettleBet example_bet_ops yes_wallet (\<lambda>n. example_pg_env ''q'') 9000 placed ''P0'' StatusWon"

definition cancelled_second :: "(bet_rows \<times> wallet_log) \<times> bet result" where
  "cancelled_second =
     overlapped_settle example_bet_ops yes_wallet (\<lambda>n. example_pg_env ''r'') 9500 (fst placed) (fst won_first) ''P0'' StatusCancelled"

theorem settle_race_witness:
  "is_ok (snd won_first) \<and> is_ok (snd cancelled_second)
   \<and> List.map (\<lambda>x. (we_Credit x, we_Amount x)) (snd (fst cancelled_second)) = [(False, ''4''), (True, ''6.0''), (True, ''4'')]"
proof -
  have p: "List.map (\<lambda>b. (b_Status b, b_ID b, b_PotentialPayout b, b_Stake b)) (fst placed) = [(StatusPending, ''p0'', ''6.0'', ''4'')]"
    "List.map (\<lambda>x. (we_Credit x, we_Amount x)) (snd placed) = [(False, ''4'')]"
    "bl_uuid example_bet_lib ''P0'' = Some ''p0''" by code_simp+
  then obtain b where b: "fst placed = [b]" "b_Status b = StatusPending" "b_ID b = ''p0''" "b_PotentialPayout b = ''6.0''" "b_Stake b = ''4''"
    by auto
  have f: "pe_fault (example_pg_env x) 0 = None" for x by (simp add: example_pg_env_def)
  have "b \<in> set (fst placed)" "bl_uuid example_bet_lib ''P0'' = Some (b_ID b)" using b(1,3) p(3) by simp_all
  from settle_race [where ord = "\<lambda>db. db" and d = "Inr ''t1''" and c = "''c1''" and now = 9000 and now' = 9500 and l = "snd placed"
        and E = "\<lambda>n. example_pg_env ''q''" and E' = "\<lambda>n. example_pg_env ''r''",
      OF ref_uuid.uuid_server_axioms placed_inv this(1) b(2) this(2) _ f f]
  obtain db1 r1 db2 r2 where runs:
    "won_first = ((db1, snd placed @ [paid_by b StatusWon]), Inr r1)"
    "cancelled_second = ((db2, snd placed @ [paid_by b StatusWon, paid_by b StatusCancelled]), Inr r2)"
    by (fastforce simp: won_first_def cancelled_second_def example_bet_ops_def)
  show ?thesis unfolding runs using p(2) b(4,5) by (simp add: paid_by_def status_defs)
qed

definition won_on_wallet :: "(bet_rows \<times> pg_db) \<times> bet result" where
  "won_on_wallet =
     SettleBet example_bet_ops (example_wallet ''w'' Delivered) (\<lambda>n. example_pg_env ''q'') 9000 (fst placed, example_db) ''p0'' StatusWon"

theorem settle_won_pays_payout_witness:
  "\<exists>b0\<in>set (fst placed). \<exists>b1\<in>set (fst (fst won_on_wallet)). b_Status b0 = StatusPending \<and> b_Status b1 = StatusWon \<and> same_terms b0 b1"
proof -
  have "is_ok (snd won_on_wallet)" by code_simp
  then obtain b where b: "snd won_on_wallet = Inr b" by (cases "snd won_on_wallet") auto
  obtain bs ws where fs: "fst won_on_wallet = (bs, ws)" by force
  have r: "SettleBet (pb_ops example_bet_lib (\<lambda>db. db))
      (wallet_over_grpc example_json (pg_ops dec_ops example_server (\<lambda>x. x) (\<lambda>x. x)) (example_pg_env ''w'') Delivered)
      (\<lambda>n. example_pg_env ''q'') 9000 (fst placed, example_db) ''p0'' StatusWon = ((bs, ws), Inr b)"
    using b fs by (simp add: won_on_wallet_def example_wallet_def example_bet_ops_def prod_eq_iff)
  have "list_all (\<lambda>b. scale8 (num dec_ops dec_val (b_PotentialPayout b))) (fst placed)" by code_simp
  then have s8: "\<forall>b\<in>set (fst placed). bl_uuid example_bet_lib ''p0'' = Some (b_ID b)
      \<longrightarrow> scale8 (num dec_ops dec_val (b_PotentialPayout b))" by (simp add: list_all_iff)
  show ?thesis
    using settle_won_pays_payout [OF refpg.pg_server_axioms example_db_reach s8 ref_uuid.uuid_server_axioms permutes_entries_id
        placed_inv r] fs by auto
qed

end
