(* ===== verification/FeedModel.thy ===== *)
theory FeedModel
  imports Prelude
begin

text \<open>
  The data of the odds feed, \<open>internal/oddsfeed\<close>: the rows of its store (\<open>models.go\<close>), the
  snapshots and updates of a provider (\<open>provider.go\<close>), the normalizer (\<open>normalizer.go\<close>), the
  interfaces \<open>Store\<close> (\<open>store.go\<close>) and \<open>FeedProvider\<close> as records of operations, and the contract
  of a feed store as the locale \<open>feed_store\<close>.

  The name-based UUID of a text (\<open>did\<close>) and the reading of RFC 3339 times (\<open>parse_time\<close>) come from
  outside and are arguments.  A nil metadata map is \<open>None\<close>.
\<close>

section \<open>Lists of results\<close>

text \<open>A loop that appends a value for each element and returns at the first error.\<close>

fun traverse :: "('a \<Rightarrow> 'b result) \<Rightarrow> 'a list \<Rightarrow> 'b list result" where
  "traverse f [] = Inr []"
| "traverse f (x # xs) =
     (case f x of
        Inl e \<Rightarrow> Inl e
      | Inr y \<Rightarrow> (case traverse f xs of Inl e \<Rightarrow> Inl e | Inr ys \<Rightarrow> Inr (y # ys)))"

lemma traverse_Inr: "traverse f xs = Inr ys \<longleftrightarrow> list_all2 (\<lambda>x y. f x = Inr y) xs ys"
proof (induction xs arbitrary: ys)
  case (Cons x xs)
  show ?case
  proof (cases "traverse f xs")
    case (Inr zs)
    then have "list_all2 (\<lambda>x y. f x = Inr y) xs ws \<longleftrightarrow> ws = zs" for ws
      using Cons.IH [of ws] by auto
    then show ?thesis by (auto simp: list_all2_Cons1 Inr split: sum.splits)
  qed (use Cons.IH in \<open>auto simp: list_all2_Cons1 split: sum.splits\<close>)
qed auto

lemma traverse_ok: "is_ok (traverse f xs) \<longleftrightarrow> list_all (\<lambda>x. is_ok (f x)) xs"
  by (induction xs) (auto split: sum.splits)

lemma traverse_map: "list_all (\<lambda>x. f x = Inr (g x)) xs \<Longrightarrow> traverse f xs = Inr (List.map g xs)"
  by (induction xs) auto

lemma list_all2_image: "list_all2 P xs ys \<Longrightarrow> x \<in> set xs \<Longrightarrow> \<exists>y\<in>set ys. P x y"
  by (fastforce simp: list_all2_conv_all_nth in_set_conv_nth)

lemma list_all2_preimage: "list_all2 P xs ys \<Longrightarrow> y \<in> set ys \<Longrightarrow> \<exists>x\<in>set xs. P x y"
  by (fastforce simp: list_all2_conv_all_nth in_set_conv_nth)

section \<open>models.go\<close>

type_synonym tags = "string gomap option"

record sport =
  sp_ID :: string
  sp_Provider :: string
  sp_ProviderSportID :: string
  sp_Slug :: string
  sp_Name :: string
  sp_CreatedAt :: gtime
  sp_UpdatedAt :: gtime

record league =
  lg_ID :: string
  lg_Provider :: string
  lg_ProviderLeagueID :: string
  lg_SportID :: string
  lg_Name :: string
  lg_Country :: string
  lg_CreatedAt :: gtime
  lg_UpdatedAt :: gtime

record event =
  ev_ID :: string
  ev_Provider :: string
  ev_ProviderEventID :: string
  ev_LeagueID :: string
  ev_SportID :: string
  ev_HomeParticipant :: string
  ev_AwayParticipant :: string
  ev_StartsAt :: gtime
  ev_Status :: string
  ev_HomeScore :: string
  ev_AwayScore :: string
  ev_ScoreUpdatedAt :: gtime
  ev_Metadata :: tags
  ev_CreatedAt :: gtime
  ev_UpdatedAt :: gtime

record market =
  mk_ID :: string
  mk_Provider :: string
  mk_ProviderMarketID :: string
  mk_EventID :: string
  mk_Type :: string
  mk_Name :: string
  mk_Line :: string
  mk_Status :: string
  mk_Metadata :: tags
  mk_CreatedAt :: gtime
  mk_UpdatedAt :: gtime

record outcome =
  oc_ID :: string
  oc_Provider :: string
  oc_ProviderOutcomeID :: string
  oc_MarketID :: string
  oc_Name :: string
  oc_Odds :: string
  oc_Status :: string
  oc_Metadata :: tags
  oc_CreatedAt :: gtime
  oc_UpdatedAt :: gtime

section \<open>provider.go\<close>

record sport_snapshot =
  ss_ProviderID :: string
  ss_Slug :: string
  ss_Name :: string

record league_snapshot =
  ls_ProviderID :: string
  ls_SportID :: string
  ls_Name :: string
  ls_Country :: string

record event_snapshot =
  es_ProviderID :: string
  es_LeagueID :: string
  es_SportID :: string
  es_HomeParticipant :: string
  es_AwayParticipant :: string
  es_StartsAt :: string
  es_Status :: string
  es_HomeScore :: string
  es_AwayScore :: string
  es_ScoreUpdatedAt :: string
  es_Metadata :: tags

record market_snapshot =
  ks_ProviderID :: string
  ks_EventID :: string
  ks_Type :: string
  ks_Name :: string
  ks_Line :: string
  ks_Status :: string
  ks_Metadata :: tags

record outcome_snapshot =
  os_ProviderID :: string
  os_MarketID :: string
  os_Name :: string
  os_Odds :: string
  os_Status :: string
  os_Metadata :: tags

record snapshot =
  sn_Provider :: string
  sn_Sports :: "sport_snapshot list"
  sn_Leagues :: "league_snapshot list"
  sn_Events :: "event_snapshot list"
  sn_Markets :: "market_snapshot list"
  sn_Outcomes :: "outcome_snapshot list"

record feed_update =
  fu_Provider :: string
  fu_Type :: string
  fu_EntityID :: string
  fu_Payload :: "string gomap"

text \<open>The answers of a provider during one sync; \<open>FetchSnapshot\<close> and \<open>FetchHierarchy\<close> take a sport and parameters.\<close>

record feed_provider =
  FP_FetchSnapshot :: "string \<Rightarrow> string gomap \<Rightarrow> snapshot result"
  FP_FetchHierarchy :: "string \<Rightarrow> string gomap \<Rightarrow> snapshot result"
  FP_FetchConditions :: "string list \<Rightarrow> snapshot result"

section \<open>normalizer.go\<close>

definition deterministicID :: "(string \<Rightarrow> string) \<Rightarrow> string \<Rightarrow> string \<Rightarrow> string" where
  "deterministicID did provider key = did (provider @ '':'' @ key)"

text \<open>The maps from provider ids to internal ids.\<close>

definition id_map :: "('a \<Rightarrow> string) \<Rightarrow> ('a \<Rightarrow> string) \<Rightarrow> 'a list \<Rightarrow> string gomap" where
  "id_map key i xs = fold (\<lambda>x m. mput (key x) (i x) m) xs []"

definition look :: "string gomap \<Rightarrow> string \<Rightarrow> string" where
  "look m k = (case mget m k of None \<Rightarrow> [] | Some v \<Rightarrow> v)"

definition sport_id :: "(string \<Rightarrow> string) \<Rightarrow> string \<Rightarrow> string \<Rightarrow> string" where
  "sport_id did provider p = deterministicID did provider (''sport:'' @ p)"

definition league_id :: "(string \<Rightarrow> string) \<Rightarrow> string \<Rightarrow> string \<Rightarrow> string" where
  "league_id did provider p = deterministicID did provider (''league:'' @ p)"

definition event_id :: "(string \<Rightarrow> string) \<Rightarrow> string \<Rightarrow> string \<Rightarrow> string" where
  "event_id did provider p = deterministicID did provider (''event:'' @ p)"

definition market_id :: "(string \<Rightarrow> string) \<Rightarrow> string \<Rightarrow> string \<Rightarrow> string" where
  "market_id did provider p = deterministicID did provider (''market:'' @ p)"

definition outcome_id :: "(string \<Rightarrow> string) \<Rightarrow> string \<Rightarrow> string \<Rightarrow> string" where
  "outcome_id did provider p = deterministicID did provider (''outcome:'' @ p)"

definition norm_sport :: "(string \<Rightarrow> string) \<Rightarrow> string \<Rightarrow> sport_snapshot \<Rightarrow> sport" where
  "norm_sport did provider sp =
     \<lparr>sp_ID = sport_id did provider (ss_ProviderID sp), sp_Provider = provider,
      sp_ProviderSportID = ss_ProviderID sp, sp_Slug = ss_Slug sp, sp_Name = ss_Name sp,
      sp_CreatedAt = zero_time, sp_UpdatedAt = zero_time\<rparr>"

definition norm_league ::
  "(string \<Rightarrow> string) \<Rightarrow> string \<Rightarrow> string gomap \<Rightarrow> league_snapshot \<Rightarrow> league result" where
  "norm_league did provider sportIDs l =
     (case mget sportIDs (ls_SportID l) of
        None \<Rightarrow> Inl (NewErr (''league '' @ ls_ProviderID l @ '' references unknown sport '' @ ls_SportID l))
      | Some sportID \<Rightarrow>
          Inr \<lparr>lg_ID = league_id did provider (ls_ProviderID l), lg_Provider = provider,
               lg_ProviderLeagueID = ls_ProviderID l, lg_SportID = sportID, lg_Name = ls_Name l,
               lg_Country = ls_Country l, lg_CreatedAt = zero_time, lg_UpdatedAt = zero_time\<rparr>)"

definition parse_optional :: "(string \<Rightarrow> gtime result) \<Rightarrow> string \<Rightarrow> string \<Rightarrow> gtime result" where
  "parse_optional parse_time what s =
     (if s = [] then Inr zero_time
      else case parse_time s of Inl err \<Rightarrow> Inl (WrapErr what err) | Inr t \<Rightarrow> Inr t)"

definition norm_event ::
  "(string \<Rightarrow> string) \<Rightarrow> (string \<Rightarrow> gtime result) \<Rightarrow> string \<Rightarrow> string gomap \<Rightarrow> string gomap
   \<Rightarrow> event_snapshot \<Rightarrow> event result" where
  "norm_event did parse_time provider sportIDs leagueIDs e =
     (case parse_optional parse_time ''parse event starts_at: '' (es_StartsAt e) of
        Inl err \<Rightarrow> Inl err
      | Inr startsAt \<Rightarrow>
        (case parse_optional parse_time ''parse event score_updated_at: '' (es_ScoreUpdatedAt e) of
           Inl err \<Rightarrow> Inl err
         | Inr scoreUpdatedAt \<Rightarrow>
             Inr \<lparr>ev_ID = event_id did provider (es_ProviderID e), ev_Provider = provider,
                  ev_ProviderEventID = es_ProviderID e, ev_LeagueID = look leagueIDs (es_LeagueID e),
                  ev_SportID = look sportIDs (es_SportID e), ev_HomeParticipant = es_HomeParticipant e,
                  ev_AwayParticipant = es_AwayParticipant e, ev_StartsAt = startsAt,
                  ev_Status = es_Status e, ev_HomeScore = es_HomeScore e, ev_AwayScore = es_AwayScore e,
                  ev_ScoreUpdatedAt = scoreUpdatedAt, ev_Metadata = es_Metadata e,
                  ev_CreatedAt = zero_time, ev_UpdatedAt = zero_time\<rparr>))"

definition norm_market ::
  "(string \<Rightarrow> string) \<Rightarrow> string \<Rightarrow> string gomap \<Rightarrow> market_snapshot \<Rightarrow> market result" where
  "norm_market did provider eventIDs m =
     (case mget eventIDs (ks_EventID m) of
        None \<Rightarrow> Inl (NewErr (''market '' @ ks_ProviderID m @ '' references unknown event '' @ ks_EventID m))
      | Some eventID \<Rightarrow>
          Inr \<lparr>mk_ID = market_id did provider (ks_ProviderID m), mk_Provider = provider,
               mk_ProviderMarketID = ks_ProviderID m, mk_EventID = eventID, mk_Type = ks_Type m,
               mk_Name = ks_Name m, mk_Line = ks_Line m, mk_Status = ks_Status m,
               mk_Metadata = ks_Metadata m, mk_CreatedAt = zero_time, mk_UpdatedAt = zero_time\<rparr>)"

definition norm_outcome ::
  "(string \<Rightarrow> string) \<Rightarrow> string \<Rightarrow> string gomap \<Rightarrow> outcome_snapshot \<Rightarrow> outcome result" where
  "norm_outcome did provider marketIDs oc =
     (case mget marketIDs (os_MarketID oc) of
        None \<Rightarrow> Inl (NewErr (''outcome '' @ os_ProviderID oc @ '' references unknown market '' @ os_MarketID oc))
      | Some marketID \<Rightarrow>
          Inr \<lparr>oc_ID = outcome_id did provider (os_ProviderID oc), oc_Provider = provider,
               oc_ProviderOutcomeID = os_ProviderID oc, oc_MarketID = marketID, oc_Name = os_Name oc,
               oc_Odds = os_Odds oc, oc_Status = os_Status oc, oc_Metadata = os_Metadata oc,
               oc_CreatedAt = zero_time, oc_UpdatedAt = zero_time\<rparr>)"

record rows =
  rw_sports :: "sport list"
  rw_leagues :: "league list"
  rw_events :: "event list"
  rw_markets :: "market list"
  rw_outcomes :: "outcome list"

definition NormalizeSnapshot ::
  "(string \<Rightarrow> string) \<Rightarrow> (string \<Rightarrow> gtime result) \<Rightarrow> snapshot \<Rightarrow> rows result" where
  "NormalizeSnapshot did parse_time snap =
     (let pv = sn_Provider snap;
          sportIDs = id_map ss_ProviderID (\<lambda>sp. sport_id did pv (ss_ProviderID sp)) (sn_Sports snap);
          leagueIDs = id_map ls_ProviderID (\<lambda>l. league_id did pv (ls_ProviderID l)) (sn_Leagues snap);
          eventIDs = id_map es_ProviderID (\<lambda>e. event_id did pv (es_ProviderID e)) (sn_Events snap);
          marketIDs = id_map ks_ProviderID (\<lambda>m. market_id did pv (ks_ProviderID m)) (sn_Markets snap)
      in case traverse (norm_league did pv sportIDs) (sn_Leagues snap) of
           Inl err \<Rightarrow> Inl err
         | Inr leagues \<Rightarrow>
       (case traverse (norm_event did parse_time pv sportIDs leagueIDs) (sn_Events snap) of
           Inl err \<Rightarrow> Inl err
         | Inr events \<Rightarrow>
       (case traverse (norm_market did pv eventIDs) (sn_Markets snap) of
           Inl err \<Rightarrow> Inl err
         | Inr markets \<Rightarrow>
       (case traverse (norm_outcome did pv marketIDs) (sn_Outcomes snap) of
           Inl err \<Rightarrow> Inl err
         | Inr outcomes \<Rightarrow>
             Inr \<lparr>rw_sports = List.map (norm_sport did pv) (sn_Sports snap), rw_leagues = leagues,
                  rw_events = events, rw_markets = markets, rw_outcomes = outcomes\<rparr>))))"

section \<open>What the normalizer resolves\<close>

lemma mget_fold_mput:
  "mget (fold (\<lambda>x m. mput (key x) (i (key x)) m) xs m0) k =
     (if k \<in> key ` set xs then Some (i k) else mget m0 k)"
  by (induction xs arbitrary: m0) auto

lemma mget_id_map:
  "mget (id_map key (\<lambda>x. i (key x)) xs) k = (if k \<in> key ` set xs then Some (i k) else None)"
  by (simp add: id_map_def mget_fold_mput)

lemma look_id_map:
  "look (id_map key (\<lambda>x. i (key x)) xs) k = (if k \<in> key ` set xs then i k else [])"
  by (simp add: look_def mget_id_map)

lemma norm_league_Inr:
  "norm_league did pv si l = Inr r \<Longrightarrow> lg_Provider r = pv \<and> lg_ProviderLeagueID r = ls_ProviderID l
     \<and> mget si (ls_SportID l) = Some (lg_SportID r)"
  by (auto simp: norm_league_def split: option.splits)

lemma norm_event_Inr:
  "norm_event did pt pv si li e = Inr r \<Longrightarrow> ev_ID r = event_id did pv (es_ProviderID e) \<and> ev_Provider r = pv
     \<and> ev_ProviderEventID r = es_ProviderID e \<and> ev_Status r = es_Status e"
  by (auto simp: norm_event_def split: sum.splits)

lemma norm_market_Inr:
  "norm_market did pv ei m = Inr r \<Longrightarrow> mk_ID r = market_id did pv (ks_ProviderID m) \<and> mk_Provider r = pv
     \<and> mk_ProviderMarketID r = ks_ProviderID m \<and> mget ei (ks_EventID m) = Some (mk_EventID r)
     \<and> mk_Status r = ks_Status m"
  by (auto simp: norm_market_def split: option.splits)

lemma norm_outcome_Inr:
  "norm_outcome did pv mi x = Inr r \<Longrightarrow> oc_ID r = outcome_id did pv (os_ProviderID x) \<and> oc_Provider r = pv
     \<and> oc_ProviderOutcomeID r = os_ProviderID x \<and> mget mi (os_MarketID x) = Some (oc_MarketID r)
     \<and> oc_Status r = os_Status x \<and> oc_Odds r = os_Odds x"
  by (auto simp: norm_outcome_def split: option.splits)

lemma NormalizeSnapshot_Inr:
  assumes "NormalizeSnapshot did parse_time snap = Inr rw"
  defines "pv \<equiv> sn_Provider snap"
  defines "SI \<equiv> id_map ss_ProviderID (\<lambda>sp. sport_id did pv (ss_ProviderID sp)) (sn_Sports snap)"
    and "LI \<equiv> id_map ls_ProviderID (\<lambda>l. league_id did pv (ls_ProviderID l)) (sn_Leagues snap)"
    and "EI \<equiv> id_map es_ProviderID (\<lambda>e. event_id did pv (es_ProviderID e)) (sn_Events snap)"
    and "MI \<equiv> id_map ks_ProviderID (\<lambda>m. market_id did pv (ks_ProviderID m)) (sn_Markets snap)"
  shows "rw_sports rw = List.map (norm_sport did pv) (sn_Sports snap)"
    and "list_all2 (\<lambda>l r. norm_league did pv SI l = Inr r) (sn_Leagues snap) (rw_leagues rw)"
    and "list_all2 (\<lambda>e r. norm_event did parse_time pv SI LI e = Inr r) (sn_Events snap) (rw_events rw)"
    and "list_all2 (\<lambda>m r. norm_market did pv EI m = Inr r) (sn_Markets snap) (rw_markets rw)"
    and "list_all2 (\<lambda>x r. norm_outcome did pv MI x = Inr r) (sn_Outcomes snap) (rw_outcomes rw)"
  using assms(1) unfolding NormalizeSnapshot_def Let_def pv_def SI_def LI_def EI_def MI_def
  by (auto simp: traverse_Inr split: sum.splits)

section \<open>store.go\<close>

record ('e, 's) feed_ops =
  FO_UpsertSport :: "'e \<Rightarrow> 's \<Rightarrow> sport \<Rightarrow> 's \<times> string result"
  FO_UpsertLeague :: "'e \<Rightarrow> 's \<Rightarrow> league \<Rightarrow> 's \<times> string result"
  FO_UpsertEvent :: "'e \<Rightarrow> 's \<Rightarrow> event \<Rightarrow> 's \<times> string result"
  FO_UpsertMarket :: "'e \<Rightarrow> 's \<Rightarrow> market \<Rightarrow> 's \<times> string result"
  FO_UpsertOutcome :: "'e \<Rightarrow> 's \<Rightarrow> outcome \<Rightarrow> 's \<times> string result"
  FO_UpdateOutcomeOdds :: "'e \<Rightarrow> 's \<Rightarrow> string \<Rightarrow> string \<Rightarrow> string \<Rightarrow> 's \<times> (string \<times> string) result"
  FO_UpdateMarketStatus :: "'e \<Rightarrow> 's \<Rightarrow> string \<Rightarrow> string \<Rightarrow> string \<Rightarrow> 's \<times> string result"
  FO_UpdateOutcomeStatus :: "'e \<Rightarrow> 's \<Rightarrow> string \<Rightarrow> string \<Rightarrow> string \<Rightarrow> 's \<times> (string \<times> string) result"
  FO_UpdateEventStatus :: "'e \<Rightarrow> 's \<Rightarrow> string \<Rightarrow> string \<Rightarrow> string \<Rightarrow> 's \<times> unit result"
  FO_GetEventStatusesByProvider :: "'e \<Rightarrow> 's \<Rightarrow> string \<Rightarrow> string gomap result"
  FO_ListSports :: "'e \<Rightarrow> 's \<Rightarrow> int \<Rightarrow> int \<Rightarrow> sport list result"
  FO_ListLeagues :: "'e \<Rightarrow> 's \<Rightarrow> string \<Rightarrow> int \<Rightarrow> int \<Rightarrow> league list result"
  FO_ListEvents :: "'e \<Rightarrow> 's \<Rightarrow> string \<Rightarrow> string \<Rightarrow> string \<Rightarrow> int \<Rightarrow> int \<Rightarrow> event list result"
  FO_GetEvent :: "'e \<Rightarrow> 's \<Rightarrow> string \<Rightarrow> event option result"
  FO_ListMarkets :: "'e \<Rightarrow> 's \<Rightarrow> string \<Rightarrow> string \<Rightarrow> int \<Rightarrow> int \<Rightarrow> market list result"
  FO_ListOutcomes :: "'e \<Rightarrow> 's \<Rightarrow> string \<Rightarrow> string \<Rightarrow> int \<Rightarrow> int \<Rightarrow> outcome list result"
  FO_ListLiveScores :: "'e \<Rightarrow> 's \<Rightarrow> string \<Rightarrow> string \<Rightarrow> int \<Rightarrow> int \<Rightarrow> event list result"

section \<open>The contract of a feed store\<close>

text \<open>The rows by provider and provider id.\<close>

type_synonym 'r table = "string \<times> string \<Rightarrow> 'r option"

record feed_view =
  vw_sports :: "sport table"
  vw_leagues :: "league table"
  vw_events :: "event table"
  vw_markets :: "market table"
  vw_outcomes :: "outcome table"

definition ev_key :: "event \<Rightarrow> string \<times> string" where
  "ev_key e = (ev_Provider e, ev_ProviderEventID e)"

definition mk_key :: "market \<Rightarrow> string \<times> string" where
  "mk_key m = (mk_Provider m, mk_ProviderMarketID m)"

definition oc_key :: "outcome \<Rightarrow> string \<times> string" where
  "oc_key x = (oc_Provider x, oc_ProviderOutcomeID x)"

text \<open>
  What an upsert stores: the columns of the row given, with references as the store writes them
  (\<open>refers\<close>), under the id it had if it was there.
\<close>

definition stored_event :: "(string \<Rightarrow> string \<Rightarrow> bool) \<Rightarrow> event \<Rightarrow> event \<Rightarrow> bool" where
  "stored_event refers e e' \<longleftrightarrow>
     ev_key e' = ev_key e \<and> ev_Status e' = ev_Status e
     \<and> ev_HomeParticipant e' = ev_HomeParticipant e \<and> ev_AwayParticipant e' = ev_AwayParticipant e
     \<and> ev_HomeScore e' = ev_HomeScore e \<and> ev_AwayScore e' = ev_AwayScore e
     \<and> refers (ev_LeagueID e) (ev_LeagueID e') \<and> refers (ev_SportID e) (ev_SportID e')"

definition stored_market :: "(string \<Rightarrow> string \<Rightarrow> bool) \<Rightarrow> market \<Rightarrow> market \<Rightarrow> bool" where
  "stored_market refers m m' \<longleftrightarrow>
     mk_key m' = mk_key m \<and> mk_Status m' = mk_Status m \<and> mk_Type m' = mk_Type m \<and> mk_Name m' = mk_Name m
     \<and> mk_Line m' = mk_Line m \<and> refers (mk_EventID m) (mk_EventID m')"

definition stored_outcome :: "(string \<Rightarrow> string \<Rightarrow> bool) \<Rightarrow> outcome \<Rightarrow> outcome \<Rightarrow> bool" where
  "stored_outcome refers x x' \<longleftrightarrow>
     oc_key x' = oc_key x \<and> oc_Status x' = oc_Status x \<and> oc_Odds x' = oc_Odds x \<and> oc_Name x' = oc_Name x
     \<and> refers (oc_MarketID x) (oc_MarketID x')"

text \<open>What a store call may do to the view: nothing, or the one change \<open>f\<close>; a call that succeeds does it.\<close>

definition may_change :: "feed_view \<Rightarrow> feed_view \<Rightarrow> bool \<Rightarrow> (feed_view \<Rightarrow> bool) \<Rightarrow> bool" where
  "may_change v v' ok P \<longleftrightarrow> v' = v \<and> \<not> ok \<or> P v'"

definition keeps_id :: "('r \<Rightarrow> string) \<Rightarrow> 'r option \<Rightarrow> 'r \<Rightarrow> string result \<Rightarrow> bool" where
  "keeps_id rid old new r \<longleftrightarrow>
     (case old of None \<Rightarrow> True | Some o1 \<Rightarrow> rid new = rid o1) \<and> (case r of Inl e \<Rightarrow> True | Inr i \<Rightarrow> i = rid new)"

text \<open>
  \<open>okp\<close> are the providers the store keeps apart, \<open>refers\<close> how it writes a reference to a row.
  Sports and leagues only matter here in that their upserts leave the other tables alone.
\<close>

locale feed_store =
  fixes S :: "('e, 's) feed_ops" and view :: "'s \<Rightarrow> feed_view" and inv :: "'s \<Rightarrow> bool"
    and okp :: "string \<Rightarrow> bool" and refers :: "string \<Rightarrow> string \<Rightarrow> bool"
  assumes upsert_sport: "inv s \<Longrightarrow> okp (sp_Provider sp) \<Longrightarrow> FO_UpsertSport S E s sp = (s', r) \<Longrightarrow>
      inv s' \<and> (\<exists>t. view s' = (view s)\<lparr>vw_sports := t\<rparr>)"
    and upsert_league: "inv s \<Longrightarrow> okp (lg_Provider l) \<Longrightarrow> FO_UpsertLeague S E s l = (s', r) \<Longrightarrow>
      inv s' \<and> (\<exists>t. view s' = (view s)\<lparr>vw_leagues := t\<rparr>)"
    and upsert_event: "inv s \<Longrightarrow> okp (ev_Provider e) \<Longrightarrow> FO_UpsertEvent S E s e = (s', r) \<Longrightarrow>
      inv s' \<and> may_change (view s) (view s') (is_ok r)
        (\<lambda>v. \<exists>e'. v = (view s)\<lparr>vw_events := (vw_events (view s))(ev_key e \<mapsto> e')\<rparr> \<and> stored_event refers e e'
           \<and> keeps_id ev_ID (vw_events (view s) (ev_key e)) e' r)"
    and upsert_market: "inv s \<Longrightarrow> okp (mk_Provider m) \<Longrightarrow> FO_UpsertMarket S E s m = (s', r) \<Longrightarrow>
      inv s' \<and> may_change (view s) (view s') (is_ok r)
        (\<lambda>v. \<exists>m'. v = (view s)\<lparr>vw_markets := (vw_markets (view s))(mk_key m \<mapsto> m')\<rparr> \<and> stored_market refers m m'
           \<and> keeps_id mk_ID (vw_markets (view s) (mk_key m)) m' r)"
    and upsert_outcome: "inv s \<Longrightarrow> okp (oc_Provider x) \<Longrightarrow> FO_UpsertOutcome S E s x = (s', r) \<Longrightarrow>
      inv s' \<and> may_change (view s) (view s') (is_ok r)
        (\<lambda>v. \<exists>x'. v = (view s)\<lparr>vw_outcomes := (vw_outcomes (view s))(oc_key x \<mapsto> x')\<rparr> \<and> stored_outcome refers x x'
           \<and> keeps_id oc_ID (vw_outcomes (view s) (oc_key x)) x' r)"
    and update_odds: "inv s \<Longrightarrow> okp p \<Longrightarrow> FO_UpdateOutcomeOdds S E s p i odds = (s', r2) \<Longrightarrow>
      inv s' \<and> may_change (view s) (view s') (is_ok r2)
        (\<lambda>v. \<exists>x x'. vw_outcomes (view s) (p, i) = Some x \<and> v = (view s)\<lparr>vw_outcomes := (vw_outcomes (view s))((p, i) \<mapsto> x')\<rparr>
           \<and> x' = x\<lparr>oc_Odds := odds, oc_UpdatedAt := oc_UpdatedAt x'\<rparr>
           \<and> (r2 = Inr (oc_MarketID x, oc_ID x) \<or> \<not> is_ok r2))"
    and update_market: "inv s \<Longrightarrow> okp p \<Longrightarrow> FO_UpdateMarketStatus S E s p i st = (s', r1) \<Longrightarrow>
      inv s' \<and> may_change (view s) (view s') (is_ok r1)
        (\<lambda>v. \<exists>m m'. vw_markets (view s) (p, i) = Some m \<and> v = (view s)\<lparr>vw_markets := (vw_markets (view s))((p, i) \<mapsto> m')\<rparr>
           \<and> m' = m\<lparr>mk_Status := st, mk_UpdatedAt := mk_UpdatedAt m'\<rparr> \<and> (r1 = Inr (mk_ID m) \<or> \<not> is_ok r1))"
    and update_outcome: "inv s \<Longrightarrow> okp p \<Longrightarrow> FO_UpdateOutcomeStatus S E s p i st = (s', r2) \<Longrightarrow>
      inv s' \<and> may_change (view s) (view s') (is_ok r2)
        (\<lambda>v. \<exists>x x'. vw_outcomes (view s) (p, i) = Some x \<and> v = (view s)\<lparr>vw_outcomes := (vw_outcomes (view s))((p, i) \<mapsto> x')\<rparr>
           \<and> x' = x\<lparr>oc_Status := st, oc_UpdatedAt := oc_UpdatedAt x'\<rparr>
           \<and> (r2 = Inr (oc_MarketID x, oc_ID x) \<or> \<not> is_ok r2))"
    and statuses: "inv s \<Longrightarrow> okp p \<Longrightarrow> FO_GetEventStatusesByProvider S E s p = Inr sm \<Longrightarrow>
      mget sm i = map_option ev_Status (vw_events (view s) (p, i))"
    and get_event: "inv s \<Longrightarrow> FO_GetEvent S E s i = Inr (Some e) \<Longrightarrow>
      vw_events (view s) (ev_key e) = Some e \<and> refers i (ev_ID e)"
    and list_markets: "inv s \<Longrightarrow> FO_ListMarkets S E s i st pg n = Inr ms \<Longrightarrow> m \<in> set ms \<Longrightarrow>
      vw_markets (view s) (mk_key m) = Some m \<and> (i = [] \<or> refers i (mk_EventID m)) \<and> (st = [] \<or> mk_Status m = st)"
    and list_outcomes: "inv s \<Longrightarrow> FO_ListOutcomes S E s i st pg n = Inr xs \<Longrightarrow> x \<in> set xs \<Longrightarrow>
      vw_outcomes (view s) (oc_key x) = Some x \<and> (i = [] \<or> refers i (oc_MarketID x)) \<and> (st = [] \<or> oc_Status x = st)"

end
