(* ===== verification/FeedMemory.thy ===== *)
theory FeedMemory
  imports FeedModel
begin

text \<open>
  The in-memory feed store, \<open>internal/oddsfeed/memory_store.go\<close>: five Go maps under the keys
  \<open>provider:id\<close>.  An operation that walks a map takes the order of the walk (\<open>feed_orders\<close>).
  \<open>sort.Slice\<close> may order equal elements anyhow, which a stable sort after an arbitrary walk covers.

  Proved: the store meets the contract \<open>feed_store\<close> for providers whose name has no colon.
\<close>

section \<open>State and keys\<close>

record feed_mem =
  fm_sports :: "sport gomap"
  fm_leagues :: "league gomap"
  fm_events :: "event gomap"
  fm_markets :: "market gomap"
  fm_outcomes :: "outcome gomap"

record feed_env =
  fe_now :: gtime
  fe_uuid :: string

record feed_orders =
  fo_sports :: "(string \<times> sport) list \<Rightarrow> (string \<times> sport) list"
  fo_leagues :: "(string \<times> league) list \<Rightarrow> (string \<times> league) list"
  fo_events :: "(string \<times> event) list \<Rightarrow> (string \<times> event) list"
  fo_markets :: "(string \<times> market) list \<Rightarrow> (string \<times> market) list"
  fo_outcomes :: "(string \<times> outcome) list \<Rightarrow> (string \<times> outcome) list"

definition NewInMemoryFeed :: feed_mem where
  "NewInMemoryFeed = \<lparr>fm_sports = [], fm_leagues = [], fm_events = [], fm_markets = [], fm_outcomes = []\<rparr>"

text \<open>\<open>sportKey\<close>, \<open>leagueKey\<close>, \<open>eventKey\<close>, \<open>marketKey\<close> and \<open>outcomeKey\<close> are the same function.\<close>

definition feed_key :: "string \<Rightarrow> string \<Rightarrow> string" where
  "feed_key provider i = provider @ CHR '':'' # i"

section \<open>Upserts\<close>

definition fm_upsert ::
  "string \<Rightarrow> ('r \<Rightarrow> 'r) \<Rightarrow> 'r \<Rightarrow> ('r \<Rightarrow> string) \<Rightarrow> 'r gomap \<Rightarrow> 'r gomap \<times> string" where
  "fm_upsert key change new rid m =
     (case mget m key of
        Some existing \<Rightarrow> (mput key (change existing) m, rid existing)
      | None \<Rightarrow> (mput key new m, rid new))"

definition new_id :: "feed_env \<Rightarrow> string \<Rightarrow> string" where
  "new_id E i = (if i = [] then fe_uuid E else i)"

definition fm_UpsertSport :: "feed_env \<Rightarrow> feed_mem \<Rightarrow> sport \<Rightarrow> feed_mem \<times> string result" where
  "fm_UpsertSport E s sp =
     (case fm_upsert (feed_key (sp_Provider sp) (sp_ProviderSportID sp))
             (\<lambda>x. x\<lparr>sp_Slug := sp_Slug sp, sp_Name := sp_Name sp, sp_UpdatedAt := fe_now E\<rparr>)
             (sp\<lparr>sp_ID := new_id E (sp_ID sp), sp_CreatedAt := fe_now E, sp_UpdatedAt := fe_now E\<rparr>)
             sp_ID (fm_sports s) of
        (m, i) \<Rightarrow> (s\<lparr>fm_sports := m\<rparr>, Inr i))"

definition fm_UpsertLeague :: "feed_env \<Rightarrow> feed_mem \<Rightarrow> league \<Rightarrow> feed_mem \<times> string result" where
  "fm_UpsertLeague E s l =
     (case fm_upsert (feed_key (lg_Provider l) (lg_ProviderLeagueID l))
             (\<lambda>x. x\<lparr>lg_SportID := lg_SportID l, lg_Name := lg_Name l, lg_Country := lg_Country l, lg_UpdatedAt := fe_now E\<rparr>)
             (l\<lparr>lg_ID := new_id E (lg_ID l), lg_CreatedAt := fe_now E, lg_UpdatedAt := fe_now E\<rparr>)
             lg_ID (fm_leagues s) of
        (m, i) \<Rightarrow> (s\<lparr>fm_leagues := m\<rparr>, Inr i))"

definition fm_UpsertEvent :: "feed_env \<Rightarrow> feed_mem \<Rightarrow> event \<Rightarrow> feed_mem \<times> string result" where
  "fm_UpsertEvent E s e =
     (case fm_upsert (feed_key (ev_Provider e) (ev_ProviderEventID e))
             (\<lambda>x. x\<lparr>ev_LeagueID := ev_LeagueID e, ev_SportID := ev_SportID e,
                    ev_HomeParticipant := ev_HomeParticipant e, ev_AwayParticipant := ev_AwayParticipant e,
                    ev_StartsAt := ev_StartsAt e, ev_Status := ev_Status e, ev_HomeScore := ev_HomeScore e,
                    ev_AwayScore := ev_AwayScore e, ev_ScoreUpdatedAt := ev_ScoreUpdatedAt e,
                    ev_Metadata := ev_Metadata e, ev_UpdatedAt := fe_now E\<rparr>)
             (e\<lparr>ev_ID := new_id E (ev_ID e), ev_CreatedAt := fe_now E, ev_UpdatedAt := fe_now E\<rparr>)
             ev_ID (fm_events s) of
        (m, i) \<Rightarrow> (s\<lparr>fm_events := m\<rparr>, Inr i))"

definition fm_UpsertMarket :: "feed_env \<Rightarrow> feed_mem \<Rightarrow> market \<Rightarrow> feed_mem \<times> string result" where
  "fm_UpsertMarket E s k =
     (case fm_upsert (feed_key (mk_Provider k) (mk_ProviderMarketID k))
             (\<lambda>x. x\<lparr>mk_EventID := mk_EventID k, mk_Type := mk_Type k, mk_Name := mk_Name k, mk_Line := mk_Line k,
                    mk_Status := mk_Status k, mk_Metadata := mk_Metadata k, mk_UpdatedAt := fe_now E\<rparr>)
             (k\<lparr>mk_ID := new_id E (mk_ID k), mk_CreatedAt := fe_now E, mk_UpdatedAt := fe_now E\<rparr>)
             mk_ID (fm_markets s) of
        (m, i) \<Rightarrow> (s\<lparr>fm_markets := m\<rparr>, Inr i))"

definition fm_UpsertOutcome :: "feed_env \<Rightarrow> feed_mem \<Rightarrow> outcome \<Rightarrow> feed_mem \<times> string result" where
  "fm_UpsertOutcome E s c =
     (case fm_upsert (feed_key (oc_Provider c) (oc_ProviderOutcomeID c))
             (\<lambda>x. x\<lparr>oc_MarketID := oc_MarketID c, oc_Name := oc_Name c, oc_Odds := oc_Odds c,
                    oc_Status := oc_Status c, oc_Metadata := oc_Metadata c, oc_UpdatedAt := fe_now E\<rparr>)
             (c\<lparr>oc_ID := new_id E (oc_ID c), oc_CreatedAt := fe_now E, oc_UpdatedAt := fe_now E\<rparr>)
             oc_ID (fm_outcomes s) of
        (m, i) \<Rightarrow> (s\<lparr>fm_outcomes := m\<rparr>, Inr i))"

section \<open>Updates\<close>

definition fm_UpdateOutcomeOdds ::
  "feed_env \<Rightarrow> feed_mem \<Rightarrow> string \<Rightarrow> string \<Rightarrow> string \<Rightarrow> feed_mem \<times> (string \<times> string) result" where
  "fm_UpdateOutcomeOdds E s provider i odds =
     (let key = feed_key provider i
      in case mget (fm_outcomes s) key of
           None \<Rightarrow> (s, Inl (NewErr ''update outcome odds: not found''))
         | Some c \<Rightarrow>
             (s\<lparr>fm_outcomes := mput key (c\<lparr>oc_Odds := odds, oc_UpdatedAt := fe_now E\<rparr>) (fm_outcomes s)\<rparr>,
              Inr (oc_MarketID c, oc_ID c)))"

definition fm_UpdateMarketStatus ::
  "feed_env \<Rightarrow> feed_mem \<Rightarrow> string \<Rightarrow> string \<Rightarrow> string \<Rightarrow> feed_mem \<times> string result" where
  "fm_UpdateMarketStatus E s provider i status =
     (let key = feed_key provider i
      in case mget (fm_markets s) key of
           None \<Rightarrow> (s, Inl (NewErr ''update market status: not found''))
         | Some m \<Rightarrow>
             (s\<lparr>fm_markets := mput key (m\<lparr>mk_Status := status, mk_UpdatedAt := fe_now E\<rparr>) (fm_markets s)\<rparr>,
              Inr (mk_ID m)))"

definition fm_UpdateOutcomeStatus ::
  "feed_env \<Rightarrow> feed_mem \<Rightarrow> string \<Rightarrow> string \<Rightarrow> string \<Rightarrow> feed_mem \<times> (string \<times> string) result" where
  "fm_UpdateOutcomeStatus E s provider i status =
     (let key = feed_key provider i
      in case mget (fm_outcomes s) key of
           None \<Rightarrow> (s, Inl (NewErr ''update outcome status: not found''))
         | Some c \<Rightarrow>
             (s\<lparr>fm_outcomes := mput key (c\<lparr>oc_Status := status, oc_UpdatedAt := fe_now E\<rparr>) (fm_outcomes s)\<rparr>,
              Inr (oc_MarketID c, oc_ID c)))"

definition fm_UpdateEventStatus ::
  "feed_env \<Rightarrow> feed_mem \<Rightarrow> string \<Rightarrow> string \<Rightarrow> string \<Rightarrow> feed_mem \<times> unit result" where
  "fm_UpdateEventStatus E s provider i status =
     (let key = feed_key provider i
      in case mget (fm_events s) key of
           None \<Rightarrow> (s, Inl (NewErr ''update event status: not found''))
         | Some e \<Rightarrow>
             (s\<lparr>fm_events := mput key (e\<lparr>ev_Status := status, ev_UpdatedAt := fe_now E\<rparr>) (fm_events s)\<rparr>, Inr ()))"

section \<open>Queries\<close>

definition fm_GetEventStatusesByProvider :: "feed_orders \<Rightarrow> feed_mem \<Rightarrow> string \<Rightarrow> string gomap result" where
  "fm_GetEventStatusesByProvider ord s provider =
     Inr (fold (\<lambda>e m. mput (ev_ProviderEventID e) (ev_Status e) m)
            (List.filter (\<lambda>e. ev_Provider e = provider) (List.map snd (fo_events ord (fm_events s)))) [])"

definition paginate :: "int \<Rightarrow> int \<Rightarrow> 'a list \<Rightarrow> 'a list result" where
  "paginate page pageSize items =
     (let page = (if page \<le> 0 then 1 else page);
          pageSize = (if pageSize \<le> 0 then 20 else pageSize);
          start = wrap64 (wrap64 (page - 1) * pageSize)
      in if start \<ge> int (length items) then Inr []
         else
           let end' = wrap64 (start + pageSize);
               end' = (if end' > int (length items) then int (length items) else end')
           in if start < 0 \<or> end' < start then Inl (ExtErr ''panic: slice bounds out of range'')
              else Inr (take (nat (end' - start)) (drop (nat start) items)))"

definition fm_ListSports :: "feed_orders \<Rightarrow> feed_mem \<Rightarrow> int \<Rightarrow> int \<Rightarrow> sport list result" where
  "fm_ListSports ord s page pageSize =
     paginate page pageSize (sort_key sp_Name (List.map snd (fo_sports ord (fm_sports s))))"

definition fm_ListLeagues :: "feed_orders \<Rightarrow> feed_mem \<Rightarrow> string \<Rightarrow> int \<Rightarrow> int \<Rightarrow> league list result" where
  "fm_ListLeagues ord s sportID page pageSize =
     paginate page pageSize
       (sort_key lg_Name (List.filter (\<lambda>l. \<not> (sportID \<noteq> [] \<and> lg_SportID l \<noteq> sportID))
          (List.map snd (fo_leagues ord (fm_leagues s)))))"

definition fm_ListEvents ::
  "feed_orders \<Rightarrow> feed_mem \<Rightarrow> string \<Rightarrow> string \<Rightarrow> string \<Rightarrow> int \<Rightarrow> int \<Rightarrow> event list result" where
  "fm_ListEvents ord s sportID leagueID status page pageSize =
     paginate page pageSize
       (sort_key (\<lambda>e. - ev_StartsAt e)
          (List.filter (\<lambda>e. \<not> (sportID \<noteq> [] \<and> ev_SportID e \<noteq> sportID) \<and> \<not> (leagueID \<noteq> [] \<and> ev_LeagueID e \<noteq> leagueID)
               \<and> \<not> (status \<noteq> [] \<and> ev_Status e \<noteq> status))
             (List.map snd (fo_events ord (fm_events s)))))"

definition fm_GetEvent :: "feed_orders \<Rightarrow> feed_mem \<Rightarrow> string \<Rightarrow> event option result" where
  "fm_GetEvent ord s i = Inr (List.find (\<lambda>e. ev_ID e = i) (List.map snd (fo_events ord (fm_events s))))"

definition fm_ListMarkets ::
  "feed_orders \<Rightarrow> feed_mem \<Rightarrow> string \<Rightarrow> string \<Rightarrow> int \<Rightarrow> int \<Rightarrow> market list result" where
  "fm_ListMarkets ord s eventID status page pageSize =
     paginate page pageSize
       (sort_key mk_Name (List.filter (\<lambda>m. mk_EventID m = eventID \<and> \<not> (status \<noteq> [] \<and> mk_Status m \<noteq> status))
          (List.map snd (fo_markets ord (fm_markets s)))))"

definition fm_ListOutcomes ::
  "feed_orders \<Rightarrow> feed_mem \<Rightarrow> string \<Rightarrow> string \<Rightarrow> int \<Rightarrow> int \<Rightarrow> outcome list result" where
  "fm_ListOutcomes ord s marketID status page pageSize =
     paginate page pageSize
       (sort_key oc_Name (List.filter (\<lambda>c. oc_MarketID c = marketID \<and> \<not> (status \<noteq> [] \<and> oc_Status c \<noteq> status))
          (List.map snd (fo_outcomes ord (fm_outcomes s)))))"

definition fm_ListLiveScores ::
  "feed_orders \<Rightarrow> feed_mem \<Rightarrow> string \<Rightarrow> string \<Rightarrow> int \<Rightarrow> int \<Rightarrow> event list result" where
  "fm_ListLiveScores ord s sportID leagueID page pageSize =
     fm_ListEvents ord s sportID leagueID ''live'' page pageSize"

definition fm_ops :: "feed_orders \<Rightarrow> (feed_env, feed_mem) feed_ops" where
  "fm_ops ord =
     \<lparr>FO_UpsertSport = fm_UpsertSport, FO_UpsertLeague = fm_UpsertLeague, FO_UpsertEvent = fm_UpsertEvent,
      FO_UpsertMarket = fm_UpsertMarket, FO_UpsertOutcome = fm_UpsertOutcome,
      FO_UpdateOutcomeOdds = fm_UpdateOutcomeOdds, FO_UpdateMarketStatus = fm_UpdateMarketStatus,
      FO_UpdateOutcomeStatus = fm_UpdateOutcomeStatus, FO_UpdateEventStatus = fm_UpdateEventStatus,
      FO_GetEventStatusesByProvider = (\<lambda>E. fm_GetEventStatusesByProvider ord),
      FO_ListSports = (\<lambda>E. fm_ListSports ord), FO_ListLeagues = (\<lambda>E. fm_ListLeagues ord),
      FO_ListEvents = (\<lambda>E. fm_ListEvents ord), FO_GetEvent = (\<lambda>E. fm_GetEvent ord),
      FO_ListMarkets = (\<lambda>E. fm_ListMarkets ord), FO_ListOutcomes = (\<lambda>E. fm_ListOutcomes ord),
      FO_ListLiveScores = (\<lambda>E. fm_ListLiveScores ord)\<rparr>"

section \<open>The maps as tables\<close>

definition no_colon :: "string \<Rightarrow> bool" where
  "no_colon p \<longleftrightarrow> CHR '':'' \<notin> set p"

definition tab :: "('r \<Rightarrow> string \<times> string) \<Rightarrow> 'r gomap \<Rightarrow> 'r table" where
  "tab key m k =
     (case mget m (feed_key (fst k) (snd k)) of None \<Rightarrow> None | Some r \<Rightarrow> if key r = k then Some r else None)"

definition good_tab :: "('r \<Rightarrow> string \<times> string) \<Rightarrow> 'r gomap \<Rightarrow> bool" where
  "good_tab key m \<longleftrightarrow> wf_map m
     \<and> (\<forall>(k, r)\<in>set m. feed_key (fst (key r)) (snd (key r)) = k \<and> no_colon (fst (key r)))"

lemma feed_key_eq: "no_colon p \<Longrightarrow> no_colon q \<Longrightarrow> feed_key p i = feed_key q j \<longleftrightarrow> p = q \<and> i = j"
  unfolding feed_key_def no_colon_def by (rule append_sep_inject)

lemma good_tab_empty [simp]: "good_tab key []" "tab key [] = (\<lambda>_. None)"
  by (auto simp: good_tab_def tab_def)

lemma good_tabD: "good_tab key m \<Longrightarrow> mget m k = Some r \<Longrightarrow> feed_key (fst (key r)) (snd (key r)) = k \<and> no_colon (fst (key r))"
  by (auto simp: good_tab_def dest!: map_of_SomeD)

lemma tab_get:
  assumes "good_tab key m" and "no_colon p"
  shows "mget m (feed_key p i) = tab key m (p, i)"
proof (cases "mget m (feed_key p i)")
  case (Some r)
  then have "feed_key (fst (key r)) (snd (key r)) = feed_key p i" "no_colon (fst (key r))"
    using good_tabD [OF assms(1)] by blast+
  then have "key r = (p, i)" using assms(2) by (simp add: feed_key_eq prod_eq_iff)
  then show ?thesis by (simp add: tab_def Some)
qed (simp add: tab_def)

lemma tab_SomeD: "tab key m k = Some r \<Longrightarrow> key r = k"
  by (simp add: tab_def split: option.splits if_splits)

lemma tab_iff:
  assumes "good_tab key m"
  shows "tab key m k = Some r \<longleftrightarrow> r \<in> snd ` set m \<and> key r = k"
proof
  assume "tab key m k = Some r"
  then show "r \<in> snd ` set m \<and> key r = k"
    by (force simp: tab_def dest: map_of_SomeD split: option.splits if_splits)
next
  assume r: "r \<in> snd ` set m \<and> key r = k"
  then have "(feed_key (fst k) (snd k), r) \<in> set m" using assms by (auto simp: good_tab_def)
  then have "mget m (feed_key (fst k) (snd k)) = Some r" using assms by (simp add: good_tab_def)
  then show "tab key m k = Some r" using r by (simp add: tab_def)
qed

lemma set_mput_subset: "set (mput k v m) \<subseteq> insert (k, v) (set m)"
  by (induction m) auto

lemma tab_put:
  assumes "good_tab key m" and "key r = (p, i)" and "no_colon p"
  shows "good_tab key (mput (feed_key p i) r m)" and "tab key (mput (feed_key p i) r m) = (tab key m)((p, i) \<mapsto> r)"
proof -
  have "set (mput (feed_key p i) r m) \<subseteq> insert (feed_key p i, r) (set m)" by (rule set_mput_subset)
  moreover have "\<forall>(k', r')\<in>insert (feed_key p i, r) (set m). feed_key (fst (key r')) (snd (key r')) = k' \<and> no_colon (fst (key r'))"
    using assms by (simp add: good_tab_def)
  ultimately have "\<forall>(k', r')\<in>set (mput (feed_key p i) r m). feed_key (fst (key r')) (snd (key r')) = k' \<and> no_colon (fst (key r'))"
    by blast
  moreover have "wf_map (mput (feed_key p i) r m)"
    using assms(1) by (simp add: good_tab_def)
  ultimately show "good_tab key (mput (feed_key p i) r m)"
    unfolding good_tab_def by blast
  have "tab key (mput (feed_key p i) r m) k = ((tab key m)((p, i) \<mapsto> r)) k" for k
  proof (cases "k = (p, i)")
    case False
    show ?thesis
    proof (cases "feed_key (fst k) (snd k) = feed_key p i")
      case True
      have "tab key m k = None"
      proof (cases "mget m (feed_key p i)")
        case (Some r0)
        then have "tab key m (p, i) = Some r0" using tab_get [OF assms(1,3), of i] by simp
        then have "key r0 = (p, i)" by (simp add: tab_iff [OF assms(1)])
        then show ?thesis using True False Some by (simp add: tab_def)
      qed (simp add: tab_def True)
      then show ?thesis using True False assms(2) by (auto simp: tab_def)
    qed (use False in \<open>simp add: tab_def\<close>)
  qed (simp add: tab_def assms(2))
  then show "tab key (mput (feed_key p i) r m) = (tab key m)((p, i) \<mapsto> r)" by (rule ext)
qed

lemma fm_upsert_tab:
  assumes "good_tab key m" and "no_colon p" and "key new = (p, i)" and "\<And>r. key (change r) = key r"
    and "fm_upsert (feed_key p i) change new rid m = (m', j)"
  shows "good_tab key m' \<and> (\<exists>r. tab key m' = (tab key m)((p, i) \<mapsto> r)
    \<and> (case tab key m (p, i) of None \<Rightarrow> r = new \<and> j = rid new | Some o1 \<Rightarrow> r = change o1 \<and> j = rid o1))"
proof (cases "tab key m (p, i)")
  case None
  then have "m' = mput (feed_key p i) new m" "j = rid new"
    using assms(5) tab_get [OF assms(1,2), of i] by (auto simp: fm_upsert_def)
  then show ?thesis using tab_put [OF assms(1,3,2)] None by auto
next
  case (Some o1)
  then have eq: "m' = mput (feed_key p i) (change o1) m" "j = rid o1"
    using assms(5) tab_get [OF assms(1,2), of i] by (auto simp: fm_upsert_def)
  have "key (change o1) = (p, i)" using Some assms(4) by (auto simp: tab_iff [OF assms(1)])
  then show ?thesis using tab_put [OF assms(1) _ assms(2)] eq Some by auto
qed

section \<open>The contract\<close>

definition sp_key :: "sport \<Rightarrow> string \<times> string" where
  "sp_key x = (sp_Provider x, sp_ProviderSportID x)"

definition lg_key :: "league \<Rightarrow> string \<times> string" where
  "lg_key x = (lg_Provider x, lg_ProviderLeagueID x)"

lemmas key_defs = sp_key_def lg_key_def ev_key_def mk_key_def oc_key_def

definition fm_inv :: "feed_mem \<Rightarrow> bool" where
  "fm_inv s \<longleftrightarrow> good_tab sp_key (fm_sports s) \<and> good_tab lg_key (fm_leagues s) \<and> good_tab ev_key (fm_events s)
     \<and> good_tab mk_key (fm_markets s) \<and> good_tab oc_key (fm_outcomes s)"

definition fm_view :: "feed_mem \<Rightarrow> feed_view" where
  "fm_view s =
     \<lparr>vw_sports = tab sp_key (fm_sports s), vw_leagues = tab lg_key (fm_leagues s),
      vw_events = tab ev_key (fm_events s), vw_markets = tab mk_key (fm_markets s),
      vw_outcomes = tab oc_key (fm_outcomes s)\<rparr>"

lemma fm_inv_empty [simp]: "fm_inv NewInMemoryFeed"
  by (simp add: fm_inv_def NewInMemoryFeed_def)

definition feed_walks :: "feed_orders \<Rightarrow> bool" where
  "feed_walks ord \<longleftrightarrow> permutes_entries (fo_sports ord) \<and> permutes_entries (fo_leagues ord)
     \<and> permutes_entries (fo_events ord) \<and> permutes_entries (fo_markets ord) \<and> permutes_entries (fo_outcomes ord)"

lemma walk_values: "permutes_entries ord \<Longrightarrow> good_tab key m \<Longrightarrow> set (List.map snd (ord m)) = snd ` set m"
  by (simp add: permutes_entries_set wf_map_distinct good_tab_def)

lemma paginate_subset: "paginate page n xs = Inr ys \<Longrightarrow> set ys \<subseteq> set xs"
  by (auto simp: paginate_def Let_def split: if_splits dest!: in_set_takeD in_set_dropD)

lemma statuses_fold:
  assumes "\<forall>e\<in>set es. \<forall>e'\<in>set es. ev_ProviderEventID e = ev_ProviderEventID e' \<longrightarrow> ev_Status e = ev_Status e'"
  shows "mget (fold (\<lambda>e m. mput (ev_ProviderEventID e) (ev_Status e) m) es m0) i =
    (case List.find (\<lambda>e. ev_ProviderEventID e = i) es of None \<Rightarrow> mget m0 i | Some e \<Rightarrow> Some (ev_Status e))"
  using assms
proof (induction es arbitrary: m0)
  case (Cons e es)
  have IH: "mget (fold (\<lambda>e m. mput (ev_ProviderEventID e) (ev_Status e) m) es m1) i =
      (case List.find (\<lambda>e. ev_ProviderEventID e = i) es of None \<Rightarrow> mget m1 i | Some e \<Rightarrow> Some (ev_Status e))" for m1
    by (rule Cons.IH) (use Cons.prems in \<open>unfold list.set, blast\<close>)
  show ?case
  proof (cases "List.find (\<lambda>e. ev_ProviderEventID e = i) es")
    case (Some e')
    then have e': "e' \<in> set es" "ev_ProviderEventID e' = i" using find_key_Some by fast+
    have "ev_ProviderEventID e = i \<Longrightarrow> ev_Status e = ev_Status e'"
      using bspec [OF bspec [OF Cons.prems list.set_intros(1)] list.set_intros(2) [OF e'(1)]] e'(2) by simp
    then show ?thesis using Some by (simp add: IH)
  qed (simp add: IH)
qed simp

lemma fm_view_simps [simp]:
  "vw_sports (fm_view s) = tab sp_key (fm_sports s)" "vw_leagues (fm_view s) = tab lg_key (fm_leagues s)"
  "vw_events (fm_view s) = tab ev_key (fm_events s)" "vw_markets (fm_view s) = tab mk_key (fm_markets s)"
  "vw_outcomes (fm_view s) = tab oc_key (fm_outcomes s)"
  by (simp_all add: fm_view_def)

lemma fm_UpsertSport_spec:
  assumes "fm_inv s" and "no_colon (sp_Provider sp)" and "fm_UpsertSport E s sp = (s', r)"
  shows "fm_inv s' \<and> (\<exists>t. fm_view s' = (fm_view s)\<lparr>vw_sports := t\<rparr>)"
proof -
  obtain m' j where up: "fm_upsert (feed_key (sp_Provider sp) (sp_ProviderSportID sp))
      (\<lambda>x. x\<lparr>sp_Slug := sp_Slug sp, sp_Name := sp_Name sp, sp_UpdatedAt := fe_now E\<rparr>)
      (sp\<lparr>sp_ID := new_id E (sp_ID sp), sp_CreatedAt := fe_now E, sp_UpdatedAt := fe_now E\<rparr>)
      sp_ID (fm_sports s) = (m', j)" by (metis surj_pair)
  then have s': "s' = s\<lparr>fm_sports := m'\<rparr>" using assms(3) by (simp add: fm_UpsertSport_def)
  have "good_tab sp_key m'"
    using fm_upsert_tab [OF _ assms(2) _ _ up, where key = sp_key] assms(1) by (simp add: fm_inv_def sp_key_def)
  then show ?thesis using assms(1) by (simp add: s' fm_inv_def fm_view_def)
qed

lemma fm_UpsertLeague_spec:
  assumes "fm_inv s" and "no_colon (lg_Provider l)" and "fm_UpsertLeague E s l = (s', r)"
  shows "fm_inv s' \<and> (\<exists>t. fm_view s' = (fm_view s)\<lparr>vw_leagues := t\<rparr>)"
proof -
  obtain m' j where up: "fm_upsert (feed_key (lg_Provider l) (lg_ProviderLeagueID l))
      (\<lambda>x. x\<lparr>lg_SportID := lg_SportID l, lg_Name := lg_Name l, lg_Country := lg_Country l, lg_UpdatedAt := fe_now E\<rparr>)
      (l\<lparr>lg_ID := new_id E (lg_ID l), lg_CreatedAt := fe_now E, lg_UpdatedAt := fe_now E\<rparr>)
      lg_ID (fm_leagues s) = (m', j)" by (metis surj_pair)
  then have s': "s' = s\<lparr>fm_leagues := m'\<rparr>" using assms(3) by (simp add: fm_UpsertLeague_def)
  have "good_tab lg_key m'"
    using fm_upsert_tab [OF _ assms(2) _ _ up, where key = lg_key] assms(1) by (simp add: fm_inv_def lg_key_def)
  then show ?thesis using assms(1) by (simp add: s' fm_inv_def fm_view_def)
qed

lemma fm_UpsertEvent_spec:
  assumes "fm_inv s" and "no_colon (ev_Provider e)" and "fm_UpsertEvent E s e = (s', r)"
  shows "fm_inv s' \<and> may_change (fm_view s) (fm_view s') (is_ok r)
    (\<lambda>v. \<exists>e'. v = (fm_view s)\<lparr>vw_events := (vw_events (fm_view s))(ev_key e \<mapsto> e')\<rparr> \<and> stored_event (=) e e'
       \<and> keeps_id ev_ID (vw_events (fm_view s) (ev_key e)) e' r)"
proof -
  let ?change = "\<lambda>x. x\<lparr>ev_LeagueID := ev_LeagueID e, ev_SportID := ev_SportID e,
                    ev_HomeParticipant := ev_HomeParticipant e, ev_AwayParticipant := ev_AwayParticipant e,
                    ev_StartsAt := ev_StartsAt e, ev_Status := ev_Status e, ev_HomeScore := ev_HomeScore e,
                    ev_AwayScore := ev_AwayScore e, ev_ScoreUpdatedAt := ev_ScoreUpdatedAt e,
                    ev_Metadata := ev_Metadata e, ev_UpdatedAt := fe_now E\<rparr>"
  let ?new = "e\<lparr>ev_ID := new_id E (ev_ID e), ev_CreatedAt := fe_now E, ev_UpdatedAt := fe_now E\<rparr>"
  obtain m' j where up: "fm_upsert (feed_key (ev_Provider e) (ev_ProviderEventID e)) ?change ?new ev_ID (fm_events s)
      = (m', j)" by (metis surj_pair)
  then have s': "s' = s\<lparr>fm_events := m'\<rparr>" "r = Inr j" using assms(3) by (simp_all add: fm_UpsertEvent_def)
  have good: "good_tab ev_key (fm_events s)" using assms(1) by (simp add: fm_inv_def)
  obtain x where x: "good_tab ev_key m'" "tab ev_key m' = (tab ev_key (fm_events s))(ev_key e \<mapsto> x)"
    "case tab ev_key (fm_events s) (ev_key e) of None \<Rightarrow> x = ?new \<and> j = ev_ID ?new | Some o1 \<Rightarrow> x = ?change o1 \<and> j = ev_ID o1"
    using fm_upsert_tab [OF good assms(2) _ _ up] by (auto simp: ev_key_def)
  have "stored_event (=) e x" "keeps_id ev_ID (tab ev_key (fm_events s) (ev_key e)) x r"
    using x(3)
    by (auto simp: stored_event_def keeps_id_def s' ev_key_def dest: tab_SomeD split: option.splits)
  then show ?thesis using assms(1) x by (auto simp: s'(1) fm_inv_def fm_view_def may_change_def)
qed

lemma fm_UpsertMarket_spec:
  assumes "fm_inv s" and "no_colon (mk_Provider k)" and "fm_UpsertMarket E s k = (s', r)"
  shows "fm_inv s' \<and> may_change (fm_view s) (fm_view s') (is_ok r)
    (\<lambda>v. \<exists>k'. v = (fm_view s)\<lparr>vw_markets := (vw_markets (fm_view s))(mk_key k \<mapsto> k')\<rparr> \<and> stored_market (=) k k'
       \<and> keeps_id mk_ID (vw_markets (fm_view s) (mk_key k)) k' r)"
proof -
  let ?change = "\<lambda>x. x\<lparr>mk_EventID := mk_EventID k, mk_Type := mk_Type k, mk_Name := mk_Name k, mk_Line := mk_Line k,
                    mk_Status := mk_Status k, mk_Metadata := mk_Metadata k, mk_UpdatedAt := fe_now E\<rparr>"
  let ?new = "k\<lparr>mk_ID := new_id E (mk_ID k), mk_CreatedAt := fe_now E, mk_UpdatedAt := fe_now E\<rparr>"
  obtain m' j where up: "fm_upsert (feed_key (mk_Provider k) (mk_ProviderMarketID k)) ?change ?new mk_ID (fm_markets s)
      = (m', j)" by (metis surj_pair)
  then have s': "s' = s\<lparr>fm_markets := m'\<rparr>" "r = Inr j" using assms(3) by (simp_all add: fm_UpsertMarket_def)
  have good: "good_tab mk_key (fm_markets s)" using assms(1) by (simp add: fm_inv_def)
  obtain x where x: "good_tab mk_key m'" "tab mk_key m' = (tab mk_key (fm_markets s))(mk_key k \<mapsto> x)"
    "case tab mk_key (fm_markets s) (mk_key k) of None \<Rightarrow> x = ?new \<and> j = mk_ID ?new | Some o1 \<Rightarrow> x = ?change o1 \<and> j = mk_ID o1"
    using fm_upsert_tab [OF good assms(2) _ _ up] by (auto simp: mk_key_def)
  have "stored_market (=) k x" "keeps_id mk_ID (tab mk_key (fm_markets s) (mk_key k)) x r"
    using x(3)
    by (auto simp: stored_market_def keeps_id_def s' mk_key_def dest: tab_SomeD split: option.splits)
  then show ?thesis using assms(1) x by (auto simp: s'(1) fm_inv_def fm_view_def may_change_def)
qed

lemma fm_UpsertOutcome_spec:
  assumes "fm_inv s" and "no_colon (oc_Provider c)" and "fm_UpsertOutcome E s c = (s', r)"
  shows "fm_inv s' \<and> may_change (fm_view s) (fm_view s') (is_ok r)
    (\<lambda>v. \<exists>c'. v = (fm_view s)\<lparr>vw_outcomes := (vw_outcomes (fm_view s))(oc_key c \<mapsto> c')\<rparr> \<and> stored_outcome (=) c c'
       \<and> keeps_id oc_ID (vw_outcomes (fm_view s) (oc_key c)) c' r)"
proof -
  let ?change = "\<lambda>x. x\<lparr>oc_MarketID := oc_MarketID c, oc_Name := oc_Name c, oc_Odds := oc_Odds c,
                    oc_Status := oc_Status c, oc_Metadata := oc_Metadata c, oc_UpdatedAt := fe_now E\<rparr>"
  let ?new = "c\<lparr>oc_ID := new_id E (oc_ID c), oc_CreatedAt := fe_now E, oc_UpdatedAt := fe_now E\<rparr>"
  obtain m' j where up: "fm_upsert (feed_key (oc_Provider c) (oc_ProviderOutcomeID c)) ?change ?new oc_ID (fm_outcomes s)
      = (m', j)" by (metis surj_pair)
  then have s': "s' = s\<lparr>fm_outcomes := m'\<rparr>" "r = Inr j" using assms(3) by (simp_all add: fm_UpsertOutcome_def)
  have good: "good_tab oc_key (fm_outcomes s)" using assms(1) by (simp add: fm_inv_def)
  obtain x where x: "good_tab oc_key m'" "tab oc_key m' = (tab oc_key (fm_outcomes s))(oc_key c \<mapsto> x)"
    "case tab oc_key (fm_outcomes s) (oc_key c) of None \<Rightarrow> x = ?new \<and> j = oc_ID ?new | Some o1 \<Rightarrow> x = ?change o1 \<and> j = oc_ID o1"
    using fm_upsert_tab [OF good assms(2) _ _ up] by (auto simp: oc_key_def)
  have "stored_outcome (=) c x" "keeps_id oc_ID (tab oc_key (fm_outcomes s) (oc_key c)) x r"
    using x(3)
    by (auto simp: stored_outcome_def keeps_id_def s' oc_key_def dest: tab_SomeD split: option.splits)
  then show ?thesis using assms(1) x by (auto simp: s'(1) fm_inv_def fm_view_def may_change_def)
qed

lemma fm_mod_spec:
  assumes "good_tab key m" and "no_colon p" and "mget m (feed_key p i) = Some x" and "key (f x) = key x"
  shows "good_tab key (mput (feed_key p i) (f x) m) \<and> tab key m (p, i) = Some x
    \<and> tab key (mput (feed_key p i) (f x) m) = (tab key m)((p, i) \<mapsto> f x)"
proof -
  have "tab key m (p, i) = Some x" using assms(3) tab_get [OF assms(1,2), of i] by simp
  moreover from this have "key (f x) = (p, i)" using assms(4) tab_SomeD by fastforce
  ultimately show ?thesis using tab_put [OF assms(1) _ assms(2)] by blast
qed

lemma fm_UpdateOutcomeOdds_spec:
  assumes "fm_inv s" and "no_colon p" and "fm_UpdateOutcomeOdds E s p i odds = (s', r)"
  shows "fm_inv s' \<and> may_change (fm_view s) (fm_view s') (is_ok r)
    (\<lambda>v. \<exists>x x'. vw_outcomes (fm_view s) (p, i) = Some x
       \<and> v = (fm_view s)\<lparr>vw_outcomes := (vw_outcomes (fm_view s))((p, i) \<mapsto> x')\<rparr>
       \<and> x' = x\<lparr>oc_Odds := odds, oc_UpdatedAt := oc_UpdatedAt x'\<rparr> \<and> (r = Inr (oc_MarketID x, oc_ID x) \<or> \<not> is_ok r))"
proof (cases "mget (fm_outcomes s) (feed_key p i)")
  case (Some x)
  have "good_tab oc_key (fm_outcomes s)" using assms(1) by (simp add: fm_inv_def)
  from fm_mod_spec [OF this assms(2) Some, of "\<lambda>x. x\<lparr>oc_Odds := odds, oc_UpdatedAt := fe_now E\<rparr>"]
  show ?thesis using assms(1,3) Some
    by (auto simp: fm_UpdateOutcomeOdds_def Let_def fm_inv_def fm_view_def may_change_def oc_key_def)
qed (use assms in \<open>auto simp: fm_UpdateOutcomeOdds_def Let_def may_change_def\<close>)

lemma fm_UpdateMarketStatus_spec:
  assumes "fm_inv s" and "no_colon p" and "fm_UpdateMarketStatus E s p i st = (s', r)"
  shows "fm_inv s' \<and> may_change (fm_view s) (fm_view s') (is_ok r)
    (\<lambda>v. \<exists>m m'. vw_markets (fm_view s) (p, i) = Some m
       \<and> v = (fm_view s)\<lparr>vw_markets := (vw_markets (fm_view s))((p, i) \<mapsto> m')\<rparr>
       \<and> m' = m\<lparr>mk_Status := st, mk_UpdatedAt := mk_UpdatedAt m'\<rparr> \<and> (r = Inr (mk_ID m) \<or> \<not> is_ok r))"
proof (cases "mget (fm_markets s) (feed_key p i)")
  case (Some x)
  have "good_tab mk_key (fm_markets s)" using assms(1) by (simp add: fm_inv_def)
  from fm_mod_spec [OF this assms(2) Some, of "\<lambda>x. x\<lparr>mk_Status := st, mk_UpdatedAt := fe_now E\<rparr>"]
  show ?thesis using assms(1,3) Some
    by (auto simp: fm_UpdateMarketStatus_def Let_def fm_inv_def fm_view_def may_change_def mk_key_def)
qed (use assms in \<open>auto simp: fm_UpdateMarketStatus_def Let_def may_change_def\<close>)

lemma fm_UpdateOutcomeStatus_spec:
  assumes "fm_inv s" and "no_colon p" and "fm_UpdateOutcomeStatus E s p i st = (s', r)"
  shows "fm_inv s' \<and> may_change (fm_view s) (fm_view s') (is_ok r)
    (\<lambda>v. \<exists>x x'. vw_outcomes (fm_view s) (p, i) = Some x
       \<and> v = (fm_view s)\<lparr>vw_outcomes := (vw_outcomes (fm_view s))((p, i) \<mapsto> x')\<rparr>
       \<and> x' = x\<lparr>oc_Status := st, oc_UpdatedAt := oc_UpdatedAt x'\<rparr> \<and> (r = Inr (oc_MarketID x, oc_ID x) \<or> \<not> is_ok r))"
proof (cases "mget (fm_outcomes s) (feed_key p i)")
  case (Some x)
  have "good_tab oc_key (fm_outcomes s)" using assms(1) by (simp add: fm_inv_def)
  from fm_mod_spec [OF this assms(2) Some, of "\<lambda>x. x\<lparr>oc_Status := st, oc_UpdatedAt := fe_now E\<rparr>"]
  show ?thesis using assms(1,3) Some
    by (auto simp: fm_UpdateOutcomeStatus_def Let_def fm_inv_def fm_view_def may_change_def oc_key_def)
qed (use assms in \<open>auto simp: fm_UpdateOutcomeStatus_def Let_def may_change_def\<close>)

lemma fm_statuses_spec:
  assumes "permutes_entries (fo_events ord)" and "fm_inv s" and "fm_GetEventStatusesByProvider ord s p = Inr sm"
  shows "mget sm i = map_option ev_Status (vw_events (fm_view s) (p, i))"
proof -
  let ?es = "List.filter (\<lambda>e. ev_Provider e = p) (List.map snd (fo_events ord (fm_events s)))"
  have good: "good_tab ev_key (fm_events s)" using assms(2) by (simp add: fm_inv_def)
  have set: "e \<in> set ?es \<longleftrightarrow> tab ev_key (fm_events s) (p, ev_ProviderEventID e) = Some e" for e
    using tab_iff [OF good] walk_values [OF assms(1) good] by (auto simp: ev_key_def)
  have "mget sm i = (case List.find (\<lambda>e. ev_ProviderEventID e = i) ?es of None \<Rightarrow> None | Some e \<Rightarrow> Some (ev_Status e))"
  proof -
    have "\<forall>e\<in>set ?es. \<forall>e'\<in>set ?es. ev_ProviderEventID e = ev_ProviderEventID e' \<longrightarrow> ev_Status e = ev_Status e'"
    proof (intro ballI impI)
      fix e e' assume e: "e \<in> set ?es" and e': "e' \<in> set ?es" and eq: "ev_ProviderEventID e = ev_ProviderEventID e'"
      have "tab ev_key (fm_events s) (p, ev_ProviderEventID e) = Some e" by (rule iffD1 [OF set e])
      moreover have "tab ev_key (fm_events s) (p, ev_ProviderEventID e') = Some e'" by (rule iffD1 [OF set e'])
      ultimately have "Some e = Some e'" unfolding eq by (rule trans [OF sym])
      then show "ev_Status e = ev_Status e'" by simp
    qed
    from statuses_fold [OF this, of "[]" i] show ?thesis
      using assms(3) by (simp only: fm_GetEventStatusesByProvider_def sum.inject map_of.simps)
  qed
  also have "\<dots> = map_option ev_Status (tab ev_key (fm_events s) (p, i))"
  proof (cases "tab ev_key (fm_events s) (p, i)")
    case None
    then have "List.find (\<lambda>e. ev_ProviderEventID e = i) ?es = None"
      using set by (auto simp: find_key_None)
    then show ?thesis using None by simp
  next
    case (Some e)
    then have "e \<in> set ?es" "ev_ProviderEventID e = i" using set [of e] tab_SomeD [OF Some] by (auto simp: ev_key_def)
    then obtain e' where e': "List.find (\<lambda>e. ev_ProviderEventID e = i) ?es = Some e'"
      by (metis (mono_tags, lifting) find_None_iff not_Some_eq)
    then have "e' \<in> set ?es" "ev_ProviderEventID e' = i" using find_key_Some by fast+
    then have "e' = e" using set [of e'] Some by simp
    then show ?thesis using e' Some by simp
  qed
  finally show ?thesis by simp
qed

lemma fm_get_event_spec:
  assumes "permutes_entries (fo_events ord)" and "fm_inv s" and "fm_GetEvent ord s i = Inr (Some e)"
  shows "vw_events (fm_view s) (ev_key e) = Some e \<and> i = ev_ID e"
proof -
  have good: "good_tab ev_key (fm_events s)" using assms(2) by (simp add: fm_inv_def)
  have "e \<in> set (List.map snd (fo_events ord (fm_events s)))" "ev_ID e = i"
    using assms(3) find_key_Some unfolding fm_GetEvent_def by fast+
  then show ?thesis using walk_values [OF assms(1) good] by (simp add: tab_iff [OF good])
qed

lemma fm_list_markets_spec:
  assumes "permutes_entries (fo_markets ord)" and "fm_inv s" and "fm_ListMarkets ord s i st p n = Inr ms" and "m \<in> set ms"
  shows "vw_markets (fm_view s) (mk_key m) = Some m \<and> mk_EventID m = i \<and> (st = [] \<or> mk_Status m = st)"
proof -
  have good: "good_tab mk_key (fm_markets s)" using assms(2) by (simp add: fm_inv_def)
  show ?thesis using assms(4) paginate_subset [OF assms(3) [unfolded fm_ListMarkets_def]] walk_values [OF assms(1) good]
    by (auto simp: tab_iff [OF good])
qed

lemma fm_list_outcomes_spec:
  assumes "permutes_entries (fo_outcomes ord)" and "fm_inv s" and "fm_ListOutcomes ord s i st p n = Inr xs" and "x \<in> set xs"
  shows "vw_outcomes (fm_view s) (oc_key x) = Some x \<and> oc_MarketID x = i \<and> (st = [] \<or> oc_Status x = st)"
proof -
  have good: "good_tab oc_key (fm_outcomes s)" using assms(2) by (simp add: fm_inv_def)
  show ?thesis using assms(4) paginate_subset [OF assms(3) [unfolded fm_ListOutcomes_def]] walk_values [OF assms(1) good]
    by (auto simp: tab_iff [OF good])
qed

lemma fm_ops_sel:
  "FO_UpsertSport (fm_ops ord) = fm_UpsertSport" "FO_UpsertLeague (fm_ops ord) = fm_UpsertLeague"
  "FO_UpsertEvent (fm_ops ord) = fm_UpsertEvent" "FO_UpsertMarket (fm_ops ord) = fm_UpsertMarket"
  "FO_UpsertOutcome (fm_ops ord) = fm_UpsertOutcome" "FO_UpdateOutcomeOdds (fm_ops ord) = fm_UpdateOutcomeOdds"
  "FO_UpdateMarketStatus (fm_ops ord) = fm_UpdateMarketStatus" "FO_UpdateOutcomeStatus (fm_ops ord) = fm_UpdateOutcomeStatus"
  "FO_GetEventStatusesByProvider (fm_ops ord) E = fm_GetEventStatusesByProvider ord"
  "FO_GetEvent (fm_ops ord) E = fm_GetEvent ord" "FO_ListMarkets (fm_ops ord) E = fm_ListMarkets ord"
  "FO_ListOutcomes (fm_ops ord) E = fm_ListOutcomes ord"
  by (simp_all add: fm_ops_def)

lemma fm_feed_store:
  assumes "feed_walks ord"
  shows "feed_store (fm_ops ord) fm_view fm_inv no_colon (=)"
proof (unfold_locales, unfold fm_ops_sel, goal_cases)
  case 1 then show ?case by (rule fm_UpsertSport_spec)
next
  case 2 then show ?case by (rule fm_UpsertLeague_spec)
next
  case 3 then show ?case by (rule fm_UpsertEvent_spec)
next
  case 4 then show ?case by (rule fm_UpsertMarket_spec)
next
  case 5 then show ?case by (rule fm_UpsertOutcome_spec)
next
  case 6 then show ?case by (rule fm_UpdateOutcomeOdds_spec)
next
  case 7 then show ?case by (rule fm_UpdateMarketStatus_spec)
next
  case 8 then show ?case by (rule fm_UpdateOutcomeStatus_spec)
next
  case (9 s p E sm i) then show ?case using fm_statuses_spec [of ord s p sm i] assms by (simp add: feed_walks_def)
next
  case (10 s E i e) then show ?case using fm_get_event_spec [of ord s i e] assms by (simp add: feed_walks_def)
next
  case (11 s E i st pg n ms m) then show ?case
    using fm_list_markets_spec [of ord s i st pg n ms m] assms by (simp add: feed_walks_def)
next
  case (12 s E i st pg n xs x) then show ?case
    using fm_list_outcomes_spec [of ord s i st pg n xs x] assms by (simp add: feed_walks_def)
qed

definition map_order :: feed_orders where
  "map_order = \<lparr>fo_sports = \<lambda>xs. xs, fo_leagues = \<lambda>xs. xs, fo_events = \<lambda>xs. xs, fo_markets = \<lambda>xs. xs, fo_outcomes = \<lambda>xs. xs\<rparr>"

lemma map_order_walks [simp]: "feed_walks map_order"
  by (simp add: feed_walks_def map_order_def)

interpretation fm: feed_store "fm_ops map_order" fm_view fm_inv no_colon "(=)"
  by (rule fm_feed_store) simp

end
