(* ===== verification/FeedPG.thy ===== *)
theory FeedPG
  imports FeedModel WalletPG
begin

text \<open>
  The Postgres feed store, \<open>internal/oddsfeed/pgstore.go\<close>.  A state is the rows of its five
  tables; every operation is one statement that commits by itself, may fail from outside, and may
  have been applied although it failed (\<open>pg_auto\<close> of the wallet's store).  Of the migrations the
  model has the primary keys, \<open>UNIQUE (provider, provider_..._id)\<close>, the foreign keys and the checks
  on the status.  A row is kept as it is read back: a NULL \<open>score_updated_at\<close> is the zero time, and a
  NULL or \<open>null\<close> \<open>metadata\<close> is nil.

  Proved: the tables stay consistent (\<open>fg_inv\<close>), and they meet the contract \<open>feed_store\<close>.
\<close>

section \<open>Tables\<close>

record feed_pg =
  fg_sports :: "sport list"
  fg_leagues :: "league list"
  fg_events :: "event list"
  fg_markets :: "market list"
  fg_outcomes :: "outcome list"

definition fg_empty :: feed_pg where
  "fg_empty = \<lparr>fg_sports = [], fg_leagues = [], fg_events = [], fg_markets = [], fg_outcomes = []\<rparr>"

text \<open>
  \<open>fl_parse\<close> is \<open>uuid.Parse\<close> with the text the server gives back for its result, \<open>fl_time\<close> what a
  \<open>timestamptz\<close> keeps of an instant, \<open>fl_collate\<close> the sort key of a text in the database's collation.
\<close>

record feed_lib =
  fl_parse :: "string \<Rightarrow> string option"
  fl_time :: "gtime \<Rightarrow> gtime"
  fl_collate :: "string \<Rightarrow> string"

definition ErrUUIDParse :: go_error where
  "ErrUUIDParse = ExtErr ''invalid UUID''"

definition ErrFeedCheck :: go_error where
  "ErrFeedCheck = ExtErr ''new row violates check constraint (SQLSTATE 23514)''"

definition ErrFeedForeignKey :: go_error where
  "ErrFeedForeignKey = ExtErr ''violates foreign key constraint (SQLSTATE 23503)''"

definition ErrFeedUnique :: go_error where
  "ErrFeedUnique = ExtErr ''duplicate key value violates unique constraint (SQLSTATE 23505)''"

definition nil_uuid :: string where
  "nil_uuid = ''00000000-0000-0000-0000-000000000000''"

definition parseUUID :: "feed_lib \<Rightarrow> string \<Rightarrow> string option" where
  "parseUUID N s = (if s = [] then Some nil_uuid else fl_parse N s)"

definition event_status_ok :: "string \<Rightarrow> bool" where
  "event_status_ok st \<longleftrightarrow>
     List.member [''upcoming'', ''live'', ''paused'', ''finished'', ''cancelled'', ''postponed''] st"

definition market_status_ok :: "string \<Rightarrow> bool" where
  "market_status_ok st \<longleftrightarrow> List.member [''active'', ''suspended'', ''settled'', ''cancelled''] st"

definition outcome_status_ok :: "string \<Rightarrow> bool" where
  "outcome_status_ok st \<longleftrightarrow> List.member [''active'', ''suspended'', ''won'', ''lost'', ''cancelled''] st"

section \<open>Statements\<close>

text \<open>
  \<open>INSERT ... ON CONFLICT (provider, provider id) DO UPDATE SET ... RETURNING id\<close>: \<open>change\<close> is the
  update of the row that conflicts, \<open>ok\<close> the checks and \<open>fk\<close> the foreign keys of the row proposed.
\<close>

definition fg_upsert ::
  "('r \<Rightarrow> string \<times> string) \<Rightarrow> ('r \<Rightarrow> string) \<Rightarrow> ('r \<Rightarrow> bool) \<Rightarrow> ('r \<Rightarrow> bool) \<Rightarrow> ('r \<Rightarrow> 'r) \<Rightarrow> 'r \<Rightarrow> 'r list
   \<Rightarrow> ('r list \<times> string) result" where
  "fg_upsert key rid ok fk change new db =
     (if \<not> ok new then Inl ErrFeedCheck
      else case List.find (\<lambda>r. key r = key new) db of
        Some old \<Rightarrow>
          if \<not> fk new then Inl ErrFeedForeignKey
          else Inr (List.map (\<lambda>r. if key r = key new then change r else r) db, rid old)
      | None \<Rightarrow>
          if rid new \<in> set (List.map rid db) then Inl ErrFeedUnique
          else if \<not> fk new then Inl ErrFeedForeignKey
          else Inr (db @ [new], rid new))"

text \<open>\<open>UPDATE ... SET ... WHERE provider AND provider id RETURNING ...\<close>: the row after the update.\<close>

definition fg_update ::
  "('r \<Rightarrow> string \<times> string) \<Rightarrow> string \<times> string \<Rightarrow> bool \<Rightarrow> ('r \<Rightarrow> 'r) \<Rightarrow> 'r list \<Rightarrow> ('r list \<times> 'r option) result" where
  "fg_update key k ok change db =
     (case List.find (\<lambda>r. key r = k) db of
        None \<Rightarrow> Inr (db, None)
      | Some r \<Rightarrow>
          if \<not> ok then Inl ErrFeedCheck
          else Inr (List.map (\<lambda>r. if key r = k then change r else r) db, Some (change r)))"

text \<open>A statement on one of the tables.\<close>

definition on_table ::
  "('t \<Rightarrow> 's \<Rightarrow> 's) \<Rightarrow> ('t \<times> 'a) result \<Rightarrow> 's \<Rightarrow> ('s \<times> 'a) result" where
  "on_table put r db = (case r of Inl err \<Rightarrow> Inl err | Inr (t, x) \<Rightarrow> Inr (put t db, x))"

definition fg_exec :: "string \<Rightarrow> pg_env \<Rightarrow> ('s \<Rightarrow> ('s \<times> 'a) result) \<Rightarrow> 's \<Rightarrow> 's \<times> 'a result" where
  "fg_exec prefix E f db =
     (case pg_auto E f db of
        (db', Inl err) \<Rightarrow> (db', Inl (WrapErr prefix err))
      | (db', Inr x) \<Rightarrow> (db', Inr x))"

section \<open>Upserts\<close>

definition fg_UpsertSport :: "feed_lib \<Rightarrow> pg_env \<Rightarrow> feed_pg \<Rightarrow> sport \<Rightarrow> feed_pg \<times> string result" where
  "fg_UpsertSport N E db sp =
     (case fl_parse N (sp_ID sp) of
        None \<Rightarrow> (db, Inl (WrapErr ''upsert sport: invalid id uuid: '' ErrUUIDParse))
      | Some u \<Rightarrow>
          fg_exec ''upsert sport: '' E
            (\<lambda>db. on_table (\<lambda>t db. db\<lparr>fg_sports := t\<rparr>)
               (fg_upsert (\<lambda>x. (sp_Provider x, sp_ProviderSportID x)) sp_ID (\<lambda>x. True) (\<lambda>x. True)
                  (\<lambda>x. x\<lparr>sp_Slug := sp_Slug sp, sp_Name := sp_Name sp, sp_UpdatedAt := e_now E\<rparr>)
                  (sp\<lparr>sp_ID := u, sp_CreatedAt := e_now E, sp_UpdatedAt := e_now E\<rparr>)
                  (fg_sports db)) db) db)"

definition fg_UpsertLeague :: "feed_lib \<Rightarrow> pg_env \<Rightarrow> feed_pg \<Rightarrow> league \<Rightarrow> feed_pg \<times> string result" where
  "fg_UpsertLeague N E db l =
     (case fl_parse N (lg_ID l) of
        None \<Rightarrow> (db, Inl (WrapErr ''upsert league: invalid id uuid: '' ErrUUIDParse))
      | Some u \<Rightarrow>
     (case parseUUID N (lg_SportID l) of
        None \<Rightarrow> (db, Inl (WrapErr ''upsert league: invalid sport uuid: '' ErrUUIDParse))
      | Some sportUUID \<Rightarrow>
          fg_exec ''upsert league: '' E
            (\<lambda>db. on_table (\<lambda>t db. db\<lparr>fg_leagues := t\<rparr>)
               (fg_upsert (\<lambda>x. (lg_Provider x, lg_ProviderLeagueID x)) lg_ID (\<lambda>x. True)
                  (\<lambda>x. lg_SportID x \<in> set (List.map sp_ID (fg_sports db)))
                  (\<lambda>x. x\<lparr>lg_SportID := sportUUID, lg_Name := lg_Name l, lg_Country := lg_Country l,
                         lg_UpdatedAt := e_now E\<rparr>)
                  (l\<lparr>lg_ID := u, lg_SportID := sportUUID, lg_CreatedAt := e_now E, lg_UpdatedAt := e_now E\<rparr>)
                  (fg_leagues db)) db) db))"

definition fg_event_row :: "feed_lib \<Rightarrow> pg_env \<Rightarrow> event \<Rightarrow> string \<Rightarrow> string \<Rightarrow> string \<Rightarrow> event" where
  "fg_event_row N E e eventUUID leagueUUID sportUUID =
     e\<lparr>ev_ID := eventUUID, ev_LeagueID := leagueUUID, ev_SportID := sportUUID, ev_StartsAt := fl_time N (ev_StartsAt e),
       ev_ScoreUpdatedAt := (if IsZero (ev_ScoreUpdatedAt e) then zero_time else fl_time N (ev_ScoreUpdatedAt e)),
       ev_CreatedAt := e_now E, ev_UpdatedAt := e_now E\<rparr>"

definition fg_UpsertEvent :: "feed_lib \<Rightarrow> pg_env \<Rightarrow> feed_pg \<Rightarrow> event \<Rightarrow> feed_pg \<times> string result" where
  "fg_UpsertEvent N E db e =
     (case fl_parse N (ev_ID e) of
        None \<Rightarrow> (db, Inl (WrapErr ''upsert event: invalid id uuid: '' ErrUUIDParse))
      | Some u \<Rightarrow>
     (case parseUUID N (ev_LeagueID e) of
        None \<Rightarrow> (db, Inl (WrapErr ''upsert event: invalid league uuid: '' ErrUUIDParse))
      | Some leagueUUID \<Rightarrow>
     (case parseUUID N (ev_SportID e) of
        None \<Rightarrow> (db, Inl (WrapErr ''upsert event: invalid sport uuid: '' ErrUUIDParse))
      | Some sportUUID \<Rightarrow>
          let new = fg_event_row N E e u leagueUUID sportUUID
          in fg_exec ''upsert event: '' E
            (\<lambda>db. on_table (\<lambda>t db. db\<lparr>fg_events := t\<rparr>)
               (fg_upsert ev_key ev_ID (\<lambda>x. event_status_ok (ev_Status x))
                  (\<lambda>x. ev_LeagueID x \<in> set (List.map lg_ID (fg_leagues db)) \<and> ev_SportID x \<in> set (List.map sp_ID (fg_sports db)))
                  (\<lambda>x. new\<lparr>ev_ID := ev_ID x, ev_CreatedAt := ev_CreatedAt x\<rparr>)
                  new (fg_events db)) db) db)))"

definition fg_UpsertMarket :: "feed_lib \<Rightarrow> pg_env \<Rightarrow> feed_pg \<Rightarrow> market \<Rightarrow> feed_pg \<times> string result" where
  "fg_UpsertMarket N E db m =
     (case fl_parse N (mk_ID m) of
        None \<Rightarrow> (db, Inl (WrapErr ''upsert market: invalid id uuid: '' ErrUUIDParse))
      | Some u \<Rightarrow>
     (case parseUUID N (mk_EventID m) of
        None \<Rightarrow> (db, Inl (WrapErr ''upsert market: invalid event uuid: '' ErrUUIDParse))
      | Some eventUUID \<Rightarrow>
          let new = m\<lparr>mk_ID := u, mk_EventID := eventUUID, mk_CreatedAt := e_now E, mk_UpdatedAt := e_now E\<rparr>
          in fg_exec ''upsert market: '' E
            (\<lambda>db. on_table (\<lambda>t db. db\<lparr>fg_markets := t\<rparr>)
               (fg_upsert mk_key mk_ID (\<lambda>x. market_status_ok (mk_Status x))
                  (\<lambda>x. mk_EventID x \<in> set (List.map ev_ID (fg_events db)))
                  (\<lambda>x. new\<lparr>mk_ID := mk_ID x, mk_CreatedAt := mk_CreatedAt x\<rparr>)
                  new (fg_markets db)) db) db))"

definition fg_UpsertOutcome :: "feed_lib \<Rightarrow> pg_env \<Rightarrow> feed_pg \<Rightarrow> outcome \<Rightarrow> feed_pg \<times> string result" where
  "fg_UpsertOutcome N E db c =
     (case fl_parse N (oc_ID c) of
        None \<Rightarrow> (db, Inl (WrapErr ''upsert outcome: invalid id uuid: '' ErrUUIDParse))
      | Some u \<Rightarrow>
     (case parseUUID N (oc_MarketID c) of
        None \<Rightarrow> (db, Inl (WrapErr ''upsert outcome: invalid market uuid: '' ErrUUIDParse))
      | Some marketUUID \<Rightarrow>
          let new = c\<lparr>oc_ID := u, oc_MarketID := marketUUID, oc_CreatedAt := e_now E, oc_UpdatedAt := e_now E\<rparr>
          in fg_exec ''upsert outcome: '' E
            (\<lambda>db. on_table (\<lambda>t db. db\<lparr>fg_outcomes := t\<rparr>)
               (fg_upsert oc_key oc_ID (\<lambda>x. outcome_status_ok (oc_Status x))
                  (\<lambda>x. oc_MarketID x \<in> set (List.map mk_ID (fg_markets db)))
                  (\<lambda>x. new\<lparr>oc_ID := oc_ID x, oc_CreatedAt := oc_CreatedAt x\<rparr>)
                  new (fg_outcomes db)) db) db))"

section \<open>Updates\<close>

definition fg_scan_one :: "string \<Rightarrow> ('r \<Rightarrow> 'a) \<Rightarrow> 's \<times> 'r option result \<Rightarrow> 's \<times> 'a result" where
  "fg_scan_one what f r =
     (case r of
        (db, Inl err) \<Rightarrow> (db, Inl (WrapErr (what @ '': '') err))
      | (db, Inr None) \<Rightarrow> (db, Inl (NewErr (what @ '': not found'')))
      | (db, Inr (Some x)) \<Rightarrow> (db, Inr (f x)))"

definition fg_UpdateOutcomeOdds ::
  "pg_env \<Rightarrow> feed_pg \<Rightarrow> string \<Rightarrow> string \<Rightarrow> string \<Rightarrow> feed_pg \<times> (string \<times> string) result" where
  "fg_UpdateOutcomeOdds E db provider i odds =
     fg_scan_one ''update outcome odds'' (\<lambda>c. (oc_MarketID c, oc_ID c))
       (pg_auto E (\<lambda>db. on_table (\<lambda>t db. db\<lparr>fg_outcomes := t\<rparr>)
          (fg_update oc_key (provider, i) True (\<lambda>c. c\<lparr>oc_Odds := odds, oc_UpdatedAt := e_now E\<rparr>) (fg_outcomes db)) db) db)"

definition fg_UpdateMarketStatus ::
  "pg_env \<Rightarrow> feed_pg \<Rightarrow> string \<Rightarrow> string \<Rightarrow> string \<Rightarrow> feed_pg \<times> string result" where
  "fg_UpdateMarketStatus E db provider i status =
     fg_scan_one ''update market status'' mk_ID
       (pg_auto E (\<lambda>db. on_table (\<lambda>t db. db\<lparr>fg_markets := t\<rparr>)
          (fg_update mk_key (provider, i) (market_status_ok status)
             (\<lambda>m. m\<lparr>mk_Status := status, mk_UpdatedAt := e_now E\<rparr>) (fg_markets db)) db) db)"

definition fg_UpdateOutcomeStatus ::
  "pg_env \<Rightarrow> feed_pg \<Rightarrow> string \<Rightarrow> string \<Rightarrow> string \<Rightarrow> feed_pg \<times> (string \<times> string) result" where
  "fg_UpdateOutcomeStatus E db provider i status =
     fg_scan_one ''update outcome status'' (\<lambda>c. (oc_MarketID c, oc_ID c))
       (pg_auto E (\<lambda>db. on_table (\<lambda>t db. db\<lparr>fg_outcomes := t\<rparr>)
          (fg_update oc_key (provider, i) (outcome_status_ok status)
             (\<lambda>c. c\<lparr>oc_Status := status, oc_UpdatedAt := e_now E\<rparr>) (fg_outcomes db)) db) db)"

definition fg_UpdateEventStatus ::
  "pg_env \<Rightarrow> feed_pg \<Rightarrow> string \<Rightarrow> string \<Rightarrow> string \<Rightarrow> feed_pg \<times> unit result" where
  "fg_UpdateEventStatus E db provider i status =
     (case pg_auto E (\<lambda>db. on_table (\<lambda>t db. db\<lparr>fg_events := t\<rparr>)
             (fg_update ev_key (provider, i) (event_status_ok status)
                (\<lambda>e. e\<lparr>ev_Status := status, ev_UpdatedAt := e_now E\<rparr>) (fg_events db)) db) db of
        (db', Inl err) \<Rightarrow> (db', Inl err)
      | (db', Inr x) \<Rightarrow> (db', Inr ()))"

section \<open>Queries\<close>

definition fg_query :: "string \<Rightarrow> pg_env \<Rightarrow> ('s \<Rightarrow> 'a result) \<Rightarrow> 's \<Rightarrow> 'a result" where
  "fg_query prefix E q db =
     snd (fg_exec prefix E (\<lambda>db. case q db of Inl err \<Rightarrow> Inl err | Inr rows \<Rightarrow> Inr (db, rows)) db)"

definition fg_GetEventStatusesByProvider :: "pg_env \<Rightarrow> feed_pg \<Rightarrow> string \<Rightarrow> string gomap result" where
  "fg_GetEventStatusesByProvider E db provider =
     (case fg_query ''get event statuses: '' E
             (\<lambda>db. Inr (List.filter (\<lambda>e. ev_Provider e = provider) (fg_events db))) db of
        Inl err \<Rightarrow> Inl err
      | Inr rows \<Rightarrow> Inr (fold (\<lambda>e m. mput (ev_ProviderEventID e) (ev_Status e) m) rows []))"

text \<open>A page of the rows in the order of the query; \<open>ord\<close> is the server's choice among equal sort keys.\<close>

definition fg_page ::
  "string \<Rightarrow> ('r list \<Rightarrow> 'r list) \<Rightarrow> ('r \<Rightarrow> 'k::linorder) \<Rightarrow> ('r \<Rightarrow> bool) \<Rightarrow> ('s \<Rightarrow> 'r list) \<Rightarrow> pg_env \<Rightarrow> 's
   \<Rightarrow> int \<Rightarrow> int \<Rightarrow> 'r list result" where
  "fg_page prefix ord by_key P table E db page pageSize =
     (case pg_page page pageSize of (limit, offset) \<Rightarrow>
        fg_query prefix E (\<lambda>db. limit_offset limit offset (sort_key by_key (ord (List.filter P (table db))))) db)"

text \<open>An optional filter on a \<open>uuid\<close> column: absent for the empty text.\<close>

definition uuid_filter :: "feed_lib \<Rightarrow> string \<Rightarrow> string \<Rightarrow> string option result" where
  "uuid_filter N prefix i =
     (if i = [] then Inr None
      else case fl_parse N i of None \<Rightarrow> Inl (WrapErr prefix ErrUUIDParse) | Some u \<Rightarrow> Inr (Some u))"

definition passes :: "string option \<Rightarrow> string \<Rightarrow> bool" where
  "passes f x \<longleftrightarrow> (case f of None \<Rightarrow> True | Some u \<Rightarrow> x = u)"

record fg_orders =
  go_sports :: "sport list \<Rightarrow> sport list"
  go_leagues :: "league list \<Rightarrow> league list"
  go_events :: "event list \<Rightarrow> event list"
  go_markets :: "market list \<Rightarrow> market list"
  go_outcomes :: "outcome list \<Rightarrow> outcome list"

definition fg_ListSports :: "feed_lib \<Rightarrow> fg_orders \<Rightarrow> pg_env \<Rightarrow> feed_pg \<Rightarrow> int \<Rightarrow> int \<Rightarrow> sport list result" where
  "fg_ListSports N ord E db page pageSize =
     fg_page ''list sports: '' (go_sports ord) (\<lambda>x. fl_collate N (sp_Name x)) (\<lambda>x. True) fg_sports E db page pageSize"

definition fg_ListLeagues ::
  "feed_lib \<Rightarrow> fg_orders \<Rightarrow> pg_env \<Rightarrow> feed_pg \<Rightarrow> string \<Rightarrow> int \<Rightarrow> int \<Rightarrow> league list result" where
  "fg_ListLeagues N ord E db sportID page pageSize =
     (case uuid_filter N ''list leagues: invalid sport uuid: '' sportID of
        Inl err \<Rightarrow> Inl err
      | Inr sportUUID \<Rightarrow>
          fg_page ''list leagues: '' (go_leagues ord) (\<lambda>x. fl_collate N (lg_Name x)) (\<lambda>x. passes sportUUID (lg_SportID x))
            fg_leagues E db page pageSize)"

definition fg_ListEvents ::
  "feed_lib \<Rightarrow> fg_orders \<Rightarrow> pg_env \<Rightarrow> feed_pg \<Rightarrow> string \<Rightarrow> string \<Rightarrow> string \<Rightarrow> int \<Rightarrow> int \<Rightarrow> event list result" where
  "fg_ListEvents N ord E db sportID leagueID status page pageSize =
     (case uuid_filter N ''list events: invalid sport uuid: '' sportID of
        Inl err \<Rightarrow> Inl err
      | Inr sportUUID \<Rightarrow>
     (case uuid_filter N ''list events: invalid league uuid: '' leagueID of
        Inl err \<Rightarrow> Inl err
      | Inr leagueUUID \<Rightarrow>
          fg_page ''list events: '' (go_events ord) (\<lambda>e. - ev_StartsAt e)
            (\<lambda>e. passes sportUUID (ev_SportID e) \<and> passes leagueUUID (ev_LeagueID e) \<and> (status = [] \<or> ev_Status e = status))
            fg_events E db page pageSize))"

definition fg_GetEvent :: "feed_lib \<Rightarrow> pg_env \<Rightarrow> feed_pg \<Rightarrow> string \<Rightarrow> event option result" where
  "fg_GetEvent N E db i =
     (case parseUUID N i of
        None \<Rightarrow> Inl (WrapErr ''get event: invalid uuid: '' ErrUUIDParse)
      | Some u \<Rightarrow> fg_query ''get event: '' E (\<lambda>db. Inr (List.find (\<lambda>e. ev_ID e = u) (fg_events db))) db)"

definition fg_ListMarkets ::
  "feed_lib \<Rightarrow> fg_orders \<Rightarrow> pg_env \<Rightarrow> feed_pg \<Rightarrow> string \<Rightarrow> string \<Rightarrow> int \<Rightarrow> int \<Rightarrow> market list result" where
  "fg_ListMarkets N ord E db eventID status page pageSize =
     (case uuid_filter N ''list markets: invalid event uuid: '' eventID of
        Inl err \<Rightarrow> Inl err
      | Inr eventUUID \<Rightarrow>
          fg_page ''list markets: '' (go_markets ord) (\<lambda>x. fl_collate N (mk_Name x))
            (\<lambda>m. passes eventUUID (mk_EventID m) \<and> (status = [] \<or> mk_Status m = status)) fg_markets E db page pageSize)"

definition fg_ListOutcomes ::
  "feed_lib \<Rightarrow> fg_orders \<Rightarrow> pg_env \<Rightarrow> feed_pg \<Rightarrow> string \<Rightarrow> string \<Rightarrow> int \<Rightarrow> int \<Rightarrow> outcome list result" where
  "fg_ListOutcomes N ord E db marketID status page pageSize =
     (case uuid_filter N ''list outcomes: invalid market uuid: '' marketID of
        Inl err \<Rightarrow> Inl err
      | Inr marketUUID \<Rightarrow>
          fg_page ''list outcomes: '' (go_outcomes ord) (\<lambda>x. fl_collate N (oc_Name x))
            (\<lambda>c. passes marketUUID (oc_MarketID c) \<and> (status = [] \<or> oc_Status c = status)) fg_outcomes E db page pageSize)"

definition fg_ListLiveScores ::
  "feed_lib \<Rightarrow> fg_orders \<Rightarrow> pg_env \<Rightarrow> feed_pg \<Rightarrow> string \<Rightarrow> string \<Rightarrow> int \<Rightarrow> int \<Rightarrow> event list result" where
  "fg_ListLiveScores N ord E db sportID leagueID page pageSize =
     (case fg_ListEvents N ord E db sportID leagueID ''live'' page pageSize of
        Inl err \<Rightarrow> Inl (WrapErr ''list live scores: '' err)
      | Inr out \<Rightarrow> Inr out)"

definition fg_ops :: "feed_lib \<Rightarrow> fg_orders \<Rightarrow> (pg_env, feed_pg) feed_ops" where
  "fg_ops N ord =
     \<lparr>FO_UpsertSport = fg_UpsertSport N, FO_UpsertLeague = fg_UpsertLeague N, FO_UpsertEvent = fg_UpsertEvent N,
      FO_UpsertMarket = fg_UpsertMarket N, FO_UpsertOutcome = fg_UpsertOutcome N,
      FO_UpdateOutcomeOdds = fg_UpdateOutcomeOdds, FO_UpdateMarketStatus = fg_UpdateMarketStatus,
      FO_UpdateOutcomeStatus = fg_UpdateOutcomeStatus, FO_UpdateEventStatus = fg_UpdateEventStatus,
      FO_GetEventStatusesByProvider = fg_GetEventStatusesByProvider,
      FO_ListSports = fg_ListSports N ord, FO_ListLeagues = fg_ListLeagues N ord,
      FO_ListEvents = fg_ListEvents N ord, FO_GetEvent = fg_GetEvent N, FO_ListMarkets = fg_ListMarkets N ord,
      FO_ListOutcomes = fg_ListOutcomes N ord, FO_ListLiveScores = fg_ListLiveScores N ord\<rparr>"

section \<open>Keyed tables\<close>

definition keyed :: "('r \<Rightarrow> string \<times> string) \<Rightarrow> ('r \<Rightarrow> string) \<Rightarrow> 'r list \<Rightarrow> bool" where
  "keyed key rid t \<longleftrightarrow> distinct (List.map key t) \<and> distinct (List.map rid t)"

definition row_at :: "('r \<Rightarrow> string \<times> string) \<Rightarrow> 'r list \<Rightarrow> 'r table" where
  "row_at key t k = List.find (\<lambda>r. key r = k) t"

lemma keyed_empty [simp]: "keyed key rid []" "row_at key [] = (\<lambda>_. None)"
  by (simp_all add: keyed_def row_at_def fun_eq_iff)

lemma row_at_iff: "keyed key rid t \<Longrightarrow> row_at key t k = Some r \<longleftrightarrow> r \<in> set t \<and> key r = k"
  by (simp add: row_at_def keyed_def find_key_iff)

lemma row_at_map:
  assumes "keyed key rid t" and "row_at key t k = Some r0" and "key (f r0) = k" and "rid (f r0) = rid r0"
  shows "keyed key rid (List.map (\<lambda>r. if key r = k then f r else r) t)"
    and "row_at key (List.map (\<lambda>r. if key r = k then f r else r) t) = (row_at key t)(k \<mapsto> f r0)"
    and "set (List.map (\<lambda>r. if key r = k then f r else r) t) \<subseteq> insert (f r0) (set t)"
    and "rid ` set (List.map (\<lambda>r. if key r = k then f r else r) t) = rid ` set t"
proof -
  have r0: "r0 \<in> set t" "key r0 = k" using assms(1,2) by (simp_all add: row_at_iff)
  have hit: "y \<in> set t \<Longrightarrow> key y = k \<longleftrightarrow> y = r0" for y
    using distinct_key_eq [of key t r0 y] assms(1) r0 by (auto simp: keyed_def)
  have "List.map key (List.map (\<lambda>r. if key r = k then f r else r) t) = List.map key t"
    using hit r0(2) assms(3) by (intro map_key_update) metis
  moreover have ids: "List.map rid (List.map (\<lambda>r. if key r = k then f r else r) t) = List.map rid t"
    using assms(4) hit by (intro map_key_update) auto
  ultimately show "keyed key rid (List.map (\<lambda>r. if key r = k then f r else r) t)"
    using assms(1) by (simp only: keyed_def)
  show "row_at key (List.map (\<lambda>r. if key r = k then f r else r) t) = (row_at key t)(k \<mapsto> f r0)"
    using find_key_update [of key t r0 "\<lambda>r. key r = k" f] assms(1,3) r0 hit
    by (auto simp: row_at_def keyed_def fun_eq_iff)
  show "set (List.map (\<lambda>r. if key r = k then f r else r) t) \<subseteq> insert (f r0) (set t)"
    using hit by auto
  show "rid ` set (List.map (\<lambda>r. if key r = k then f r else r) t) = rid ` set t"
    using ids by (metis list.set_map)
qed

lemma row_at_append:
  assumes "keyed key rid t" and "row_at key t (key r) = None" and "rid r \<notin> rid ` set t"
  shows "keyed key rid (t @ [r])" and "row_at key (t @ [r]) = (row_at key t)(key r \<mapsto> r)"
proof -
  have none: "List.find (\<lambda>x. key x = key r) t = None" using assms(2) by (simp add: row_at_def)
  then have "key r \<notin> key ` set t" by (simp add: find_key_None)
  then show "keyed key rid (t @ [r])" using assms(1,3) by (simp add: keyed_def)
  show "row_at key (t @ [r]) = (row_at key t)(key r \<mapsto> r)"
  proof (rule ext)
    fix k
    show "row_at key (t @ [r]) k = ((row_at key t)(key r \<mapsto> r)) k"
      using none by (cases "k = key r") (simp_all add: row_at_def split: option.splits)
  qed
qed

text \<open>What a successful upsert or update does to a table.\<close>

lemma fg_upsert_spec:
  assumes "keyed key rid t" and "fg_upsert key rid ok fk change new t = Inr (t', i)"
    and "\<And>r. key r = key new \<Longrightarrow> key (change r) = key new" and "\<And>r. rid (change r) = rid r"
  shows "keyed key rid t' \<and> ok new \<and> fk new \<and> rid ` set t \<subseteq> rid ` set t'
    \<and> (\<exists>r. (\<forall>y\<in>set t'. y = r \<or> y \<in> set t) \<and> row_at key t' = (row_at key t)(key new \<mapsto> r) \<and> i = rid r
         \<and> (case row_at key t (key new) of None \<Rightarrow> r = new | Some o1 \<Rightarrow> r = change o1))"
proof (cases "row_at key t (key new)")
  case None
  then have "t' = t @ [new]" "i = rid new" "rid new \<notin> rid ` set t" "ok new" "fk new"
    using assms(2) by (auto simp: fg_upsert_def row_at_def split: if_splits)
  then show ?thesis using row_at_append [OF assms(1) None] None by auto
next
  case (Some o1)
  then have t': "t' = List.map (\<lambda>r. if key r = key new then change r else r) t" "i = rid o1" "ok new" "fk new"
    using assms(2) by (auto simp: fg_upsert_def row_at_def split: if_splits)
  have "key (change o1) = key new" using Some assms(1,3) by (simp add: row_at_iff)
  note * = row_at_map [OF assms(1) Some, of change, OF this assms(4)]
  have "rid ` set t' = rid ` set t" using *(4) t'(1) by simp
  then show ?thesis using * t' Some assms(4) by (intro conjI exI [of _ "change o1"]) auto
qed

lemma fg_update_spec:
  assumes "keyed key rid t" and "fg_update key k ok change t = Inr (t', x)"
    and "\<And>r. key (change r) = key r" and "\<And>r. rid (change r) = rid r"
  shows "keyed key rid t' \<and> rid ` set t' = rid ` set t
    \<and> (x = None \<and> t' = t \<or> (\<exists>o1. row_at key t k = Some o1 \<and> ok \<and> x = Some (change o1)
         \<and> (\<forall>y\<in>set t'. y = change o1 \<or> y \<in> set t) \<and> row_at key t' = (row_at key t)(k \<mapsto> change o1)))"
proof (cases "row_at key t k")
  case None
  then show ?thesis using assms(1,2) by (auto simp: fg_update_def row_at_def)
next
  case (Some o1)
  then have t': "t' = List.map (\<lambda>r. if key r = k then change r else r) t" "x = Some (change o1)" "ok"
    using assms(2) by (auto simp: fg_update_def row_at_def split: if_splits)
  have "key (change o1) = k" using Some assms(1,3) by (simp add: row_at_iff)
  note * = row_at_map [OF assms(1) Some, of change, OF this assms(4)]
  show ?thesis using * t' Some by auto
qed

section \<open>The invariant of the database\<close>

definition sport_key :: "sport \<Rightarrow> string \<times> string" where
  "sport_key x = (sp_Provider x, sp_ProviderSportID x)"

definition league_key :: "league \<Rightarrow> string \<times> string" where
  "league_key x = (lg_Provider x, lg_ProviderLeagueID x)"

lemma key_lambdas:
  "(\<lambda>x. (sp_Provider x, sp_ProviderSportID x)) = sport_key" "(\<lambda>x. (lg_Provider x, lg_ProviderLeagueID x)) = league_key"
  by (simp_all add: fun_eq_iff sport_key_def league_key_def)

text \<open>Keys and ids are unique, every reference names a row, and every status is one of those allowed.\<close>

definition fg_inv :: "feed_pg \<Rightarrow> bool" where
  "fg_inv db \<longleftrightarrow>
     keyed sport_key sp_ID (fg_sports db) \<and> keyed league_key lg_ID (fg_leagues db) \<and> keyed ev_key ev_ID (fg_events db)
     \<and> keyed mk_key mk_ID (fg_markets db) \<and> keyed oc_key oc_ID (fg_outcomes db)
     \<and> (\<forall>l\<in>set (fg_leagues db). lg_SportID l \<in> sp_ID ` set (fg_sports db))
     \<and> (\<forall>e\<in>set (fg_events db). ev_LeagueID e \<in> lg_ID ` set (fg_leagues db) \<and> ev_SportID e \<in> sp_ID ` set (fg_sports db)
          \<and> event_status_ok (ev_Status e))
     \<and> (\<forall>m\<in>set (fg_markets db). mk_EventID m \<in> ev_ID ` set (fg_events db) \<and> market_status_ok (mk_Status m))
     \<and> (\<forall>c\<in>set (fg_outcomes db). oc_MarketID c \<in> mk_ID ` set (fg_markets db) \<and> outcome_status_ok (oc_Status c))"

lemma fg_inv_empty [simp]: "fg_inv fg_empty"
  by (simp add: fg_inv_def fg_empty_def)

definition fg_view :: "feed_pg \<Rightarrow> feed_view" where
  "fg_view db =
     \<lparr>vw_sports = row_at sport_key (fg_sports db), vw_leagues = row_at league_key (fg_leagues db),
      vw_events = row_at ev_key (fg_events db), vw_markets = row_at mk_key (fg_markets db),
      vw_outcomes = row_at oc_key (fg_outcomes db)\<rparr>"

lemma fg_view_simps [simp]:
  "vw_sports (fg_view s) = row_at sport_key (fg_sports s)" "vw_leagues (fg_view s) = row_at league_key (fg_leagues s)"
  "vw_events (fg_view s) = row_at ev_key (fg_events s)" "vw_markets (fg_view s) = row_at mk_key (fg_markets s)"
  "vw_outcomes (fg_view s) = row_at oc_key (fg_outcomes s)"
  by (simp_all add: fg_view_def)

lemma fg_inv_sports:
  "fg_inv db \<Longrightarrow> keyed sport_key sp_ID t \<Longrightarrow> sp_ID ` set (fg_sports db) \<subseteq> sp_ID ` set t \<Longrightarrow> fg_inv (db\<lparr>fg_sports := t\<rparr>)"
  unfolding fg_inv_def by (simp add: subset_iff)

lemma fg_inv_leagues:
  "fg_inv db \<Longrightarrow> keyed league_key lg_ID t \<Longrightarrow> lg_ID ` set (fg_leagues db) \<subseteq> lg_ID ` set t \<Longrightarrow>
    (\<And>l. l \<in> set t \<Longrightarrow> lg_SportID l \<in> sp_ID ` set (fg_sports db)) \<Longrightarrow> fg_inv (db\<lparr>fg_leagues := t\<rparr>)"
  unfolding fg_inv_def by (simp add: subset_iff)

lemma fg_inv_events:
  "fg_inv db \<Longrightarrow> keyed ev_key ev_ID t \<Longrightarrow> ev_ID ` set (fg_events db) \<subseteq> ev_ID ` set t \<Longrightarrow>
    (\<And>e. e \<in> set t \<Longrightarrow> ev_LeagueID e \<in> lg_ID ` set (fg_leagues db) \<and> ev_SportID e \<in> sp_ID ` set (fg_sports db)
      \<and> event_status_ok (ev_Status e)) \<Longrightarrow> fg_inv (db\<lparr>fg_events := t\<rparr>)"
  unfolding fg_inv_def by (simp add: subset_iff)

lemma fg_inv_markets:
  "fg_inv db \<Longrightarrow> keyed mk_key mk_ID t \<Longrightarrow> mk_ID ` set (fg_markets db) \<subseteq> mk_ID ` set t \<Longrightarrow>
    (\<And>m. m \<in> set t \<Longrightarrow> mk_EventID m \<in> ev_ID ` set (fg_events db) \<and> market_status_ok (mk_Status m)) \<Longrightarrow>
    fg_inv (db\<lparr>fg_markets := t\<rparr>)"
  unfolding fg_inv_def by (simp add: subset_iff)

lemma fg_inv_outcomes:
  "fg_inv db \<Longrightarrow> keyed oc_key oc_ID t \<Longrightarrow>
    (\<And>c. c \<in> set t \<Longrightarrow> oc_MarketID c \<in> mk_ID ` set (fg_markets db) \<and> outcome_status_ok (oc_Status c)) \<Longrightarrow>
    fg_inv (db\<lparr>fg_outcomes := t\<rparr>)"
  unfolding fg_inv_def by simp

lemma on_table_Inr: "on_table put r db = Inr (db', x) \<longleftrightarrow> (\<exists>t. r = Inr (t, x) \<and> db' = put t db)"
  by (auto simp: on_table_def split: sum.splits)

text \<open>An upsert by itself: nothing happened, or the statement did its work.\<close>

lemma fg_exec_table:
  assumes "fg_exec prefix E (\<lambda>db. on_table put (f db) db) db = (db', r)"
  shows "db' = db \<and> \<not> is_ok r \<or> (\<exists>t i. f db = Inr (t, i) \<and> db' = put t db \<and> (r = Inr i \<or> \<not> is_ok r))"
proof -
  obtain r0 where r0: "pg_auto E (\<lambda>db. on_table put (f db) db) db = (db', r0)"
    "r = (case r0 of Inl err \<Rightarrow> Inl (WrapErr prefix err) | Inr x \<Rightarrow> Inr x)"
    using assms by (auto simp: fg_exec_def split: prod.splits sum.splits)
  from r0(1) show ?thesis
    by (cases rule: pg_auto_cases) (use r0(2) in \<open>auto simp: on_table_Inr split: sum.splits\<close>)
qed

lemma fg_auto_table:
  assumes "pg_auto E (\<lambda>db. on_table put (f db) db) db = (db', r)"
  shows "db' = db \<and> \<not> is_ok r \<or> (\<exists>t x. f db = Inr (t, x) \<and> db' = put t db \<and> (r = Inr x \<or> \<not> is_ok r))"
  using assms by (cases rule: pg_auto_cases) (auto simp: on_table_Inr)

lemma fg_UpsertSport_spec:
  assumes "fg_inv s" and "fg_UpsertSport N E s sp = (s', r)"
  shows "fg_inv s' \<and> (\<exists>t. fg_view s' = (fg_view s)\<lparr>vw_sports := t\<rparr>)"
proof (cases "fl_parse N (sp_ID sp)")
  case None
  then show ?thesis using assms by (simp add: fg_UpsertSport_def fg_view_def)
next
  case (Some u)
  from fg_exec_table [OF assms(2) [unfolded fg_UpsertSport_def Some option.case key_lambdas]]
  consider "s' = s" | t i where "s' = s\<lparr>fg_sports := t\<rparr>" "fg_upsert sport_key sp_ID (\<lambda>x. True) (\<lambda>x. True)
      (\<lambda>x. x\<lparr>sp_Slug := sp_Slug sp, sp_Name := sp_Name sp, sp_UpdatedAt := e_now E\<rparr>)
      (sp\<lparr>sp_ID := u, sp_CreatedAt := e_now E, sp_UpdatedAt := e_now E\<rparr>) (fg_sports s) = Inr (t, i)"
    by blast
  then show ?thesis
  proof cases
    case 2
    have "keyed sport_key sp_ID t \<and> sp_ID ` set (fg_sports s) \<subseteq> sp_ID ` set t"
      using fg_upsert_spec [OF _ 2(2)] assms(1) by (simp add: fg_inv_def sport_key_def)
    then show ?thesis using fg_inv_sports [OF assms(1)] by (simp add: 2(1) fg_view_def)
  qed (use assms(1) in \<open>simp add: fg_view_def\<close>)
qed

lemma fg_UpsertLeague_spec:
  assumes "fg_inv s" and "fg_UpsertLeague N E s l = (s', r)"
  shows "fg_inv s' \<and> (\<exists>t. fg_view s' = (fg_view s)\<lparr>vw_leagues := t\<rparr>)"
proof (cases "fl_parse N (lg_ID l)")
  case None
  then show ?thesis using assms by (simp add: fg_UpsertLeague_def fg_view_def)
next
  case u: (Some u)
  show ?thesis
  proof (cases "parseUUID N (lg_SportID l)")
    case None
    then show ?thesis using assms u by (simp add: fg_UpsertLeague_def fg_view_def)
  next
    case v: (Some v)
    let ?new = "l\<lparr>lg_ID := u, lg_SportID := v, lg_CreatedAt := e_now E, lg_UpdatedAt := e_now E\<rparr>"
    let ?change = "\<lambda>x. x\<lparr>lg_SportID := v, lg_Name := lg_Name l, lg_Country := lg_Country l, lg_UpdatedAt := e_now E\<rparr>"
    from fg_exec_table [OF assms(2) [unfolded fg_UpsertLeague_def u v option.case key_lambdas]]
    consider "s' = s" | t i where "s' = s\<lparr>fg_leagues := t\<rparr>" "fg_upsert league_key lg_ID (\<lambda>x. True)
        (\<lambda>x. lg_SportID x \<in> set (List.map sp_ID (fg_sports s))) ?change ?new (fg_leagues s) = Inr (t, i)"
      by blast
    then show ?thesis
    proof cases
      case 2
      have k: "keyed league_key lg_ID (fg_leagues s)" using assms(1) by (simp add: fg_inv_def)
      obtain x where x: "keyed league_key lg_ID t" "lg_ID ` set (fg_leagues s) \<subseteq> lg_ID ` set t"
        "v \<in> sp_ID ` set (fg_sports s)" "\<forall>y\<in>set t. y = x \<or> y \<in> set (fg_leagues s)"
        "case row_at league_key (fg_leagues s) (league_key ?new) of None \<Rightarrow> x = ?new | Some o1 \<Rightarrow> x = ?change o1"
        using fg_upsert_spec [OF k 2(2)] by (auto simp: league_key_def)
      have "lg_SportID x = v" using x(5) by (auto split: option.splits)
      moreover have "\<forall>l\<in>set (fg_leagues s). lg_SportID l \<in> sp_ID ` set (fg_sports s)" using assms(1) by (simp add: fg_inv_def)
      ultimately have "fg_inv s'" unfolding 2(1) using x(3,4) by (intro fg_inv_leagues [OF assms(1) x(1,2)]) metis
      then show ?thesis by (simp add: 2(1) fg_view_def)
    qed (use assms(1) in \<open>simp add: fg_view_def\<close>)
  qed
qed

definition fg_refers :: "feed_lib \<Rightarrow> string \<Rightarrow> string \<Rightarrow> bool" where
  "fg_refers N a b \<longleftrightarrow> parseUUID N a = Some b"

text \<open>The three upserts whose rows the contract describes share one argument.\<close>

lemma fg_upsert_row:
  assumes "keyed key rid t" and "fg_upsert key rid ok fk (\<lambda>x. re (rid x) x) new t = Inr (t', i)"
    and "\<And>j x. key (re j x) = key new" and "\<And>j x. rid (re j x) = j"
    and "r = Inr i \<or> \<not> is_ok r"
  obtains x where "keyed key rid t'" and "rid ` set t \<subseteq> rid ` set t'" and "ok new" and "fk new"
    and "\<forall>y\<in>set t'. y = x \<or> y \<in> set t" and "row_at key t' = (row_at key t)(key new \<mapsto> x)"
    and "x = new \<or> (\<exists>o1. x = re (rid o1) o1)" and "keeps_id rid (row_at key t (key new)) x r"
proof -
  have spec: "keyed key rid t' \<and> ok new \<and> fk new \<and> rid ` set t \<subseteq> rid ` set t'
    \<and> (\<exists>x. (\<forall>y\<in>set t'. y = x \<or> y \<in> set t) \<and> row_at key t' = (row_at key t)(key new \<mapsto> x) \<and> i = rid x
         \<and> (case row_at key t (key new) of None \<Rightarrow> x = new | Some o1 \<Rightarrow> x = re (rid o1) o1))"
    by (rule fg_upsert_spec [OF assms(1,2)]) (simp_all add: assms(3,4))
  then obtain x where x: "\<forall>y\<in>set t'. y = x \<or> y \<in> set t" "row_at key t' = (row_at key t)(key new \<mapsto> x)" "i = rid x"
    "case row_at key t (key new) of None \<Rightarrow> x = new | Some o1 \<Rightarrow> x = re (rid o1) o1"
    by blast
  have "x = new \<or> (\<exists>o1. x = re (rid o1) o1)" using x(4) by (cases "row_at key t (key new)") auto
  moreover have "keeps_id rid (row_at key t (key new)) x r"
  proof -
    have "case row_at key t (key new) of None \<Rightarrow> True | Some o1 \<Rightarrow> rid x = rid o1"
      using x(4) assms(4) by (cases "row_at key t (key new)") simp_all
    moreover have "case r of Inl e \<Rightarrow> True | Inr i' \<Rightarrow> i' = rid x"
      using assms(5) x(3) by (cases r) simp_all
    ultimately show ?thesis by (simp add: keeps_id_def)
  qed
  ultimately show ?thesis using spec x(1,2) that by blast
qed

lemma fg_UpsertEvent_spec:
  assumes "fg_inv s" and "fg_UpsertEvent N E s e = (s', r)"
  shows "fg_inv s' \<and> may_change (fg_view s) (fg_view s') (is_ok r)
    (\<lambda>v. \<exists>e'. v = (fg_view s)\<lparr>vw_events := (vw_events (fg_view s))(ev_key e \<mapsto> e')\<rparr> \<and> stored_event (fg_refers N) e e'
       \<and> keeps_id ev_ID (vw_events (fg_view s) (ev_key e)) e' r)"
proof (cases "fl_parse N (ev_ID e) = None \<or> parseUUID N (ev_LeagueID e) = None \<or> parseUUID N (ev_SportID e) = None")
  case True
  then have "s' = s" "\<not> is_ok r" using assms(2) by (auto simp: fg_UpsertEvent_def split: option.splits)
  then show ?thesis using assms(1) by (simp add: may_change_def)
next
  case False
  then obtain u v w where uvw: "fl_parse N (ev_ID e) = Some u" "parseUUID N (ev_LeagueID e) = Some v"
    "parseUUID N (ev_SportID e) = Some w" by auto
  let ?new = "fg_event_row N E e u v w"
  from fg_exec_table [OF assms(2) [unfolded fg_UpsertEvent_def uvw option.case Let_def]]
  consider "s' = s" "\<not> is_ok r" | t i where "s' = s\<lparr>fg_events := t\<rparr>" "r = Inr i \<or> \<not> is_ok r"
    "fg_upsert ev_key ev_ID (\<lambda>x. event_status_ok (ev_Status x))
       (\<lambda>x. ev_LeagueID x \<in> set (List.map lg_ID (fg_leagues s)) \<and> ev_SportID x \<in> set (List.map sp_ID (fg_sports s)))
       (\<lambda>x. ?new\<lparr>ev_ID := ev_ID x, ev_CreatedAt := ev_CreatedAt x\<rparr>) ?new (fg_events s) = Inr (t, i)"
    by blast
  then show ?thesis
  proof cases
    case 2
    have k: "keyed ev_key ev_ID (fg_events s)" using assms(1) by (simp add: fg_inv_def)
    have key: "ev_key ?new = ev_key e" by (simp add: fg_event_row_def ev_key_def)
    let ?re = "\<lambda>j x. ?new\<lparr>ev_ID := j, ev_CreatedAt := ev_CreatedAt x\<rparr>"
    have re: "\<And>j x. ev_key (?re j x) = ev_key ?new" "\<And>j x. ev_ID (?re j x) = j"
      by (simp_all add: ev_key_def)
    obtain x where x: "keyed ev_key ev_ID t" "ev_ID ` set (fg_events s) \<subseteq> ev_ID ` set t" "event_status_ok (ev_Status ?new)"
      "ev_LeagueID ?new \<in> set (List.map lg_ID (fg_leagues s)) \<and> ev_SportID ?new \<in> set (List.map sp_ID (fg_sports s))"
      "\<forall>y\<in>set t. y = x \<or> y \<in> set (fg_events s)" "row_at ev_key t = (row_at ev_key (fg_events s))(ev_key e \<mapsto> x)"
      "x = ?new \<or> (\<exists>o1::event. x = ?new\<lparr>ev_ID := ev_ID o1, ev_CreatedAt := ev_CreatedAt o1\<rparr>)"
      "keeps_id ev_ID (row_at ev_key (fg_events s) (ev_key e)) x r"
      by (rule fg_upsert_row [where re = ?re, OF k 2(3) re 2(2), unfolded key]) (rule that)
    have fields: "ev_LeagueID x \<in> lg_ID ` set (fg_leagues s)" "ev_SportID x \<in> sp_ID ` set (fg_sports s)"
      "event_status_ok (ev_Status x)"
      using x(3,4,7) by auto
    have "fg_inv s'" unfolding 2(1)
    proof (rule fg_inv_events [OF assms(1) x(1,2)])
      fix y assume "y \<in> set t"
      then show "ev_LeagueID y \<in> lg_ID ` set (fg_leagues s) \<and> ev_SportID y \<in> sp_ID ` set (fg_sports s) \<and> event_status_ok (ev_Status y)"
        using x(5) fields assms(1) unfolding fg_inv_def by metis
    qed
    moreover have "stored_event (fg_refers N) e x"
      using x(7) uvw by (auto simp: stored_event_def fg_refers_def fg_event_row_def ev_key_def)
    ultimately show ?thesis using x(6,8) by (auto simp: 2(1) fg_view_def may_change_def)
  qed (use assms(1) in \<open>simp add: may_change_def\<close>)
qed

lemma fg_UpsertMarket_spec:
  assumes "fg_inv s" and "fg_UpsertMarket N E s m = (s', r)"
  shows "fg_inv s' \<and> may_change (fg_view s) (fg_view s') (is_ok r)
    (\<lambda>v. \<exists>m'. v = (fg_view s)\<lparr>vw_markets := (vw_markets (fg_view s))(mk_key m \<mapsto> m')\<rparr> \<and> stored_market (fg_refers N) m m'
       \<and> keeps_id mk_ID (vw_markets (fg_view s) (mk_key m)) m' r)"
proof (cases "fl_parse N (mk_ID m) = None \<or> parseUUID N (mk_EventID m) = None")
  case True
  then have "s' = s" "\<not> is_ok r" using assms(2) by (auto simp: fg_UpsertMarket_def split: option.splits)
  then show ?thesis using assms(1) by (simp add: may_change_def)
next
  case False
  then obtain u v where uv: "fl_parse N (mk_ID m) = Some u" "parseUUID N (mk_EventID m) = Some v" by auto
  let ?new = "m\<lparr>mk_ID := u, mk_EventID := v, mk_CreatedAt := e_now E, mk_UpdatedAt := e_now E\<rparr>"
  from fg_exec_table [OF assms(2) [unfolded fg_UpsertMarket_def uv option.case Let_def]]
  consider "s' = s" "\<not> is_ok r" | t i where "s' = s\<lparr>fg_markets := t\<rparr>" "r = Inr i \<or> \<not> is_ok r"
    "fg_upsert mk_key mk_ID (\<lambda>x. market_status_ok (mk_Status x)) (\<lambda>x. mk_EventID x \<in> set (List.map ev_ID (fg_events s)))
       (\<lambda>x. ?new\<lparr>mk_ID := mk_ID x, mk_CreatedAt := mk_CreatedAt x\<rparr>) ?new (fg_markets s) = Inr (t, i)"
    by blast
  then show ?thesis
  proof cases
    case 2
    have k: "keyed mk_key mk_ID (fg_markets s)" using assms(1) by (simp add: fg_inv_def)
    have key: "mk_key ?new = mk_key m" by (simp add: mk_key_def)
    let ?re = "\<lambda>j x. ?new\<lparr>mk_ID := j, mk_CreatedAt := mk_CreatedAt x\<rparr>"
    have re: "\<And>j x. mk_key (?re j x) = mk_key ?new" "\<And>j x. mk_ID (?re j x) = j"
      by (simp_all add: mk_key_def)
    obtain x where x: "keyed mk_key mk_ID t" "mk_ID ` set (fg_markets s) \<subseteq> mk_ID ` set t" "market_status_ok (mk_Status ?new)"
      "mk_EventID ?new \<in> set (List.map ev_ID (fg_events s))"
      "\<forall>y\<in>set t. y = x \<or> y \<in> set (fg_markets s)" "row_at mk_key t = (row_at mk_key (fg_markets s))(mk_key m \<mapsto> x)"
      "x = ?new \<or> (\<exists>o1::market. x = ?new\<lparr>mk_ID := mk_ID o1, mk_CreatedAt := mk_CreatedAt o1\<rparr>)"
      "keeps_id mk_ID (row_at mk_key (fg_markets s) (mk_key m)) x r"
      by (rule fg_upsert_row [where re = ?re, OF k 2(3) re 2(2), unfolded key]) (rule that)
    have fields: "mk_EventID x \<in> ev_ID ` set (fg_events s)" "market_status_ok (mk_Status x)"
      using x(3,4,7) by auto
    have "fg_inv s'" unfolding 2(1)
    proof (rule fg_inv_markets [OF assms(1) x(1,2)])
      fix y assume "y \<in> set t"
      then show "mk_EventID y \<in> ev_ID ` set (fg_events s) \<and> market_status_ok (mk_Status y)"
        using x(5) fields assms(1) unfolding fg_inv_def by metis
    qed
    moreover have "stored_market (fg_refers N) m x"
      using x(7) uv by (auto simp: stored_market_def fg_refers_def mk_key_def)
    ultimately show ?thesis using x(6,8) by (auto simp: 2(1) fg_view_def may_change_def)
  qed (use assms(1) in \<open>simp add: may_change_def\<close>)
qed

lemma fg_UpsertOutcome_spec:
  assumes "fg_inv s" and "fg_UpsertOutcome N E s c = (s', r)"
  shows "fg_inv s' \<and> may_change (fg_view s) (fg_view s') (is_ok r)
    (\<lambda>v. \<exists>c'. v = (fg_view s)\<lparr>vw_outcomes := (vw_outcomes (fg_view s))(oc_key c \<mapsto> c')\<rparr> \<and> stored_outcome (fg_refers N) c c'
       \<and> keeps_id oc_ID (vw_outcomes (fg_view s) (oc_key c)) c' r)"
proof (cases "fl_parse N (oc_ID c) = None \<or> parseUUID N (oc_MarketID c) = None")
  case True
  then have "s' = s" "\<not> is_ok r" using assms(2) by (auto simp: fg_UpsertOutcome_def split: option.splits)
  then show ?thesis using assms(1) by (simp add: may_change_def)
next
  case False
  then obtain u v where uv: "fl_parse N (oc_ID c) = Some u" "parseUUID N (oc_MarketID c) = Some v" by auto
  let ?new = "c\<lparr>oc_ID := u, oc_MarketID := v, oc_CreatedAt := e_now E, oc_UpdatedAt := e_now E\<rparr>"
  from fg_exec_table [OF assms(2) [unfolded fg_UpsertOutcome_def uv option.case Let_def]]
  consider "s' = s" "\<not> is_ok r" | t i where "s' = s\<lparr>fg_outcomes := t\<rparr>" "r = Inr i \<or> \<not> is_ok r"
    "fg_upsert oc_key oc_ID (\<lambda>x. outcome_status_ok (oc_Status x)) (\<lambda>x. oc_MarketID x \<in> set (List.map mk_ID (fg_markets s)))
       (\<lambda>x. ?new\<lparr>oc_ID := oc_ID x, oc_CreatedAt := oc_CreatedAt x\<rparr>) ?new (fg_outcomes s) = Inr (t, i)"
    by blast
  then show ?thesis
  proof cases
    case 2
    have k: "keyed oc_key oc_ID (fg_outcomes s)" using assms(1) by (simp add: fg_inv_def)
    have key: "oc_key ?new = oc_key c" by (simp add: oc_key_def)
    let ?re = "\<lambda>j x. ?new\<lparr>oc_ID := j, oc_CreatedAt := oc_CreatedAt x\<rparr>"
    have re: "\<And>j x. oc_key (?re j x) = oc_key ?new" "\<And>j x. oc_ID (?re j x) = j"
      by (simp_all add: oc_key_def)
    obtain x where x: "keyed oc_key oc_ID t" "oc_ID ` set (fg_outcomes s) \<subseteq> oc_ID ` set t" "outcome_status_ok (oc_Status ?new)" "oc_MarketID ?new \<in> set (List.map mk_ID (fg_markets s))"
      "\<forall>y\<in>set t. y = x \<or> y \<in> set (fg_outcomes s)" "row_at oc_key t = (row_at oc_key (fg_outcomes s))(oc_key c \<mapsto> x)"
      "x = ?new \<or> (\<exists>o1::outcome. x = ?new\<lparr>oc_ID := oc_ID o1, oc_CreatedAt := oc_CreatedAt o1\<rparr>)"
      "keeps_id oc_ID (row_at oc_key (fg_outcomes s) (oc_key c)) x r"
      by (rule fg_upsert_row [where re = ?re, OF k 2(3) re 2(2), unfolded key]) (rule that)
    have fields: "oc_MarketID x \<in> mk_ID ` set (fg_markets s)" "outcome_status_ok (oc_Status x)"
      using x(3,4,7) by auto
    have "fg_inv s'" unfolding 2(1)
    proof (rule fg_inv_outcomes [OF assms(1) x(1)])
      fix y assume "y \<in> set t"
      then show "oc_MarketID y \<in> mk_ID ` set (fg_markets s) \<and> outcome_status_ok (oc_Status y)"
        using x(5) fields assms(1) unfolding fg_inv_def by metis
    qed
    moreover have "stored_outcome (fg_refers N) c x"
      using x(7) uv by (auto simp: stored_outcome_def fg_refers_def oc_key_def)
    ultimately show ?thesis using x(6,8) by (auto simp: 2(1) fg_view_def may_change_def)
  qed (use assms(1) in \<open>simp add: may_change_def\<close>)
qed

section \<open>The contract\<close>

lemma fg_scan_one_ok:
  assumes "fg_scan_one what f (db, r0) = (db', r)"
  shows "db' = db \<and> (is_ok r \<longleftrightarrow> (\<exists>x. r0 = Inr (Some x))) \<and> (\<forall>x. r0 = Inr (Some x) \<longrightarrow> r = Inr (f x))"
  using assms by (auto simp: fg_scan_one_def split: sum.splits option.splits)

text \<open>An update of one row, in the shape the contract wants it.\<close>

lemma fg_update_row:
  assumes "keyed key rid (get s)" and "\<And>x. key (ch x) = key x" and "\<And>x. rid (ch x) = rid x"
    and "fg_scan_one what f (pg_auto E (\<lambda>db. on_table put (fg_update key k ok ch (get db)) db) s) = (s', r)"
    and "put (get s) s = s"
  obtains "s' = s" and "\<not> is_ok r"
  | t o1 where "s' = put t s" and "keyed key rid t" and "rid ` set t = rid ` set (get s)" and "ok"
    and "row_at key (get s) k = Some o1" and "\<forall>y\<in>set t. y = ch o1 \<or> y \<in> set (get s)"
    and "row_at key t = (row_at key (get s))(k \<mapsto> ch o1)" and "r = Inr (f (ch o1)) \<or> \<not> is_ok r"
proof -
  obtain s1 r0 where a: "pg_auto E (\<lambda>db. on_table put (fg_update key k ok ch (get db)) db) s = (s1, r0)"
    by (metis surj_pair)
  have scan: "s' = s1" "is_ok r \<longleftrightarrow> (\<exists>x. r0 = Inr (Some x))" "\<forall>x. r0 = Inr (Some x) \<longrightarrow> r = Inr (f x)"
    using fg_scan_one_ok [of what f s1 r0 s' r] assms(4) a by auto
  from fg_auto_table [OF a]
  consider (no) "s1 = s" "\<not> is_ok r0"
    | (yes) t x where "fg_update key k ok ch (get s) = Inr (t, x)" "s1 = put t s" "r0 = Inr x \<or> \<not> is_ok r0"
    by blast
  then show thesis
  proof cases
    case no
    then show thesis using that(1) scan by auto
  next
    case yes
    have "keyed key rid t \<and> rid ` set t = rid ` set (get s)
      \<and> (x = None \<and> t = get s \<or> (\<exists>o1. row_at key (get s) k = Some o1 \<and> ok \<and> x = Some (ch o1)
         \<and> (\<forall>y\<in>set t. y = ch o1 \<or> y \<in> set (get s)) \<and> row_at key t = (row_at key (get s))(k \<mapsto> ch o1)))"
      by (rule fg_update_spec [OF assms(1) yes(1)]) (simp_all add: assms(2,3))
    then consider "x = None" "t = get s" | o1 where "keyed key rid t" "rid ` set t = rid ` set (get s)" "ok"
      "row_at key (get s) k = Some o1" "x = Some (ch o1)" "\<forall>y\<in>set t. y = ch o1 \<or> y \<in> set (get s)"
      "row_at key t = (row_at key (get s))(k \<mapsto> ch o1)" by blast
    then show thesis
    proof cases
      case 1
      then show thesis using that(1) yes(2,3) scan assms(5) by auto
    next
      case (2 o1)
      have "r = Inr (f (ch o1)) \<or> \<not> is_ok r" using scan(2,3) yes(3) 2(5) by auto
      then show thesis using that(2) [of t o1] 2 yes(2) scan(1) by blast
    qed
  qed
qed

lemma fg_UpdateOutcomeOdds_spec:
  assumes "fg_inv s" and "fg_UpdateOutcomeOdds E s p i odds = (s', r)"
  shows "fg_inv s' \<and> may_change (fg_view s) (fg_view s') (is_ok r)
    (\<lambda>v. \<exists>x x'. vw_outcomes (fg_view s) (p, i) = Some x
       \<and> v = (fg_view s)\<lparr>vw_outcomes := (vw_outcomes (fg_view s))((p, i) \<mapsto> x')\<rparr>
       \<and> x' = x\<lparr>oc_Odds := odds, oc_UpdatedAt := oc_UpdatedAt x'\<rparr> \<and> (r = Inr (oc_MarketID x, oc_ID x) \<or> \<not> is_ok r))"
proof -
  have k: "keyed oc_key oc_ID (fg_outcomes s)" using assms(1) by (simp add: fg_inv_def)
  show ?thesis
  proof (rule fg_update_row [where get = fg_outcomes, OF k _ _ assms(2) [unfolded fg_UpdateOutcomeOdds_def]], goal_cases)
    case (5 t o1)
    have o1: "o1 \<in> set (fg_outcomes s)" using 5(5) row_at_iff [OF k] by blast
    have "fg_inv s'" unfolding 5(1)
      by (rule fg_inv_outcomes [OF assms(1) 5(2)]) (use 5(6) o1 assms(1) in \<open>auto simp: fg_inv_def\<close>)
    then show ?case using 5(5,7,8) by (auto simp: 5(1) fg_view_def may_change_def)
  qed (use assms(1) in \<open>simp_all add: oc_key_def may_change_def\<close>)
qed

lemma fg_UpdateMarketStatus_spec:
  assumes "fg_inv s" and "fg_UpdateMarketStatus E s p i st = (s', r)"
  shows "fg_inv s' \<and> may_change (fg_view s) (fg_view s') (is_ok r)
    (\<lambda>v. \<exists>m m'. vw_markets (fg_view s) (p, i) = Some m
       \<and> v = (fg_view s)\<lparr>vw_markets := (vw_markets (fg_view s))((p, i) \<mapsto> m')\<rparr>
       \<and> m' = m\<lparr>mk_Status := st, mk_UpdatedAt := mk_UpdatedAt m'\<rparr> \<and> (r = Inr (mk_ID m) \<or> \<not> is_ok r))"
proof -
  have k: "keyed mk_key mk_ID (fg_markets s)" using assms(1) by (simp add: fg_inv_def)
  show ?thesis
  proof (rule fg_update_row [where get = fg_markets, OF k _ _ assms(2) [unfolded fg_UpdateMarketStatus_def]], goal_cases)
    case (5 t o1)
    have o1: "o1 \<in> set (fg_markets s)" using 5(5) row_at_iff [OF k] by blast
    have "fg_inv s'" unfolding 5(1)
    proof (rule fg_inv_markets [OF assms(1) 5(2)])
      show "mk_ID ` set (fg_markets s) \<subseteq> mk_ID ` set t" using 5(3) by simp
    qed (use 5(4,6) o1 assms(1) in \<open>auto simp: fg_inv_def\<close>)
    then show ?case using 5(5,7,8) by (auto simp: 5(1) fg_view_def may_change_def)
  qed (use assms(1) in \<open>simp_all add: mk_key_def may_change_def\<close>)
qed

lemma fg_UpdateOutcomeStatus_spec:
  assumes "fg_inv s" and "fg_UpdateOutcomeStatus E s p i st = (s', r)"
  shows "fg_inv s' \<and> may_change (fg_view s) (fg_view s') (is_ok r)
    (\<lambda>v. \<exists>x x'. vw_outcomes (fg_view s) (p, i) = Some x
       \<and> v = (fg_view s)\<lparr>vw_outcomes := (vw_outcomes (fg_view s))((p, i) \<mapsto> x')\<rparr>
       \<and> x' = x\<lparr>oc_Status := st, oc_UpdatedAt := oc_UpdatedAt x'\<rparr> \<and> (r = Inr (oc_MarketID x, oc_ID x) \<or> \<not> is_ok r))"
proof -
  have k: "keyed oc_key oc_ID (fg_outcomes s)" using assms(1) by (simp add: fg_inv_def)
  show ?thesis
  proof (rule fg_update_row [where get = fg_outcomes, OF k _ _ assms(2) [unfolded fg_UpdateOutcomeStatus_def]], goal_cases)
    case (5 t o1)
    have o1: "o1 \<in> set (fg_outcomes s)" using 5(5) row_at_iff [OF k] by blast
    have "fg_inv s'" unfolding 5(1)
      by (rule fg_inv_outcomes [OF assms(1) 5(2)]) (use 5(4,6) o1 assms(1) in \<open>auto simp: fg_inv_def\<close>)
    then show ?case using 5(5,7,8) by (auto simp: 5(1) fg_view_def may_change_def)
  qed (use assms(1) in \<open>simp_all add: oc_key_def may_change_def\<close>)
qed

lemma fg_UpdateEventStatus_inv:
  assumes "fg_inv s" and "fg_UpdateEventStatus E s p i st = (s', r)"
  shows "fg_inv s'"
proof -
  have k: "keyed ev_key ev_ID (fg_events s)" using assms(1) by (simp add: fg_inv_def)
  let ?q = "pg_auto E (\<lambda>db. on_table (\<lambda>t db. db\<lparr>fg_events := t\<rparr>)
             (fg_update ev_key (p, i) (event_status_ok st)
                (\<lambda>e. e\<lparr>ev_Status := st, ev_UpdatedAt := e_now E\<rparr>) (fg_events db)) db) s"
  obtain r1 where "?q = (s', r1)"
    using assms(2) by (auto simp: fg_UpdateEventStatus_def split: prod.splits sum.splits)
  moreover obtain s2 r0 where r0: "fg_scan_one [] (\<lambda>_. ()) (s', r1) = (s2, r0)"
    by (cases "fg_scan_one [] (\<lambda>_. ()) (s', r1)") blast
  moreover have "s2 = s'" using fg_scan_one_ok [OF r0] by blast
  ultimately have sc: "fg_scan_one [] (\<lambda>_. ()) ?q = (s', r0)" by simp
  show ?thesis
  proof (rule fg_update_row [where get = fg_events, OF k _ _ sc], goal_cases)
    case (5 t o1)
    have o1: "o1 \<in> set (fg_events s)" using 5(5) row_at_iff [OF k] by blast
    show ?case unfolding 5(1)
    proof (rule fg_inv_events [OF assms(1) 5(2)])
      show "ev_ID ` set (fg_events s) \<subseteq> ev_ID ` set t" using 5(3) by simp
    qed (use 5(4,6) o1 assms(1) in \<open>auto simp: fg_inv_def\<close>)
  qed (use assms(1) in \<open>simp_all add: ev_key_def\<close>)
qed

lemma fg_query_Inr: "fg_query prefix E q db = Inr x \<Longrightarrow> q db = Inr x"
  by (auto simp: fg_query_def fg_exec_def pg_auto_def split: sum.splits option.splits prod.splits if_splits)

lemma fg_page_subset:
  assumes "fg_page prefix ord by_key P tb E db pg n = Inr ys" and "permutes_entries ord" and "distinct (tb db)" and "y \<in> set ys"
  shows "y \<in> set (tb db) \<and> P y"
proof -
  obtain limit offset where "limit_offset limit offset (sort_key by_key (ord (List.filter P (tb db)))) = Inr ys"
    using assms(1) by (auto simp: fg_page_def split: prod.splits dest!: fg_query_Inr)
  then have "y \<in> set (ord (List.filter P (tb db)))"
    using assms(4) by (auto simp: limit_offset_def split: if_splits dest!: in_set_takeD in_set_dropD)
  then show ?thesis using permutes_entries_set [OF assms(2), of "List.filter P (tb db)"] assms(3) by auto
qed

lemma keyed_distinct: "keyed key rid t \<Longrightarrow> distinct t"
  by (simp add: keyed_def distinct_map)

lemma uuid_filter_passes:
  "uuid_filter N prefix i = Inr f \<Longrightarrow> passes f x \<Longrightarrow> i = [] \<or> fg_refers N i x"
  by (auto simp: uuid_filter_def passes_def fg_refers_def parseUUID_def split: if_splits option.splits)

definition fg_walks :: "fg_orders \<Rightarrow> bool" where
  "fg_walks ord \<longleftrightarrow> permutes_entries (go_sports ord) \<and> permutes_entries (go_leagues ord)
     \<and> permutes_entries (go_events ord) \<and> permutes_entries (go_markets ord) \<and> permutes_entries (go_outcomes ord)"

lemma fg_list_markets_spec:
  assumes "fg_walks ord" and "fg_inv s" and "fg_ListMarkets N ord E s i st pg n = Inr ms" and "m \<in> set ms"
  shows "vw_markets (fg_view s) (mk_key m) = Some m \<and> (i = [] \<or> fg_refers N i (mk_EventID m)) \<and> (st = [] \<or> mk_Status m = st)"
proof -
  have k: "keyed mk_key mk_ID (fg_markets s)" using assms(2) by (simp add: fg_inv_def)
  obtain f where f: "uuid_filter N ''list markets: invalid event uuid: '' i = Inr f"
    "fg_page ''list markets: '' (go_markets ord) (\<lambda>x. fl_collate N (mk_Name x))
       (\<lambda>m. passes f (mk_EventID m) \<and> (st = [] \<or> mk_Status m = st)) fg_markets E s pg n = Inr ms"
    using assms(3) by (auto simp: fg_ListMarkets_def split: sum.splits)
  from fg_page_subset [OF f(2) _ keyed_distinct [OF k] assms(4)]
  show ?thesis using assms(1) uuid_filter_passes [OF f(1)] by (simp add: fg_walks_def row_at_iff [OF k])
qed

lemma fg_list_outcomes_spec:
  assumes "fg_walks ord" and "fg_inv s" and "fg_ListOutcomes N ord E s i st pg n = Inr xs" and "x \<in> set xs"
  shows "vw_outcomes (fg_view s) (oc_key x) = Some x \<and> (i = [] \<or> fg_refers N i (oc_MarketID x)) \<and> (st = [] \<or> oc_Status x = st)"
proof -
  have k: "keyed oc_key oc_ID (fg_outcomes s)" using assms(2) by (simp add: fg_inv_def)
  obtain f where f: "uuid_filter N ''list outcomes: invalid market uuid: '' i = Inr f"
    "fg_page ''list outcomes: '' (go_outcomes ord) (\<lambda>x. fl_collate N (oc_Name x))
       (\<lambda>x. passes f (oc_MarketID x) \<and> (st = [] \<or> oc_Status x = st)) fg_outcomes E s pg n = Inr xs"
    using assms(3) by (auto simp: fg_ListOutcomes_def split: sum.splits)
  from fg_page_subset [OF f(2) _ keyed_distinct [OF k] assms(4)]
  show ?thesis using assms(1) uuid_filter_passes [OF f(1)] by (simp add: fg_walks_def row_at_iff [OF k])
qed

lemma fg_get_event_spec:
  assumes "fg_inv s" and "fg_GetEvent N E s i = Inr (Some e)"
  shows "vw_events (fg_view s) (ev_key e) = Some e \<and> fg_refers N i (ev_ID e)"
proof -
  have k: "keyed ev_key ev_ID (fg_events s)" using assms(1) by (simp add: fg_inv_def)
  obtain u where u: "parseUUID N i = Some u" "List.find (\<lambda>e. ev_ID e = u) (fg_events s) = Some e"
    using assms(2) by (auto simp: fg_GetEvent_def split: option.splits dest!: fg_query_Inr)
  then show ?thesis using find_key_Some [OF u(2)] by (simp add: row_at_iff [OF k] fg_refers_def)
qed

lemma statuses_fold_keyed:
  assumes "distinct (List.map ev_ProviderEventID es)"
  shows "mget (fold (\<lambda>e m. mput (ev_ProviderEventID e) (ev_Status e) m) es m0) i =
    (case List.find (\<lambda>e. ev_ProviderEventID e = i) es of None \<Rightarrow> mget m0 i | Some e \<Rightarrow> Some (ev_Status e))"
  using assms
proof (induction es arbitrary: m0)
  case (Cons e es)
  show ?case
  proof (cases "ev_ProviderEventID e = i")
    case True
    then have "i \<notin> ev_ProviderEventID ` set es" using Cons.prems by auto
    then have "List.find (\<lambda>e. ev_ProviderEventID e = i) es = None" by (simp add: find_key_None)
    then show ?thesis using Cons True by simp
  qed (use Cons in \<open>simp split: option.splits\<close>)
qed simp

lemma fg_statuses_spec:
  assumes "fg_inv s" and "fg_GetEventStatusesByProvider E s p = Inr sm"
  shows "mget sm i = map_option ev_Status (vw_events (fg_view s) (p, i))"
proof -
  let ?es = "List.filter (\<lambda>e. ev_Provider e = p) (fg_events s)"
  have k: "distinct (List.map ev_key (fg_events s))" using assms(1) by (simp add: fg_inv_def keyed_def)
  then have "distinct (List.map ev_ProviderEventID ?es)"
    by (auto simp: distinct_map inj_on_def ev_key_def)
  moreover have "List.find (\<lambda>e. ev_ProviderEventID e = i) ?es = row_at ev_key (fg_events s) (p, i)"
    by (simp add: row_at_def find_filter ev_key_def)
  moreover have "sm = fold (\<lambda>e m. mput (ev_ProviderEventID e) (ev_Status e) m) ?es []"
    using assms(2) by (auto simp: fg_GetEventStatusesByProvider_def split: sum.splits dest!: fg_query_Inr)
  ultimately show ?thesis using statuses_fold_keyed [of ?es "[]" i] by (simp split: option.splits)
qed

lemma fg_ops_sel:
  "FO_UpsertSport (fg_ops N ord) = fg_UpsertSport N" "FO_UpsertLeague (fg_ops N ord) = fg_UpsertLeague N"
  "FO_UpsertEvent (fg_ops N ord) = fg_UpsertEvent N" "FO_UpsertMarket (fg_ops N ord) = fg_UpsertMarket N"
  "FO_UpsertOutcome (fg_ops N ord) = fg_UpsertOutcome N" "FO_UpdateOutcomeOdds (fg_ops N ord) = fg_UpdateOutcomeOdds"
  "FO_UpdateMarketStatus (fg_ops N ord) = fg_UpdateMarketStatus" "FO_UpdateOutcomeStatus (fg_ops N ord) = fg_UpdateOutcomeStatus"
  "FO_GetEventStatusesByProvider (fg_ops N ord) = fg_GetEventStatusesByProvider"
  "FO_GetEvent (fg_ops N ord) = fg_GetEvent N" "FO_ListMarkets (fg_ops N ord) = fg_ListMarkets N ord"
  "FO_ListOutcomes (fg_ops N ord) = fg_ListOutcomes N ord"
  by (simp_all add: fg_ops_def)

lemma fg_feed_store:
  assumes "fg_walks ord"
  shows "feed_store (fg_ops N ord) fg_view fg_inv (\<lambda>_. True) (fg_refers N)"
proof (unfold_locales, unfold fg_ops_sel, goal_cases)
  case 1 from 1(1,3) show ?case by (rule fg_UpsertSport_spec)
next
  case 2 from 2(1,3) show ?case by (rule fg_UpsertLeague_spec)
next
  case 3 from 3(1,3) show ?case by (rule fg_UpsertEvent_spec)
next
  case 4 from 4(1,3) show ?case by (rule fg_UpsertMarket_spec)
next
  case 5 from 5(1,3) show ?case by (rule fg_UpsertOutcome_spec)
next
  case 6 from 6(1,3) show ?case by (rule fg_UpdateOutcomeOdds_spec)
next
  case 7 from 7(1,3) show ?case by (rule fg_UpdateMarketStatus_spec)
next
  case 8 from 8(1,3) show ?case by (rule fg_UpdateOutcomeStatus_spec)
next
  case 9 from 9(1,3) show ?case by (rule fg_statuses_spec)
next
  case 10 then show ?case by (rule fg_get_event_spec)
next
  case 11 from assms 11 show ?case by (rule fg_list_markets_spec)
next
  case 12 from assms 12 show ?case by (rule fg_list_outcomes_spec)
qed

definition row_order :: fg_orders where
  "row_order = \<lparr>go_sports = \<lambda>xs. xs, go_leagues = \<lambda>xs. xs, go_events = \<lambda>xs. xs, go_markets = \<lambda>xs. xs, go_outcomes = \<lambda>xs. xs\<rparr>"

lemma row_order_walks [simp]: "fg_walks row_order"
  by (simp add: fg_walks_def row_order_def)

interpretation fg: feed_store "fg_ops N row_order" fg_view fg_inv "\<lambda>_. True" "fg_refers N"
  for N
  by (rule fg_feed_store) simp

end
