(* ===== verification/FeedService.thy ===== *)
theory FeedService
  imports FeedModel
begin

text \<open>
  The odds feed service, \<open>internal/oddsfeed/service.go\<close>, with its cache (\<open>cache.go\<close>), event bus
  (\<open>events.go\<close>), scheduler (\<open>scheduler.go\<close>), live worker (\<open>websocket.go\<close>) and gRPC server
  (\<open>server.go\<close>), over any store and any providers.

  The state is that of the store together with the log of what was sent to Redis and to NATS;
  whether a send succeeds only changes what the service logs.  \<open>E n k\<close> is what the \<open>k\<close>-th store call
  of phase \<open>n\<close> of an operation reads from outside.
\<close>

section \<open>What goes out\<close>

datatype redis_cmd = HSET string "string gomap" | EXPIRE string int | DEL string | SADD string string

datatype feed_effect = Pipeline "redis_cmd list" | Publish string "string gomap"

subsection \<open>cache.go\<close>

definition cache_ttl :: "int \<Rightarrow> int" where
  "cache_ttl ttl = (if ttl \<le> 0 then 60 * second_ns else ttl)"

definition SetLiveOdds :: "int \<Rightarrow> string \<Rightarrow> string gomap \<Rightarrow> redis_cmd list" where
  "SetLiveOdds ttl marketID odds =
     (let key = ''oddsfeed:live:odds:'' @ marketID in [HSET key odds, EXPIRE key ttl])"

definition SetLiveScore :: "int \<Rightarrow> string \<Rightarrow> string \<Rightarrow> string \<Rightarrow> string \<Rightarrow> redis_cmd list" where
  "SetLiveScore ttl eventID home away status =
     (let key = ''oddsfeed:live:score:'' @ eventID
      in [HSET key [(''home_score'', home), (''away_score'', away), (''status'', status)], EXPIRE key ttl])"

definition SetLiveEventIDs :: "int \<Rightarrow> string \<Rightarrow> string list \<Rightarrow> redis_cmd list" where
  "SetLiveEventIDs ttl sportID ids =
     (let key = ''oddsfeed:live:events:'' @ sportID in [DEL key] @ List.map (SADD key) ids @ [EXPIRE key ttl])"

text \<open>\<open>hgetall\<close> is the answer of Redis.\<close>

definition GetLiveOdds :: "(string \<Rightarrow> string gomap result) \<Rightarrow> string \<Rightarrow> string gomap result" where
  "GetLiveOdds hgetall marketID = hgetall (''oddsfeed:live:odds:'' @ marketID)"

definition GetLiveScore :: "(string \<Rightarrow> string gomap result) \<Rightarrow> string \<Rightarrow> string gomap result" where
  "GetLiveScore hgetall eventID = hgetall (''oddsfeed:live:score:'' @ eventID)"

section \<open>The service\<close>

text \<open>\<open>fv_ttl\<close>: no cache, or its time to live; \<open>fv_bus\<close>: whether there is a bus.\<close>

record feed_service =
  fv_providers :: "feed_provider gomap"
  fv_ttl :: "int option"
  fv_bus :: bool

definition new_providers :: "(string \<times> feed_provider) list \<Rightarrow> feed_provider gomap" where
  "new_providers ps = fold (\<lambda>(name, p) m. mput name p m) ps []"

definition maybeEmit :: "feed_service \<Rightarrow> string \<Rightarrow> string \<Rightarrow> feed_effect list" where
  "maybeEmit sv subject entityID = (if fv_bus sv then [Publish subject [(''id'', entityID)]] else [])"

definition cache_effect :: "feed_service \<Rightarrow> (int \<Rightarrow> redis_cmd list) \<Rightarrow> feed_effect list" where
  "cache_effect sv cmds = (case fv_ttl sv of None \<Rightarrow> [] | Some ttl \<Rightarrow> [Pipeline (cmds ttl)])"

text \<open>
  The loops of a sync: each row is upserted, and what goes out for it is sent; the first error ends
  the loop.  The ids come in the order of the rows.
\<close>

fun upsert_rows ::
  "('e \<Rightarrow> 's \<Rightarrow> 'r \<Rightarrow> 's \<times> string result) \<Rightarrow> string \<Rightarrow> ('r \<Rightarrow> string \<Rightarrow> feed_effect list) \<Rightarrow> (nat \<Rightarrow> 'e) \<Rightarrow> nat
   \<Rightarrow> 's \<times> feed_effect list \<Rightarrow> 'r list \<Rightarrow> ('s \<times> feed_effect list) \<times> string list result" where
  "upsert_rows up what out E k sx [] = (sx, Inr [])"
| "upsert_rows up what out E k (s, x) (r # rs) =
     (case up (E k) s r of
        (s', Inl err) \<Rightarrow> ((s', x), Inl (WrapErr what err))
      | (s', Inr i) \<Rightarrow>
          (case upsert_rows up what out E (Suc k) (s', x @ out r i) rs of
             (sx', Inl err) \<Rightarrow> (sx', Inl err)
           | (sx', Inr is) \<Rightarrow> (sx', Inr (i # is))))"

text \<open>The live events of a sport, by sport.\<close>

definition liveBySport :: "event list \<Rightarrow> string list \<Rightarrow> string list gomap" where
  "liveBySport events ids =
     fold (\<lambda>(e, i) m. if ev_Status e = ''live'' \<and> ev_SportID e \<noteq> []
                      then mput (ev_SportID e) ((case mget m (ev_SportID e) of None \<Rightarrow> [] | Some is \<Rightarrow> is) @ [i]) m else m)
       (zip events ids) []"

text \<open>\<open>ord\<close> is the order in which the map of live events is walked.\<close>

definition applyHierarchy ::
  "('e, 's) feed_ops \<Rightarrow> feed_service \<Rightarrow> ((string \<times> string list) list \<Rightarrow> (string \<times> string list) list) \<Rightarrow> (nat \<Rightarrow> nat \<Rightarrow> 'e)
   \<Rightarrow> 's \<times> feed_effect list \<Rightarrow> sport list \<Rightarrow> league list \<Rightarrow> event list \<Rightarrow> ('s \<times> feed_effect list) \<times> unit result" where
  "applyHierarchy S sv ord E sx sports leagues events =
     (case upsert_rows (FO_UpsertSport S) ''upsert sport: '' (\<lambda>r. maybeEmit sv ''feed.sport.updated'') (E 0) 0 sx sports of
        (sx, Inl err) \<Rightarrow> (sx, Inl err)
      | (sx, Inr _) \<Rightarrow>
     (case upsert_rows (FO_UpsertLeague S) ''upsert league: '' (\<lambda>r. maybeEmit sv ''feed.league.updated'') (E 1) 0 sx leagues of
        (sx, Inl err) \<Rightarrow> (sx, Inl err)
      | (sx, Inr _) \<Rightarrow>
     (case upsert_rows (FO_UpsertEvent S) ''upsert event: '' (\<lambda>r. maybeEmit sv ''feed.event.updated'') (E 2) 0 sx events of
        (sx, Inl err) \<Rightarrow> (sx, Inl err)
      | ((s, x), Inr ids) \<Rightarrow>
          ((s, x @ concat (List.map (\<lambda>(sportID, is). cache_effect sv (\<lambda>ttl. SetLiveEventIDs ttl sportID is))
                       (ord (liveBySport events ids)))),
           Inr ()))))"

definition applyMarkets ::
  "('e, 's) feed_ops \<Rightarrow> feed_service \<Rightarrow> (nat \<Rightarrow> nat \<Rightarrow> 'e) \<Rightarrow> 's \<times> feed_effect list \<Rightarrow> market list \<Rightarrow> outcome list
   \<Rightarrow> ('s \<times> feed_effect list) \<times> unit result" where
  "applyMarkets S sv E sx markets outcomes =
     (case upsert_rows (FO_UpsertMarket S) ''upsert market: '' (\<lambda>r. maybeEmit sv ''feed.market.updated'') (E 3) 0 sx markets of
        (sx, Inl err) \<Rightarrow> (sx, Inl err)
      | (sx, Inr _) \<Rightarrow>
     (case upsert_rows (FO_UpsertOutcome S) ''upsert outcome: ''
             (\<lambda>c i. cache_effect sv (\<lambda>ttl. SetLiveOdds ttl (oc_MarketID c) [(i, oc_Odds c)]) @ maybeEmit sv ''feed.odds.changed'' i)
             (E 4) 0 sx outcomes of
        (sx, Inl err) \<Rightarrow> (sx, Inl err)
      | (sx, Inr _) \<Rightarrow> (sx, Inr ())))"

definition applySnapshot ::
  "(string \<Rightarrow> string) \<Rightarrow> (string \<Rightarrow> gtime result) \<Rightarrow> ('e, 's) feed_ops \<Rightarrow> feed_service
   \<Rightarrow> ((string \<times> string list) list \<Rightarrow> (string \<times> string list) list) \<Rightarrow> (nat \<Rightarrow> nat \<Rightarrow> 'e)
   \<Rightarrow> 's \<times> feed_effect list \<Rightarrow> snapshot \<Rightarrow> ('s \<times> feed_effect list) \<times> unit result" where
  "applySnapshot did pt S sv ord E sx snap =
     (case NormalizeSnapshot did pt snap of
        Inl err \<Rightarrow> (sx, Inl (WrapErr ''normalize snapshot: '' err))
      | Inr rw \<Rightarrow>
     (case applyHierarchy S sv ord E sx (rw_sports rw) (rw_leagues rw) (rw_events rw) of
        (sx, Inl err) \<Rightarrow> (sx, Inl err)
      | (sx, Inr _) \<Rightarrow> applyMarkets S sv E sx (rw_markets rw) (rw_outcomes rw)))"

definition changedEventIDs :: "event list \<Rightarrow> string gomap \<Rightarrow> string list" where
  "changedEventIDs events existing =
     List.map ev_ProviderEventID
       (List.filter (\<lambda>e. case mget existing (ev_ProviderEventID e) of
                           None \<Rightarrow> True
                         | Some prev \<Rightarrow> prev \<noteq> ev_Status e \<or> ev_Status e = ''live'') events)"

text \<open>The part of \<open>SyncProvider\<close> after the hierarchy was applied.\<close>

definition sync_conditions ::
  "(string \<Rightarrow> string) \<Rightarrow> (string \<Rightarrow> gtime result) \<Rightarrow> ('e, 's) feed_ops \<Rightarrow> feed_service \<Rightarrow> (nat \<Rightarrow> nat \<Rightarrow> 'e)
   \<Rightarrow> feed_provider \<Rightarrow> 's \<times> feed_effect list \<Rightarrow> string list \<Rightarrow> ('s \<times> feed_effect list) \<times> unit result" where
  "sync_conditions did pt S sv E p sx changedIDs =
     (if length changedIDs = 0 then (sx, Inr ())
      else
        case FP_FetchConditions p changedIDs of
          Inl err \<Rightarrow> (sx, Inl (WrapErr ''fetch conditions: '' err))
        | Inr conds \<Rightarrow>
            (case NormalizeSnapshot did pt conds of
               Inl err \<Rightarrow> (sx, Inl (WrapErr ''normalize conditions: '' err))
             | Inr rw \<Rightarrow> applyMarkets S sv E sx (rw_markets rw) (rw_outcomes rw)))"

definition SyncProvider ::
  "(string \<Rightarrow> string) \<Rightarrow> (string \<Rightarrow> gtime result) \<Rightarrow> ('e, 's) feed_ops \<Rightarrow> feed_service
   \<Rightarrow> ((string \<times> string list) list \<Rightarrow> (string \<times> string list) list) \<Rightarrow> (nat \<Rightarrow> nat \<Rightarrow> 'e)
   \<Rightarrow> 's \<times> feed_effect list \<Rightarrow> string \<Rightarrow> ('s \<times> feed_effect list) \<times> unit result" where
  "SyncProvider did pt S sv ord E sx providerName =
     (case mget (fv_providers sv) providerName of
        None \<Rightarrow> (sx, Inl (NewErr (''unknown provider: '' @ providerName)))
      | Some p \<Rightarrow>
     (case FP_FetchHierarchy p [] [] of
        Inl err \<Rightarrow> (sx, Inl (WrapErr ''fetch hierarchy: '' err))
      | Inr hier \<Rightarrow>
     (case NormalizeSnapshot did pt hier of
        Inl err \<Rightarrow> (sx, Inl (WrapErr ''normalize hierarchy: '' err))
      | Inr rw \<Rightarrow>
     (case FO_GetEventStatusesByProvider S (E 5 0) (fst sx) providerName of
        Inl err \<Rightarrow> (sx, Inl (WrapErr ''get existing event statuses: '' err))
      | Inr existingStatuses \<Rightarrow>
     (case applyHierarchy S sv ord E sx (rw_sports rw) (rw_leagues rw) (rw_events rw) of
        (sx, Inl err) \<Rightarrow> (sx, Inl err)
      | (sx, Inr _) \<Rightarrow>
          sync_conditions did pt S sv E p sx (changedEventIDs (rw_events rw) existingStatuses))))))"

definition SyncLiveProvider ::
  "(string \<Rightarrow> string) \<Rightarrow> (string \<Rightarrow> gtime result) \<Rightarrow> ('e, 's) feed_ops \<Rightarrow> feed_service
   \<Rightarrow> ((string \<times> string list) list \<Rightarrow> (string \<times> string list) list) \<Rightarrow> (nat \<Rightarrow> nat \<Rightarrow> 'e)
   \<Rightarrow> 's \<times> feed_effect list \<Rightarrow> string \<Rightarrow> ('s \<times> feed_effect list) \<times> unit result" where
  "SyncLiveProvider did pt S sv ord E sx providerName =
     (case mget (fv_providers sv) providerName of
        None \<Rightarrow> (sx, Inl (NewErr (''unknown provider: '' @ providerName)))
      | Some p \<Rightarrow>
     (case FP_FetchSnapshot p [] [(''game_state'', ''Live'')] of
        Inl err \<Rightarrow> (sx, Inl (WrapErr ''fetch live snapshot: '' err))
      | Inr snap \<Rightarrow> applySnapshot did pt S sv ord E sx snap))"

definition ApplyUpdate ::
  "('e, 's) feed_ops \<Rightarrow> feed_service \<Rightarrow> (nat \<Rightarrow> 'e) \<Rightarrow> 's \<times> feed_effect list \<Rightarrow> feed_update
   \<Rightarrow> ('s \<times> feed_effect list) \<times> unit result" where
  "ApplyUpdate S sv E sx u =
     (if fu_Type u = ''odds'' then
        let odds = look (fu_Payload u) ''odds''
        in case FO_UpdateOutcomeOdds S (E 0) (fst sx) (fu_Provider u) (fu_EntityID u) odds of
             (s, Inl err) \<Rightarrow> ((s, snd sx), Inl (WrapErr ''apply odds update: '' err))
           | (s, Inr (marketID, outcomeID)) \<Rightarrow>
               ((s, snd sx @ cache_effect sv (\<lambda>ttl. SetLiveOdds ttl marketID [(outcomeID, odds)])
                      @ maybeEmit sv ''feed.odds.changed'' outcomeID), Inr ())
      else if fu_Type u = ''status'' then
        let status = look (fu_Payload u) ''status''
        in case FO_UpdateMarketStatus S (E 0) (fst sx) (fu_Provider u) (fu_EntityID u) status of
             (s, Inr marketID) \<Rightarrow> ((s, snd sx @ maybeEmit sv ''feed.market.updated'' marketID), Inr ())
           | (s, Inl err) \<Rightarrow>
               (case FO_UpdateOutcomeStatus S (E 1) s (fu_Provider u) (fu_EntityID u) status of
                  (s, Inl err) \<Rightarrow> ((s, snd sx), Inl (WrapErr ''apply status update: '' err))
                | (s, Inr (marketID, outcomeID)) \<Rightarrow>
                    ((s, snd sx @ maybeEmit sv ''feed.odds.changed'' outcomeID), Inr ()))
      else (sx, Inl (NewErr (''unknown update type: '' @ fu_Type u))))"

section \<open>Scheduler and live worker\<close>

definition feed_interval :: "int \<Rightarrow> int" where
  "feed_interval interval = (if interval \<le> 0 then 60 * second_ns else interval)"

text \<open>One tick: both syncs of each provider, whatever they return.  \<open>E p\<close> and \<open>L p\<close> are their surroundings.\<close>

definition feed_tick ::
  "(string \<Rightarrow> string) \<Rightarrow> (string \<Rightarrow> gtime result) \<Rightarrow> ('e, 's) feed_ops \<Rightarrow> feed_service
   \<Rightarrow> ((string \<times> string list) list \<Rightarrow> (string \<times> string list) list) \<Rightarrow> (string \<Rightarrow> nat \<Rightarrow> nat \<Rightarrow> 'e) \<Rightarrow> (string \<Rightarrow> nat \<Rightarrow> nat \<Rightarrow> 'e)
   \<Rightarrow> string list \<Rightarrow> 's \<times> feed_effect list \<Rightarrow> 's \<times> feed_effect list" where
  "feed_tick did pt S sv ord E L providers sx =
     fold (\<lambda>p sx. fst (SyncLiveProvider did pt S sv ord (L p) (fst (SyncProvider did pt S sv ord (E p) sx p)) p)) providers sx"

text \<open>What a subscription delivers: an update, or its end, with or without an error.\<close>

datatype ws_event = WsUpdate feed_update | WsEnd "string option" | WsDone

text \<open>The inner loop of \<open>runProvider\<close> on the events of a subscription; the result says whether the worker goes on.\<close>

fun ws_loop ::
  "('e, 's) feed_ops \<Rightarrow> feed_service \<Rightarrow> (nat \<Rightarrow> nat \<Rightarrow> 'e) \<Rightarrow> nat \<Rightarrow> 's \<times> feed_effect list \<Rightarrow> ws_event list
   \<Rightarrow> ('s \<times> feed_effect list) \<times> bool" where
  "ws_loop S sv E k sx [] = (sx, True)"
| "ws_loop S sv E k sx (WsDone # evs) = (sx, False)"
| "ws_loop S sv E k sx (WsEnd err # evs) = (sx, True)"
| "ws_loop S sv E k sx (WsUpdate u # evs) = ws_loop S sv E (Suc k) (fst (ApplyUpdate S sv (E k) sx u)) evs"

definition max_reconnect :: "int \<Rightarrow> int" where
  "max_reconnect m = (if m \<le> 0 then 5 * second_ns else m)"

definition next_backoff :: "int \<Rightarrow> int \<Rightarrow> int" where
  "next_backoff maxReconnect backoff =
     (let backoff = wrap64 (backoff * 2) in if backoff > maxReconnect then maxReconnect else backoff)"

section \<open>The gRPC server\<close>

record pf_sport =
  pfs_Id :: string
  pfs_Name :: string
  pfs_Slug :: string

record pf_league =
  pfl_Id :: string
  pfl_Name :: string
  pfl_SportId :: string
  pfl_Country :: string

record pf_event =
  pfe_Id :: string
  pfe_LeagueId :: string
  pfe_SportId :: string
  pfe_HomeParticipant :: string
  pfe_AwayParticipant :: string
  pfe_StartsAt :: string
  pfe_Status :: string
  pfe_HomeScore :: string
  pfe_AwayScore :: string
  pfe_ScoreUpdatedAt :: string

record pf_market =
  pfm_Id :: string
  pfm_EventId :: string
  pfm_Type :: string
  pfm_Name :: string
  pfm_Line :: string
  pfm_Status :: string

record pf_outcome =
  pfo_Id :: string
  pfo_MarketId :: string
  pfo_Name :: string
  pfo_Odds :: string
  pfo_Status :: string

definition toProtoSport :: "sport \<Rightarrow> pf_sport" where
  "toProtoSport s = \<lparr>pfs_Id = sp_ID s, pfs_Name = sp_Name s, pfs_Slug = sp_Slug s\<rparr>"

definition toProtoLeague :: "league \<Rightarrow> pf_league" where
  "toProtoLeague l = \<lparr>pfl_Id = lg_ID l, pfl_Name = lg_Name l, pfl_SportId = lg_SportID l, pfl_Country = lg_Country l\<rparr>"

text \<open>\<open>fmt\<close> is the formatting of an instant as RFC 3339.\<close>

definition toProtoEvent :: "(gtime \<Rightarrow> string) \<Rightarrow> event \<Rightarrow> pf_event" where
  "toProtoEvent fmt e =
     \<lparr>pfe_Id = ev_ID e, pfe_LeagueId = ev_LeagueID e, pfe_SportId = ev_SportID e,
      pfe_HomeParticipant = ev_HomeParticipant e, pfe_AwayParticipant = ev_AwayParticipant e,
      pfe_StartsAt = fmt (ev_StartsAt e), pfe_Status = ev_Status e,
      pfe_HomeScore = ev_HomeScore e, pfe_AwayScore = ev_AwayScore e,
      pfe_ScoreUpdatedAt = (if \<not> IsZero (ev_ScoreUpdatedAt e) then fmt (ev_ScoreUpdatedAt e) else [])\<rparr>"

definition toProtoMarket :: "market \<Rightarrow> pf_market" where
  "toProtoMarket m =
     \<lparr>pfm_Id = mk_ID m, pfm_EventId = mk_EventID m, pfm_Type = mk_Type m, pfm_Name = mk_Name m,
      pfm_Line = mk_Line m, pfm_Status = mk_Status m\<rparr>"

definition toProtoOutcome :: "outcome \<Rightarrow> pf_outcome" where
  "toProtoOutcome c =
     \<lparr>pfo_Id = oc_ID c, pfo_MarketId = oc_MarketID c, pfo_Name = oc_Name c, pfo_Odds = oc_Odds c, pfo_Status = oc_Status c\<rparr>"

definition feed_reply :: "string \<Rightarrow> ('a \<Rightarrow> 'b) \<Rightarrow> 'a result \<Rightarrow> 'b result" where
  "feed_reply what f r = (case r of Inl err \<Rightarrow> Inl (WrapErr what err) | Inr x \<Rightarrow> Inr (f x))"

definition fsrv_ListSports :: "('e, 's) feed_ops \<Rightarrow> 'e \<Rightarrow> 's \<Rightarrow> int \<Rightarrow> int \<Rightarrow> pf_sport list result" where
  "fsrv_ListSports S E s page pageSize =
     feed_reply ''list sports: '' (List.map toProtoSport) (FO_ListSports S E s page pageSize)"

definition fsrv_ListLeagues :: "('e, 's) feed_ops \<Rightarrow> 'e \<Rightarrow> 's \<Rightarrow> string \<Rightarrow> int \<Rightarrow> int \<Rightarrow> pf_league list result" where
  "fsrv_ListLeagues S E s sportId page pageSize =
     feed_reply ''list leagues: '' (List.map toProtoLeague) (FO_ListLeagues S E s sportId page pageSize)"

definition fsrv_ListEvents ::
  "(gtime \<Rightarrow> string) \<Rightarrow> ('e, 's) feed_ops \<Rightarrow> 'e \<Rightarrow> 's \<Rightarrow> string \<Rightarrow> string \<Rightarrow> string \<Rightarrow> int \<Rightarrow> int \<Rightarrow> pf_event list result" where
  "fsrv_ListEvents fmt S E s sportId leagueId status page pageSize =
     feed_reply ''list events: '' (List.map (toProtoEvent fmt)) (FO_ListEvents S E s sportId leagueId status page pageSize)"

definition fsrv_GetEvent :: "(gtime \<Rightarrow> string) \<Rightarrow> ('e, 's) feed_ops \<Rightarrow> 'e \<Rightarrow> 's \<Rightarrow> string \<Rightarrow> pf_event option result" where
  "fsrv_GetEvent fmt S E s i = feed_reply ''get event: '' (map_option (toProtoEvent fmt)) (FO_GetEvent S E s i)"

definition fsrv_ListMarkets ::
  "('e, 's) feed_ops \<Rightarrow> 'e \<Rightarrow> 's \<Rightarrow> string \<Rightarrow> string \<Rightarrow> int \<Rightarrow> int \<Rightarrow> pf_market list result" where
  "fsrv_ListMarkets S E s eventId status page pageSize =
     feed_reply ''list markets: '' (List.map toProtoMarket) (FO_ListMarkets S E s eventId status page pageSize)"

definition fsrv_ListOutcomes ::
  "('e, 's) feed_ops \<Rightarrow> 'e \<Rightarrow> 's \<Rightarrow> string \<Rightarrow> string \<Rightarrow> int \<Rightarrow> int \<Rightarrow> pf_outcome list result" where
  "fsrv_ListOutcomes S E s marketId status page pageSize =
     feed_reply ''list outcomes: '' (List.map toProtoOutcome) (FO_ListOutcomes S E s marketId status page pageSize)"

definition fsrv_ListLiveScores ::
  "(gtime \<Rightarrow> string) \<Rightarrow> ('e, 's) feed_ops \<Rightarrow> 'e \<Rightarrow> 's \<Rightarrow> string \<Rightarrow> string \<Rightarrow> int \<Rightarrow> int \<Rightarrow> pf_event list result" where
  "fsrv_ListLiveScores fmt S E s sportId leagueId page pageSize =
     feed_reply ''list live scores: '' (List.map (toProtoEvent fmt)) (FO_ListLiveScores S E s sportId leagueId page pageSize)"

end
