(* ===== verification/FeedProviders.thy ===== *)
theory FeedProviders
  imports FeedModel GoJson WalletModel
begin

text \<open>
  The providers of the odds feed: Azuro, \<open>internal/oddsfeed/providers/azuro/azuro.go\<close>, and the mock
  provider, \<open>internal/oddsfeed/providers/mock/mock.go\<close>.

  Not in the repository, and so arguments (\<open>azuro_net\<close>): building a request, the HTTP transport, the
  parser of JSON texts, the formatting of instants and of the odds of a live message, and the order
  in which a Go map is walked.
\<close>

section \<open>Payloads\<close>

record az_game =
  ag_GameID :: string
  ag_Slug :: string
  ag_Title :: string
  ag_StartsAt :: string
  ag_State :: string
  ag_Participants :: "string list"

record az_league =
  al_Slug :: string
  al_Name :: string
  al_Games :: "az_game list"

record az_country =
  ac_Slug :: string
  ac_Name :: string
  ac_Leagues :: "az_league list"

record az_sport =
  as_ID :: int
  as_Slug :: string
  as_Name :: string
  as_SportID :: string
  as_Countries :: "az_country list"

text \<open>Of the game of a condition only its id and its sport's id are read.\<close>

record az_game_ref =
  gr_GameID :: string
  gr_SportID :: string

record az_outcome =
  ao_Title :: string
  ao_OutcomeID :: string
  ao_Odds :: string
  ao_State :: string

record az_condition =
  ad_ID :: string
  ad_ConditionID :: string
  ad_State :: string
  ad_Title :: string
  ad_Game :: az_game_ref
  ad_Outcomes :: "az_outcome list"

record ws_outcome =
  wo_ID :: int
  wo_Odds :: string

record ws_condition =
  wc_ID :: string
  wc_State :: string
  wc_Outcomes :: "ws_outcome list"

section \<open>Decoding\<close>

text \<open>A slice of structures: each element is decoded into a zero value.\<close>

definition json_structs :: "'a \<Rightarrow> (string \<times> (json \<Rightarrow> 'a \<Rightarrow> 'a result)) list \<Rightarrow> json \<Rightarrow> 'a list \<Rightarrow> 'a list result" where
  "json_structs zero fs = json_list (\<lambda>j. json_struct fs j zero)"

text \<open>Values that the code does not read: only their kind is checked.\<close>

definition unread_string :: "json \<Rightarrow> 'r \<Rightarrow> 'r result" where
  "unread_string j r = (case json_string j [] of Inl e \<Rightarrow> Inl e | Inr s \<Rightarrow> Inr r)"

definition unread :: "string list \<Rightarrow> json \<Rightarrow> 'r \<Rightarrow> 'r result" where
  "unread names = json_struct (List.map (\<lambda>n. (n, unread_string)) names)"

definition game_fields :: "(string \<times> (json \<Rightarrow> az_game \<Rightarrow> az_game result)) list" where
  "game_fields =
     [(''gameId'', json_into ag_GameID (\<lambda>x g. g\<lparr>ag_GameID := x\<rparr>) json_string),
      (''slug'', json_into ag_Slug (\<lambda>x g. g\<lparr>ag_Slug := x\<rparr>) json_string),
      (''title'', json_into ag_Title (\<lambda>x g. g\<lparr>ag_Title := x\<rparr>) json_string),
      (''startsAt'', json_into ag_StartsAt (\<lambda>x g. g\<lparr>ag_StartsAt := x\<rparr>) json_string),
      (''state'', json_into ag_State (\<lambda>x g. g\<lparr>ag_State := x\<rparr>) json_string),
      (''sport'', unread [''sportId'', ''slug'', ''name'']),
      (''league'', unread [''id'', ''slug'', ''name'']),
      (''country'', unread [''id'', ''slug'', ''name'']),
      (''participants'', json_into ag_Participants (\<lambda>x g. g\<lparr>ag_Participants := x\<rparr>)
         (json_structs [] [(''name'', json_string)]))]"

definition zero_game :: az_game where
  "zero_game =
     \<lparr>ag_GameID = [], ag_Slug = [], ag_Title = [], ag_StartsAt = [], ag_State = [], ag_Participants = []\<rparr>"

definition league_fields :: "(string \<times> (json \<Rightarrow> az_league \<Rightarrow> az_league result)) list" where
  "league_fields =
     [(''slug'', json_into al_Slug (\<lambda>x l. l\<lparr>al_Slug := x\<rparr>) json_string),
      (''name'', json_into al_Name (\<lambda>x l. l\<lparr>al_Name := x\<rparr>) json_string),
      (''games'', json_into al_Games (\<lambda>x l. l\<lparr>al_Games := x\<rparr>) (json_structs zero_game game_fields))]"

definition country_fields :: "(string \<times> (json \<Rightarrow> az_country \<Rightarrow> az_country result)) list" where
  "country_fields =
     [(''slug'', json_into ac_Slug (\<lambda>x c. c\<lparr>ac_Slug := x\<rparr>) json_string),
      (''name'', json_into ac_Name (\<lambda>x c. c\<lparr>ac_Name := x\<rparr>) json_string),
      (''leagues'', json_into ac_Leagues (\<lambda>x c. c\<lparr>ac_Leagues := x\<rparr>)
         (json_structs \<lparr>al_Slug = [], al_Name = [], al_Games = []\<rparr> league_fields))]"

definition sport_fields :: "(string \<times> (json \<Rightarrow> az_sport \<Rightarrow> az_sport result)) list" where
  "sport_fields =
     [(''id'', json_into as_ID (\<lambda>x s. s\<lparr>as_ID := x\<rparr>) json_int64),
      (''slug'', json_into as_Slug (\<lambda>x s. s\<lparr>as_Slug := x\<rparr>) json_string),
      (''name'', json_into as_Name (\<lambda>x s. s\<lparr>as_Name := x\<rparr>) json_string),
      (''sportId'', json_into as_SportID (\<lambda>x s. s\<lparr>as_SportID := x\<rparr>) json_string),
      (''countries'', json_into as_Countries (\<lambda>x s. s\<lparr>as_Countries := x\<rparr>)
         (json_structs \<lparr>ac_Slug = [], ac_Name = [], ac_Leagues = []\<rparr> country_fields))]"

definition decode_sports :: "json \<Rightarrow> az_sport list result" where
  "decode_sports j =
     json_struct [(''sports'', json_structs \<lparr>as_ID = 0, as_Slug = [], as_Name = [], as_SportID = [], as_Countries = []\<rparr> sport_fields)]
       j []"

definition game_ref_fields :: "(string \<times> (json \<Rightarrow> az_game_ref \<Rightarrow> az_game_ref result)) list" where
  "game_ref_fields =
     [(''gameId'', json_into gr_GameID (\<lambda>x g. g\<lparr>gr_GameID := x\<rparr>) json_string),
      (''sport'', json_into gr_SportID (\<lambda>x g. g\<lparr>gr_SportID := x\<rparr>)
         (json_struct [(''sportId'', json_string), (''slug'', unread_string), (''name'', unread_string)]))]"

definition outcome_fields :: "(string \<times> (json \<Rightarrow> az_outcome \<Rightarrow> az_outcome result)) list" where
  "outcome_fields =
     [(''title'', json_into ao_Title (\<lambda>x c. c\<lparr>ao_Title := x\<rparr>) json_string),
      (''outcomeId'', json_into ao_OutcomeID (\<lambda>x c. c\<lparr>ao_OutcomeID := x\<rparr>) json_string),
      (''odds'', json_into ao_Odds (\<lambda>x c. c\<lparr>ao_Odds := x\<rparr>) json_string),
      (''state'', json_into ao_State (\<lambda>x c. c\<lparr>ao_State := x\<rparr>) json_string)]"

definition condition_fields :: "(string \<times> (json \<Rightarrow> az_condition \<Rightarrow> az_condition result)) list" where
  "condition_fields =
     [(''id'', json_into ad_ID (\<lambda>x c. c\<lparr>ad_ID := x\<rparr>) json_string),
      (''conditionId'', json_into ad_ConditionID (\<lambda>x c. c\<lparr>ad_ConditionID := x\<rparr>) json_string),
      (''state'', json_into ad_State (\<lambda>x c. c\<lparr>ad_State := x\<rparr>) json_string),
      (''title'', json_into ad_Title (\<lambda>x c. c\<lparr>ad_Title := x\<rparr>) json_string),
      (''game'', json_into ad_Game (\<lambda>x c. c\<lparr>ad_Game := x\<rparr>) (json_struct game_ref_fields)),
      (''outcomes'', json_into ad_Outcomes (\<lambda>x c. c\<lparr>ad_Outcomes := x\<rparr>)
         (json_structs \<lparr>ao_Title = [], ao_OutcomeID = [], ao_Odds = [], ao_State = []\<rparr> outcome_fields))]"

definition decode_conditions :: "json \<Rightarrow> az_condition list result" where
  "decode_conditions j =
     json_struct [(''conditions'', json_structs
       \<lparr>ad_ID = [], ad_ConditionID = [], ad_State = [], ad_Title = [], ad_Game = \<lparr>gr_GameID = [], gr_SportID = []\<rparr>, ad_Outcomes = []\<rparr>
       condition_fields)] j []"

definition decode_ws :: "(string \<Rightarrow> bool) \<Rightarrow> json \<Rightarrow> ws_condition list result" where
  "decode_ws float_ok j =
     json_struct [(''data'', json_structs \<lparr>wc_ID = [], wc_State = [], wc_Outcomes = []\<rparr>
       [(''id'', json_into wc_ID (\<lambda>x c. c\<lparr>wc_ID := x\<rparr>) json_string),
        (''state'', json_into wc_State (\<lambda>x c. c\<lparr>wc_State := x\<rparr>) json_string),
        (''outcomes'', json_into wc_Outcomes (\<lambda>x c. c\<lparr>wc_Outcomes := x\<rparr>) (json_structs \<lparr>wo_ID = 0, wo_Odds = ''0''\<rparr>
          [(''id'', json_into wo_ID (\<lambda>x c. c\<lparr>wo_ID := x\<rparr>) json_int64),
           (''odds'', json_into wo_Odds (\<lambda>x c. c\<lparr>wo_Odds := x\<rparr>)
              (\<lambda>v old. case v of JNum n \<Rightarrow> if float_ok n then Inr n else Inl ErrJson | JNull \<Rightarrow> Inr old | _ \<Rightarrow> Inl ErrJson))]))])]
       j []"

section \<open>States, participants and times\<close>

definition normalizeGameState :: "string \<Rightarrow> string" where
  "normalizeGameState state =
     (if state = ''Prematch'' then ''upcoming''
      else if state = ''Live'' then ''live''
      else if state = ''Finished'' then ''finished''
      else if state = ''Canceled'' then ''canceled''
      else ToLower state)"

definition normalizeConditionState :: "string \<Rightarrow> string" where
  "normalizeConditionState state =
     (if state = ''Active'' then ''active''
      else if state = ''Paused'' \<or> state = ''Stopped'' then ''suspended''
      else if state = ''Resolved'' then ''settled''
      else if state = ''Canceled'' \<or> state = ''Removed'' then ''cancelled''
      else ''cancelled'')"

definition normalizeOutcomeState :: "string \<Rightarrow> string" where
  "normalizeOutcomeState state =
     (if state = ''Active'' then ''active''
      else if state = ''Won'' then ''won''
      else if state = ''Lost'' then ''lost''
      else if state = ''Paused'' \<or> state = ''Stopped'' then ''suspended''
      else if state = ''Canceled'' \<or> state = ''Removed'' then ''cancelled''
      else ''cancelled'')"

definition homeParticipant :: "string list \<Rightarrow> string" where
  "homeParticipant parts = (case parts of [] \<Rightarrow> [] | p # ps \<Rightarrow> p)"

definition awayParticipant :: "string list \<Rightarrow> string" where
  "awayParticipant parts = (case parts of p # q # ps \<Rightarrow> q | _ \<Rightarrow> [])"

definition providerSportID :: "az_sport \<Rightarrow> string" where
  "providerSportID sp = (if as_SportID sp \<noteq> [] then as_SportID sp else itoa (as_ID sp))"

definition providerLeagueID :: "az_sport \<Rightarrow> az_country \<Rightarrow> az_league \<Rightarrow> string" where
  "providerLeagueID sp c l = providerSportID sp @ '':'' @ ac_Slug c @ '':'' @ al_Slug l"

text \<open>
  \<open>fmt.Sscanf(s, "%d", &n)\<close>: blanks, a sign, and the longest run of digits; what follows is ignored.
\<close>

definition parseInt64 :: "string \<Rightarrow> int result" where
  "parseInt64 s =
     (let t = dropWhile (\<lambda>c. is_space c \<and> c \<noteq> CHR 0x0A) s;
          sign = (case t of c # cs \<Rightarrow> if c = CHR ''+'' \<or> c = CHR ''-'' then [c] else [] | [] \<Rightarrow> []);
          ds = takeWhile (\<lambda>c. CHR ''0'' \<le> c \<and> c \<le> CHR ''9'') (drop (length sign) t)
      in if ds = [] then Inl (ExtErr ''expected integer'') else ParseInt64 (sign @ ds))"

definition azuroTime :: "(gtime \<Rightarrow> string) \<Rightarrow> string \<Rightarrow> string" where
  "azuroTime fmt ts =
     (if ts = [] then []
      else case parseInt64 ts of Inl err \<Rightarrow> ts | Inr sec \<Rightarrow> fmt (time_Unix sec))"

definition urlEncode :: "string \<Rightarrow> string" where
  "urlEncode s = concat (List.map (\<lambda>c. if c = CHR '' '' then ''%20'' else [c]) s)"

section \<open>Building a snapshot\<close>

definition azuro_name :: string where
  "azuro_name = ''azuro''"

definition game_event :: "(gtime \<Rightarrow> string) \<Rightarrow> string \<Rightarrow> string \<Rightarrow> az_game \<Rightarrow> event_snapshot" where
  "game_event fmt sportID leagueID g =
     \<lparr>es_ProviderID = ag_GameID g, es_LeagueID = leagueID, es_SportID = sportID,
      es_HomeParticipant = homeParticipant (ag_Participants g), es_AwayParticipant = awayParticipant (ag_Participants g),
      es_StartsAt = azuroTime fmt (ag_StartsAt g), es_Status = normalizeGameState (ag_State g),
      es_HomeScore = [], es_AwayScore = [], es_ScoreUpdatedAt = [],
      es_Metadata = Some [(''title'', ag_Title g), (''slug'', ag_Slug g)]\<rparr>"

definition stub_event :: "string \<times> az_game_ref \<Rightarrow> event_snapshot" where
  "stub_event gg =
     (case gg of (gameID, g) \<Rightarrow>
        let sportID = (if gr_SportID g = [] then ''0'' else gr_SportID g)
        in \<lparr>es_ProviderID = gameID, es_LeagueID = [], es_SportID = sportID, es_HomeParticipant = [],
            es_AwayParticipant = [], es_StartsAt = [], es_Status = ''upcoming'', es_HomeScore = [],
            es_AwayScore = [], es_ScoreUpdatedAt = [], es_Metadata = None\<rparr>)"

definition market_of :: "az_condition \<Rightarrow> string" where
  "market_of cond = (if ad_ConditionID cond = [] then ad_ID cond else ad_ConditionID cond)"

definition condition_market :: "az_condition \<Rightarrow> market_snapshot" where
  "condition_market cond =
     \<lparr>ks_ProviderID = market_of cond, ks_EventID = gr_GameID (ad_Game cond), ks_Type = ad_Title cond,
      ks_Name = ad_Title cond, ks_Line = [], ks_Status = normalizeConditionState (ad_State cond),
      ks_Metadata = Some [(''condition_id'', ad_ID cond)]\<rparr>"

definition condition_outcome :: "string \<Rightarrow> az_outcome \<Rightarrow> outcome_snapshot" where
  "condition_outcome marketID out =
     \<lparr>os_ProviderID = marketID @ '':'' @ ao_OutcomeID out, os_MarketID = marketID, os_Name = ao_Title out,
      os_Odds = ao_Odds out, os_Status = normalizeOutcomeState (ao_State out),
      os_Metadata = Some [(''azuro_outcome_id'', ao_OutcomeID out)]\<rparr>"

text \<open>\<open>ord\<close> is the order in which the games of the conditions are walked.\<close>

definition buildSnapshot ::
  "(gtime \<Rightarrow> string) \<Rightarrow> ((string \<times> az_game_ref) list \<Rightarrow> (string \<times> az_game_ref) list) \<Rightarrow> az_sport list \<Rightarrow> az_condition list
   \<Rightarrow> snapshot" where
  "buildSnapshot fmt ord sports conds =
     \<lparr>sn_Provider = azuro_name,
      sn_Sports = List.map (\<lambda>sp. \<lparr>ss_ProviderID = providerSportID sp, ss_Slug = as_Slug sp, ss_Name = as_Name sp\<rparr>) sports,
      sn_Leagues = concat (List.map (\<lambda>sp. concat (List.map (\<lambda>c. List.map (\<lambda>l.
          \<lparr>ls_ProviderID = providerLeagueID sp c l, ls_SportID = providerSportID sp, ls_Name = al_Name l, ls_Country = ac_Name c\<rparr>)
          (ac_Leagues c)) (as_Countries sp))) sports),
      sn_Events = concat (List.map (\<lambda>sp. concat (List.map (\<lambda>c. concat (List.map (\<lambda>l. List.map
          (game_event fmt (providerSportID sp) (providerLeagueID sp c l)) (al_Games l)) (ac_Leagues c))) (as_Countries sp))) sports)
        @ List.map stub_event (ord (fold (\<lambda>cond m. mput (gr_GameID (ad_Game cond)) (ad_Game cond) m) conds [])),
      sn_Markets = List.map condition_market conds,
      sn_Outcomes = concat (List.map (\<lambda>cond. List.map (condition_outcome (market_of cond)) (ad_Outcomes cond)) conds)\<rparr>"

section \<open>The Azuro provider\<close>

record azuro =
  az_baseURL :: string
  az_wsURL :: string
  az_environment :: string

definition azuro_New :: "string \<Rightarrow> string \<Rightarrow> string \<Rightarrow> azuro" where
  "azuro_New baseURL wsURL environment =
     \<lparr>az_baseURL = (if baseURL \<noteq> [] \<and> last baseURL = CHR ''/'' then butlast baseURL else baseURL), az_wsURL = wsURL,
      az_environment = (if environment = [] then ''PolygonUSDT'' else environment)\<rparr>"

definition azuro_ValidateConfig :: "string \<Rightarrow> unit result" where
  "azuro_ValidateConfig graphURL = (if graphURL = [] then Inl (NewErr ''graph URL required'') else Inr ())"

record azuro_net =
  an_request :: "string \<Rightarrow> string \<Rightarrow> unit result"
  an_http :: "string \<Rightarrow> string \<Rightarrow> string \<Rightarrow> (int \<times> string) result"
  an_parse :: "string \<Rightarrow> json option"
  an_float_ok :: "string \<Rightarrow> bool"
  an_fmt4 :: "string \<Rightarrow> string"
  an_fmt :: "gtime \<Rightarrow> string"
  an_ord :: "(string \<times> az_game_ref) list \<Rightarrow> (string \<times> az_game_ref) list"

text \<open>Sending a request and decoding the body of a successful answer; \<open>what\<close> names the call in the errors.\<close>

definition azuro_call ::
  "azuro_net \<Rightarrow> string \<Rightarrow> (json \<Rightarrow> 'a result) \<Rightarrow> string \<Rightarrow> string \<Rightarrow> string \<Rightarrow> 'a result" where
  "azuro_call Net what dec meth url body =
     (case an_request Net meth url of
        Inl err \<Rightarrow> Inl (WrapErr (''azuro create '' @ what @ '' request: '') err)
      | Inr _ \<Rightarrow>
     (case an_http Net meth url body of
        Inl err \<Rightarrow> Inl (WrapErr (''azuro fetch '' @ what @ '': '') err)
      | Inr (code, text1) \<Rightarrow>
          if code < 200 \<or> code \<ge> 300 then Inl (NewErr (''azuro fetch '' @ what @ '': status '' @ itoa code))
          else case an_parse Net text1 of
            None \<Rightarrow> Inl (WrapErr (''azuro decode '' @ what @ '': '') ErrJson)
          | Some j \<Rightarrow> (case dec j of Inl err \<Rightarrow> Inl (WrapErr (''azuro decode '' @ what @ '': '') err) | Inr x \<Rightarrow> Inr x)))"

definition fetchSports :: "azuro_net \<Rightarrow> azuro \<Rightarrow> string \<Rightarrow> string \<Rightarrow> az_sport list result" where
  "fetchSports Net p sportSlug gameState =
     (let reqURL = az_baseURL p @ ''/market-manager/sports?environment='' @ az_environment p @ ''&gameState='' @ gameState
            @ ''&numberOfGames=100&orderBy=turnover&orderDirection=desc'';
          reqURL = (if sportSlug \<noteq> [] then reqURL @ ''&sportSlug='' @ urlEncode sportSlug else reqURL)
      in azuro_call Net ''sports'' decode_sports ''GET'' reqURL [])"

definition fetchConditions :: "json_codec \<Rightarrow> azuro_net \<Rightarrow> azuro \<Rightarrow> string list \<Rightarrow> az_condition list result" where
  "fetchConditions J Net p gameIDs =
     (case json_Marshal J (Some [(''gameIds'', JArr (List.map JStr gameIDs)), (''environment'', JStr (az_environment p)),
                                 (''extended'', JBool False)]) of
        Inl err \<Rightarrow> Inl (WrapErr ''azuro marshal conditions request: '' err)
      | Inr body \<Rightarrow>
          azuro_call Net ''conditions'' decode_conditions ''POST'' (az_baseURL p @ ''/market-manager/conditions-by-game-ids'') body)"

definition azuro_FetchHierarchy :: "azuro_net \<Rightarrow> azuro \<Rightarrow> string \<Rightarrow> string gomap \<Rightarrow> snapshot result" where
  "azuro_FetchHierarchy Net p sport params =
     (if az_baseURL p = [] then Inl (NewErr ''azuro base URL not configured'')
      else
        let sportSlug = (if sport = [] then look params ''sport_slug'' else sport);
            gameState = (if look params ''game_state'' \<noteq> [] then look params ''game_state'' else ''Prematch'')
        in case fetchSports Net p sportSlug gameState of
             Inl err \<Rightarrow> Inl err
           | Inr sports \<Rightarrow> Inr (buildSnapshot (an_fmt Net) (an_ord Net) sports []))"

definition empty_snapshot :: "string \<Rightarrow> snapshot" where
  "empty_snapshot provider =
     \<lparr>sn_Provider = provider, sn_Sports = [], sn_Leagues = [], sn_Events = [], sn_Markets = [], sn_Outcomes = []\<rparr>"

definition azuro_FetchConditions :: "json_codec \<Rightarrow> azuro_net \<Rightarrow> azuro \<Rightarrow> string list \<Rightarrow> snapshot result" where
  "azuro_FetchConditions J Net p gameIDs =
     (if az_baseURL p = [] then Inl (NewErr ''azuro base URL not configured'')
      else if length gameIDs = 0 then Inr (empty_snapshot azuro_name)
      else case fetchConditions J Net p gameIDs of
        Inl err \<Rightarrow> Inl err
      | Inr conds \<Rightarrow> Inr (buildSnapshot (an_fmt Net) (an_ord Net) [] conds))"

definition azuro_FetchSnapshot :: "json_codec \<Rightarrow> azuro_net \<Rightarrow> azuro \<Rightarrow> string \<Rightarrow> string gomap \<Rightarrow> snapshot result" where
  "azuro_FetchSnapshot J Net p sport params =
     (case azuro_FetchHierarchy Net p sport params of
        Inl err \<Rightarrow> Inl err
      | Inr hier \<Rightarrow>
          let gameIDs = List.map es_ProviderID (sn_Events hier)
          in if length gameIDs > 0 then
               (case azuro_FetchConditions J Net p gameIDs of
                  Inl err \<Rightarrow> Inl err
                | Inr conds \<Rightarrow> Inr (hier\<lparr>sn_Markets := sn_Markets conds, sn_Outcomes := sn_Outcomes conds\<rparr>))
             else Inr hier)"

definition azuro_provider :: "json_codec \<Rightarrow> azuro_net \<Rightarrow> azuro \<Rightarrow> feed_provider" where
  "azuro_provider J Net p =
     \<lparr>FP_FetchSnapshot = azuro_FetchSnapshot J Net p, FP_FetchHierarchy = azuro_FetchHierarchy Net p,
      FP_FetchConditions = azuro_FetchConditions J Net p\<rparr>"

subsection \<open>Live updates\<close>

definition fetchLiveConditionIDs :: "json_codec \<Rightarrow> azuro_net \<Rightarrow> azuro \<Rightarrow> string list result" where
  "fetchLiveConditionIDs J Net p =
     (case fetchSports Net p [] ''Live'' of
        Inl err \<Rightarrow> Inl err
      | Inr sports \<Rightarrow>
          let gameIDs = concat (List.map (\<lambda>sp. concat (List.map (\<lambda>c. concat (List.map (\<lambda>l.
                List.map ag_GameID (al_Games l)) (ac_Leagues c))) (as_Countries sp))) sports)
          in if length gameIDs = 0 then Inr []
             else (case fetchConditions J Net p gameIDs of
                     Inl err \<Rightarrow> Inl err
                   | Inr conds \<Rightarrow> Inr (List.map market_of conds)))"

definition condition_updates :: "(string \<Rightarrow> string) \<Rightarrow> ws_condition \<Rightarrow> feed_update list" where
  "condition_updates fmt4 cond =
     (if wc_ID cond = [] then []
      else
        (if wc_State cond \<noteq> [] then
           [\<lparr>fu_Provider = azuro_name, fu_Type = ''status'', fu_EntityID = wc_ID cond,
             fu_Payload = [(''status'', normalizeConditionState (wc_State cond))]\<rparr>]
         else [])
        @ List.map (\<lambda>out. \<lparr>fu_Provider = azuro_name, fu_Type = ''odds'', fu_EntityID = wc_ID cond @ '':'' @ itoa (wo_ID out),
             fu_Payload = [(''odds'', fmt4 (wo_Odds out))]\<rparr>) (wc_Outcomes cond))"

definition updatesFromMessage :: "(string \<Rightarrow> string) \<Rightarrow> ws_condition list \<Rightarrow> feed_update list" where
  "updatesFromMessage fmt4 msg = concat (List.map (condition_updates fmt4) msg)"

definition message_updates :: "azuro_net \<Rightarrow> string \<Rightarrow> feed_update list" where
  "message_updates Net message =
     (case an_parse Net message of
        None \<Rightarrow> []
      | Some j \<Rightarrow>
          (case decode_ws (an_float_ok Net) j of Inl err \<Rightarrow> [] | Inr msg \<Rightarrow> updatesFromMessage (an_fmt4 Net) msg))"

text \<open>
  A subscription: \<open>dial\<close> is the result of dialling and subscribing, \<open>messages\<close> what is read until
  reading fails with \<open>stop\<close>.  The updates sent, and the error returned; the context is never done.
\<close>

definition azuro_SubscribeLive ::
  "json_codec \<Rightarrow> azuro_net \<Rightarrow> azuro \<Rightarrow> (string list \<Rightarrow> unit result) \<Rightarrow> string list \<Rightarrow> go_error
   \<Rightarrow> (feed_update list \<times> go_error) option" where
  "azuro_SubscribeLive J Net p dial messages stop =
     (if az_wsURL p = [] then Some ([], NewErr ''azuro websocket URL not configured'')
      else case fetchLiveConditionIDs J Net p of
        Inl err \<Rightarrow> Some ([], WrapErr ''fetch live condition ids: '' err)
      | Inr condIDs \<Rightarrow>
          if length condIDs = 0 then None
          else (case dial condIDs of
                  Inl err \<Rightarrow> Some ([], err)
                | Inr _ \<Rightarrow> Some (concat (List.map (message_updates Net) messages), WrapErr ''read message: '' stop)))"

section \<open>The mock provider\<close>

definition mock_name :: string where
  "mock_name = ''mock''"

definition mock_event :: "string \<Rightarrow> string \<Rightarrow> string \<Rightarrow> event_snapshot" where
  "mock_event home away startsAt =
     \<lparr>es_ProviderID = ''mock-ev-1'', es_LeagueID = ''mock-lg-1'', es_SportID = ''mock-sp-1'', es_HomeParticipant = home,
      es_AwayParticipant = away, es_StartsAt = startsAt, es_Status = ''upcoming'', es_HomeScore = [], es_AwayScore = [],
      es_ScoreUpdatedAt = [], es_Metadata = None\<rparr>"

definition mock_FetchHierarchy :: "(gtime \<Rightarrow> string) \<Rightarrow> gtime \<Rightarrow> snapshot" where
  "mock_FetchHierarchy fmt now =
     (empty_snapshot mock_name)
       \<lparr>sn_Sports := [\<lparr>ss_ProviderID = ''mock-sp-1'', ss_Slug = ''soccer'', ss_Name = ''Soccer''\<rparr>],
        sn_Leagues := [\<lparr>ls_ProviderID = ''mock-lg-1'', ls_SportID = ''mock-sp-1'', ls_Name = ''Mock League'', ls_Country = ''Mockland''\<rparr>],
        sn_Events := [mock_event ''Mock FC'' ''Test United'' (fmt (now + 2 * 3600 * second_ns))]\<rparr>"

definition mock_outcome :: "string \<Rightarrow> string \<Rightarrow> string \<Rightarrow> outcome_snapshot" where
  "mock_outcome i name odds =
     \<lparr>os_ProviderID = i, os_MarketID = ''mock-mk-1'', os_Name = name, os_Odds = odds, os_Status = ''active'', os_Metadata = None\<rparr>"

definition mock_FetchConditions :: "string list \<Rightarrow> snapshot" where
  "mock_FetchConditions gameIDs =
     (empty_snapshot mock_name)
       \<lparr>sn_Events := [mock_event [] [] []],
        sn_Markets := [\<lparr>ks_ProviderID = ''mock-mk-1'', ks_EventID = ''mock-ev-1'', ks_Type = ''1x2'', ks_Name = ''Match Result'',
                        ks_Line = [], ks_Status = ''active'', ks_Metadata = None\<rparr>],
        sn_Outcomes := [mock_outcome ''mock-oc-1'' ''Home'' ''2.10'', mock_outcome ''mock-oc-2'' ''Draw'' ''3.40'',
                        mock_outcome ''mock-oc-3'' ''Away'' ''3.20'']\<rparr>"

definition mock_FetchSnapshot :: "(gtime \<Rightarrow> string) \<Rightarrow> gtime \<Rightarrow> snapshot" where
  "mock_FetchSnapshot fmt now =
     (let conds = mock_FetchConditions [''mock-ev-1'']
      in (mock_FetchHierarchy fmt now)\<lparr>sn_Markets := sn_Markets conds, sn_Outcomes := sn_Outcomes conds\<rparr>)"

definition mock_provider :: "(gtime \<Rightarrow> string) \<Rightarrow> gtime \<Rightarrow> feed_provider" where
  "mock_provider fmt now =
     \<lparr>FP_FetchSnapshot = (\<lambda>sport params. Inr (mock_FetchSnapshot fmt now)),
      FP_FetchHierarchy = (\<lambda>sport params. Inr (mock_FetchHierarchy fmt now)),
      FP_FetchConditions = (\<lambda>gameIDs. Inr (mock_FetchConditions gameIDs))\<rparr>"

text \<open>The update of each tick of the mock subscription.\<close>

definition mock_update :: feed_update where
  "mock_update =
     \<lparr>fu_Provider = mock_name, fu_Type = ''odds'', fu_EntityID = ''mock-oc-1'', fu_Payload = [(''odds'', ''2.15'')]\<rparr>"

section \<open>Azuro snapshots normalize\<close>

lemma providerSport_in:
  "sp \<in> set sports \<Longrightarrow> providerSportID sp \<in> ss_ProviderID ` set (sn_Sports (buildSnapshot fmt ord sports conds))"
  by (force simp: buildSnapshot_def)

lemma build_leagues:
  "l \<in> set (sn_Leagues (buildSnapshot fmt ord sports conds)) \<Longrightarrow> \<exists>sp\<in>set sports. ls_SportID l = providerSportID sp"
  by (auto simp: buildSnapshot_def)

lemma mget_game_refs:
  "mget (fold (\<lambda>cond m. mput (gr_GameID (ad_Game cond)) (ad_Game cond) m) conds m0) i = None \<longleftrightarrow>
     mget m0 i = None \<and> i \<notin> (\<lambda>c. gr_GameID (ad_Game c)) ` set conds"
  by (induction conds arbitrary: m0) (auto split: if_splits)

lemma wf_game_refs:
  "wf_map m0 \<Longrightarrow> wf_map (fold (\<lambda>cond m. mput (gr_GameID (ad_Game cond)) (ad_Game cond) m) conds m0)"
  by (induction conds arbitrary: m0) (auto simp: distinct_update)

lemma build_market_event:
  assumes "permutes_entries ord" and "m \<in> set (sn_Markets (buildSnapshot fmt ord sports conds))"
  shows "ks_EventID m \<in> es_ProviderID ` set (sn_Events (buildSnapshot fmt ord sports conds))"
proof -
  let ?g = "fold (\<lambda>cond m. mput (gr_GameID (ad_Game cond)) (ad_Game cond) m) conds []"
  obtain c where c: "c \<in> set conds" "m = condition_market c" using assms(2) by (auto simp: buildSnapshot_def)
  then have "mget ?g (gr_GameID (ad_Game c)) \<noteq> None" by (auto simp: mget_game_refs)
  then obtain g where "(gr_GameID (ad_Game c), g) \<in> set ?g" by (auto dest: map_of_SomeD)
  then have "(gr_GameID (ad_Game c), g) \<in> set (ord ?g)"
    using permutes_entries_set [OF assms(1) wf_map_distinct [OF wf_game_refs [of "[]" conds]]] by auto
  then have "stub_event (gr_GameID (ad_Game c), g) \<in> set (sn_Events (buildSnapshot fmt ord sports conds))"
    by (auto simp: buildSnapshot_def)
  moreover have "es_ProviderID (stub_event (gr_GameID (ad_Game c), g)) = ks_EventID m"
    by (simp add: c(2) stub_event_def condition_market_def Let_def)
  ultimately show ?thesis by force
qed

lemma build_outcome_market:
  "x \<in> set (sn_Outcomes (buildSnapshot fmt ord sports conds)) \<Longrightarrow>
    os_MarketID x \<in> ks_ProviderID ` set (sn_Markets (buildSnapshot fmt ord sports conds))"
  by (force simp: buildSnapshot_def condition_outcome_def condition_market_def)

end
