(* ===== verification/FeedProps.thy ===== *)
theory FeedProps
  imports FeedService FeedProviders FeedMemory FeedPG
begin

text \<open>
  What the odds feed guarantees.  The lemmas on the service are proved once over the contract
  \<open>feed_store\<close>; the properties rest on its interpretations, the in-memory store (\<open>fm\<close>) and the
  Postgres store (\<open>fg\<close>).
\<close>

section \<open>Normalizing\<close>

text \<open>
  The normalizer accepts a snapshot exactly when every league names a sport of the snapshot, every
  market an event and every outcome a market, and every time that is given can be read.
\<close>

lemma NormalizeSnapshot_ok_iff:
  "is_ok (NormalizeSnapshot did pt snap) \<longleftrightarrow>
     list_all (\<lambda>l. ls_SportID l \<in> ss_ProviderID ` set (sn_Sports snap)) (sn_Leagues snap)
     \<and> list_all (\<lambda>e. is_ok (parse_optional pt [] (es_StartsAt e)) \<and> is_ok (parse_optional pt [] (es_ScoreUpdatedAt e))) (sn_Events snap)
     \<and> list_all (\<lambda>m. ks_EventID m \<in> es_ProviderID ` set (sn_Events snap)) (sn_Markets snap)
     \<and> list_all (\<lambda>x. os_MarketID x \<in> ks_ProviderID ` set (sn_Markets snap)) (sn_Outcomes snap)"
proof -
  have opt: "is_ok (parse_optional pt w s) \<longleftrightarrow> is_ok (parse_optional pt [] s)" for w s
    by (simp add: parse_optional_def split: sum.splits)
  have l: "is_ok (norm_league did pv (id_map ss_ProviderID (\<lambda>sp. sport_id did pv (ss_ProviderID sp)) sps) l)
      \<longleftrightarrow> ls_SportID l \<in> ss_ProviderID ` set sps" for pv sps l
    by (simp add: norm_league_def mget_id_map)
  have e: "is_ok (norm_event did pt pv si li e) \<longleftrightarrow>
      is_ok (parse_optional pt [] (es_StartsAt e)) \<and> is_ok (parse_optional pt [] (es_ScoreUpdatedAt e))" for pv si li e
    using opt [of "''parse event starts_at: ''" "es_StartsAt e"] opt [of "''parse event score_updated_at: ''" "es_ScoreUpdatedAt e"]
    by (auto simp: norm_event_def split: sum.splits)
  have m: "is_ok (norm_market did pv (id_map es_ProviderID (\<lambda>e. event_id did pv (es_ProviderID e)) es) m)
      \<longleftrightarrow> ks_EventID m \<in> es_ProviderID ` set es" for pv es m
    by (simp add: norm_market_def mget_id_map)
  have x: "is_ok (norm_outcome did pv (id_map ks_ProviderID (\<lambda>m. market_id did pv (ks_ProviderID m)) ks) x)
      \<longleftrightarrow> os_MarketID x \<in> ks_ProviderID ` set ks" for pv ks x
    by (simp add: norm_outcome_def mget_id_map)
  have "is_ok (NormalizeSnapshot did pt snap) \<longleftrightarrow>
    is_ok (traverse (norm_league did (sn_Provider snap) (id_map ss_ProviderID (\<lambda>sp. sport_id did (sn_Provider snap) (ss_ProviderID sp)) (sn_Sports snap))) (sn_Leagues snap))
    \<and> is_ok (traverse (norm_event did pt (sn_Provider snap) (id_map ss_ProviderID (\<lambda>sp. sport_id did (sn_Provider snap) (ss_ProviderID sp)) (sn_Sports snap))
        (id_map ls_ProviderID (\<lambda>l. league_id did (sn_Provider snap) (ls_ProviderID l)) (sn_Leagues snap))) (sn_Events snap))
    \<and> is_ok (traverse (norm_market did (sn_Provider snap) (id_map es_ProviderID (\<lambda>e. event_id did (sn_Provider snap) (es_ProviderID e)) (sn_Events snap))) (sn_Markets snap))
    \<and> is_ok (traverse (norm_outcome did (sn_Provider snap) (id_map ks_ProviderID (\<lambda>m. market_id did (sn_Provider snap) (ks_ProviderID m)) (sn_Markets snap))) (sn_Outcomes snap))"
    by (simp add: NormalizeSnapshot_def Let_def split: sum.splits)
  then show ?thesis by (simp only: traverse_ok l e m x)
qed

text \<open>What the rows of an accepted snapshot refer to.\<close>

lemma NormalizeSnapshot_refs:
  assumes "NormalizeSnapshot did pt snap = Inr rw"
  shows "l \<in> set (rw_leagues rw) \<Longrightarrow> lg_Provider l = sn_Provider snap \<and> lg_SportID l \<in> sp_ID ` set (rw_sports rw)"
    and "e \<in> set (rw_events rw) \<Longrightarrow> ev_Provider e = sn_Provider snap
      \<and> ev_ID e = event_id did (sn_Provider snap) (ev_ProviderEventID e)"
    and "m \<in> set (rw_markets rw) \<Longrightarrow> mk_Provider m = sn_Provider snap \<and> mk_EventID m \<in> ev_ID ` set (rw_events rw)"
    and "x \<in> set (rw_outcomes rw) \<Longrightarrow> oc_Provider x = sn_Provider snap \<and> oc_MarketID x \<in> mk_ID ` set (rw_markets rw)"
    and "sp \<in> set (rw_sports rw) \<Longrightarrow> sp_Provider sp = sn_Provider snap"
proof -
  note rw = NormalizeSnapshot_Inr [OF assms]
  have ev: "\<exists>r\<in>set (rw_events rw). ev_ID r = event_id did (sn_Provider snap) (es_ProviderID e)"
    if "e \<in> set (sn_Events snap)" for e
    using list_all2_image [OF rw(3) that] norm_event_Inr by blast
  have mk: "\<exists>r\<in>set (rw_markets rw). mk_ID r = market_id did (sn_Provider snap) (ks_ProviderID m)"
    if "m \<in> set (sn_Markets snap)" for m
    using list_all2_image [OF rw(4) that] norm_market_Inr by blast
  show "lg_Provider l = sn_Provider snap \<and> lg_SportID l \<in> sp_ID ` set (rw_sports rw)" if row: "l \<in> set (rw_leagues rw)"
  proof -
    obtain x where "norm_league did (sn_Provider snap) (id_map ss_ProviderID (\<lambda>sp. sport_id did (sn_Provider snap) (ss_ProviderID sp)) (sn_Sports snap)) x = Inr l"
      using list_all2_preimage [OF rw(2) row] by blast
    from norm_league_Inr [OF this] show ?thesis
      by (force simp: mget_id_map rw(1) norm_sport_def split: if_splits)
  qed
  show "ev_Provider e = sn_Provider snap \<and> ev_ID e = event_id did (sn_Provider snap) (ev_ProviderEventID e)"
    if "e \<in> set (rw_events rw)"
    using list_all2_preimage [OF rw(3) that] norm_event_Inr by metis
  show "mk_Provider m = sn_Provider snap \<and> mk_EventID m \<in> ev_ID ` set (rw_events rw)" if row: "m \<in> set (rw_markets rw)"
  proof -
    obtain x where "norm_market did (sn_Provider snap) (id_map es_ProviderID (\<lambda>e. event_id did (sn_Provider snap) (es_ProviderID e)) (sn_Events snap)) x = Inr m"
      using list_all2_preimage [OF rw(4) row] by blast
    from norm_market_Inr [OF this] show ?thesis
      using ev by (force simp: mget_id_map split: if_splits)
  qed
  show "oc_Provider x = sn_Provider snap \<and> oc_MarketID x \<in> mk_ID ` set (rw_markets rw)" if row: "x \<in> set (rw_outcomes rw)"
  proof -
    obtain y where "norm_outcome did (sn_Provider snap) (id_map ks_ProviderID (\<lambda>m. market_id did (sn_Provider snap) (ks_ProviderID m)) (sn_Markets snap)) y = Inr x"
      using list_all2_preimage [OF rw(5) row] by blast
    from norm_outcome_Inr [OF this] show ?thesis
      using mk by (force simp: mget_id_map split: if_splits)
  qed
  show "sp_Provider sp = sn_Provider snap" if "sp \<in> set (rw_sports rw)"
    using that by (auto simp: rw(1) norm_sport_def)
qed

section \<open>The loops of a sync\<close>

lemma pair3E:
  obtains a b c where "p = ((a, b), c)"
  by (metis surj_pair)

lemma upsert_rows_inv:
  assumes "\<And>n s r s' x. I s \<Longrightarrow> r \<in> set rs \<Longrightarrow> up (E n) s r = (s', x) \<Longrightarrow> I s'"
    and "I s" and "upsert_rows up what out E k (s, xs) rs = ((s', xs'), res)"
  shows "I s'"
  using assms
proof (induction rs arbitrary: k s xs res)
  case (Cons r rs)
  obtain s1 x where x: "up (E k) s r = (s1, x)" by force
  then have "I s1" using Cons.prems(1) [of s r k s1 x] Cons.prems(2) by simp
  show ?case
  proof (cases x)
    case (Inl err)
    then show ?thesis using x Cons.prems(3) \<open>I s1\<close> by simp
  next
    case (Inr i)
    obtain s2 y res1 where y: "upsert_rows up what out E (Suc k) (s1, xs @ out r i) rs = ((s2, y), res1)"
      by (rule pair3E)
    have eq: "s2 = s'" "y = xs'" using x y Inr Cons.prems(3) by (auto split: sum.splits)
    show ?thesis by (rule Cons.IH [OF _ \<open>I s1\<close> y [unfolded eq]]) (rule Cons.prems(1), assumption, rule list.set_intros(2), assumption, assumption)
  qed
qed simp

text \<open>What the loop leaves of a table \<open>T\<close> when each upsert writes at most its own row.\<close>

lemma upsert_rows_table:
  assumes "\<And>n s r s' x. I s \<Longrightarrow> r \<in> set rs \<Longrightarrow> up (E n) s r = (s', x) \<Longrightarrow>
      I s' \<and> (T s' = T s \<and> \<not> is_ok x \<or> (\<exists>r'. T s' = (T s)(key r \<mapsto> r') \<and> st r r'))"
    and "I s" and "upsert_rows up what out E k (s, xs) rs = ((s', xs'), res)"
  shows "I s' \<and> (\<forall>j. T s' j = T s j \<or> (\<exists>r\<in>set rs. key r = j \<and> (\<exists>r'. T s' j = Some r' \<and> st r r')))
    \<and> (is_ok res \<longrightarrow> distinct (List.map key rs) \<longrightarrow> (\<forall>r\<in>set rs. \<exists>r'. T s' (key r) = Some r' \<and> st r r'))"
  using assms
proof (induction rs arbitrary: k s xs res)
  case (Cons r rs)
  obtain s1 x where x: "up (E k) s r = (s1, x)" by force
  have one: "I s1 \<and> (T s1 = T s \<and> \<not> is_ok x \<or> (\<exists>r'. T s1 = (T s)(key r \<mapsto> r') \<and> st r r'))"
    by (rule Cons.prems(1) [OF Cons.prems(2) _ x]) simp
  show ?case
  proof (cases x)
    case (Inl err)
    then have eq: "s' = s1" "\<not> is_ok res" using x Cons.prems(3) by auto
    from one show ?thesis unfolding eq(1) using eq(2) by auto
  next
    case (Inr i)
    obtain s2 y res1 where y: "upsert_rows up what out E (Suc k) (s1, xs @ out r i) rs = ((s2, y), res1)"
      by (rule pair3E)
    have eq: "s2 = s'" "y = xs'" "is_ok res \<longleftrightarrow> is_ok res1" using x y Inr Cons.prems(3) by (auto split: sum.splits)
    obtain r' where r': "T s1 = (T s)(key r \<mapsto> r')" "st r r'" using one Inr by auto
    have IH: "I s' \<and> (\<forall>j. T s' j = T s1 j \<or> (\<exists>r\<in>set rs. key r = j \<and> (\<exists>r'. T s' j = Some r' \<and> st r r')))
      \<and> (is_ok res1 \<longrightarrow> distinct (List.map key rs) \<longrightarrow> (\<forall>r\<in>set rs. \<exists>r'. T s' (key r) = Some r' \<and> st r r'))"
      by (rule Cons.IH [OF _ conjunct1 [OF one] y [unfolded eq(1,2)]]) (rule Cons.prems(1), assumption, rule list.set_intros(2), assumption, assumption)
    have "T s' j = T s j \<or> (\<exists>r\<in>set (r # rs). key r = j \<and> (\<exists>r'. T s' j = Some r' \<and> st r r'))" for j
    proof (cases "T s' j = T s1 j")
      case True
      then show ?thesis using r' by (cases "j = key r") auto
    qed (use IH in auto)
    moreover have "\<exists>r'. T s' (key q) = Some r' \<and> st q r'"
      if "is_ok res" "distinct (List.map key (r # rs))" "q \<in> set (r # rs)" for q
    proof (cases "q = r")
      case True
      then have "key r \<notin> key ` set rs" using that(2) by simp
      then have "T s' (key r) = T s1 (key r)" using conjunct1 [OF conjunct2 [OF IH]] by (metis imageI)
      then show ?thesis using r' True by simp
    qed (use IH eq(3) that in auto)
    ultimately show ?thesis using IH by blast
  qed
qed simp

text \<open>A loop that ends well upserted every row; one that does not returns an error it has wrapped.\<close>

lemma upsert_rows_ok:
  assumes "upsert_rows up what out E k sx rs = (sx', res)" and "is_ok res" and "r \<in> set rs"
  shows "\<exists>n s s' i. up (E n) s r = (s', Inr i)"
  using assms
proof (induction rs arbitrary: k sx sx' res)
  case (Cons q rs)
  obtain s x where sx: "sx = (s, x)" by (cases sx)
  obtain s1 y where 1: "up (E k) s q = (s1, y)" by (metis surj_pair)
  obtain i where i: "y = Inr i" using Cons.prems(1,2) sx 1 by (cases y) auto
  obtain sx2 res2 where 2: "upsert_rows up what out E (Suc k) (s1, x @ out q i) rs = (sx2, res2)" by (metis surj_pair)
  have "is_ok res2" using Cons.prems(1,2) sx 1 2 i by (auto split: sum.splits)
  then show ?case using Cons.IH [OF 2] Cons.prems(3) 1 i by auto
qed simp

lemma upsert_rows_error:
  "upsert_rows up what out E k sx rs = (sx', Inl err) \<Longrightarrow> \<exists>e. err = WrapErr what e"
proof (induction rs arbitrary: k sx sx')
  case (Cons q rs)
  then show ?case by (cases sx) (auto split: prod.splits sum.splits)
qed simp

lemma applyHierarchy_error:
  assumes "applyHierarchy S sv ord E sx sps ls es = (sx', Inl err)"
  shows "\<exists>w e. err = WrapErr w e \<and> w \<in> {''upsert sport: '', ''upsert league: '', ''upsert event: ''}"
proof -
  obtain s1 x1 r1 where 1: "upsert_rows (FO_UpsertSport S) ''upsert sport: '' (\<lambda>r. maybeEmit sv ''feed.sport.updated'') (E 0) 0 sx sps
      = ((s1, x1), r1)" by (rule pair3E)
  obtain s2 x2 r2 where 2: "upsert_rows (FO_UpsertLeague S) ''upsert league: '' (\<lambda>r. maybeEmit sv ''feed.league.updated'') (E 1) 0 (s1, x1) ls
      = ((s2, x2), r2)" by (rule pair3E)
  obtain s3 x3 r3 where 3: "upsert_rows (FO_UpsertEvent S) ''upsert event: '' (\<lambda>r. maybeEmit sv ''feed.event.updated'') (E 2) 0 (s2, x2) es
      = ((s3, x3), r3)" by (rule pair3E)
  consider "r1 = Inl err" | "r2 = Inl err" | "r3 = Inl err"
    using assms 1 2 3 by (auto simp: applyHierarchy_def split: sum.splits)
  then show ?thesis
    by cases (use 1 2 3 upsert_rows_error in fast)+
qed

text \<open>What every upsert keeps, whatever it is given, every sync keeps.\<close>

definition upserts_keep :: "('e, 's) feed_ops \<Rightarrow> ('s \<Rightarrow> bool) \<Rightarrow> bool" where
  "upserts_keep S I \<longleftrightarrow>
     (\<forall>E s. I s \<longrightarrow> (\<forall>x. I (fst (FO_UpsertSport S E s x))) \<and> (\<forall>x. I (fst (FO_UpsertLeague S E s x)))
       \<and> (\<forall>x. I (fst (FO_UpsertEvent S E s x))) \<and> (\<forall>x. I (fst (FO_UpsertMarket S E s x)))
       \<and> (\<forall>x. I (fst (FO_UpsertOutcome S E s x))))"

lemma upserts_keepD:
  assumes "upserts_keep S I" and "I s"
  shows "FO_UpsertSport S E s sp = (s', r) \<Longrightarrow> I s'" and "FO_UpsertLeague S E s l = (s', r) \<Longrightarrow> I s'"
    and "FO_UpsertEvent S E s e = (s', r) \<Longrightarrow> I s'" and "FO_UpsertMarket S E s m = (s', r) \<Longrightarrow> I s'"
    and "FO_UpsertOutcome S E s c = (s', r) \<Longrightarrow> I s'"
  using assms unfolding upserts_keep_def by (metis fst_conv)+

lemma applyHierarchy_keeps:
  assumes "upserts_keep S I" and "I s" and "applyHierarchy S sv ord E (s, xs) sps ls es = ((s', xs'), res)"
  shows "I s'"
proof -
  obtain s1 x1 r1 where 1: "upsert_rows (FO_UpsertSport S) ''upsert sport: '' (\<lambda>r. maybeEmit sv ''feed.sport.updated'') (E 0) 0 (s, xs) sps
      = ((s1, x1), r1)" by (rule pair3E)
  have I1: "I s1" by (rule upsert_rows_inv [where I = I, OF _ assms(2) 1]) (rule upserts_keepD(1) [OF assms(1)], assumption+)
  obtain s2 x2 r2 where 2: "upsert_rows (FO_UpsertLeague S) ''upsert league: '' (\<lambda>r. maybeEmit sv ''feed.league.updated'') (E 1) 0 (s1, x1) ls
      = ((s2, x2), r2)" by (rule pair3E)
  have I2: "I s2" by (rule upsert_rows_inv [where I = I, OF _ I1 2]) (rule upserts_keepD(2) [OF assms(1)], assumption+)
  obtain s3 x3 r3 where 3: "upsert_rows (FO_UpsertEvent S) ''upsert event: '' (\<lambda>r. maybeEmit sv ''feed.event.updated'') (E 2) 0 (s2, x2) es
      = ((s3, x3), r3)" by (rule pair3E)
  have I3: "I s3" by (rule upsert_rows_inv [where I = I, OF _ I2 3]) (rule upserts_keepD(3) [OF assms(1)], assumption+)
  have "s' = s1 \<or> s' = s2 \<or> s' = s3" using assms(3) 1 2 3 by (auto simp: applyHierarchy_def split: sum.splits)
  then show ?thesis using I1 I2 I3 by blast
qed

lemma applyMarkets_keeps:
  assumes "upserts_keep S I" and "I s" and "applyMarkets S sv E (s, xs) ms cs = ((s', xs'), res)"
  shows "I s'"
proof -
  obtain s1 x1 r1 where 1: "upsert_rows (FO_UpsertMarket S) ''upsert market: '' (\<lambda>r. maybeEmit sv ''feed.market.updated'') (E 3) 0 (s, xs) ms
      = ((s1, x1), r1)" by (rule pair3E)
  have I1: "I s1" by (rule upsert_rows_inv [where I = I, OF _ assms(2) 1]) (rule upserts_keepD(4) [OF assms(1)], assumption+)
  obtain s2 x2 r2 where 2: "upsert_rows (FO_UpsertOutcome S) ''upsert outcome: ''
             (\<lambda>c i. cache_effect sv (\<lambda>ttl. SetLiveOdds ttl (oc_MarketID c) [(i, oc_Odds c)]) @ maybeEmit sv ''feed.odds.changed'' i)
             (E 4) 0 (s1, x1) cs = ((s2, x2), r2)" by (rule pair3E)
  have I2: "I s2" by (rule upsert_rows_inv [where I = I, OF _ I1 2]) (rule upserts_keepD(5) [OF assms(1)], assumption+)
  have "s' = s1 \<or> s' = s2" using assms(3) 1 2 by (auto simp: applyMarkets_def split: sum.splits)
  then show ?thesis using I1 I2 by blast
qed

lemma sync_conditions_keeps:
  assumes "upserts_keep S I" and "I s" and "sync_conditions did pt S sv E p (s, xs) ids = ((s', xs'), res)"
  shows "I s'"
  using assms(2,3) applyMarkets_keeps [OF assms(1,2)] by (auto simp: sync_conditions_def split: if_splits sum.splits)

lemma SyncProvider_keeps:
  assumes "upserts_keep S I" and "I s" and "SyncProvider did pt S sv ord E (s, xs) name = ((s', xs'), res)"
  shows "I s'"
proof (cases "s' = s")
  case False
  then obtain p hier rw sm where h: "mget (fv_providers sv) name = Some p" "FP_FetchHierarchy p [] [] = Inr hier"
    "NormalizeSnapshot did pt hier = Inr rw" "FO_GetEventStatusesByProvider S (E 5 0) s name = Inr sm"
    using assms(3) by (auto simp: SyncProvider_def split: option.splits sum.splits)
  obtain s1 x1 r1 where 1: "applyHierarchy S sv ord E (s, xs) (rw_sports rw) (rw_leagues rw) (rw_events rw) = ((s1, x1), r1)"
    by (rule pair3E)
  have "I s1" by (rule applyHierarchy_keeps [OF assms(1,2) 1])
  then show ?thesis using assms(3) h 1 sync_conditions_keeps [OF assms(1)]
    by (auto simp: SyncProvider_def split: sum.splits)
qed (use assms(2) in simp)

lemma SyncLiveProvider_keeps:
  assumes "upserts_keep S I" and "I s" and "SyncLiveProvider did pt S sv ord E (s, xs) name = ((s', xs'), res)"
  shows "I s'"
proof (cases "s' = s")
  case False
  then obtain snap rw where h: "applySnapshot did pt S sv ord E (s, xs) snap = ((s', xs'), res)" "NormalizeSnapshot did pt snap = Inr rw"
    using assms(3) by (auto simp: SyncLiveProvider_def applySnapshot_def split: option.splits sum.splits)
  obtain s1 x1 r1 where 1: "applyHierarchy S sv ord E (s, xs) (rw_sports rw) (rw_leagues rw) (rw_events rw) = ((s1, x1), r1)"
    by (rule pair3E)
  have "I s1" by (rule applyHierarchy_keeps [OF assms(1,2) 1])
  then show ?thesis using h 1 applyMarkets_keeps [OF assms(1)]
    by (auto simp: applySnapshot_def split: sum.splits)
qed (use assms(2) in simp)

section \<open>A sync over any store\<close>

text \<open>The events a sync asks the conditions of: those not stored, live, or stored with another status.\<close>

definition stale :: "event table \<Rightarrow> string \<Rightarrow> event list \<Rightarrow> string list" where
  "stale t name events =
     List.map ev_ProviderEventID
       (List.filter (\<lambda>e. case t (name, ev_ProviderEventID e) of
                           None \<Rightarrow> True
                         | Some e0 \<Rightarrow> ev_Status e0 \<noteq> ev_Status e \<or> ev_Status e = ''live'') events)"

context feed_store
begin

text \<open>What a sync may leave in the table of events, markets or outcomes.\<close>

lemma applyHierarchy_spec:
  assumes "inv s" and "applyHierarchy S sv ord E (s, xs) sps ls es = ((s', xs'), res)"
    and "\<And>x. x \<in> set sps \<Longrightarrow> okp (sp_Provider x)" and "\<And>x. x \<in> set ls \<Longrightarrow> okp (lg_Provider x)"
    and "\<And>x. x \<in> set es \<Longrightarrow> okp (ev_Provider x)"
  shows "inv s' \<and> vw_markets (view s') = vw_markets (view s) \<and> vw_outcomes (view s') = vw_outcomes (view s)
    \<and> (\<forall>j. vw_events (view s') j = vw_events (view s) j
         \<or> (\<exists>e\<in>set es. ev_key e = j \<and> (\<exists>e'. vw_events (view s') j = Some e' \<and> stored_event refers e e')))
    \<and> (is_ok res \<longrightarrow> distinct (List.map ev_key es) \<longrightarrow>
         (\<forall>e\<in>set es. \<exists>e'. vw_events (view s') (ev_key e) = Some e' \<and> stored_event refers e e'))"
proof -
  let ?I = "\<lambda>t. inv t \<and> vw_markets (view t) = vw_markets (view s) \<and> vw_outcomes (view t) = vw_outcomes (view s)
      \<and> vw_events (view t) = vw_events (view s)"
  let ?J = "\<lambda>t. inv t \<and> vw_markets (view t) = vw_markets (view s) \<and> vw_outcomes (view t) = vw_outcomes (view s)"
  obtain s1 x1 r1 where 1: "upsert_rows (FO_UpsertSport S) ''upsert sport: '' (\<lambda>r. maybeEmit sv ''feed.sport.updated'') (E 0) 0 (s, xs) sps
      = ((s1, x1), r1)" by (rule pair3E)
  have I1: "?I s1"
    by (rule upsert_rows_inv [where I = ?I, OF _ _ 1]) (use upsert_sport assms(1,3) in \<open>fastforce+\<close>)
  obtain s2 x2 r2 where 2: "upsert_rows (FO_UpsertLeague S) ''upsert league: '' (\<lambda>r. maybeEmit sv ''feed.league.updated'') (E 1) 0 (s1, x1) ls
      = ((s2, x2), r2)" by (rule pair3E)
  have I2: "?I s2"
    by (rule upsert_rows_inv [where I = ?I, OF _ I1 2]) (use upsert_league assms(4) in \<open>fastforce+\<close>)
  obtain s3 x3 r3 where 3: "upsert_rows (FO_UpsertEvent S) ''upsert event: '' (\<lambda>r. maybeEmit sv ''feed.event.updated'') (E 2) 0 (s2, x2) es
      = ((s3, x3), r3)" by (rule pair3E)
  have T: "?J s3 \<and> (\<forall>j. vw_events (view s3) j = vw_events (view s2) j
         \<or> (\<exists>e\<in>set es. ev_key e = j \<and> (\<exists>e'. vw_events (view s3) j = Some e' \<and> stored_event refers e e')))
    \<and> (is_ok r3 \<longrightarrow> distinct (List.map ev_key es) \<longrightarrow>
         (\<forall>e\<in>set es. \<exists>e'. vw_events (view s3) (ev_key e) = Some e' \<and> stored_event refers e e'))"
  proof (rule upsert_rows_table [where I = ?J and T = "\<lambda>t. vw_events (view t)", OF _ _ 3])
    fix n t e t' x assume t: "?J t" and e: "e \<in> set es" and up: "FO_UpsertEvent S (E 2 n) t e = (t', x)"
    from upsert_event [OF conjunct1 [OF t] assms(5) [OF e] up]
    show "?J t' \<and> (vw_events (view t') = vw_events (view t) \<and> \<not> is_ok x
      \<or> (\<exists>r'. vw_events (view t') = (vw_events (view t))(ev_key e \<mapsto> r') \<and> stored_event refers e r'))"
      using t by (auto simp: may_change_def)
  qed (use I2 in auto)
  have "s' = s1 \<and> \<not> is_ok res \<or> s' = s2 \<and> \<not> is_ok res \<or> s' = s3 \<and> (is_ok res \<longleftrightarrow> is_ok r3)"
    using assms(2) 1 2 3 by (auto simp: applyHierarchy_def split: sum.splits)
  then show ?thesis using I1 I2 T by auto
qed

lemma applyMarkets_spec:
  assumes "inv s" and "applyMarkets S sv E (s, xs) ms cs = ((s', xs'), res)"
    and "\<And>x. x \<in> set ms \<Longrightarrow> okp (mk_Provider x)" and "\<And>x. x \<in> set cs \<Longrightarrow> okp (oc_Provider x)"
  shows "inv s' \<and> vw_events (view s') = vw_events (view s)
    \<and> (is_ok res \<longrightarrow> distinct (List.map mk_key ms) \<longrightarrow>
         (\<forall>m\<in>set ms. \<exists>m'. vw_markets (view s') (mk_key m) = Some m' \<and> stored_market refers m m'))
    \<and> (is_ok res \<longrightarrow> distinct (List.map oc_key cs) \<longrightarrow>
         (\<forall>c\<in>set cs. \<exists>c'. vw_outcomes (view s') (oc_key c) = Some c' \<and> stored_outcome refers c c'))"
proof -
  let ?J = "\<lambda>t. inv t \<and> vw_events (view t) = vw_events (view s)"
  obtain s1 x1 r1 where 1: "upsert_rows (FO_UpsertMarket S) ''upsert market: '' (\<lambda>r. maybeEmit sv ''feed.market.updated'') (E 3) 0 (s, xs) ms
      = ((s1, x1), r1)" by (rule pair3E)
  have T1: "?J s1 \<and> (\<forall>j. vw_markets (view s1) j = vw_markets (view s) j
         \<or> (\<exists>e\<in>set ms. mk_key e = j \<and> (\<exists>e'. vw_markets (view s1) j = Some e' \<and> stored_market refers e e')))
    \<and> (is_ok r1 \<longrightarrow> distinct (List.map mk_key ms) \<longrightarrow>
         (\<forall>e\<in>set ms. \<exists>e'. vw_markets (view s1) (mk_key e) = Some e' \<and> stored_market refers e e'))"
  proof (rule upsert_rows_table [where I = ?J and T = "\<lambda>t. vw_markets (view t)", OF _ _ 1])
    fix n t m t' x assume t: "?J t" and m: "m \<in> set ms" and up: "FO_UpsertMarket S (E 3 n) t m = (t', x)"
    from upsert_market [OF conjunct1 [OF t] assms(3) [OF m] up]
    show "?J t' \<and> (vw_markets (view t') = vw_markets (view t) \<and> \<not> is_ok x
      \<or> (\<exists>r'. vw_markets (view t') = (vw_markets (view t))(mk_key m \<mapsto> r') \<and> stored_market refers m r'))"
      using t by (auto simp: may_change_def)
  qed (use assms(1) in auto)
  let ?J2 = "\<lambda>t. inv t \<and> vw_events (view t) = vw_events (view s) \<and> vw_markets (view t) = vw_markets (view s1)"
  obtain s2 x2 r2 where 2: "upsert_rows (FO_UpsertOutcome S) ''upsert outcome: ''
             (\<lambda>c i. cache_effect sv (\<lambda>ttl. SetLiveOdds ttl (oc_MarketID c) [(i, oc_Odds c)]) @ maybeEmit sv ''feed.odds.changed'' i)
             (E 4) 0 (s1, x1) cs = ((s2, x2), r2)" by (rule pair3E)
  have T2: "?J2 s2 \<and> (\<forall>j. vw_outcomes (view s2) j = vw_outcomes (view s1) j
         \<or> (\<exists>e\<in>set cs. oc_key e = j \<and> (\<exists>e'. vw_outcomes (view s2) j = Some e' \<and> stored_outcome refers e e')))
    \<and> (is_ok r2 \<longrightarrow> distinct (List.map oc_key cs) \<longrightarrow>
         (\<forall>e\<in>set cs. \<exists>e'. vw_outcomes (view s2) (oc_key e) = Some e' \<and> stored_outcome refers e e'))"
  proof (rule upsert_rows_table [where I = ?J2 and T = "\<lambda>t. vw_outcomes (view t)", OF _ _ 2])
    fix n t c t' x assume t: "?J2 t" and c: "c \<in> set cs" and up: "FO_UpsertOutcome S (E 4 n) t c = (t', x)"
    from upsert_outcome [OF conjunct1 [OF t] assms(4) [OF c] up]
    show "?J2 t' \<and> (vw_outcomes (view t') = vw_outcomes (view t) \<and> \<not> is_ok x
      \<or> (\<exists>r'. vw_outcomes (view t') = (vw_outcomes (view t))(oc_key c \<mapsto> r') \<and> stored_outcome refers c r'))"
      using t by (auto simp: may_change_def)
  qed (use T1 in auto)
  have "s' = s1 \<and> \<not> is_ok res \<or> s' = s2 \<and> (is_ok res \<longrightarrow> is_ok r1 \<and> is_ok r2)"
    using assms(2) 1 2 by (auto simp: applyMarkets_def split: sum.splits)
  then show ?thesis using T1 T2 by auto
qed

lemma changed_stale:
  assumes "inv s" and "okp name" and "FO_GetEventStatusesByProvider S E s name = Inr sm"
  shows "changedEventIDs events sm = stale (vw_events (view s)) name events"
  using statuses [OF assms(1-3)]
  by (auto simp: changedEventIDs_def stale_def split: option.splits intro!: arg_cong [where f = "List.map ev_ProviderEventID"] filter_cong)

text \<open>The course of a sync whose provider answered with a hierarchy that normalizes.\<close>

lemma SyncProvider_course:
  assumes "inv s" and "okp name" and "mget (fv_providers sv) name = Some p" and "FP_FetchHierarchy p [] [] = Inr hier"
    and "NormalizeSnapshot did pt hier = Inr rw"
    and "SyncProvider did pt S sv ord E (s, xs) name = ((s', xs'), res)"
  obtains (no_statuses) err where "s' = s" and "res = Inl (WrapErr ''get existing event statuses: '' err)"
  | (hierarchy) err where "applyHierarchy S sv ord E (s, xs) (rw_sports rw) (rw_leagues rw) (rw_events rw) = ((s', xs'), Inl err)"
      and "res = Inl err"
  | (applied) sh xh where "applyHierarchy S sv ord E (s, xs) (rw_sports rw) (rw_leagues rw) (rw_events rw) = ((sh, xh), Inr ())"
      and "sync_conditions did pt S sv E p (sh, xh) (stale (vw_events (view s)) name (rw_events rw)) = ((s', xs'), res)"
proof (cases "FO_GetEventStatusesByProvider S (E 5 0) s name")
  case (Inl err)
  then show thesis using that(1) assms(3-6) by (auto simp: SyncProvider_def)
next
  case (Inr sm)
  obtain sh xh rh where h: "applyHierarchy S sv ord E (s, xs) (rw_sports rw) (rw_leagues rw) (rw_events rw) = ((sh, xh), rh)"
    by (rule pair3E)
  show thesis
  proof (cases rh)
    case (Inl err)
    then show thesis using that(2) [of err] h assms(3-6) Inr by (simp add: SyncProvider_def)
  next
    case (Inr u)
    then show thesis
      using that(3) [of sh xh] h assms(3-6) \<open>FO_GetEventStatusesByProvider S (E 5 0) s name = Inr sm\<close>
        changed_stale [OF assms(1,2) \<open>FO_GetEventStatusesByProvider S (E 5 0) s name = Inr sm\<close>]
      by (simp add: SyncProvider_def)
  qed
qed

lemma sync_conditions_course:
  assumes "sync_conditions did pt S sv E p (s, xs) ids = ((s', xs'), res)"
  obtains (none) "ids = []" and "s' = s" and "res = Inr ()"
  | (failed) err what where "ids \<noteq> []" and "s' = s" and "res = Inl (WrapErr what err)"
  | (fetched) conds rw where "ids \<noteq> []" and "FP_FetchConditions p ids = Inr conds" and "NormalizeSnapshot did pt conds = Inr rw"
      and "applyMarkets S sv E (s, xs) (rw_markets rw) (rw_outcomes rw) = ((s', xs'), res)"
  using assms by (auto simp: sync_conditions_def split: if_splits sum.splits)

lemma sync_conditions_inv:
  assumes "inv s" and "sync_conditions did pt S sv E p (s, xs) ids = ((s', xs'), res)"
    and "\<And>conds. FP_FetchConditions p ids = Inr conds \<Longrightarrow> okp (sn_Provider conds)"
  shows "inv s' \<and> vw_events (view s') = vw_events (view s)"
  using assms(2)
proof (cases rule: sync_conditions_course)
  case (fetched conds rw)
  have "okp (sn_Provider conds)" using assms(3) fetched(2) by blast
  with applyMarkets_spec [OF assms(1) fetched(4)] NormalizeSnapshot_refs [OF fetched(3)]
  show ?thesis by auto
qed (use assms(1) in auto)

lemma hierarchy_of:
  assumes "inv s" and "okp (sn_Provider hier)" and "NormalizeSnapshot did pt hier = Inr rw"
    and "applyHierarchy S sv ord E (s, xs) (rw_sports rw) (rw_leagues rw) (rw_events rw) = ((s', xs'), res)"
  shows "inv s' \<and> vw_markets (view s') = vw_markets (view s) \<and> vw_outcomes (view s') = vw_outcomes (view s)"
    and "is_ok res \<Longrightarrow> distinct (List.map ev_key (rw_events rw)) \<Longrightarrow> e \<in> set (rw_events rw) \<Longrightarrow>
      \<exists>e'. vw_events (view s') (ev_key e) = Some e' \<and> stored_event refers e e'"
  using applyHierarchy_spec [OF assms(1,4)] NormalizeSnapshot_refs [OF assms(3)] assms(2) by auto

text \<open>What a sync that ends well has stored.\<close>

lemma SyncProvider_stores:
  assumes "inv s" and "okp name" and "okp (sn_Provider hier)"
    and "mget (fv_providers sv) name = Some p" and "FP_FetchHierarchy p [] [] = Inr hier"
    and "NormalizeSnapshot did pt hier = Inr rw" and "distinct (List.map ev_key (rw_events rw))"
    and "\<And>ids conds. FP_FetchConditions p ids = Inr conds \<Longrightarrow> okp (sn_Provider conds)"
    and "SyncProvider did pt S sv ord E (s, xs) name = ((s', xs'), Inr ())"
  shows "e \<in> set (rw_events rw) \<Longrightarrow> \<exists>e'. vw_events (view s') (ev_key e) = Some e' \<and> stored_event refers e e'"
    and "stale (vw_events (view s)) name (rw_events rw) \<noteq> [] \<Longrightarrow>
      \<exists>conds rc. FP_FetchConditions p (stale (vw_events (view s)) name (rw_events rw)) = Inr conds
        \<and> NormalizeSnapshot did pt conds = Inr rc
        \<and> (distinct (List.map mk_key (rw_markets rc)) \<longrightarrow>
            (\<forall>m\<in>set (rw_markets rc). \<exists>m'. vw_markets (view s') (mk_key m) = Some m' \<and> stored_market refers m m'))
        \<and> (distinct (List.map oc_key (rw_outcomes rc)) \<longrightarrow>
            (\<forall>c\<in>set (rw_outcomes rc). \<exists>c'. vw_outcomes (view s') (oc_key c) = Some c' \<and> stored_outcome refers c c'))"
proof -
  from SyncProvider_course [OF assms(1,2,4,5,6,9)]
  obtain sh xh where h: "applyHierarchy S sv ord E (s, xs) (rw_sports rw) (rw_leagues rw) (rw_events rw) = ((sh, xh), Inr ())"
    and c: "sync_conditions did pt S sv E p (sh, xh) (stale (vw_events (view s)) name (rw_events rw)) = ((s', xs'), Inr ())"
    by (metis Inl_not_Inr)
  have sh: "inv sh" using hierarchy_of(1) [OF assms(1,3,6) h] by blast
  have "vw_events (view s') = vw_events (view sh)" 
    using sync_conditions_inv [OF sh c] assms(8) by blast
  then show "\<exists>e'. vw_events (view s') (ev_key e) = Some e' \<and> stored_event refers e e'" if "e \<in> set (rw_events rw)"
    using hierarchy_of(2) [OF assms(1,3,6) h _ assms(7) that] by simp
  assume ne: "stale (vw_events (view s)) name (rw_events rw) \<noteq> []"
  from c show "\<exists>conds rc. FP_FetchConditions p (stale (vw_events (view s)) name (rw_events rw)) = Inr conds
        \<and> NormalizeSnapshot did pt conds = Inr rc
        \<and> (distinct (List.map mk_key (rw_markets rc)) \<longrightarrow>
            (\<forall>m\<in>set (rw_markets rc). \<exists>m'. vw_markets (view s') (mk_key m) = Some m' \<and> stored_market refers m m'))
        \<and> (distinct (List.map oc_key (rw_outcomes rc)) \<longrightarrow>
            (\<forall>c\<in>set (rw_outcomes rc). \<exists>c'. vw_outcomes (view s') (oc_key c) = Some c' \<and> stored_outcome refers c c'))"
  proof (cases rule: sync_conditions_course)
    case (fetched conds rc)
    have "okp (sn_Provider conds)" using assms(8) fetched(2) .
    then show ?thesis
      using applyMarkets_spec [OF sh fetched(4)] NormalizeSnapshot_refs(3,4) [OF fetched(3)] fetched(2,3) by auto
  qed (use ne in auto)
qed

text \<open>Once the statuses of a hierarchy are stored, a sync of the same hierarchy asks no conditions of it.\<close>

lemma stale_after_hierarchy:
  assumes "inv s" and "okp (sn_Provider hier)" and "NormalizeSnapshot did pt hier = Inr rw"
    and "applyHierarchy S sv ord E (s, xs) (rw_sports rw) (rw_leagues rw) (rw_events rw) = ((s', xs'), Inr ())"
    and "distinct (List.map ev_key (rw_events rw))" and "\<forall>e\<in>set (rw_events rw). ev_Status e \<noteq> ''live''"
  shows "stale (vw_events (view s')) (sn_Provider hier) (rw_events rw) = []"
proof -
  have "\<exists>e'. vw_events (view s') (sn_Provider hier, ev_ProviderEventID e) = Some e' \<and> ev_Status e' = ev_Status e"
    if e: "e \<in> set (rw_events rw)" for e
  proof -
    have "ev_key e = (sn_Provider hier, ev_ProviderEventID e)"
      using NormalizeSnapshot_refs(2) [OF assms(3) e] by (simp add: ev_key_def)
    then show ?thesis using hierarchy_of(2) [OF assms(1-4) _ assms(5) e] by (auto simp: stored_event_def)
  qed
  then show ?thesis using assms(6) by (fastforce simp: stale_def filter_empty_conv split: option.splits)
qed

lemma SyncProvider_conditions_lost:
  assumes "inv s" and "\<And>q. okp q" and "NormalizeSnapshot did pt hier = Inr rw" and "sn_Provider hier = name"
    and "distinct (List.map ev_key (rw_events rw))" and "\<forall>e\<in>set (rw_events rw). ev_Status e \<noteq> ''live''"
    and "mget (fv_providers sv) name = Some p" and "FP_FetchHierarchy p [] [] = Inr hier"
    and "\<And>ids. FP_FetchConditions p ids = Inl err"
    and "SyncProvider did pt S sv ord E (s, xs) name = ((s1, xs1), Inl (WrapErr ''fetch conditions: '' err))"
    and "mget (fv_providers sv2) name = Some p2" and "FP_FetchHierarchy p2 [] [] = Inr hier"
    and "SyncProvider did pt S sv2 ord2 E2 (s1, ys) name = ((s2, ys2), res)"
  shows "vw_markets (view s2) = vw_markets (view s) \<and> vw_outcomes (view s2) = vw_outcomes (view s)"
proof -
  have first: "inv s1 \<and> vw_markets (view s1) = vw_markets (view s) \<and> vw_outcomes (view s1) = vw_outcomes (view s)
    \<and> stale (vw_events (view s1)) name (rw_events rw) = []"
    using assms(1,2,7,8,3,10)
  proof (cases rule: SyncProvider_course)
    case (hierarchy err')
    then show ?thesis using applyHierarchy_error by fastforce
  next
    case (applied sh xh)
    from applied(2) have "s1 = sh" by (cases rule: sync_conditions_course) (use assms(9) in auto)
    then show ?thesis
      using hierarchy_of(1) [OF assms(1,2,3) applied(1)] stale_after_hierarchy [OF assms(1,2,3) applied(1) assms(5,6)] assms(4)
      by simp
  qed auto
  have "vw_markets (view s2) = vw_markets (view s1) \<and> vw_outcomes (view s2) = vw_outcomes (view s1)"
    using conjunct1 [OF first] assms(2,11,12,3,13)
  proof (cases rule: SyncProvider_course)
    case (hierarchy err')
    then show ?thesis using hierarchy_of(1) [OF conjunct1 [OF first] assms(2,3)] by blast
  next
    case (applied sh xh)
    then have "s2 = sh" using first by (auto simp: sync_conditions_def)
    then show ?thesis using hierarchy_of(1) [OF conjunct1 [OF first] assms(2,3) applied(1)] by simp
  qed simp
  then show ?thesis using first by simp
qed

lemma ApplyUpdate_cases:
  assumes "inv s" and "okp (fu_Provider u)" and "ApplyUpdate S sv E (s, xs) u = ((s', xs'), res)"
  shows "inv s' \<and> (view s' = view s
    \<or> fu_Type u = ''odds'' \<and> (\<exists>x x'. vw_outcomes (view s) (fu_Provider u, fu_EntityID u) = Some x
        \<and> view s' = (view s)\<lparr>vw_outcomes := (vw_outcomes (view s))((fu_Provider u, fu_EntityID u) \<mapsto> x')\<rparr>
        \<and> x' = x\<lparr>oc_Odds := look (fu_Payload u) ''odds'', oc_UpdatedAt := oc_UpdatedAt x'\<rparr>)
    \<or> fu_Type u = ''status'' \<and> (vw_outcomes (view s') = vw_outcomes (view s) \<or> vw_outcomes (view s) (fu_Provider u, fu_EntityID u) \<noteq> None))"
proof (cases "fu_Type u = ''odds''")
  case True
  let ?odds = "look (fu_Payload u) ''odds''"
  obtain s1 r1 where up: "FO_UpdateOutcomeOdds S (E 0) s (fu_Provider u) (fu_EntityID u) ?odds = (s1, r1)" by (metis surj_pair)
  then have "s' = s1" using assms(3) True by (auto simp: ApplyUpdate_def Let_def split: sum.splits)
  then show ?thesis using update_odds [OF assms(1,2) up] True by (auto simp: may_change_def)
next
  case no: False
  show ?thesis
  proof (cases "fu_Type u = ''status''")
    case True
    let ?st = "look (fu_Payload u) ''status''"
    obtain s1 r1 where up: "FO_UpdateMarketStatus S (E 0) s (fu_Provider u) (fu_EntityID u) ?st = (s1, r1)" by (metis surj_pair)
    obtain s2 r2 where up2: "FO_UpdateOutcomeStatus S (E 1) s1 (fu_Provider u) (fu_EntityID u) ?st = (s2, r2)" by (metis surj_pair)
    have s': "s' = s1 \<or> s' = s2" using assms(3) True up up2
      by (auto simp: ApplyUpdate_def Let_def split: sum.splits)
    have one: "inv s1 \<and> vw_outcomes (view s1) = vw_outcomes (view s)"
      using update_market [OF assms(1,2) up] by (auto simp: may_change_def)
    then have "inv s2 \<and> (vw_outcomes (view s2) = vw_outcomes (view s) \<or> vw_outcomes (view s) (fu_Provider u, fu_EntityID u) \<noteq> None)"
      using update_outcome [OF _ assms(2) up2] by (auto simp: may_change_def)
    then show ?thesis using one s' True by auto
  qed (use assms no in \<open>auto simp: ApplyUpdate_def\<close>)
qed

lemma odds_keep_status:
  "x' = x\<lparr>oc_Odds := v, oc_UpdatedAt := oc_UpdatedAt x'\<rparr> \<Longrightarrow> oc_Status x' = oc_Status x"
  by (drule arg_cong [where f = oc_Status]) simp

lemma status_set:
  "x' = x\<lparr>oc_Status := st, oc_UpdatedAt := oc_UpdatedAt x'\<rparr> \<Longrightarrow> oc_Status x' = st"
  by (drule arg_cong [where f = oc_Status]) simp

text \<open>An update whose status is neither won nor lost settles no outcome.\<close>

lemma ApplyUpdate_settles_nothing:
  assumes "inv s" and "okp (fu_Provider u)"
    and "fu_Type u = ''status'' \<Longrightarrow> look (fu_Payload u) ''status'' \<notin> {''won'', ''lost''}"
    and "ApplyUpdate S sv E (s, xs) u = ((s', xs'), res)"
    and "vw_outcomes (view s') k = Some c'" and "oc_Status c' \<in> {''won'', ''lost''}"
  shows "\<exists>c. vw_outcomes (view s) k = Some c \<and> oc_Status c = oc_Status c'"
proof -
  consider (odds) "fu_Type u = ''odds''" | (status) "fu_Type u = ''status''" | (other) "s' = s"
    using assms(4) by (auto simp: ApplyUpdate_def split: if_splits)
  then show ?thesis
  proof cases
    case odds
    obtain s1 r1 where up: "FO_UpdateOutcomeOdds S (E 0) s (fu_Provider u) (fu_EntityID u) (look (fu_Payload u) ''odds'') = (s1, r1)"
      by (metis surj_pair)
    have "s' = s1" using assms(4) odds up by (auto simp: ApplyUpdate_def Let_def split: sum.splits)
    moreover from update_odds [OF assms(1,2) up]
    consider (same) "view s1 = view s" | (set) x x' where "vw_outcomes (view s) (fu_Provider u, fu_EntityID u) = Some x"
      and "view s1 = (view s)\<lparr>vw_outcomes := (vw_outcomes (view s))((fu_Provider u, fu_EntityID u) \<mapsto> x')\<rparr>"
      and "x' = x\<lparr>oc_Odds := look (fu_Payload u) ''odds'', oc_UpdatedAt := oc_UpdatedAt x'\<rparr>"
      unfolding may_change_def by blast
    then have "vw_outcomes (view s1) k = Some c' \<Longrightarrow> \<exists>c. vw_outcomes (view s) k = Some c \<and> oc_Status c = oc_Status c'"
    proof cases
      case (set x x')
      from set(1,2) odds_keep_status [OF set(3)] show "vw_outcomes (view s1) k = Some c' \<Longrightarrow> ?thesis"
        by (cases "k = (fu_Provider u, fu_EntityID u)") auto
    qed simp
    ultimately show ?thesis using assms(5) by simp
  next
    case status
    obtain s1 r1 where up: "FO_UpdateMarketStatus S (E 0) s (fu_Provider u) (fu_EntityID u) (look (fu_Payload u) ''status'') = (s1, r1)"
      by (metis surj_pair)
    obtain s2 r2 where up2: "FO_UpdateOutcomeStatus S (E 1) s1 (fu_Provider u) (fu_EntityID u) (look (fu_Payload u) ''status'') = (s2, r2)"
      by (metis surj_pair)
    have s': "s' = s1 \<or> s' = s2" using assms(4) status up up2 by (auto simp: ApplyUpdate_def Let_def split: sum.splits)
    have one: "inv s1 \<and> vw_outcomes (view s1) = vw_outcomes (view s)"
      using update_market [OF assms(1,2) up] by (auto simp: may_change_def)
    from update_outcome [OF conjunct1 [OF one] assms(2) up2]
    consider (same) "view s2 = view s1" | (set) x x'
    where "view s2 = (view s1)\<lparr>vw_outcomes := (vw_outcomes (view s1))((fu_Provider u, fu_EntityID u) \<mapsto> x')\<rparr>"
      and "x' = x\<lparr>oc_Status := look (fu_Payload u) ''status'', oc_UpdatedAt := oc_UpdatedAt x'\<rparr>"
      unfolding may_change_def by blast
    then have "vw_outcomes (view s2) k = Some c' \<Longrightarrow> vw_outcomes (view s) k = Some c'"
    proof cases
      case (set x x')
      have "x' \<noteq> c'" using status_set [OF set(2)] assms(3) [OF status] assms(6) by metis
      with set(1) one show "vw_outcomes (view s2) k = Some c' \<Longrightarrow> vw_outcomes (view s) k = Some c'"
        by (cases "k = (fu_Provider u, fu_EntityID u)") auto
    qed (use one in simp)
    then show ?thesis using s' one assms(5) by auto
  qed (use assms(5) in simp)
qed

lemma ws_loop_settles_nothing:
  assumes "inv s" and "\<And>q. okp q"
    and "\<And>u. WsUpdate u \<in> set evs \<Longrightarrow> fu_Type u = ''status'' \<Longrightarrow> look (fu_Payload u) ''status'' \<notin> {''won'', ''lost''}"
    and "ws_loop S sv E n (s, xs) evs = ((s', xs'), b)"
    and "vw_outcomes (view s') k = Some c'" and "oc_Status c' \<in> {''won'', ''lost''}"
  shows "\<exists>c. vw_outcomes (view s) k = Some c \<and> oc_Status c = oc_Status c'"
  using assms(1,3,4)
proof (induction evs arbitrary: n s xs)
  case (Cons v evs)
  show ?case
  proof (cases v)
    case (WsUpdate u)
    obtain s1 x1 r1 where 1: "ApplyUpdate S sv (E n) (s, xs) u = ((s1, x1), r1)" by (rule pair3E)
    have "inv s1" using ApplyUpdate_cases [OF Cons.prems(1) assms(2) 1] by blast
    moreover have "ws_loop S sv E (Suc n) (s1, x1) evs = ((s', xs'), b)" using Cons.prems(3) WsUpdate 1 by simp
    ultimately obtain c1 where c1: "vw_outcomes (view s1) k = Some c1" "oc_Status c1 = oc_Status c'"
      using Cons.IH Cons.prems(2) by force
    have "fu_Type u = ''status'' \<Longrightarrow> look (fu_Payload u) ''status'' \<notin> {''won'', ''lost''}"
      using Cons.prems(2) WsUpdate by simp
    from ApplyUpdate_settles_nothing [OF Cons.prems(1) assms(2) this 1 c1(1)] c1(2) assms(6) show ?thesis by simp
  qed (use Cons.prems assms(5) in auto)
qed (use assms(5) in auto)

end

end
