(* ===== verification/FeedStores.thy ===== *)
theory FeedStores
  imports FeedProps Ledger
begin

text \<open>
  The properties of the odds feed on its two stores: what a sync stores, what every reachable state
  of the Postgres tables satisfies, the identity of rows, and where outcomes are settled.
\<close>

section \<open>Rows keep their ids\<close>

definition kept_rows :: "('r \<Rightarrow> string) \<Rightarrow> 'r table \<Rightarrow> 'r table \<Rightarrow> bool" where
  "kept_rows rid t t' \<longleftrightarrow> (\<forall>k r. t k = Some r \<longrightarrow> (\<exists>r'. t' k = Some r' \<and> rid r' = rid r))"

text \<open>The three tables that bets refer to.\<close>

definition kept :: "feed_view \<Rightarrow> feed_view \<Rightarrow> bool" where
  "kept v v' \<longleftrightarrow> kept_rows ev_ID (vw_events v) (vw_events v') \<and> kept_rows mk_ID (vw_markets v) (vw_markets v')
     \<and> kept_rows oc_ID (vw_outcomes v) (vw_outcomes v')"

lemma kept_rows_refl [simp]: "kept_rows rid t t"
  by (simp add: kept_rows_def)

lemma kept_rows_trans: "kept_rows rid t t' \<Longrightarrow> kept_rows rid t' t'' \<Longrightarrow> kept_rows rid t t''"
  unfolding kept_rows_def by metis

lemma kept_refl [simp]: "kept v v"
  by (simp add: kept_def)

lemma kept_trans: "kept v v' \<Longrightarrow> kept v' v'' \<Longrightarrow> kept v v''"
  unfolding kept_def by (elim conjE, intro conjI; erule (1) kept_rows_trans)

lemma kept_rows_set:
  "(case t k of None \<Rightarrow> True | Some o1 \<Rightarrow> rid r = rid o1) \<Longrightarrow> kept_rows rid t (t(k \<mapsto> r))"
  by (auto simp: kept_rows_def)

lemma kept_set:
  "keeps_id ev_ID (vw_events v k) e r \<Longrightarrow> kept v (v\<lparr>vw_events := (vw_events v)(k \<mapsto> e)\<rparr>)"
  "keeps_id mk_ID (vw_markets v k) m r \<Longrightarrow> kept v (v\<lparr>vw_markets := (vw_markets v)(k \<mapsto> m)\<rparr>)"
  "keeps_id oc_ID (vw_outcomes v k) c r \<Longrightarrow> kept v (v\<lparr>vw_outcomes := (vw_outcomes v)(k \<mapsto> c)\<rparr>)"
  by (simp_all add: kept_def keeps_id_def kept_rows_set)

lemma kept_tables [simp]: "kept v (v\<lparr>vw_sports := t\<rparr>)" "kept v (v\<lparr>vw_leagues := t'\<rparr>)"
  by (simp_all add: kept_def)

lemma market_status_id: "m' = m\<lparr>mk_Status := st, mk_UpdatedAt := mk_UpdatedAt m'\<rparr> \<Longrightarrow> mk_ID m' = mk_ID m"
  by (drule arg_cong [where f = mk_ID]) simp

lemma outcome_status_id: "c' = c\<lparr>oc_Status := st, oc_UpdatedAt := oc_UpdatedAt c'\<rparr> \<Longrightarrow> oc_ID c' = oc_ID c"
  by (drule arg_cong [where f = oc_ID]) simp

lemma outcome_odds_id: "c' = c\<lparr>oc_Odds := odds, oc_UpdatedAt := oc_UpdatedAt c'\<rparr> \<Longrightarrow> oc_ID c' = oc_ID c"
  by (drule arg_cong [where f = oc_ID]) simp

context feed_store
begin

lemma kept_change:
  assumes "may_change (view s) (view s') ok P" and "\<And>v. P v \<Longrightarrow> kept (view s) v"
  shows "kept (view s) (view s')"
  using assms by (auto simp: may_change_def)

lemma upserts_kept:
  assumes "inv s" and "\<And>q. okp q"
  shows "FO_UpsertSport S E s sp = (s', r) \<Longrightarrow> inv s' \<and> kept (view s) (view s')"
    and "FO_UpsertLeague S E s l = (s', r) \<Longrightarrow> inv s' \<and> kept (view s) (view s')"
    and "FO_UpsertEvent S E s e = (s', r) \<Longrightarrow> inv s' \<and> kept (view s) (view s')"
    and "FO_UpsertMarket S E s m = (s', r) \<Longrightarrow> inv s' \<and> kept (view s) (view s')"
    and "FO_UpsertOutcome S E s c = (s', r) \<Longrightarrow> inv s' \<and> kept (view s) (view s')"
proof goal_cases
  case 1 then show ?case using upsert_sport [OF assms] by force
next
  case 2 then show ?case using upsert_league [OF assms] by force
next
  case 3
  note spec = upsert_event [OF assms 3]
  from spec show ?case by (intro conjI kept_change [OF conjunct2 [OF spec]]) (auto intro: kept_set)
next
  case 4
  note spec = upsert_market [OF assms 4]
  from spec show ?case by (intro conjI kept_change [OF conjunct2 [OF spec]]) (auto intro: kept_set)
next
  case 5
  note spec = upsert_outcome [OF assms 5]
  from spec show ?case by (intro conjI kept_change [OF conjunct2 [OF spec]]) (auto intro: kept_set)
qed

lemma upserts_keep_kept:
  assumes "\<And>q. okp q"
  shows "upserts_keep S (\<lambda>t. inv t \<and> kept v (view t))"
proof -
  have "inv s \<and> kept v (view s) \<Longrightarrow> inv s' \<and> kept (view s) (view s') \<Longrightarrow> inv s' \<and> kept v (view s')" for s s'
    using kept_trans by blast
  then show ?thesis
    unfolding upserts_keep_def using upserts_kept [OF _ assms] by (metis prod.collapse)
qed

lemma updates_kept:
  assumes "inv s" and "okp p"
  shows "FO_UpdateOutcomeOdds S E s p i odds = (s', r2) \<Longrightarrow> inv s' \<and> kept (view s) (view s')"
    and "FO_UpdateMarketStatus S E s p i st = (s', r1) \<Longrightarrow> inv s' \<and> kept (view s) (view s')"
    and "FO_UpdateOutcomeStatus S E s p i st = (s', r2) \<Longrightarrow> inv s' \<and> kept (view s) (view s')"
proof goal_cases
  case 1
  note spec = update_odds [OF assms 1]
  have "kept (view s) v" if "vw_outcomes (view s) (p, i) = Some x"
    "v = (view s)\<lparr>vw_outcomes := (vw_outcomes (view s))((p, i) \<mapsto> x')\<rparr>"
    "x' = x\<lparr>oc_Odds := odds, oc_UpdatedAt := oc_UpdatedAt x'\<rparr>" for v x x'
    using that(1,2) outcome_odds_id [OF that(3)] by (simp add: kept_def kept_rows_set)
  then have "kept (view s) (view s')" by (intro kept_change [OF conjunct2 [OF spec]]) blast
  then show ?case using spec by blast
next
  case 2
  note spec = update_market [OF assms 2]
  have "kept (view s) v" if "vw_markets (view s) (p, i) = Some x"
    "v = (view s)\<lparr>vw_markets := (vw_markets (view s))((p, i) \<mapsto> x')\<rparr>"
    "x' = x\<lparr>mk_Status := st, mk_UpdatedAt := mk_UpdatedAt x'\<rparr>" for v x x'
    using that(1,2) market_status_id [OF that(3)] by (simp add: kept_def kept_rows_set)
  then have "kept (view s) (view s')" by (intro kept_change [OF conjunct2 [OF spec]]) blast
  then show ?case using spec by blast
next
  case 3
  note spec = update_outcome [OF assms 3]
  have "kept (view s) v" if "vw_outcomes (view s) (p, i) = Some x"
    "v = (view s)\<lparr>vw_outcomes := (vw_outcomes (view s))((p, i) \<mapsto> x')\<rparr>"
    "x' = x\<lparr>oc_Status := st, oc_UpdatedAt := oc_UpdatedAt x'\<rparr>" for v x x'
    using that(1,2) outcome_status_id [OF that(3)] by (simp add: kept_def kept_rows_set)
  then have "kept (view s) (view s')" by (intro kept_change [OF conjunct2 [OF spec]]) blast
  then show ?case using spec by blast
qed

lemma ApplyUpdate_kept:
  assumes "inv s" and "okp (fu_Provider u)" and "ApplyUpdate S sv E (s, xs) u = ((s', xs'), res)"
  shows "inv s' \<and> kept (view s) (view s')"
proof -
  obtain s1 r1 where o1: "FO_UpdateOutcomeOdds S (E 0) s (fu_Provider u) (fu_EntityID u) (look (fu_Payload u) ''odds'') = (s1, r1)"
    by (metis surj_pair)
  obtain s2 r2 where m1: "FO_UpdateMarketStatus S (E 0) s (fu_Provider u) (fu_EntityID u) (look (fu_Payload u) ''status'') = (s2, r2)"
    by (metis surj_pair)
  obtain s3 r3 where o2: "FO_UpdateOutcomeStatus S (E 1) s2 (fu_Provider u) (fu_EntityID u) (look (fu_Payload u) ''status'') = (s3, r3)"
    by (metis surj_pair)
  have "s' \<in> {s, s1, s2, s3}" using assms(3) o1 m1 o2 by (auto simp: ApplyUpdate_def Let_def split: if_splits sum.splits)
  moreover note 1 = updates_kept(1) [OF assms(1,2) o1] and 2 = updates_kept(2) [OF assms(1,2) m1]
  moreover have "inv s3 \<and> kept (view s) (view s3)"
    using updates_kept(3) [OF conjunct1 [OF 2] assms(2) o2] 2 kept_trans by blast
  ultimately show ?thesis using assms(1) by auto
qed

end

section \<open>The Postgres tables over time\<close>

text \<open>
  What may happen to the tables: a sync or a live sync of any provider, an update, a change of an
  event's status, each with any answers of the providers and any failing statements.
\<close>

inductive feed_step ::
  "(string \<Rightarrow> string) \<Rightarrow> (string \<Rightarrow> gtime result) \<Rightarrow> feed_lib \<Rightarrow> fg_orders \<Rightarrow> feed_pg \<Rightarrow> feed_pg \<Rightarrow> bool"
  for did pt N wo where
  sync: "SyncProvider did pt (fg_ops N wo) sv ord E (s, xs) name = ((s', xs'), r) \<Longrightarrow> feed_step did pt N wo s s'"
| live: "SyncLiveProvider did pt (fg_ops N wo) sv ord E (s, xs) name = ((s', xs'), r) \<Longrightarrow> feed_step did pt N wo s s'"
| update: "ApplyUpdate (fg_ops N wo) sv F (s, xs) u = ((s', xs'), r) \<Longrightarrow> feed_step did pt N wo s s'"
| status: "fg_UpdateEventStatus G s p i st = (s', r) \<Longrightarrow> feed_step did pt N wo s s'"

lemma fg_UpdateEventStatus_kept:
  assumes "fg_inv s" and "fg_UpdateEventStatus E s p i st = (s', r)"
  shows "kept (fg_view s) (fg_view s')"
proof -
  have k: "keyed ev_key ev_ID (fg_events s)" using assms(1) by (simp add: fg_inv_def)
  let ?ch = "\<lambda>e. e\<lparr>ev_Status := st, ev_UpdatedAt := e_now E\<rparr>"
  obtain r1 where q: "pg_auto E (\<lambda>db. on_table (\<lambda>t db. db\<lparr>fg_events := t\<rparr>)
      (fg_update ev_key (p, i) (event_status_ok st) ?ch (fg_events db)) db) s = (s', r1)"
    using assms(2) by (auto simp: fg_UpdateEventStatus_def split: prod.splits sum.splits)
  from fg_auto_table [OF q] consider "s' = s" | t x where "fg_update ev_key (p, i) (event_status_ok st) ?ch (fg_events s) = Inr (t, x)"
    "s' = s\<lparr>fg_events := t\<rparr>" by blast
  then show ?thesis
  proof cases
    case (2 t x)
    have "keyed ev_key ev_ID t \<and> ev_ID ` set t = ev_ID ` set (fg_events s)
      \<and> (x = None \<and> t = fg_events s \<or> (\<exists>o1. row_at ev_key (fg_events s) (p, i) = Some o1 \<and> event_status_ok st \<and> x = Some (?ch o1)
         \<and> (\<forall>y\<in>set t. y = ?ch o1 \<or> y \<in> set (fg_events s)) \<and> row_at ev_key t = (row_at ev_key (fg_events s))((p, i) \<mapsto> ?ch o1)))"
      by (rule fg_update_spec [OF k 2(1)]) (simp_all add: ev_key_def)
    then show ?thesis using 2(2) by (auto simp: kept_def kept_rows_set)
  qed simp
qed

lemma feed_step_keeps:
  assumes "fg_walks wo" and "feed_step did pt N wo s s'" and "fg_inv s"
  shows "fg_inv s' \<and> kept (fg_view s) (fg_view s')"
proof -
  have ups: "upserts_keep (fg_ops N wo) (\<lambda>t. fg_inv t \<and> kept (fg_view s) (fg_view t))"
    by (rule feed_store.upserts_keep_kept [OF fg_feed_store [OF assms(1)]]) simp
  from assms(2) show ?thesis
  proof cases
    case (sync sv ord E xs name xs' r)
    from SyncProvider_keeps [OF ups _ sync] assms(3) show ?thesis by simp
  next
    case (live sv ord E xs name xs' r)
    from SyncLiveProvider_keeps [OF ups _ live] assms(3) show ?thesis by simp
  next
    case (update sv F xs u xs' r)
    from feed_store.ApplyUpdate_kept [OF fg_feed_store [OF assms(1)] assms(3) _ update] show ?thesis by simp
  next
    case (status G p i st r)
    from fg_UpdateEventStatus_inv [OF assms(3) status] fg_UpdateEventStatus_kept [OF assms(3) status] show ?thesis by simp
  qed
qed

lemma feed_reach_keeps:
  assumes "reach s (feed_step did pt N wo) s'" and "fg_walks wo" and "fg_inv s"
  shows "fg_inv s' \<and> kept (fg_view s) (fg_view s')"
  using assms(1)
proof (induction rule: reach.induct)
  case (reach_step t t')
  then show ?case using feed_step_keeps [OF assms(2) reach_step(2)] kept_trans by blast
qed (use assms(3) in simp)

lemma kept_rows_row:
  assumes "keyed key rid t" and "keyed key rid t'" and "kept_rows rid (row_at key t) (row_at key t')" and "r \<in> set t"
  shows "\<exists>r'\<in>set t'. key r' = key r \<and> rid r' = rid r"
proof -
  have "row_at key t (key r) = Some r" using assms(1,4) by (simp add: row_at_iff)
  then have "\<exists>r'. row_at key t' (key r) = Some r' \<and> rid r' = rid r" using assms(3) unfolding kept_rows_def by blast
  then show ?thesis using assms(2) by (auto simp: row_at_iff)
qed

text \<open>
  C19: in every state the Postgres feed tables can reach by syncs, live syncs, updates and status
  changes, whatever the providers answer and whichever statements fail, keys and ids are unique,
  every outcome refers to a stored market, every market to a stored event, every event to a stored
  league and sport, and every status is one of those the schema knows.
\<close>
theorem feed_tables_consistent:
  assumes "fg_walks wo" and "reach fg_empty (feed_step did pt N wo) db"
  shows "fg_inv db"
  using feed_reach_keeps [OF assms(2,1)] by simp

text \<open>
  C20: an event, market or outcome, once stored, stays stored under its provider's id and keeps its
  id, so the ids that bets carry never come to name another row.
\<close>
theorem feed_ids_stable:
  assumes "fg_walks wo" and "reach fg_empty (feed_step did pt N wo) s" and "reach s (feed_step did pt N wo) s'"
  shows "(\<forall>e\<in>set (fg_events s). \<exists>e'\<in>set (fg_events s'). ev_key e' = ev_key e \<and> ev_ID e' = ev_ID e)
    \<and> (\<forall>m\<in>set (fg_markets s). \<exists>m'\<in>set (fg_markets s'). mk_key m' = mk_key m \<and> mk_ID m' = mk_ID m)
    \<and> (\<forall>c\<in>set (fg_outcomes s). \<exists>c'\<in>set (fg_outcomes s'). oc_key c' = oc_key c \<and> oc_ID c' = oc_ID c)"
proof -
  have inv: "fg_inv s" using feed_reach_keeps [OF assms(2,1)] by simp
  have inv': "fg_inv s'" and kept: "kept (fg_view s) (fg_view s')" using feed_reach_keeps [OF assms(3,1) inv] by simp_all
  show ?thesis
    using inv inv' kept by (intro conjI ballI; intro kept_rows_row) (simp_all add: fg_inv_def kept_def)
qed

section \<open>What a sync does\<close>

text \<open>
  C26: after a sync of a provider that succeeds, and whose hierarchy lists no event twice, every event of
  it is stored with the status given; and when some of them were new, live or had another status, the
  provider was asked for the conditions of exactly these, and every market of its answer is stored with
  the status given, if the answer lists no market twice, and every outcome with the status and odds
  given, if it lists no outcome twice.
\<close>
theorem sync_stores_feed:
  assumes "fg_walks wo" and "fg_inv s"
    and "mget (fv_providers sv) name = Some p" and "FP_FetchHierarchy p [] [] = Inr hier"
    and "NormalizeSnapshot did pt hier = Inr rw" and "distinct (List.map ev_key (rw_events rw))"
    and "SyncProvider did pt (fg_ops N wo) sv ord E (s, xs) name = ((s', xs'), Inr ())"
  shows "(\<forall>e\<in>set (rw_events rw). \<exists>e'. row_at ev_key (fg_events s') (ev_key e) = Some e' \<and> stored_event (fg_refers N) e e')
    \<and> (let ids = stale (row_at ev_key (fg_events s)) name (rw_events rw)
       in ids \<noteq> [] \<longrightarrow> (\<exists>conds rc. FP_FetchConditions p ids = Inr conds \<and> NormalizeSnapshot did pt conds = Inr rc
          \<and> (distinct (List.map mk_key (rw_markets rc)) \<longrightarrow>
              (\<forall>m\<in>set (rw_markets rc). \<exists>m'. row_at mk_key (fg_markets s') (mk_key m) = Some m' \<and> stored_market (fg_refers N) m m'))
          \<and> (distinct (List.map oc_key (rw_outcomes rc)) \<longrightarrow>
              (\<forall>c\<in>set (rw_outcomes rc). \<exists>c'. row_at oc_key (fg_outcomes s') (oc_key c) = Some c' \<and> stored_outcome (fg_refers N) c c'))))"
  using feed_store.SyncProvider_stores [OF fg_feed_store [OF assms(1)] assms(2) _ _ assms(3,4,5,6) _ assms(7)]
  by (simp add: Let_def)

text \<open>
  C36: when fetching the conditions fails, the events are stored all the same, and the next sync, if the
  provider lists the same games, none of them live and none twice, changes no market and no outcome,
  whatever the provider then answers: the conditions of those games are lost until their status changes.
\<close>
theorem sync_conditions_lost:
  assumes "fg_walks wo" and "fg_inv s" and "NormalizeSnapshot did pt hier = Inr rw" and "sn_Provider hier = name"
    and "distinct (List.map ev_key (rw_events rw))" and "\<forall>e\<in>set (rw_events rw). ev_Status e \<noteq> ''live''"
    and "mget (fv_providers sv) name = Some p" and "FP_FetchHierarchy p [] [] = Inr hier"
    and "\<And>ids. FP_FetchConditions p ids = Inl err"
    and "SyncProvider did pt (fg_ops N wo) sv ord E (s, xs) name = ((s1, xs1), Inl (WrapErr ''fetch conditions: '' err))"
    and "mget (fv_providers sv2) name = Some p2" and "FP_FetchHierarchy p2 [] [] = Inr hier"
    and "SyncProvider did pt (fg_ops N wo) sv2 ord2 E2 (s1, ys) name = ((s2, ys2), res)"
  shows "row_at mk_key (fg_markets s2) = row_at mk_key (fg_markets s)
    \<and> row_at oc_key (fg_outcomes s2) = row_at oc_key (fg_outcomes s)"
  using feed_store.SyncProvider_conditions_lost [OF fg_feed_store [OF assms(1)] assms(2) _ assms(3-8) _ assms(10-13)] assms(9)
  by simp

section \<open>Live updates\<close>

lemma condition_status_updates:
  assumes "u \<in> set (updatesFromMessage fmt4 msg)" and "fu_Type u = ''status''"
  shows "look (fu_Payload u) ''status'' \<notin> {''won'', ''lost''}"
proof -
  have "normalizeConditionState st \<notin> {''won'', ''lost''}" for st
    by (simp add: normalizeConditionState_def)
  then show ?thesis using assms
    by (auto simp: updatesFromMessage_def condition_updates_def look_def split: if_splits)
qed

text \<open>
  C35: the live updates of Azuro settle nothing.  An outcome that is won or lost after any run of
  the live worker had that status before: outcomes get their result only from the conditions that
  a sync fetches, and those are the conditions of games listed as prematch or live.
\<close>
theorem live_updates_never_settle:
  assumes "fg_walks wo" and "fg_inv s"
    and "\<And>u. WsUpdate u \<in> set evs \<Longrightarrow> \<exists>fmt4 msg. u \<in> set (updatesFromMessage fmt4 msg)"
    and "ws_loop (fg_ops N wo) sv E n (s, xs) evs = ((s', xs'), b)"
    and "c' \<in> set (fg_outcomes s')" and "oc_Status c' = ''won'' \<or> oc_Status c' = ''lost''"
  shows "\<exists>c\<in>set (fg_outcomes s). oc_key c = oc_key c' \<and> oc_Status c = oc_Status c'"
proof -
  note fs = fg_feed_store [OF assms(1)]
  have "fg_inv s' \<and> kept (fg_view s) (fg_view s')"
    if "ws_loop (fg_ops N wo) sv E n (s, xs) evs = ((s', xs'), b)" "fg_inv s" for n s xs
    using that
  proof (induction evs arbitrary: n s xs)
    case (Cons v evs)
    show ?case
    proof (cases v)
      case (WsUpdate u)
      obtain s1 x1 r1 where 1: "ApplyUpdate (fg_ops N wo) sv (E n) (s, xs) u = ((s1, x1), r1)" by (rule pair3E)
      have k1: "fg_inv s1 \<and> kept (fg_view s) (fg_view s1)"
        by (rule feed_store.ApplyUpdate_kept [OF fs Cons.prems(2) _ 1]) simp
      have "ws_loop (fg_ops N wo) sv E (Suc n) (s1, x1) evs = ((s', xs'), b)" using Cons.prems(1) WsUpdate 1 by simp
      then show ?thesis using Cons.IH k1 kept_trans by blast
    qed (use Cons.prems in auto)
  qed simp
  then have inv': "fg_inv s'" using assms(2,4) by blast
  then have row: "row_at oc_key (fg_outcomes s') (oc_key c') = Some c'"
    using assms(5) row_at_iff [of oc_key oc_ID "fg_outcomes s'"] by (simp add: fg_inv_def)
  have none: "look (fu_Payload u) ''status'' \<notin> {''won'', ''lost''}"
    if "WsUpdate u \<in> set evs" "fu_Type u = ''status''" for u
    using assms(3) [OF that(1)] condition_status_updates [OF _ that(2)] by blast
  have "\<exists>c. vw_outcomes (fg_view s) (oc_key c') = Some c \<and> oc_Status c = oc_Status c'"
    by (rule feed_store.ws_loop_settles_nothing [OF fs assms(2) _ none assms(4)]) (use row assms(6) in auto)
  then show ?thesis using assms(2) row_at_iff [of oc_key oc_ID "fg_outcomes s"] by (auto simp: fg_inv_def)
qed

section \<open>Azuro\<close>

lemma build_events:
  "list_all P (sn_Events (buildSnapshot fmt ord sports conds)) \<longleftrightarrow>
    (\<forall>sp\<in>set sports. \<forall>c\<in>set (as_Countries sp). \<forall>l\<in>set (ac_Leagues c). \<forall>g\<in>set (al_Games l).
       P (game_event fmt (providerSportID sp) (providerLeagueID sp c l) g))
    \<and> (\<forall>gg\<in>set (ord (fold (\<lambda>cond m. mput (gr_GameID (ad_Game cond)) (ad_Game cond) m) conds [])). P (stub_event gg))"
  by (simp add: list_all_iff buildSnapshot_def ball_Un)

text \<open>
  Every snapshot that the Azuro provider builds is accepted by the normalizer, for any sports
  and conditions and in whichever order the map of games is walked, exactly when the start times it
  has computed can be read.
\<close>
theorem azuro_normalizes:
  assumes "permutes_entries ord"
  shows "is_ok (NormalizeSnapshot did pt (buildSnapshot fmt ord sports conds)) \<longleftrightarrow>
    (\<forall>sp\<in>set sports. \<forall>c\<in>set (as_Countries sp). \<forall>l\<in>set (ac_Leagues c). \<forall>g\<in>set (al_Games l).
       is_ok (parse_optional pt [] (azuroTime fmt (ag_StartsAt g))))"
proof -
  let ?b = "buildSnapshot fmt ord sports conds"
  have "list_all (\<lambda>l. ls_SportID l \<in> ss_ProviderID ` set (sn_Sports ?b)) (sn_Leagues ?b)"
    using build_leagues providerSport_in by (force simp: list_all_iff)
  moreover have "list_all (\<lambda>m. ks_EventID m \<in> es_ProviderID ` set (sn_Events ?b)) (sn_Markets ?b)"
    using build_market_event [OF assms] by (simp add: list_all_iff)
  moreover have "list_all (\<lambda>x. os_MarketID x \<in> ks_ProviderID ` set (sn_Markets ?b)) (sn_Outcomes ?b)"
    using build_outcome_market by (simp add: list_all_iff)
  moreover have "es_StartsAt (stub_event gg) = [] \<and> es_ScoreUpdatedAt (stub_event gg) = []" for gg
    by (simp add: stub_event_def Let_def split: prod.splits)
  moreover have "es_StartsAt (game_event fmt a b g) = azuroTime fmt (ag_StartsAt g) \<and> es_ScoreUpdatedAt (game_event fmt a b g) = []"
    for a b g by (simp add: game_event_def)
  moreover have "is_ok (parse_optional pt [] [])" by (simp add: parse_optional_def)
  ultimately show ?thesis by (simp add: NormalizeSnapshot_ok_iff build_events)
qed

lemma fg_UpsertEvent_status:
  assumes "fg_UpsertEvent N E s e = (s', Inr i)"
  shows "event_status_ok (ev_Status e)"
proof -
  obtain u v w where "fl_parse N (ev_ID e) = Some u" "parseUUID N (ev_LeagueID e) = Some v" "parseUUID N (ev_SportID e) = Some w"
    using assms by (auto simp: fg_UpsertEvent_def split: option.splits)
  then have "\<not> event_status_ok (ev_Status e) \<Longrightarrow> False" using assms
    by (simp add: fg_UpsertEvent_def fg_exec_def pg_auto_def on_table_def fg_upsert_def fg_event_row_def Let_def)
  then show ?thesis by blast
qed

lemma applyHierarchy_ok_events:
  assumes "applyHierarchy S sv ord E sx sports leagues events = (sx', r)" and "is_ok r" and "e \<in> set events"
  shows "\<exists>n s s' i. FO_UpsertEvent S (E 2 n) s e = (s', Inr i)"
proof -
  obtain sa xa ra where a: "upsert_rows (FO_UpsertSport S) ''upsert sport: '' (\<lambda>r. maybeEmit sv ''feed.sport.updated'') (E 0) 0 sx sports
      = ((sa, xa), ra)" by (rule pair3E)
  obtain sb xb rb where b: "upsert_rows (FO_UpsertLeague S) ''upsert league: '' (\<lambda>r. maybeEmit sv ''feed.league.updated'') (E 1) 0 (sa, xa) leagues
      = ((sb, xb), rb)" by (rule pair3E)
  obtain sc xc rc where c: "upsert_rows (FO_UpsertEvent S) ''upsert event: '' (\<lambda>r. maybeEmit sv ''feed.event.updated'') (E 2) 0 (sb, xb) events
      = ((sc, xc), rc)" by (rule pair3E)
  have "is_ok rc" using assms(1,2) a b c by (auto simp: applyHierarchy_def split: sum.splits)
  then show ?thesis using upsert_rows_ok [OF c] assms(3) by blast
qed

text \<open>Only the provider, the cache and the bus of the service matter to a sync.\<close>

lemma applyHierarchy_service:
  "applyHierarchy S (sv\<lparr>fv_providers := ps\<rparr>) ord E sx sports leagues events = applyHierarchy S sv ord E sx sports leagues events"
proof -
  have "maybeEmit (sv\<lparr>fv_providers := ps\<rparr>) = maybeEmit sv" "cache_effect (sv\<lparr>fv_providers := ps\<rparr>) = cache_effect sv"
    by (intro ext; simp add: maybeEmit_def cache_effect_def)+
  then show ?thesis by (simp only: applyHierarchy_def)
qed

text \<open>The same provider with other answers to \<open>FetchConditions\<close>.\<close>

definition with_conditions :: "feed_service \<Rightarrow> string \<Rightarrow> feed_provider \<Rightarrow> (string list \<Rightarrow> snapshot result) \<Rightarrow> feed_service" where
  "with_conditions sv name p f = sv\<lparr>fv_providers := mput name (p\<lparr>FP_FetchConditions := f\<rparr>) (fv_providers sv)\<rparr>"

lemma hierarchy_fails_first:
  assumes "mget (fv_providers sv) name = Some p" and "FP_FetchHierarchy p [] [] = Inr hier"
    and "\<And>rw. NormalizeSnapshot did pt hier = Inr rw \<Longrightarrow>
      \<not> is_ok (snd (applyHierarchy S sv ord E sx (rw_sports rw) (rw_leagues rw) (rw_events rw)))"
  shows "\<not> is_ok (snd (SyncProvider did pt S sv ord E sx name))"
    and "SyncProvider did pt S (with_conditions sv name p f) ord E sx name = SyncProvider did pt S sv ord E sx name"
  using assms(1,2) assms(3)
  by (auto simp: SyncProvider_def with_conditions_def applyHierarchy_service split: sum.splits prod.splits)

text \<open>
  C37: a canceled game stops the sync before any conditions are fetched.  The provider writes its status
  \<open>canceled\<close>, which the check of the table of events does not allow.  So a sync whose hierarchy lists such
  a game returns an error, and does not ask for conditions: its result, its effects and the tables are the
  same whatever \<open>FetchConditions\<close> would answer.
\<close>
theorem azuro_canceled_blocks_sync:
  assumes "mget (fv_providers sv) name = Some p" and "FP_FetchHierarchy p [] [] = Inr (buildSnapshot fmt walk sports conds)"
    and "sp \<in> set sports" and "c \<in> set (as_Countries sp)" and "l \<in> set (ac_Leagues c)" and "g \<in> set (al_Games l)"
    and "ag_State g = ''Canceled''"
  shows "\<not> is_ok (snd (SyncProvider did pt (fg_ops N wo) sv ord E sx name))
    \<and> SyncProvider did pt (fg_ops N wo) (with_conditions sv name p f) ord E sx name
      = SyncProvider did pt (fg_ops N wo) sv ord E sx name"
proof -
  let ?b = "buildSnapshot fmt walk sports conds"
  have "\<not> is_ok (snd (applyHierarchy (fg_ops N wo) sv ord E sx (rw_sports rw) (rw_leagues rw) (rw_events rw)))"
    if rw: "NormalizeSnapshot did pt ?b = Inr rw" for rw
  proof
    assume ok: "is_ok (snd (applyHierarchy (fg_ops N wo) sv ord E sx (rw_sports rw) (rw_leagues rw) (rw_events rw)))"
    let ?e = "game_event fmt (providerSportID sp) (providerLeagueID sp c l) g"
    have "?e \<in> set (sn_Events ?b)"
      using build_events [of "\<lambda>e. e \<in> set (sn_Events ?b)" fmt walk sports conds] assms(3-6) by (simp add: list_all_iff)
    then obtain r where r: "r \<in> set (rw_events rw)" "ev_Status r = es_Status ?e"
      using list_all2_image [OF NormalizeSnapshot_Inr(3) [OF rw]] norm_event_Inr by metis
    have "ev_Status r = ''canceled''" using r(2) assms(7) by (simp add: game_event_def normalizeGameState_def)
    moreover obtain n s s' i where "fg_UpsertEvent N (E 2 n) s r = (s', Inr i)"
      using applyHierarchy_ok_events [OF prod.collapse [symmetric] ok r(1)] by (auto simp: fg_ops_sel)
    ultimately show False using fg_UpsertEvent_status by (fastforce simp: event_status_ok_def)
  qed
  from hierarchy_fails_first [OF assms(1,2) this] show ?thesis by blast
qed

section \<open>A run of the feed\<close>

definition example_feed_lib :: feed_lib where
  "example_feed_lib = \<lparr>fl_parse = \<lambda>s. if s = [] then None else Some s, fl_time = \<lambda>t. t, fl_collate = \<lambda>s. s\<rparr>"

definition example_feed_env :: pg_env where
  "example_feed_env = \<lparr>e_now = 1000, e_uuid = (\<lambda>n. []), pe_fault = (\<lambda>n. None), pe_applied = False\<rparr>"

definition example_sports :: "string \<Rightarrow> az_sport list" where
  "example_sports st =
     [\<lparr>as_ID = 33, as_Slug = ''soccer'', as_Name = ''Soccer'', as_SportID = ''33'', as_Countries =
        [\<lparr>ac_Slug = ''en'', ac_Name = ''England'', ac_Leagues = [\<lparr>al_Slug = ''pl'', al_Name = ''PL'', al_Games =
          [\<lparr>ag_GameID = ''g1'', ag_Slug = ''a-b'', ag_Title = ''A - B'', ag_StartsAt = [], ag_State = st,
            ag_Participants = [''A'', ''B'']\<rparr>]\<rparr>]\<rparr>]\<rparr>]"

definition example_conditions :: "az_condition list" where
  "example_conditions =
     [\<lparr>ad_ID = ''x1'', ad_ConditionID = ''c1'', ad_State = ''Active'', ad_Title = ''1x2'',
       ad_Game = \<lparr>gr_GameID = ''g1'', gr_SportID = ''33''\<rparr>, ad_Outcomes =
         [\<lparr>ao_Title = ''A'', ao_OutcomeID = ''1'', ao_Odds = ''2.10'', ao_State = ''Active''\<rparr>,
          \<lparr>ao_Title = ''B'', ao_OutcomeID = ''2'', ao_Odds = ''1.90'', ao_State = ''Won''\<rparr>]\<rparr>]"

definition example_hier :: "string \<Rightarrow> snapshot" where
  "example_hier st = buildSnapshot (\<lambda>t. ''2024'') (\<lambda>g. g) (example_sports st) []"

definition example_feed_provider :: "string \<Rightarrow> snapshot result \<Rightarrow> feed_provider" where
  "example_feed_provider st conds =
     \<lparr>FP_FetchSnapshot = (\<lambda>sp ps. Inr (example_hier st)), FP_FetchHierarchy = (\<lambda>sp ps. Inr (example_hier st)),
      FP_FetchConditions = (\<lambda>ids. conds)\<rparr>"

definition example_feed_service :: "string \<Rightarrow> snapshot result \<Rightarrow> feed_service" where
  "example_feed_service st conds =
     \<lparr>fv_providers = [(''azuro'', example_feed_provider st conds)], fv_ttl = Some 60, fv_bus = True\<rparr>"

definition example_conds :: "snapshot result" where
  "example_conds = Inr (buildSnapshot (\<lambda>t. ''2024'') (\<lambda>g. g) [] example_conditions)"

definition example_sync :: "string \<Rightarrow> snapshot result \<Rightarrow> feed_pg \<Rightarrow> (feed_pg \<times> feed_effect list) \<times> unit result" where
  "example_sync st conds db =
     SyncProvider (\<lambda>s. s) (\<lambda>s. Inr 7200) (fg_ops example_feed_lib row_order) (example_feed_service st conds) (\<lambda>m. m)
       (\<lambda>_ _. example_feed_env) (db, []) ''azuro''"

definition synced_feed :: feed_pg where
  "synced_feed = fst (fst (example_sync ''Prematch'' example_conds fg_empty))"

lemma example_hier_rows:
  obtains rw where "NormalizeSnapshot (\<lambda>s. s) (\<lambda>s. Inr 7200) (example_hier ''Prematch'') = Inr rw"
    and "distinct (List.map ev_key (rw_events rw))" and "\<forall>e\<in>set (rw_events rw). ev_Status e \<noteq> ''live''"
    and "length (rw_events rw) = 1" and "stale (row_at ev_key (fg_events fg_empty)) ''azuro'' (rw_events rw) = [''g1'']"
proof -
  have "case NormalizeSnapshot (\<lambda>s. s) (\<lambda>s. Inr 7200) (example_hier ''Prematch'') of Inl err \<Rightarrow> False
    | Inr rw \<Rightarrow> distinct (List.map ev_key (rw_events rw)) \<and> list_all (\<lambda>e. ev_Status e \<noteq> ''live'') (rw_events rw)
        \<and> length (rw_events rw) = 1 \<and> stale (row_at ev_key (fg_events fg_empty)) ''azuro'' (rw_events rw) = [''g1'']"
    by code_simp
  then show thesis using that by (auto simp: list_all_iff split: sum.splits)
qed

lemma example_sync_ok: "is_ok (snd (example_sync ''Prematch'' example_conds fg_empty))"
  by code_simp

lemma synced_feed_rows:
  "List.map oc_Status (fg_outcomes synced_feed) = [''active'', ''won'']" "length (fg_markets synced_feed) = 1"
  by code_simp+

lemma example_sync_eq:
  obtains xs where "example_sync ''Prematch'' example_conds fg_empty = ((synced_feed, xs), Inr ())"
proof -
  obtain s x r where e: "example_sync ''Prematch'' example_conds fg_empty = ((s, x), r)" by (rule pair3E)
  then have "s = synced_feed" "is_ok r" using example_sync_ok by (simp_all add: synced_feed_def)
  then show thesis using that e by (cases r) auto
qed

lemma synced_feed_reached:
  "reach fg_empty (feed_step (\<lambda>s. s) (\<lambda>s. Inr 7200) example_feed_lib row_order) synced_feed"
proof -
  obtain xs where "example_sync ''Prematch'' example_conds fg_empty = ((synced_feed, xs), Inr ())" by (rule example_sync_eq)
  from feed_step.sync [OF this [unfolded example_sync_def]] show ?thesis by (rule reach_step [OF reach_init])
qed

theorem feed_tables_consistent_witness: "length (fg_outcomes synced_feed) = 2 \<and> fg_inv synced_feed"
proof
  show "length (fg_outcomes synced_feed) = 2" using synced_feed_rows(1) by (metis length_Cons length_map list.size(3) One_nat_def Suc_1)
  show "fg_inv synced_feed" by (rule feed_tables_consistent [OF row_order_walks synced_feed_reached])
qed

lemma synced_feed_inv: "fg_inv synced_feed"
  using feed_reach_keeps [OF synced_feed_reached] by simp

definition example_finished :: feed_pg where
  "example_finished = fst (fg_UpdateEventStatus example_feed_env synced_feed ''azuro'' ''g1'' ''finished'')"

theorem feed_ids_stable_witness:
  "(\<lambda>e. (ev_key e, ev_ID e)) ` set (fg_events synced_feed) \<subseteq> (\<lambda>e. (ev_key e, ev_ID e)) ` set (fg_events example_finished)"
proof -
  obtain r where r: "fg_UpdateEventStatus example_feed_env synced_feed ''azuro'' ''g1'' ''finished'' = (example_finished, r)"
    by (metis example_finished_def surj_pair fst_conv)
  have "reach synced_feed (feed_step (\<lambda>s. s) (\<lambda>s. Inr 7200) example_feed_lib row_order) example_finished"
    by (rule reach_step [OF reach_init]) (rule feed_step.status [OF r])
  note kept = feed_ids_stable [OF row_order_walks synced_feed_reached this, THEN conjunct1]
  show ?thesis
  proof (rule image_subsetI)
    fix e assume "e \<in> set (fg_events synced_feed)"
    then obtain e' where "e' \<in> set (fg_events example_finished)" "ev_key e' = ev_key e" "ev_ID e' = ev_ID e"
      using kept by blast
    then show "(ev_key e, ev_ID e) \<in> (\<lambda>e. (ev_key e, ev_ID e)) ` set (fg_events example_finished)"
      by (intro image_eqI [of _ _ e']) (simp_all only:)
  qed
qed

theorem sync_stores_feed_witness:
  "\<exists>e. row_at ev_key (fg_events synced_feed) (''azuro'', ''g1'') = Some e \<and> ev_Status e = ''upcoming''"
proof -
  obtain xs where run: "example_sync ''Prematch'' example_conds fg_empty = ((synced_feed, xs), Inr ())" by (rule example_sync_eq)
  obtain rw where rw: "NormalizeSnapshot (\<lambda>s. s) (\<lambda>s. Inr 7200) (example_hier ''Prematch'') = Inr rw"
    "distinct (List.map ev_key (rw_events rw))" "length (rw_events rw) = 1" by (rule example_hier_rows)
  have p: "mget (fv_providers (example_feed_service ''Prematch'' example_conds)) ''azuro'' = Some (example_feed_provider ''Prematch'' example_conds)"
    "FP_FetchHierarchy (example_feed_provider ''Prematch'' example_conds) [] [] = Inr (example_hier ''Prematch'')"
    by (simp_all add: example_feed_service_def example_feed_provider_def)
  obtain e where e: "rw_events rw = [e]" using rw(3) by (auto simp: length_Suc_conv)
  have "case NormalizeSnapshot (\<lambda>s. s) (\<lambda>s. Inr 7200) (example_hier ''Prematch'') of Inl err \<Rightarrow> False
    | Inr rw \<Rightarrow> list_all (\<lambda>e. ev_key e = (''azuro'', ''g1'') \<and> ev_Status e = ''upcoming'') (rw_events rw)" by code_simp
  then have "ev_key e = (''azuro'', ''g1'')" "ev_Status e = ''upcoming''" using rw(1) e by simp_all
  then show ?thesis
    using conjunct1 [OF sync_stores_feed [OF row_order_walks fg_inv_empty p rw(1,2) run [unfolded example_sync_def]]] e
    by (auto simp: stored_event_def)
qed

definition example_lost :: feed_pg where
  "example_lost = fst (fst (example_sync ''Prematch'' (Inl (ExtErr ''down'')) fg_empty))"

theorem sync_conditions_lost_witness:
  "length (fg_events example_lost) = 1
   \<and> is_ok (snd (example_sync ''Prematch'' example_conds example_lost))
   \<and> row_at oc_key (fg_outcomes (fst (fst (example_sync ''Prematch'' example_conds example_lost)))) = (\<lambda>_. None)"
proof (intro conjI)
  show "length (fg_events example_lost) = 1" by code_simp
  show "is_ok (snd (example_sync ''Prematch'' example_conds example_lost))" by code_simp
  obtain rw where rw: "NormalizeSnapshot (\<lambda>s. s) (\<lambda>s. Inr 7200) (example_hier ''Prematch'') = Inr rw"
    "distinct (List.map ev_key (rw_events rw))" "\<forall>e\<in>set (rw_events rw). ev_Status e \<noteq> ''live''" by (rule example_hier_rows)
  have p: "mget (fv_providers (example_feed_service ''Prematch'' c)) ''azuro'' = Some (example_feed_provider ''Prematch'' c)"
    "FP_FetchHierarchy (example_feed_provider ''Prematch'' c) [] [] = Inr (example_hier ''Prematch'')"
    "FP_FetchConditions (example_feed_provider ''Prematch'' c) ids = c" for c ids
    by (simp_all add: example_feed_service_def example_feed_provider_def)
  obtain s1 x1 r1 where 1: "example_sync ''Prematch'' (Inl (ExtErr ''down'')) fg_empty = ((s1, x1), r1)" by (rule pair3E)
  have "snd (example_sync ''Prematch'' (Inl (ExtErr ''down'')) fg_empty) = Inl (WrapErr ''fetch conditions: '' (ExtErr ''down''))"
    by code_simp
  then have r1: "r1 = Inl (WrapErr ''fetch conditions: '' (ExtErr ''down''))" "s1 = example_lost"
    using 1 by (simp_all add: example_lost_def)
  obtain s2 x2 r2 where 2: "example_sync ''Prematch'' example_conds example_lost = ((s2, x2), r2)" by (rule pair3E)
  have "sn_Provider (example_hier ''Prematch'') = ''azuro''" by (simp add: example_hier_def buildSnapshot_def azuro_name_def)
  from sync_conditions_lost [OF row_order_walks fg_inv_empty rw(1) this rw(2,3) p(1,2) p(3)
      1 [unfolded r1 example_sync_def] p(1,2) 2 [unfolded example_sync_def]]
  show "row_at oc_key (fg_outcomes (fst (fst (example_sync ''Prematch'' example_conds example_lost)))) = (\<lambda>_. None)"
    using 2 by (simp add: fg_empty_def)
qed

text \<open>A live message that stops the market and moves an outcome's odds.\<close>

definition example_live :: "ws_event list" where
  "example_live = List.map WsUpdate (updatesFromMessage (\<lambda>s. s)
     [\<lparr>wc_ID = ''c1'', wc_State = ''Stopped'', wc_Outcomes = [\<lparr>wo_ID = 1, wo_Odds = ''3.5''\<rparr>]\<rparr>])"

definition example_after_live :: feed_pg where
  "example_after_live = fst (fst (ws_loop (fg_ops example_feed_lib row_order) (example_feed_service ''Prematch'' example_conds)
     (\<lambda>_ _. example_feed_env) 0 (synced_feed, []) example_live))"

theorem live_updates_never_settle_witness:
  "List.map oc_Odds (fg_outcomes example_after_live) = [''3.5'', ''1.90'']
   \<and> (\<exists>c'\<in>set (fg_outcomes example_after_live). oc_Status c' = ''won''
       \<and> (\<exists>c\<in>set (fg_outcomes synced_feed). oc_key c = oc_key c' \<and> oc_Status c = oc_Status c'))"
proof
  show "List.map oc_Odds (fg_outcomes example_after_live) = [''3.5'', ''1.90'']" by code_simp
  have "list_ex (\<lambda>c. oc_Status c = ''won'') (fg_outcomes example_after_live)" by code_simp
  then obtain c' where c': "c' \<in> set (fg_outcomes example_after_live)" "oc_Status c' = ''won''" by (auto simp: list_ex_iff)
  obtain s' x' b where run: "ws_loop (fg_ops example_feed_lib row_order) (example_feed_service ''Prematch'' example_conds)
     (\<lambda>_ _. example_feed_env) 0 (synced_feed, []) example_live = ((s', x'), b)" by (rule pair3E)
  then have s': "s' = example_after_live" by (simp add: example_after_live_def)
  have up: "\<exists>fmt4 msg. u \<in> set (updatesFromMessage fmt4 msg)" if "WsUpdate u \<in> set example_live" for u
    using that by (auto simp: example_live_def)
  from live_updates_never_settle [OF row_order_walks synced_feed_inv up run [unfolded s'] c'(1)] c'
  show "\<exists>c'\<in>set (fg_outcomes example_after_live). oc_Status c' = ''won''
       \<and> (\<exists>c\<in>set (fg_outcomes synced_feed). oc_key c = oc_key c' \<and> oc_Status c = oc_Status c')" by blast
qed

theorem azuro_normalizes_witness:
  "is_ok (NormalizeSnapshot (\<lambda>s. s) (\<lambda>s. Inl ErrJson) (buildSnapshot (\<lambda>t. ''2024'') rev (example_sports ''Live'') example_conditions))"
  by (subst azuro_normalizes) (simp_all add: example_sports_def azuroTime_def parse_optional_def)

theorem azuro_canceled_blocks_sync_witness:
  "\<not> is_ok (snd (example_sync ''Canceled'' example_conds synced_feed))
   \<and> example_sync ''Canceled'' (Inl ErrJson) synced_feed = example_sync ''Canceled'' example_conds synced_feed"
proof -
  let ?sv = "example_feed_service ''Canceled'' example_conds" and ?p = "example_feed_provider ''Canceled'' example_conds"
  have p: "mget (fv_providers ?sv) ''azuro'' = Some ?p"
    "FP_FetchHierarchy ?p [] [] = Inr (buildSnapshot (\<lambda>t. ''2024'') (\<lambda>g. g) (example_sports ''Canceled'') [])"
    by (simp_all add: example_feed_service_def example_feed_provider_def example_hier_def)
  have sv: "example_feed_service ''Canceled'' (Inl ErrJson) = with_conditions ?sv ''azuro'' ?p (\<lambda>ids. Inl ErrJson)"
    by (simp add: example_feed_service_def example_feed_provider_def with_conditions_def)
  show ?thesis
    unfolding example_sync_def sv
    by (rule azuro_canceled_blocks_sync [OF p]) (auto simp: example_sports_def)
qed

end
