(* ===== verification/FeedSportsbook.thy ===== *)
theory FeedSportsbook
  imports FeedStores SportsbookStores
begin

text \<open>
  The sportsbook on the odds feed: the feed client of \<open>internal/sportsbook/clients.go\<close>, the feed
  server behind it, and what a price or a result that the sportsbook uses says about the tables of
  the feed.
\<close>

section \<open>The feed client\<close>

text \<open>A connection to the feed; the requests carry page numbers of 32 bits.\<close>

record feed_conn =
  fc_GetEvent :: "string \<Rightarrow> pf_event option result"
  fc_ListMarkets :: "string \<Rightarrow> string \<Rightarrow> int \<Rightarrow> int \<Rightarrow> pf_market list result"
  fc_ListOutcomes :: "string \<Rightarrow> string \<Rightarrow> int \<Rightarrow> int \<Rightarrow> pf_outcome list result"
  fc_ListEvents :: "string \<Rightarrow> string \<Rightarrow> string \<Rightarrow> int \<Rightarrow> int \<Rightarrow> pf_event list result"

text \<open>Of the messages the sportsbook reads the fields that follow.\<close>

definition read_event :: "pf_event \<Rightarrow> pb_event" where
  "read_event e = \<lparr>pe_Id = pfe_Id e, pe_Status = pfe_Status e\<rparr>"

definition read_market :: "pf_market \<Rightarrow> pb_market" where
  "read_market m = \<lparr>pm_Id = pfm_Id m, pm_EventId = pfm_EventId m, pm_Status = pfm_Status m\<rparr>"

definition read_outcome :: "pf_outcome \<Rightarrow> pb_outcome" where
  "read_outcome c = \<lparr>po_Id = pfo_Id c, po_MarketId = pfo_MarketId c, po_Odds = pfo_Odds c, po_Status = pfo_Status c\<rparr>"

definition GRPCOddsFeedClient :: "feed_conn \<Rightarrow> feed_client" where
  "GRPCOddsFeedClient conn =
     \<lparr>FC_GetEvent = (\<lambda>i. map_sum id (map_option read_event) (fc_GetEvent conn i)),
      FC_ListMarkets = (\<lambda>eventID status page pageSize.
        map_sum id (List.map read_market) (fc_ListMarkets conn eventID status (int32 page) (int32 pageSize))),
      FC_ListOutcomes = (\<lambda>marketID status page pageSize.
        map_sum id (List.map read_outcome) (fc_ListOutcomes conn marketID status (int32 page) (int32 pageSize)))\<rparr>"

definition feed_client_ListEvents ::
  "feed_conn \<Rightarrow> string \<Rightarrow> string \<Rightarrow> string \<Rightarrow> int \<Rightarrow> int \<Rightarrow> pb_event list result" where
  "feed_client_ListEvents conn sportID leagueID status page pageSize =
     map_sum id (List.map read_event) (fc_ListEvents conn sportID leagueID status (int32 page) (int32 pageSize))"

text \<open>
  The feed server behind the client, on the tables \<open>s\<close>: \<open>fate n\<close> is the fate of the \<open>n\<close>-th kind of
  call, and \<open>carry\<close> what the transport makes of an error of the server.
\<close>

definition feed_query :: "rpc_fate \<Rightarrow> (go_error \<Rightarrow> go_error) \<Rightarrow> 'a result \<Rightarrow> 'a result" where
  "feed_query fate carry r = snd (over_grpc fate (\<lambda>w. (w, map_sum carry id r)) ())"

definition feed_server_conn ::
  "(gtime \<Rightarrow> string) \<Rightarrow> ('e, 's) feed_ops \<Rightarrow> (nat \<Rightarrow> 'e) \<Rightarrow> (nat \<Rightarrow> rpc_fate) \<Rightarrow> (go_error \<Rightarrow> go_error) \<Rightarrow> 's \<Rightarrow> feed_conn" where
  "feed_server_conn fmt S E fate carry s =
     \<lparr>fc_GetEvent = (\<lambda>i. feed_query (fate 0) carry (fsrv_GetEvent fmt S (E 0) s i)),
      fc_ListMarkets = (\<lambda>i st p n. feed_query (fate 1) carry (fsrv_ListMarkets S (E 1) s i st p n)),
      fc_ListOutcomes = (\<lambda>i st p n. feed_query (fate 2) carry (fsrv_ListOutcomes S (E 2) s i st p n)),
      fc_ListEvents = (\<lambda>sp l st p n. feed_query (fate 3) carry (fsrv_ListEvents fmt S (E 3) s sp l st p n))\<rparr>"

definition feed_over_grpc ::
  "(gtime \<Rightarrow> string) \<Rightarrow> ('e, 's) feed_ops \<Rightarrow> (nat \<Rightarrow> 'e) \<Rightarrow> (nat \<Rightarrow> rpc_fate) \<Rightarrow> (go_error \<Rightarrow> go_error) \<Rightarrow> 's \<Rightarrow> feed_client" where
  "feed_over_grpc fmt S E fate carry s = GRPCOddsFeedClient (feed_server_conn fmt S E fate carry s)"

lemma feed_query_Inr: "feed_query fate carry r = Inr x \<Longrightarrow> r = Inr x"
  by (cases fate; cases r) (auto simp: feed_query_def over_grpc_def)

lemma feed_reply_Inr: "feed_reply what f r = Inr x \<Longrightarrow> \<exists>y. r = Inr y \<and> x = f y"
  by (auto simp: feed_reply_def split: sum.splits)

lemma map_sum_Inr: "map_sum f g r = Inr x \<Longrightarrow> \<exists>y. r = Inr y \<and> x = g y"
  by (cases r) auto

text \<open>What the answers of the client say about the store.\<close>

lemma feed_event_over_grpc:
  assumes "FC_GetEvent (feed_over_grpc fmt S E fate carry s) i = Inr (Some e)"
  shows "\<exists>e0. FO_GetEvent S (E 0) s i = Inr (Some e0) \<and> e = read_event (toProtoEvent fmt e0)"
proof -
  obtain o1 where o1: "fsrv_GetEvent fmt S (E 0) s i = Inr o1" "Some e = map_option read_event o1"
    using map_sum_Inr [OF assms [unfolded feed_over_grpc_def GRPCOddsFeedClient_def feed_server_conn_def, simplified]]
    by (auto dest: feed_query_Inr)
  obtain y where "FO_GetEvent S (E 0) s i = Inr y" "o1 = map_option (toProtoEvent fmt) y"
    using feed_reply_Inr [OF o1(1) [unfolded fsrv_GetEvent_def]] by auto
  then show ?thesis using o1(2) by (cases y) auto
qed

lemma feed_markets_over_grpc:
  assumes "FC_ListMarkets (feed_over_grpc fmt S E fate carry s) i st p n = Inr ms"
  shows "\<exists>ms0. FO_ListMarkets S (E 1) s i st (int32 p) (int32 n) = Inr ms0 \<and> ms = List.map (\<lambda>m. read_market (toProtoMarket m)) ms0"
proof -
  obtain o1 where o1: "fsrv_ListMarkets S (E 1) s i st (int32 p) (int32 n) = Inr o1" "ms = List.map read_market o1"
    using map_sum_Inr [OF assms [unfolded feed_over_grpc_def GRPCOddsFeedClient_def feed_server_conn_def, simplified]]
    by (auto dest: feed_query_Inr)
  then show ?thesis using feed_reply_Inr [OF o1(1) [unfolded fsrv_ListMarkets_def]] by auto
qed

lemma feed_outcomes_over_grpc:
  assumes "FC_ListOutcomes (feed_over_grpc fmt S E fate carry s) i st p n = Inr cs"
  shows "\<exists>cs0. FO_ListOutcomes S (E 2) s i st (int32 p) (int32 n) = Inr cs0 \<and> cs = List.map (\<lambda>c. read_outcome (toProtoOutcome c)) cs0"
proof -
  obtain o1 where o1: "fsrv_ListOutcomes S (E 2) s i st (int32 p) (int32 n) = Inr o1" "cs = List.map read_outcome o1"
    using map_sum_Inr [OF assms [unfolded feed_over_grpc_def GRPCOddsFeedClient_def feed_server_conn_def, simplified]]
    by (auto dest: feed_query_Inr)
  then show ?thesis using feed_reply_Inr [OF o1(1) [unfolded fsrv_ListOutcomes_def]] by auto
qed

section \<open>Prices and results come from the feed's tables\<close>

text \<open>An outcome, in its market, in its event, as the store of the feed has them.\<close>

definition feed_offers ::
  "(string \<Rightarrow> string \<Rightarrow> bool) \<Rightarrow> feed_view \<Rightarrow> string \<Rightarrow> string \<Rightarrow> string \<Rightarrow> event \<Rightarrow> market \<Rightarrow> outcome \<Rightarrow> bool" where
  "feed_offers refers v eventID marketID outcomeID e m c \<longleftrightarrow>
     vw_events v (ev_key e) = Some e \<and> refers eventID (ev_ID e)
     \<and> vw_markets v (mk_key m) = Some m \<and> mk_ID m = marketID \<and> refers eventID (mk_EventID m)
     \<and> vw_outcomes v (oc_key c) = Some c \<and> oc_ID c = outcomeID \<and> refers marketID (oc_MarketID c)"

lemma find_map_Some:
  "List.find P (List.map f xs) = Some y \<Longrightarrow> \<exists>x\<in>set xs. y = f x \<and> P (f x)"
  by (induction xs) (auto split: if_splits)

context feed_store
begin

lemma price_from_store:
  assumes "inv s" and "price_bet D (feed_over_grpc fmt S E fate carry s) eventID marketID outcomeID stake = Inr (odds, payout)"
    and "eventID \<noteq> []" and "marketID \<noteq> []"
  shows "\<exists>e m c. feed_offers refers (view s) eventID marketID outcomeID e m c
    \<and> mk_Status m = ''active'' \<and> oc_Status c = ''active'' \<and> odds = oc_Odds c"
proof -
  let ?F = "feed_over_grpc fmt S E fate carry s"
  obtain ev where ev: "FC_GetEvent ?F eventID = Inr (Some ev)"
    using assms(2) by (auto simp: price_bet_def split: sum.splits option.splits if_splits)
  obtain ms m1 where ms: "FC_ListMarkets ?F eventID ''active'' 1 100 = Inr ms" "List.find (\<lambda>m. pm_Id m = marketID) ms = Some m1"
    using assms(2) by (auto simp: price_bet_def split: sum.splits option.splits if_splits)
  obtain cs c1 where cs: "FC_ListOutcomes ?F marketID ''active'' 1 100 = Inr cs" "List.find (\<lambda>c. po_Id c = outcomeID) cs = Some c1"
    "odds = po_Odds c1"
    using assms(2) by (auto simp: price_bet_def split: sum.splits option.splits if_splits)
  obtain e where e: "FO_GetEvent S (E 0) s eventID = Inr (Some e)" using feed_event_over_grpc [OF ev] by blast
  obtain ms0 where ms0: "FO_ListMarkets S (E 1) s eventID ''active'' (int32 1) (int32 100) = Inr ms0"
    "ms = List.map (\<lambda>m. read_market (toProtoMarket m)) ms0" using feed_markets_over_grpc [OF ms(1)] by blast
  obtain cs0 where cs0: "FO_ListOutcomes S (E 2) s marketID ''active'' (int32 1) (int32 100) = Inr cs0"
    "cs = List.map (\<lambda>c. read_outcome (toProtoOutcome c)) cs0" using feed_outcomes_over_grpc [OF cs(1)] by blast
  obtain m where m: "m \<in> set ms0" "mk_ID m = marketID"
    using find_map_Some [OF ms(2) [unfolded ms0(2)]] by (auto simp: read_market_def toProtoMarket_def)
  obtain c where c: "c \<in> set cs0" "oc_ID c = outcomeID" "odds = oc_Odds c"
    using find_map_Some [OF cs(2) [unfolded cs0(2)]] cs(3) by (auto simp: read_outcome_def toProtoOutcome_def)
  show ?thesis
    using get_event [OF assms(1) e] list_markets [OF assms(1) ms0(1) m(1)] list_outcomes [OF assms(1) cs0(1) c(1)] m(2) c(2,3) assms(3,4)
    unfolding feed_offers_def by auto
qed

lemma result_from_store:
  assumes "inv s" and "resolveOutcomeStatus (feed_over_grpc fmt S E fate carry s) eventID marketID outcomeID = Inr st"
    and "st \<noteq> []" and "eventID \<noteq> []" and "marketID \<noteq> []"
  shows "\<exists>e m c. feed_offers refers (view s) eventID marketID outcomeID e m c
    \<and> oc_Status c = st \<and> st \<in> {''won'', ''lost'', ''cancelled''}"
proof -
  let ?F = "feed_over_grpc fmt S E fate carry s"
  obtain ev where ev: "FC_GetEvent ?F eventID = Inr (Some ev)"
    using assms(2) by (auto simp: resolveOutcomeStatus_def split: sum.splits option.splits if_splits)
  obtain ms where ms: "FC_ListMarkets ?F eventID [] 1 100 = Inr ms" "list_ex (\<lambda>m. pm_Id m = marketID) ms"
    using assms(2) by (auto simp: resolveOutcomeStatus_def split: sum.splits option.splits if_splits)
  obtain cs c1 where cs: "FC_ListOutcomes ?F marketID [] 1 100 = Inr cs" "List.find (\<lambda>c. po_Id c = outcomeID) cs = Some c1"
    "st = po_Status c1" "st \<in> {''won'', ''lost'', ''cancelled''}"
    using assms(2,3) by (auto simp: resolveOutcomeStatus_def status_defs split: sum.splits option.splits if_splits)
  obtain e where e: "FO_GetEvent S (E 0) s eventID = Inr (Some e)" using feed_event_over_grpc [OF ev] by blast
  obtain ms0 where ms0: "FO_ListMarkets S (E 1) s eventID [] (int32 1) (int32 100) = Inr ms0"
    "ms = List.map (\<lambda>m. read_market (toProtoMarket m)) ms0" using feed_markets_over_grpc [OF ms(1)] by blast
  obtain cs0 where cs0: "FO_ListOutcomes S (E 2) s marketID [] (int32 1) (int32 100) = Inr cs0"
    "cs = List.map (\<lambda>c. read_outcome (toProtoOutcome c)) cs0" using feed_outcomes_over_grpc [OF cs(1)] by blast
  obtain m where m: "m \<in> set ms0" "mk_ID m = marketID"
    using ms(2) by (auto simp: ms0(2) list_ex_iff read_market_def toProtoMarket_def)
  obtain c where c: "c \<in> set cs0" "oc_ID c = outcomeID" "st = oc_Status c"
    using find_map_Some [OF cs(2) [unfolded cs0(2)]] cs(3) by (auto simp: read_outcome_def toProtoOutcome_def)
  show ?thesis
    using get_event [OF assms(1) e] list_markets [OF assms(1) ms0(1) m(1)] list_outcomes [OF assms(1) cs0(1) c(1)] m(2) c(2,3) assms(4,5) cs(4)
    unfolding feed_offers_def by auto
qed

end

text \<open>
  C17: the price of an accepted bet is the feed's.  When \<open>PlaceBet\<close> returns a pending bet under a
  reference the user had not used, with both services on Postgres, the feed's tables hold the event,
  an active market of that event and an active outcome of that market that the bet names, the bet is
  stored with exactly the odds of that outcome, and its payout is the stake times these odds.
\<close>
theorem bet_priced_from_feed:
  assumes "fg_walks wo" and "reach fg_empty (feed_step did pt FL wo) fdb"
    and "uuid_server N" and "permutes_entries ord" and "pb_inv N db"
    and "\<forall>b\<in>set db. b_UserID b = u \<longrightarrow> b_ReferenceID b \<noteq> ref"
    and "PlaceBet D J (pb_ops N ord) W (feed_over_grpc fmt (fg_ops FL wo) EF fate carry fdb) E now (db, w) u eventID marketID outcomeID stake cur ref
      = ((db', w'), Inr b)"
    and "b_Status b = StatusPending"
  shows "\<exists>e m c. feed_offers (fg_refers FL) (fg_view fdb) eventID marketID outcomeID e m c
    \<and> mk_Status m = ''active'' \<and> oc_Status c = ''active''
    \<and> (\<exists>b'\<in>set db'. b_ID b' = b_ID b \<and> b_Odds b' = oc_Odds c \<and> multiplyDecimal D stake (oc_Odds c) = Inr (b_PotentialPayout b'))"
proof -
  have fdb: "fg_inv fdb" using feed_reach_keeps [OF assms(2,1)] by simp
  have new: "\<forall>i b. pb_bets db i = Some b \<longrightarrow> b_UserID b = u \<longrightarrow> b_ReferenceID b \<noteq> ref"
    using assms(6) by (simp add: pb_bets_iff [OF assms(5)])
  obtain b' odds payout where b': "pb_bets db' (b_ID b) = Some b'" "b_PotentialPayout b' = payout" "b_Odds b' = odds"
    and price: "price_bet D (feed_over_grpc fmt (fg_ops FL wo) EF fate carry fdb) eventID marketID outcomeID stake = Inr (odds, payout)"
    and ne: "eventID \<noteq> []" "marketID \<noteq> []"
    using bet_store.place_accepted [OF pb_bet_store [OF assms(3,4)] assms(5) TrueI new assms(7,8)] by blast
  have "b' \<in> set db'" "b_ID b' = b_ID b" using find_key_Some [OF b'(1) [unfolded pb_bets_def]] by simp_all
  then show ?thesis
    using feed_store.price_from_store [OF fg_feed_store [OF assms(1)] fdb price ne] price_bet_Inr [OF price] b'(2,3) by blast
qed

text \<open>
  C18: no bet is settled automatically without a result.  When the automatic settlement touches a
  bet, the feed's tables hold the outcome the bet names, in its market and its event, as won, lost or
  cancelled, and the bet is settled with that status.
\<close>
theorem auto_settle_result_from_feed:
  assumes "fg_walks wo" and "reach fg_empty (feed_step did pt FL wo) fdb"
    and "pz_feed Z k = feed_over_grpc fmt (fg_ops FL wo) EF fate carry fdb"
    and "b_EventID bet \<noteq> []" and "b_MarketID bet \<noteq> []" and "auto_settle_bet B Z k bet sw \<noteq> sw"
  shows "\<exists>e m c. feed_offers (fg_refers FL) (fg_view fdb) (b_EventID bet) (b_MarketID bet) (b_OutcomeID bet) e m c
    \<and> oc_Status c \<in> {''won'', ''lost'', ''cancelled''}
    \<and> auto_settle_bet B Z k bet sw = fst (SettleBet B (pz_wallet Z k) (pz_env Z k) (pz_now Z k) sw (b_ID bet) (oc_Status c))"
proof -
  have fdb: "fg_inv fdb" using feed_reach_keeps [OF assms(2,1)] by simp
  obtain st where st: "resolveOutcomeStatus (feed_over_grpc fmt (fg_ops FL wo) EF fate carry fdb) (b_EventID bet) (b_MarketID bet) (b_OutcomeID bet) = Inr st"
    "st \<noteq> []" "auto_settle_bet B Z k bet sw = fst (SettleBet B (pz_wallet Z k) (pz_env Z k) (pz_now Z k) sw (b_ID bet) st)"
    using assms(3,6) by (auto simp: auto_settle_bet_def split: sum.splits if_splits)
  then show ?thesis
    using feed_store.result_from_store [OF fg_feed_store [OF assms(1)] fdb st(1,2) assms(4,5)] by auto
qed

section \<open>Examples\<close>

definition synced_feed_client :: feed_client where
  "synced_feed_client = feed_over_grpc (\<lambda>t. ''2024'') (fg_ops example_feed_lib row_order) (\<lambda>_. example_feed_env) (\<lambda>_. Delivered) (\<lambda>e. e) synced_feed"

definition bet_on_feed :: "string \<Rightarrow> (bet_rows \<times> wallet_log) \<times> bet result" where
  "bet_on_feed oc = PlaceBet dec_ops example_json (pb_ops example_bet_lib (\<lambda>db. db)) yes_wallet synced_feed_client (\<lambda>n. example_pg_env ''p'') 5000
     ([], []) ''u'' ''azuro:event:g1'' ''azuro:market:c1'' oc ''4'' ''EUR'' ''r1''"

theorem bet_priced_from_feed_witness:
  "\<exists>c\<in>set (fg_outcomes synced_feed). oc_ID c = ''azuro:outcome:c1:1'' \<and> oc_Status c = ''active''"
proof -
  have "case snd (bet_on_feed ''azuro:outcome:c1:1'') of Inl e \<Rightarrow> False | Inr b \<Rightarrow> b_Status b = StatusPending" by code_simp
  then obtain b where b: "snd (bet_on_feed ''azuro:outcome:c1:1'') = Inr b" "b_Status b = StatusPending" by (auto split: sum.splits)
  obtain db' w' r where run: "bet_on_feed ''azuro:outcome:c1:1'' = ((db', w'), r)" by (rule pair3E)
  then have r: "r = Inr b" using b(1) by simp
  have k: "keyed oc_key oc_ID (fg_outcomes synced_feed)" using synced_feed_inv by (simp add: fg_inv_def)
  from bet_priced_from_feed [OF row_order_walks synced_feed_reached ref_uuid.uuid_server_axioms permutes_entries_id _ _
      run [unfolded r bet_on_feed_def synced_feed_client_def] b(2)]
  show ?thesis by (auto simp: feed_offers_def row_at_iff [OF k] pb_inv_def)
qed

definition feed_pass :: "(pg_env, wallet_log) pass_env" where
  "feed_pass = \<lparr>pz_env = (\<lambda>k n. example_pg_env ''q''), pz_wallet = (\<lambda>k. yes_wallet), pz_feed = (\<lambda>k. synced_feed_client), pz_now = (\<lambda>k. 9000)\<rparr>"

definition bet_on_winner :: bet where
  "bet_on_winner = \<lparr>b_ID = ''p0'', b_UserID = ''u'', b_EventID = ''azuro:event:g1'', b_MarketID = ''azuro:market:c1'',
     b_OutcomeID = ''azuro:outcome:c1:2'', b_Odds = ''1.90'', b_Stake = ''4'', b_PotentialPayout = ''7.6'', b_Currency = ''EUR'',
     b_Status = StatusPending, b_ReferenceID = ''r1'', b_DebitTransactionID = ''t1'', b_CreditTransactionID = [], b_CreatedAt = 5000,
     b_SettledAt = None\<rparr>"

definition auto_won :: "bet_rows \<times> wallet_log" where
  "auto_won = auto_settle_bet (pb_ops example_bet_lib (\<lambda>db. db)) feed_pass 1 bet_on_winner ([bet_on_winner], [])"

theorem auto_settle_result_from_feed_witness:
  "List.map b_Status (fst auto_won) = [StatusWon]
   \<and> (\<exists>c\<in>set (fg_outcomes synced_feed). oc_ID c = ''azuro:outcome:c1:2'' \<and> oc_Status c \<in> {''won'', ''lost'', ''cancelled''})"
proof
  show won: "List.map b_Status (fst auto_won) = [StatusWon]" by code_simp
  have "b_Status bet_on_winner = StatusPending" by (simp add: bet_on_winner_def)
  then have ne: "auto_settle_bet (pb_ops example_bet_lib (\<lambda>db. db)) feed_pass 1 bet_on_winner ([bet_on_winner], []) \<noteq> ([bet_on_winner], [])"
    using won by (auto simp: auto_won_def status_defs)
  have k: "keyed oc_key oc_ID (fg_outcomes synced_feed)" using synced_feed_inv by (simp add: fg_inv_def)
  have F: "pz_feed feed_pass 1 = feed_over_grpc (\<lambda>t. ''2024'') (fg_ops example_feed_lib row_order) (\<lambda>_. example_feed_env) (\<lambda>_. Delivered) (\<lambda>e. e) synced_feed"
    by (simp add: feed_pass_def synced_feed_client_def)
  have "b_EventID bet_on_winner \<noteq> []" "b_MarketID bet_on_winner \<noteq> []" by (simp_all add: bet_on_winner_def)
  from auto_settle_result_from_feed [OF row_order_walks synced_feed_reached F this ne]
  show "\<exists>c\<in>set (fg_outcomes synced_feed). oc_ID c = ''azuro:outcome:c1:2'' \<and> oc_Status c \<in> {''won'', ''lost'', ''cancelled''}"
    by (auto simp: feed_offers_def row_at_iff [OF k] bet_on_winner_def)
qed

end
