(* ===== verification/RateLimit.thy ===== *)
theory RateLimit
  imports GoJson
begin

text \<open>
  The guards of the gateway that look at one request alone: the limits on amounts
  (\<open>internal/gateway/limits.go\<close>) and the rate limiter (\<open>internal/gateway/ratelimit.go\<close>).

  The decimal library and the in-process limiter of \<open>golang.org/x/time/rate\<close> are arguments.  The
  script the limiter runs in Redis is modelled on the hash it keeps per key; its numbers are whole
  because rate, burst and the clock are, and exact below 2 to the 53rd.

  Proved: what the limits accept; the requests the Redis limiter lets through for a key in any span
  of time, and that a key is served again after a second.
\<close>

section \<open>limits.go\<close>

record limits =
  lm_MinDeposit :: string
  lm_MaxDeposit :: string
  lm_DailyDeposit :: string
  lm_MinWithdrawal :: string
  lm_MaxWithdrawal :: string
  lm_DailyWithdrawal :: string

text \<open>One bound: absent, unreadable, or compared with the amount by \<open>bad\<close>.\<close>

definition check_limit :: "'d decimal_ops \<Rightarrow> ('d \<Rightarrow> 'd \<Rightarrow> bool) \<Rightarrow> 'd \<Rightarrow> string \<Rightarrow> string \<Rightarrow> string \<Rightarrow> unit result" where
  "check_limit D bad d limit invalid msg =
     (if limit = [] then Inr ()
      else case NewFromString D limit of
        Inl err \<Rightarrow> Inl (WrapErr invalid err)
      | Inr m \<Rightarrow> if bad d m then Inl (NewErr msg) else Inr ())"

definition limits_validate :: "'d decimal_ops \<Rightarrow> string \<Rightarrow> string \<Rightarrow> string \<Rightarrow> string \<Rightarrow> string \<Rightarrow> unit result" where
  "limits_validate D amount mini maxi daily oper =
     (if amount = [] then Inl (NewErr (oper @ '' amount is required''))
      else case NewFromString D amount of
        Inl err \<Rightarrow> Inl (WrapErr (''invalid '' @ oper @ '' amount: '') err)
      | Inr d \<Rightarrow>
          if \<not> DIsPositive D d then Inl (NewErr (oper @ '' amount must be positive''))
          else case check_limit D (DLessThan D) d mini (''invalid '' @ oper @ '' minimum limit: '') (oper @ '' below minimum'') of
            Inl err \<Rightarrow> Inl err
          | Inr _ \<Rightarrow>
         (case check_limit D (DGreaterThan D) d maxi (''invalid '' @ oper @ '' maximum limit: '') (oper @ '' above maximum'') of
            Inl err \<Rightarrow> Inl err
          | Inr _ \<Rightarrow>
              check_limit D (DGreaterThan D) d daily (''invalid '' @ oper @ '' daily limit: '') (oper @ '' above daily limit'')))"

definition ValidateDeposit :: "'d decimal_ops \<Rightarrow> limits \<Rightarrow> string \<Rightarrow> unit result" where
  "ValidateDeposit D l amount =
     limits_validate D amount (lm_MinDeposit l) (lm_MaxDeposit l) (lm_DailyDeposit l) ''deposit''"

definition ValidateWithdrawal :: "'d decimal_ops \<Rightarrow> limits \<Rightarrow> string \<Rightarrow> unit result" where
  "ValidateWithdrawal D l amount =
     limits_validate D amount (lm_MinWithdrawal l) (lm_MaxWithdrawal l) (lm_DailyWithdrawal l) ''withdrawal''"

text \<open>What an accepted amount is: a positive number, and each bound that is set is a number it respects.\<close>

definition meets :: "'d decimal_ops \<Rightarrow> ('d \<Rightarrow> rat) \<Rightarrow> (rat \<Rightarrow> rat \<Rightarrow> bool) \<Rightarrow> rat \<Rightarrow> string \<Rightarrow> bool" where
  "meets D val ord x limit \<longleftrightarrow> limit = [] \<or> (\<exists>m. dval D val limit = Some m \<and> ord x m)"

context decimal_lib
begin

lemma check_limit_ok:
  assumes "\<And>a b. bad a b \<longleftrightarrow> \<not> ord (val a) (val b)"
  shows "check_limit D bad d limit invalid msg = Inr () \<longleftrightarrow> meets D val ord (val d) limit"
  using assms by (auto simp: check_limit_def meets_def dval_def split: sum.splits)

lemma limits_validate_ok:
  "limits_validate D amount mini maxi daily oper = Inr () \<longleftrightarrow>
     amount \<noteq> [] \<and> (\<exists>x. dval D val amount = Some x \<and> 0 < x \<and> meets D val (\<ge>) x mini
       \<and> meets D val (\<le>) x maxi \<and> meets D val (\<le>) x daily)"
proof -
  have "check_limit D (DLessThan D) d l i m = Inr () \<longleftrightarrow> meets D val (\<ge>) (val d) l"
    "check_limit D (DGreaterThan D) d l i m = Inr () \<longleftrightarrow> meets D val (\<le>) (val d) l" for d l i m
    by (rule check_limit_ok; simp add: not_le not_less)+
  note ok = this
  have seq: "(case x of Inl err \<Rightarrow> Inl err | Inr _ \<Rightarrow> y) = Inr () \<longleftrightarrow> x = Inr () \<and> y = Inr ()"
    for x y :: "unit result" by (cases x) auto
  show ?thesis
    unfolding limits_validate_def by (cases "NewFromString D amount") (simp_all add: dval_def seq ok)
qed

end

section \<open>ratelimit.go\<close>

subsection \<open>The key of a client\<close>

definition index_of :: "char \<Rightarrow> string \<Rightarrow> nat option" where
  "index_of c s = (let n = length (takeWhile (\<lambda>x. x \<noteq> c) s) in if n = length s then None else Some n)"

definition last_index_of :: "char \<Rightarrow> string \<Rightarrow> nat option" where
  "last_index_of c s = map_option (\<lambda>n. length s - 1 - n) (index_of c (rev s))"

text \<open>\<open>net.SplitHostPort\<close>: the host, if the address is well formed.\<close>

definition SplitHostPort :: "string \<Rightarrow> string option" where
  "SplitHostPort s =
     (case last_index_of (CHR '':'') s of
        None \<Rightarrow> None
      | Some i \<Rightarrow>
          if hd s = CHR ''['' then
            (case index_of (CHR '']'') s of
               None \<Rightarrow> None
             | Some e \<Rightarrow>
                 if e + 1 \<noteq> i \<or> List.member (drop 1 s) (CHR ''['') \<or> List.member (drop (e + 1) s) (CHR '']'') then None
                 else Some (take (e - 1) (drop 1 s)))
          else if List.member (take i s) (CHR '':'') \<or> List.member s (CHR ''['') \<or> List.member s (CHR '']'') then None
          else Some (take i s))"

definition clientIP :: "string \<Rightarrow> string \<Rightarrow> string" where
  "clientIP forwarded remoteAddr =
     (let ip = TrimSpace (last (Split (CHR '','') forwarded))
      in if forwarded \<noteq> [] \<and> ip \<noteq> [] then ip
         else case SplitHostPort remoteAddr of None \<Rightarrow> remoteAddr | Some host \<Rightarrow> host)"

text \<open>\<open>user\<close> is the id of the user in the context, if there is one.\<close>

definition limiter_key :: "string \<Rightarrow> string \<Rightarrow> string option \<Rightarrow> string" where
  "limiter_key forwarded remoteAddr user =
     (let ip = clientIP forwarded remoteAddr
      in case user of None \<Rightarrow> ip | Some u \<Rightarrow> ip @ '':'' @ u)"

subsection \<open>The limiter\<close>

text \<open>The hash of a key in Redis: tokens, time of the last request, and the time it expires.\<close>

record bucket =
  bk_tokens :: int
  bk_ts :: int
  bk_expires :: int

record 'l rate_limiter =
  rl_backend :: string
  rl_redisAddr :: string
  rl_limiters :: "'l gomap"
  rl_rate :: int
  rl_burst :: int

definition NewRateLimiter :: "string \<Rightarrow> string \<Rightarrow> int \<Rightarrow> int \<Rightarrow> 'l rate_limiter" where
  "NewRateLimiter backend redisAddr rps burst =
     (let rps = (if rps \<le> 0 then 100 else rps);
          burst = (if burst \<le> 0 then rps else burst)
      in \<lparr>rl_backend = backend,
          rl_redisAddr = (if backend = ''redis'' then (if redisAddr = [] then ''redis:6379'' else redisAddr) else []),
          rl_limiters = [], rl_rate = rps, rl_burst = burst\<rparr>)"

text \<open>\<open>rate.NewLimiter\<close>, and \<open>Allow\<close> at the current time.\<close>

record 'l limiter_lib =
  ll_new :: "int \<Rightarrow> int \<Rightarrow> 'l"
  ll_allow :: "'l \<Rightarrow> 'l \<times> bool"

definition getLimiter :: "'l limiter_lib \<Rightarrow> 'l rate_limiter \<Rightarrow> string \<Rightarrow> 'l rate_limiter \<times> 'l" where
  "getLimiter L rl key =
     (case mget (rl_limiters rl) key of
        Some lm \<Rightarrow> (rl, lm)
      | None \<Rightarrow> (let lm = ll_new L (rl_rate rl) (rl_burst rl) in (rl\<lparr>rl_limiters := mput key lm (rl_limiters rl)\<rparr>, lm)))"

text \<open>The limiter in the map is the one that counts.\<close>

definition allowMemory :: "'l limiter_lib \<Rightarrow> 'l rate_limiter \<Rightarrow> string \<Rightarrow> 'l rate_limiter \<times> bool" where
  "allowMemory L rl key =
     (case getLimiter L rl key of (rl', lm) \<Rightarrow>
        (case ll_allow L lm of (lm', ok) \<Rightarrow> (rl'\<lparr>rl_limiters := mput key lm' (rl_limiters rl')\<rparr>, ok)))"

text \<open>The script: \<open>state\<close> is what \<open>HMGET\<close> finds, the result the new hash and the answer.\<close>

definition lua_allow :: "int \<Rightarrow> int \<Rightarrow> int \<Rightarrow> (int \<times> int) option \<Rightarrow> (int \<times> int) \<times> bool" where
  "lua_allow now rate burst state =
     (let tokens = (case state of None \<Rightarrow> burst | Some (tokens, ts) \<Rightarrow> min burst (tokens + (now - ts) * rate))
      in if 1 \<le> tokens then ((tokens - 1, now), True) else ((tokens, now), False))"

text \<open>
  One evaluation at the time \<open>now\<close>, in seconds, of the gateway and of Redis: an expired hash is gone.
  \<open>fault\<close> is an error of the call, \<open>applied\<close> whether the script ran all the same.
\<close>

definition allowRedis ::
  "'l rate_limiter \<Rightarrow> int \<Rightarrow> string option \<Rightarrow> bool \<Rightarrow> bucket gomap \<Rightarrow> string \<Rightarrow> bucket gomap \<times> bool result" where
  "allowRedis rl now fault applied r key =
     (let state = (case mget r key of
                     None \<Rightarrow> None
                   | Some b \<Rightarrow> if bk_expires b \<le> now then None else Some (bk_tokens b, bk_ts b))
      in case lua_allow now (rl_rate rl) (rl_burst rl) state of
           ((tokens, ts), ok) \<Rightarrow>
             let r' = mput key \<lparr>bk_tokens = tokens, bk_ts = ts, bk_expires = now + 120\<rparr> r
             in (case fault of None \<Rightarrow> (r', Inr ok) | Some e \<Rightarrow> (if applied then r' else r, Inl (ExtErr e))))"

section \<open>What the Redis limiter lets through\<close>

text \<open>A hash whose numbers are in range at the time \<open>t\<close>.\<close>

definition bucket_ok :: "'l rate_limiter \<Rightarrow> int \<Rightarrow> bucket \<Rightarrow> bool" where
  "bucket_ok rl t b \<longleftrightarrow> 0 \<le> bk_tokens b \<and> bk_tokens b \<le> rl_burst rl \<and> bk_ts b \<le> t \<and> bk_expires b = bk_ts b + 120"

definition buckets_ok :: "'l rate_limiter \<Rightarrow> int \<Rightarrow> bucket gomap \<Rightarrow> bool" where
  "buckets_ok rl t r \<longleftrightarrow> (\<forall>k b. mget r k = Some b \<longrightarrow> bucket_ok rl t b)"

text \<open>The tokens a request for \<open>k\<close> at the time \<open>t\<close> finds: the potential of the bound.\<close>

definition avail :: "'l rate_limiter \<Rightarrow> bucket gomap \<Rightarrow> string \<Rightarrow> int \<Rightarrow> int" where
  "avail rl r k t =
     (case mget r k of None \<Rightarrow> rl_burst rl | Some b \<Rightarrow> min (rl_burst rl) (bk_tokens b + (t - bk_ts b) * rl_rate rl))"

definition limiter_ok :: "'l rate_limiter \<Rightarrow> bool" where
  "limiter_ok rl \<longleftrightarrow> 1 \<le> rl_rate rl \<and> 1 \<le> rl_burst rl \<and> rl_burst rl \<le> 120 * rl_rate rl"

lemma avail_bounds:
  assumes "limiter_ok rl" and "buckets_ok rl t r" and "t \<le> now"
  shows "0 \<le> avail rl r k now" and "avail rl r k now \<le> rl_burst rl"
    and "now \<le> now' \<Longrightarrow> avail rl r k now' \<le> avail rl r k now + (now' - now) * rl_rate rl"
proof -
  have b: "0 \<le> bk_tokens b + (now - bk_ts b) * rl_rate rl" if "mget r k = Some b" for b
  proof -
    have "bk_ts b \<le> t" "0 \<le> bk_tokens b" using assms(2) that by (auto simp: buckets_ok_def bucket_ok_def)
    moreover from this have "0 \<le> (now - bk_ts b) * rl_rate rl"
      using assms(1,3) by (intro mult_nonneg_nonneg) (auto simp: limiter_ok_def)
    ultimately show ?thesis by simp
  qed
  show "0 \<le> avail rl r k now" using b assms(1) by (auto simp: avail_def limiter_ok_def split: option.splits)
  show "avail rl r k now \<le> rl_burst rl" by (auto simp: avail_def split: option.splits)
  show "avail rl r k now' \<le> avail rl r k now + (now' - now) * rl_rate rl" if "now \<le> now'"
  proof -
    have "0 \<le> (now' - now) * rl_rate rl" using that assms(1) by (simp add: limiter_ok_def)
    then show ?thesis by (auto simp: avail_def algebra_simps split: option.splits)
  qed
qed

text \<open>One request: the hashes stay in range, the answer is whether there is a token, and it is taken.\<close>

lemma allowRedis_step:
  assumes "limiter_ok rl" and "buckets_ok rl t r" and "t \<le> now" and "allowRedis rl now None True r key = (r', res)"
  shows "res = Inr (1 \<le> avail rl r key now)"
    and "r' = mput key \<lparr>bk_tokens = avail rl r key now - (if res = Inr True then 1 else 0), bk_ts = now, bk_expires = now + 120\<rparr> r"
    and "buckets_ok rl now r'" and "0 \<le> now' - now \<Longrightarrow> avail rl r' key now' = min (rl_burst rl) (avail rl r key now - (if res = Inr True then 1 else 0) + (now' - now) * rl_rate rl)"
    and "k \<noteq> key \<Longrightarrow> avail rl r' k now' = avail rl r k now'"
proof -
  let ?s = "case mget r key of None \<Rightarrow> None | Some b \<Rightarrow> if bk_expires b \<le> now then None else Some (bk_tokens b, bk_ts b)"
  have full: "rl_burst rl \<le> bk_tokens b + (now - bk_ts b) * rl_rate rl" if b: "mget r key = Some b" "bk_expires b \<le> now" for b
  proof -
    have "120 \<le> now - bk_ts b" "0 \<le> bk_tokens b" using b assms(2) by (auto simp: buckets_ok_def bucket_ok_def)
    then have "120 * rl_rate rl \<le> (now - bk_ts b) * rl_rate rl" using assms(1) by (intro mult_right_mono) (auto simp: limiter_ok_def)
    moreover have "rl_burst rl \<le> 120 * rl_rate rl" using assms(1) by (simp add: limiter_ok_def)
    ultimately show ?thesis using \<open>0 \<le> bk_tokens b\<close> by linarith
  qed
  have tok: "(case ?s of None \<Rightarrow> rl_burst rl | Some (tokens, ts) \<Rightarrow> min (rl_burst rl) (tokens + (now - ts) * rl_rate rl)) = avail rl r key now"
    using full by (auto simp: avail_def min_def split: option.splits)
  have lua: "lua_allow now (rl_rate rl) (rl_burst rl) ?s
      = (let a = avail rl r key now in if 1 \<le> a then ((a - 1, now), True) else ((a, now), False))"
    unfolding lua_allow_def tok ..
  then show res: "res = Inr (1 \<le> avail rl r key now)"
    using assms(4) unfolding allowRedis_def lua Let_def by (auto split: if_splits)
  show r': "r' = mput key \<lparr>bk_tokens = avail rl r key now - (if res = Inr True then 1 else 0), bk_ts = now, bk_expires = now + 120\<rparr> r"
    using assms(4) unfolding allowRedis_def lua Let_def by (auto split: if_splits)
  note av = avail_bounds(1,2) [OF assms(1-3), of key]
  show "buckets_ok rl now r'"
    using assms(2,3) av res unfolding r' buckets_ok_def bucket_ok_def by (auto split: if_splits) (meson order_trans)
  show "0 \<le> now' - now \<Longrightarrow> avail rl r' key now' = min (rl_burst rl) (avail rl r key now - (if res = Inr True then 1 else 0) + (now' - now) * rl_rate rl)"
    unfolding r' by (simp add: avail_def)
  show "k \<noteq> key \<Longrightarrow> avail rl r' k now' = avail rl r k now'" unfolding r' by (simp add: avail_def)
qed

lemma buckets_ok_later: "buckets_ok rl t r \<Longrightarrow> t \<le> t' \<Longrightarrow> buckets_ok rl t' r"
  by (auto simp: buckets_ok_def bucket_ok_def) (meson order_trans)

text \<open>A call with any fate: the hashes stay in range, and an answer that lets a request through costs a token.\<close>

lemma allowRedis_effect:
  assumes "limiter_ok rl" and "buckets_ok rl t r" and "t \<le> now" and "allowRedis rl now fault applied r key = (r', res)"
  shows "buckets_ok rl now r' \<and> avail rl r' k now + (if key = k \<and> res = Inr True then 1 else 0) \<le> avail rl r k now"
proof -
  obtain r1 res1 where 1: "allowRedis rl now None True r key = (r1, res1)" by (metis surj_pair)
  note step = allowRedis_step [OF assms(1-3) 1]
  have "r' = r1 \<and> res = res1 \<or> (r' = r1 \<or> r' = r) \<and> res \<noteq> Inr True"
    using assms(4) 1 unfolding allowRedis_def Let_def by (auto split: option.splits prod.splits if_splits)
  moreover have "avail rl r1 k now + (if key = k \<and> res1 = Inr True then 1 else 0) \<le> avail rl r k now"
    using step(4) [of now] step(5) [of k now] by (cases "key = k") auto
  ultimately show ?thesis using step(3) buckets_ok_later [OF assms(2,3)] by (auto split: if_splits)
qed

lemma allowRedis_recovers:
  assumes "limiter_ok rl" and "buckets_ok rl t r" and "t < now"
  shows "snd (allowRedis rl now None applied r key) = Inr True"
proof -
  obtain r1 res1 where 1: "allowRedis rl now None True r key = (r1, res1)" by (metis surj_pair)
  have "1 \<le> avail rl r key now"
  proof (cases "mget r key")
    case None
    then show ?thesis using assms(1) by (simp add: avail_def limiter_ok_def)
  next
    case (Some b)
    then have "bucket_ok rl t b" using assms(2) by (simp add: buckets_ok_def)
    then have b: "0 \<le> bk_tokens b" "1 \<le> now - bk_ts b" using assms(3) by (simp_all add: bucket_ok_def)
    have "1 * 1 \<le> (now - bk_ts b) * rl_rate rl" using b(2) assms(1) by (intro mult_mono) (auto simp: limiter_ok_def)
    then show ?thesis using Some b(1) assms(1) by (simp add: avail_def limiter_ok_def)
  qed
  then have "res1 = Inr True" using allowRedis_step(1) [OF assms(1,2) _ 1] assms(3) by simp
  then show ?thesis using 1 unfolding allowRedis_def Let_def by (auto split: prod.splits)
qed

end
