(* ===== verification/Auth.thy ===== *)
theory Auth
  imports Prelude
begin

text \<open>
  HTTP requests and responses as the gateway sees them, and the authentication of a request,
  \<open>internal/auth/jwks.go\<close>.

  Fetching a key set and checking the token of a request are done by a library and are arguments.
\<close>

section \<open>Requests and responses\<close>

record auth_user =
  au_ID :: string
  au_Email :: string
  au_Name :: string

text \<open>
  Of a request: its path, the segments of its path, the status and the place of its redirection by
  \<open>http.ServeMux\<close> if the path is not clean, the first value of each query parameter and header,
  the body as it is read, and the values of its context: user, request id and route.
\<close>

record http_request =
  rq_Method :: string
  rq_URLPath :: string
  rq_Segments :: "string list"
  rq_Redirect :: "(int \<times> string) option"
  rq_Query :: "string gomap"
  rq_Header :: "string gomap"
  rq_RemoteAddr :: string
  rq_Body :: "string result"
  rq_PathValue :: "string gomap"
  rq_user :: "auth_user option"
  rq_requestID :: "string option"
  rq_route :: "string option"

text \<open>The request as it came in: nothing in its context.\<close>

definition wire :: "http_request \<Rightarrow> http_request" where
  "wire rq = rq\<lparr>rq_user := None, rq_requestID := None, rq_route := None, rq_PathValue := []\<rparr>"

lemma wire_simps [simp]:
  "wire (rq\<lparr>rq_user := u\<rparr>) = wire rq" "wire (rq\<lparr>rq_requestID := i\<rparr>) = wire rq"
  "wire (rq\<lparr>rq_route := p\<rparr>) = wire rq" "wire (rq\<lparr>rq_PathValue := m\<rparr>) = wire rq" "wire (wire rq) = wire rq"
  "rq_user (wire rq) = None" "rq_Header (wire rq) = rq_Header rq" "rq_RemoteAddr (wire rq) = rq_RemoteAddr rq"
  "rq_Method (wire rq) = rq_Method rq" "rq_URLPath (wire rq) = rq_URLPath rq" "rq_route (wire rq) = None"
  "rq_Segments (wire rq) = rq_Segments rq" "rq_Redirect (wire rq) = rq_Redirect rq"
  by (simp_all add: wire_def)

definition first_of :: "string gomap \<Rightarrow> string \<Rightarrow> string" where
  "first_of m k = (case mget m k of None \<Rightarrow> [] | Some v \<Rightarrow> v)"

section \<open>jwks.go\<close>

record jwt_token =
  tk_sub :: "string option"
  tk_email :: "string option"
  tk_name :: "string option"

record 'k jwks_lib =
  jl_fetch :: "string \<Rightarrow> 'k result"
  jl_parse :: "'k \<Rightarrow> http_request \<Rightarrow> jwt_token result"

record 'k jwks_client =
  jk_url :: string
  jk_keyset :: "'k option"
  jk_fetched :: gtime

definition jwksRefreshInterval :: int where
  "jwksRefreshInterval = 15 * 60 * second_ns"

definition ErrMissingUserID :: go_error where
  "ErrMissingUserID = Sentinel ''auth'' ''missing user id''"

definition jwks_refresh :: "'k jwks_lib \<Rightarrow> gtime \<Rightarrow> 'k jwks_client \<Rightarrow> 'k jwks_client \<times> unit result" where
  "jwks_refresh L now c =
     (case jl_fetch L (jk_url c) of
        Inl err \<Rightarrow> (c, Inl (WrapErr ''fetch jwks: '' err))
      | Inr keyset \<Rightarrow> (c\<lparr>jk_keyset := Some keyset, jk_fetched := now\<rparr>, Inr ()))"

definition NewJWKSClient :: "'k jwks_lib \<Rightarrow> gtime \<Rightarrow> string \<Rightarrow> 'k jwks_client" where
  "NewJWKSClient L now jwksURL = fst (jwks_refresh L now \<lparr>jk_url = jwksURL, jk_keyset = None, jk_fetched = zero_time\<rparr>)"

text \<open>A key set that is too old is used when no new one can be fetched.\<close>

definition currentKeyset :: "'k jwks_lib \<Rightarrow> gtime \<Rightarrow> 'k jwks_client \<Rightarrow> 'k jwks_client \<times> 'k result" where
  "currentKeyset L now c =
     (case jk_keyset c of
        Some ks \<Rightarrow>
          if now - jk_fetched c < jwksRefreshInterval then (c, Inr ks)
          else (case jwks_refresh L now c of
                  (c', Inl err) \<Rightarrow> (c', Inr ks)
                | (c', Inr _) \<Rightarrow> (c', Inr (the (jk_keyset c'))))
      | None \<Rightarrow>
          (case jwks_refresh L now c of
             (c', Inl err) \<Rightarrow> (c', Inl err)
           | (c', Inr _) \<Rightarrow> (c', Inr (the (jk_keyset c')))))"

text \<open>The user of a request, from a key set.\<close>

definition token_user :: "'k jwks_lib \<Rightarrow> 'k \<Rightarrow> http_request \<Rightarrow> auth_user result" where
  "token_user L keyset r =
     (case jl_parse L keyset r of
        Inl err \<Rightarrow> Inl (WrapErr ''parse request: '' err)
      | Inr token \<Rightarrow>
          (case tk_sub token of
             None \<Rightarrow> Inl ErrMissingUserID
           | Some userID \<Rightarrow>
               Inr \<lparr>au_ID = userID, au_Email = (case tk_email token of None \<Rightarrow> [] | Some e \<Rightarrow> e),
                    au_Name = (case tk_name token of None \<Rightarrow> [] | Some n \<Rightarrow> n)\<rparr>))"

definition jwks_UserFromRequest :: "'k jwks_lib \<Rightarrow> gtime \<Rightarrow> 'k jwks_client \<Rightarrow> http_request \<Rightarrow> 'k jwks_client \<times> auth_user result" where
  "jwks_UserFromRequest L now c r =
     (case currentKeyset L now c of
        (c', Inl err) \<Rightarrow> (c', Inl (WrapErr ''fetch jwks: '' err))
      | (c', Inr keyset) \<Rightarrow> (c', token_user L keyset r))"

text \<open>The function without a cache; \<open>env\<close> is the variable \<open>JWKS_URL\<close>.\<close>

definition UserFromRequest :: "'k jwks_lib \<Rightarrow> string \<Rightarrow> http_request \<Rightarrow> auth_user result" where
  "UserFromRequest L env r =
     (let jwksURL = (if env = [] then ''http://localhost:3000/api/auth/jwks'' else env)
      in case jl_fetch L jwksURL of
           Inl err \<Rightarrow> Inl (WrapErr ''fetch jwks: '' err)
         | Inr keyset \<Rightarrow> token_user L keyset r)"

section \<open>Who a user is\<close>

text \<open>
  A key set that was fetched: the one a client holds, or the one it would fetch.  A user comes
  from the subject of a token that the library accepts under such a key set.
\<close>

lemma currentKeyset_source:
  "currentKeyset L now c = (c', Inr ks) \<Longrightarrow>
     jk_url c' = jk_url c \<and> jk_keyset c' = Some ks \<and> (jk_keyset c = Some ks \<or> jl_fetch L (jk_url c) = Inr ks)"
  by (auto simp: currentKeyset_def jwks_refresh_def split: option.splits if_splits sum.splits)

lemma jwks_UserFromRequest_Inr:
  assumes "jwks_UserFromRequest L now c r = (c', Inr u)"
  shows "\<exists>ks token. (jk_keyset c = Some ks \<or> jl_fetch L (jk_url c) = Inr ks)
    \<and> jl_parse L ks r = Inr token \<and> tk_sub token = Some (au_ID u)"
  using assms
  by (auto simp: jwks_UserFromRequest_def token_user_def split: sum.splits prod.splits option.splits dest!: currentKeyset_source)

end
