(* ===== verification/GatewayClients.thy ===== *)
theory GatewayClients
  imports WalletService SportsbookService
begin

text \<open>
  The gRPC clients of the gateway: \<open>wallet_client.go\<close>, \<open>sportsbook_client.go\<close> and
  \<open>oddsfeed_client.go\<close> of \<open>internal/gateway\<close>.

  A connection is a function from outgoing metadata and a request to a response; it is an argument,
  so that the gateway can be proved for every backend and run on the servers of this development.

  Proved: every call that names a user passes the interceptor of the server it goes to.
\<close>

section \<open>Requests\<close>

text \<open>The request messages, one constructor for each remote procedure; \<open>W\<close> wallet, \<open>F\<close> odds feed, \<open>B\<close> sportsbook.\<close>

datatype backend_call =
    W_GetRates (gc_fiat: string)
  | W_GetBalance (gc_user: string) (gc_currency: string) (gc_fiat: string)
  | W_ListTransactions (gc_user: string) (gc_fiat: string) (gc_page: int) (gc_pageSize: int)
  | W_GetDepositAddress (gc_user: string) (gc_currency: string) (gc_chain: string)
  | W_RequestWithdrawal (gc_user: string) (gc_currency: string) (gc_amount: string) (gc_dest: string) (gc_chain: string)
  | W_ProcessDepositWebhook (gc_body: string) (gc_headers: "string gomap")
  | W_ListPendingWithdrawals (gc_page: int) (gc_pageSize: int)
  | W_ReviewWithdrawal (gc_id: string) (gc_action: string) (gc_txHash: string) (gc_reviewedBy: string)
  | W_DebitWallet (gc_debit: debit_request)
  | W_CreditWallet (gc_debit: debit_request)
  | F_ListSports (gc_page: int) (gc_pageSize: int)
  | F_ListLeagues (gc_sport: string) (gc_page: int) (gc_pageSize: int)
  | F_ListEvents (gc_sport: string) (gc_league: string) (gc_status: string) (gc_page: int) (gc_pageSize: int)
  | F_GetEvent (gc_id: string)
  | F_ListMarkets (gc_event: string) (gc_status: string) (gc_page: int) (gc_pageSize: int)
  | F_ListOutcomes (gc_market: string) (gc_status: string) (gc_page: int) (gc_pageSize: int)
  | F_ListLiveScores (gc_sport: string) (gc_league: string) (gc_page: int) (gc_pageSize: int)
  | B_PlaceBet (gc_user: string) (gc_event: string) (gc_market: string) (gc_outcome: string) (gc_stake: string)
      (gc_currency: string) (gc_ref: string)
  | B_GetBet (gc_id: string)
  | B_ListBets (gc_user: string) (gc_status: string) (gc_page: int) (gc_pageSize: int)
  | B_SettleBet (gc_id: string) (gc_result: string)

text \<open>
  The connections, and what the gateway reads of a response message: the rates, the body for the
  payment provider, whether there is an event, the user of the bet if there is one, and its JSON.
  A call that returns no error returns a message.
\<close>

type_synonym ('w, 'm) rpc_conn = "'w \<Rightarrow> string list gomap \<Rightarrow> backend_call \<Rightarrow> 'w \<times> 'm result"

record ('w, 'm) backends =
  bk_call :: "('w, 'm) rpc_conn"
  bk_FiatCurrency :: "'m \<Rightarrow> string"
  bk_Rates :: "'m \<Rightarrow> string gomap"
  bk_ResponseBody :: "'m \<Rightarrow> string"
  bk_HasEvent :: "'m \<Rightarrow> bool"
  bk_BetUser :: "'m \<Rightarrow> string option"
  bk_Marshal :: "'m \<Rightarrow> string result"

definition gw_callerID :: string where
  "gw_callerID = ''gateway''"

abbreviation caller_md :: "string \<Rightarrow> string list gomap" where
  "caller_md u \<equiv> [(''x-user-id'', [u])]"

abbreviation admin_md :: "string \<Rightarrow> string list gomap" where
  "admin_md u \<equiv> [(''x-user-id'', [u]), (''x-caller-is-admin'', [''true''])]"

section \<open>wallet_client.go\<close>

definition wc_GetRates :: "('w, 'm) rpc_conn \<Rightarrow> 'w \<Rightarrow> string \<Rightarrow> 'w \<times> 'm result" where
  "wc_GetRates conn w fiat = conn w (caller_md gw_callerID) (W_GetRates fiat)"

definition wc_GetBalance :: "('w, 'm) rpc_conn \<Rightarrow> 'w \<Rightarrow> string \<Rightarrow> string \<Rightarrow> string \<Rightarrow> 'w \<times> 'm result" where
  "wc_GetBalance conn w userID currency fiat = conn w (caller_md userID) (W_GetBalance userID currency fiat)"

definition wc_ListTransactions :: "('w, 'm) rpc_conn \<Rightarrow> 'w \<Rightarrow> string \<Rightarrow> string \<Rightarrow> int \<Rightarrow> int \<Rightarrow> 'w \<times> 'm result" where
  "wc_ListTransactions conn w userID fiat page pageSize =
     conn w (caller_md userID) (W_ListTransactions userID fiat (int32 page) (int32 pageSize))"

definition wc_GetDepositAddress :: "('w, 'm) rpc_conn \<Rightarrow> 'w \<Rightarrow> string \<Rightarrow> string \<Rightarrow> string \<Rightarrow> 'w \<times> 'm result" where
  "wc_GetDepositAddress conn w userID currency chain =
     conn w (caller_md userID) (W_GetDepositAddress userID currency chain)"

definition wc_RequestWithdrawal ::
  "('w, 'm) rpc_conn \<Rightarrow> 'w \<Rightarrow> string \<Rightarrow> string \<Rightarrow> string \<Rightarrow> string \<Rightarrow> string \<Rightarrow> 'w \<times> 'm result" where
  "wc_RequestWithdrawal conn w userID currency amount destinationAddress chain =
     conn w (caller_md userID) (W_RequestWithdrawal userID currency amount destinationAddress chain)"

definition wc_ProcessDepositWebhook :: "('w, 'm) rpc_conn \<Rightarrow> 'w \<Rightarrow> string \<Rightarrow> string gomap \<Rightarrow> 'w \<times> 'm result" where
  "wc_ProcessDepositWebhook conn w body headers =
     conn w (caller_md gw_callerID) (W_ProcessDepositWebhook body headers)"

definition wc_ListPendingWithdrawals :: "('w, 'm) rpc_conn \<Rightarrow> 'w \<Rightarrow> int \<Rightarrow> int \<Rightarrow> 'w \<times> 'm result" where
  "wc_ListPendingWithdrawals conn w page pageSize =
     conn w (admin_md gw_callerID) (W_ListPendingWithdrawals (int32 page) (int32 pageSize))"

definition wc_ReviewWithdrawal ::
  "('w, 'm) rpc_conn \<Rightarrow> 'w \<Rightarrow> string \<Rightarrow> string \<Rightarrow> string \<Rightarrow> string \<Rightarrow> 'w \<times> 'm result" where
  "wc_ReviewWithdrawal conn w i action txHash reviewedBy =
     conn w (admin_md reviewedBy) (W_ReviewWithdrawal i action txHash reviewedBy)"

definition debit_message :: "string \<Rightarrow> string \<Rightarrow> string \<Rightarrow> string \<Rightarrow> string \<Rightarrow> debit_request" where
  "debit_message userID currency amount referenceID metadataJSON =
     \<lparr>dr_UserId = userID, dr_Currency = currency, dr_Amount = amount, dr_ReferenceId = referenceID, dr_Metadata = metadataJSON\<rparr>"

definition wc_DebitWallet ::
  "('w, 'm) rpc_conn \<Rightarrow> 'w \<Rightarrow> string \<Rightarrow> string \<Rightarrow> string \<Rightarrow> string \<Rightarrow> string \<Rightarrow> 'w \<times> 'm result" where
  "wc_DebitWallet conn w userID currency amount referenceID metadataJSON =
     conn w (admin_md gw_callerID) (W_DebitWallet (debit_message userID currency amount referenceID metadataJSON))"

definition wc_CreditWallet ::
  "('w, 'm) rpc_conn \<Rightarrow> 'w \<Rightarrow> string \<Rightarrow> string \<Rightarrow> string \<Rightarrow> string \<Rightarrow> string \<Rightarrow> 'w \<times> 'm result" where
  "wc_CreditWallet conn w userID currency amount referenceID metadataJSON =
     conn w (admin_md gw_callerID) (W_CreditWallet (debit_message userID currency amount referenceID metadataJSON))"

section \<open>sportsbook_client.go\<close>

definition bc_PlaceBet ::
  "('w, 'm) rpc_conn \<Rightarrow> 'w \<Rightarrow> string \<Rightarrow> string \<Rightarrow> string \<Rightarrow> string \<Rightarrow> string \<Rightarrow> string \<Rightarrow> string \<Rightarrow> 'w \<times> 'm result" where
  "bc_PlaceBet conn w userID eventID marketID outcomeID stake currency referenceID =
     conn w (caller_md gw_callerID) (B_PlaceBet userID eventID marketID outcomeID stake currency referenceID)"

definition bc_GetBet :: "('w, 'm) rpc_conn \<Rightarrow> 'w \<Rightarrow> string \<Rightarrow> 'w \<times> 'm result" where
  "bc_GetBet conn w i = conn w (caller_md gw_callerID) (B_GetBet i)"

definition bc_ListBets :: "('w, 'm) rpc_conn \<Rightarrow> 'w \<Rightarrow> string \<Rightarrow> string \<Rightarrow> int \<Rightarrow> int \<Rightarrow> 'w \<times> 'm result" where
  "bc_ListBets conn w userID status page pageSize =
     conn w (caller_md gw_callerID) (B_ListBets userID status (int32 page) (int32 pageSize))"

definition bc_SettleBet :: "('w, 'm) rpc_conn \<Rightarrow> 'w \<Rightarrow> string \<Rightarrow> string \<Rightarrow> 'w \<times> 'm result" where
  "bc_SettleBet conn w betID outcome = conn w (admin_md gw_callerID) (B_SettleBet betID outcome)"

section \<open>oddsfeed_client.go\<close>

definition fc_ListSports :: "('w, 'm) rpc_conn \<Rightarrow> 'w \<Rightarrow> int \<Rightarrow> int \<Rightarrow> 'w \<times> 'm result" where
  "fc_ListSports conn w page pageSize = conn w [] (F_ListSports (int32 page) (int32 pageSize))"

definition fc_ListLeagues :: "('w, 'm) rpc_conn \<Rightarrow> 'w \<Rightarrow> string \<Rightarrow> int \<Rightarrow> int \<Rightarrow> 'w \<times> 'm result" where
  "fc_ListLeagues conn w sportID page pageSize = conn w [] (F_ListLeagues sportID (int32 page) (int32 pageSize))"

definition fc_ListEvents ::
  "('w, 'm) rpc_conn \<Rightarrow> 'w \<Rightarrow> string \<Rightarrow> string \<Rightarrow> string \<Rightarrow> int \<Rightarrow> int \<Rightarrow> 'w \<times> 'm result" where
  "fc_ListEvents conn w sportID leagueID status page pageSize =
     conn w [] (F_ListEvents sportID leagueID status (int32 page) (int32 pageSize))"

definition fc_GetEvent :: "('w, 'm) rpc_conn \<Rightarrow> 'w \<Rightarrow> string \<Rightarrow> 'w \<times> 'm result" where
  "fc_GetEvent conn w i = conn w [] (F_GetEvent i)"

definition fc_ListMarkets :: "('w, 'm) rpc_conn \<Rightarrow> 'w \<Rightarrow> string \<Rightarrow> string \<Rightarrow> int \<Rightarrow> int \<Rightarrow> 'w \<times> 'm result" where
  "fc_ListMarkets conn w eventID status page pageSize =
     conn w [] (F_ListMarkets eventID status (int32 page) (int32 pageSize))"

definition fc_ListOutcomes :: "('w, 'm) rpc_conn \<Rightarrow> 'w \<Rightarrow> string \<Rightarrow> string \<Rightarrow> int \<Rightarrow> int \<Rightarrow> 'w \<times> 'm result" where
  "fc_ListOutcomes conn w marketID status page pageSize =
     conn w [] (F_ListOutcomes marketID status (int32 page) (int32 pageSize))"

definition fc_ListLiveScores ::
  "('w, 'm) rpc_conn \<Rightarrow> 'w \<Rightarrow> string \<Rightarrow> string \<Rightarrow> int \<Rightarrow> int \<Rightarrow> 'w \<times> 'm result" where
  "fc_ListLiveScores conn w sportID leagueID page pageSize =
     conn w [] (F_ListLiveScores sportID leagueID (int32 page) (int32 pageSize))"

lemmas wallet_client_defs = wc_GetRates_def wc_GetBalance_def wc_ListTransactions_def wc_GetDepositAddress_def
  wc_RequestWithdrawal_def wc_ProcessDepositWebhook_def wc_ListPendingWithdrawals_def wc_ReviewWithdrawal_def
lemmas sportsbook_client_defs = bc_PlaceBet_def bc_GetBet_def bc_ListBets_def bc_SettleBet_def
lemmas oddsfeed_client_defs = fc_ListSports_def fc_ListLeagues_def fc_ListEvents_def fc_GetEvent_def
  fc_ListMarkets_def fc_ListOutcomes_def fc_ListLiveScores_def
lemmas client_defs = wallet_client_defs sportsbook_client_defs oddsfeed_client_defs

section \<open>The interceptors on these calls\<close>

text \<open>
  The method a call names and the user id of its request, and whether the server the call goes to
  lets it through to the handler; the odds feed has no interceptor.
\<close>

fun wallet_method_of :: "backend_call \<Rightarrow> (wallet_method \<times> string option) option" where
  "wallet_method_of (W_GetRates f) = Some (M_GetRates, None)"
| "wallet_method_of (W_GetBalance u c f) = Some (M_GetBalance, Some u)"
| "wallet_method_of (W_ListTransactions u f p n) = Some (M_ListTransactions, Some u)"
| "wallet_method_of (W_GetDepositAddress u c ch) = Some (M_GetDepositAddress, Some u)"
| "wallet_method_of (W_RequestWithdrawal u c a d ch) = Some (M_RequestWithdrawal, Some u)"
| "wallet_method_of (W_ProcessDepositWebhook b h) = Some (M_ProcessDepositWebhook, None)"
| "wallet_method_of (W_ListPendingWithdrawals p n) = Some (M_ListPendingWithdrawals, None)"
| "wallet_method_of (W_ReviewWithdrawal i a t r) = Some (M_ReviewWithdrawal, None)"
| "wallet_method_of (W_DebitWallet d) = Some (M_DebitWallet, Some (dr_UserId d))"
| "wallet_method_of (W_CreditWallet d) = Some (M_CreditWallet, Some (dr_UserId d))"
| "wallet_method_of c = None"

fun sportsbook_method_of :: "backend_call \<Rightarrow> sportsbook_method option" where
  "sportsbook_method_of (B_PlaceBet u e m oc s c r) = Some M_PlaceBet"
| "sportsbook_method_of (B_GetBet i) = Some M_GetBet"
| "sportsbook_method_of (B_ListBets u s p n) = Some M_ListBets"
| "sportsbook_method_of (B_SettleBet i r) = Some M_SettleBet"
| "sportsbook_method_of c = None"

definition admitted :: "string list gomap \<Rightarrow> backend_call \<Rightarrow> unit result" where
  "admitted md c =
     (case wallet_method_of c of
        Some (m, u) \<Rightarrow> wallet_AuthInterceptor (Some md) m u
      | None \<Rightarrow> (case sportsbook_method_of c of
                   Some m \<Rightarrow> sb_AuthInterceptor (Some md) m
                 | None \<Rightarrow> Inr ()))"

text \<open>The user a call acts for, and the calls reserved to administrators.\<close>

fun acts_for :: "backend_call \<Rightarrow> string option" where
  "acts_for (W_GetBalance u c f) = Some u"
| "acts_for (W_ListTransactions u f p n) = Some u"
| "acts_for (W_GetDepositAddress u c ch) = Some u"
| "acts_for (W_RequestWithdrawal u c a d ch) = Some u"
| "acts_for (W_ReviewWithdrawal i a t r) = Some r"
| "acts_for (W_DebitWallet d) = Some (dr_UserId d)"
| "acts_for (W_CreditWallet d) = Some (dr_UserId d)"
| "acts_for (B_PlaceBet u e m oc s c r) = Some u"
| "acts_for (B_ListBets u s p n) = Some u"
| "acts_for c = None"

fun admin_only :: "backend_call \<Rightarrow> bool" where
  "admin_only (W_ListPendingWithdrawals p n) = True"
| "admin_only (W_ReviewWithdrawal i a t r) = True"
| "admin_only (W_DebitWallet d) = True"
| "admin_only (W_CreditWallet d) = True"
| "admin_only (B_SettleBet i r) = True"
| "admin_only c = False"

end
