(* ===== verification/Gateway.thy ===== *)
theory Gateway
  imports RateLimit Auth GatewayClients
begin

text \<open>
  The gateway: \<open>internal/gateway/server.go\<close>, the middleware of \<open>internal/gateway/ratelimit.go\<close> and
  the middlewares of \<open>internal/shared/server\<close>.

  A handler maps the state of the backends and the response written so far to new ones; the
  middlewares also carry the key set, the limiter, and what was counted and logged.  Decoding a body
  into a JSON value, the order in which maps are walked, and the page of the metrics library are
  arguments.
\<close>

section \<open>Responses\<close>

text \<open>
  \<open>recorder.go\<close> and \<open>net/http\<close>: the first status counts, a body without a status means 200, and
  headers are sent with the status.  Header names are canonical.  A body that
  \<open>encoding/json\<close> writes is kept as a JSON value.
\<close>

datatype body = BodyText string | BodyJson json

record writer =
  wr_Header :: "string gomap"
  wr_Status :: "int option"
  wr_Body :: "body list"

definition new_writer :: writer where
  "new_writer = \<lparr>wr_Header = [], wr_Status = None, wr_Body = []\<rparr>"

fun canonical :: "bool \<Rightarrow> string \<Rightarrow> string" where
  "canonical up [] = []"
| "canonical up (c # cs) = (if up then upper_char c else lower_char c) # canonical (c = CHR ''-'') cs"

definition set_header :: "string \<Rightarrow> string \<Rightarrow> writer \<Rightarrow> writer" where
  "set_header k v w = (if wr_Status w = None then w\<lparr>wr_Header := mput (canonical True k) v (wr_Header w)\<rparr> else w)"

definition write_header :: "int \<Rightarrow> writer \<Rightarrow> writer" where
  "write_header code w = (if wr_Status w = None then w\<lparr>wr_Status := Some code\<rparr> else w)"

definition write_body :: "body \<Rightarrow> writer \<Rightarrow> writer" where
  "write_body b w = (let w' = write_header 200 w in w'\<lparr>wr_Body := wr_Body w' @ [b]\<rparr>)"

definition recorded_status :: "writer \<Rightarrow> int" where
  "recorded_status w = (case wr_Status w of None \<Rightarrow> 200 | Some s \<Rightarrow> s)"

definition http_Error :: "string \<Rightarrow> int \<Rightarrow> writer \<Rightarrow> writer" where
  "http_Error msg code w =
     write_body (BodyText (msg @ [CHR 0x0A])) (write_header code
       (set_header ''X-Content-Type-Options'' ''nosniff'' (set_header ''Content-Type'' ''text/plain; charset=utf-8'' w)))"

definition Header_Get :: "http_request \<Rightarrow> string \<Rightarrow> string" where
  "Header_Get rq name = first_of (rq_Header rq) (canonical True name)"

definition Query_Get :: "http_request \<Rightarrow> string \<Rightarrow> string" where
  "Query_Get rq name = first_of (rq_Query rq) name"

definition PathValue :: "http_request \<Rightarrow> string \<Rightarrow> string" where
  "PathValue rq name = first_of (rq_PathValue rq) name"

section \<open>The server\<close>

record gateway_server =
  gs_adminUserIDs :: "unit gomap"
  gs_corsAllowedOrigins :: "unit gomap"
  gs_corsAllowAll :: bool
  gs_supportedCurrencies :: "string list"
  gs_supportedChains :: "string list"
  gs_supportedPairs :: "unit gomap"
  gs_limits :: limits

definition splitTrim :: "string \<Rightarrow> string list" where
  "splitTrim s = filter (\<lambda>p. p \<noteq> []) (List.map TrimSpace (Split (CHR '','') s))"

definition key_set :: "string list \<Rightarrow> unit gomap" where
  "key_set ks = fold (\<lambda>k m. mput k () m) ks []"

definition parsePairs :: "string \<Rightarrow> unit gomap" where
  "parsePairs s = make_pairs (Split (CHR '','') s) []"

definition deriveLists ::
  "(string list \<Rightarrow> string list) \<Rightarrow> unit gomap \<Rightarrow> string list \<Rightarrow> string list \<Rightarrow> string list \<times> string list" where
  "deriveLists ord pairs currencies chns =
     (let parts = List.map (\<lambda>pair. SplitN2 (CHR '':'') pair) (ord (List.map fst pairs));
          curSet = key_set (List.map (\<lambda>p. p ! 0) parts);
          chainSet = key_set (List.map (\<lambda>p. p ! 1) parts)
      in (if currencies = [] then ord (List.map fst curSet) else currencies,
          if chns = [] then ord (List.map fst chainSet) else chns))"

definition NewServer ::
  "(string list \<Rightarrow> string list) \<Rightarrow> string \<Rightarrow> string \<Rightarrow> string \<Rightarrow> string \<Rightarrow> string \<Rightarrow> limits \<Rightarrow> gateway_server" where
  "NewServer ord adminIDs originList currencyList chainList pairList lims =
     (let admins = key_set (splitTrim adminIDs);
          os = splitTrim originList;
          pairs = parsePairs pairList;
          currencies = splitTrim currencyList;
          chns = splitTrim chainList;
          (currencies, chns) = (if pairs \<noteq> [] then deriveLists ord pairs currencies chns else (currencies, chns))
      in \<lparr>gs_adminUserIDs = admins, gs_corsAllowedOrigins = key_set (filter (\<lambda>a. a \<noteq> ''*'') os),
          gs_corsAllowAll = List.member os ''*'', gs_supportedCurrencies = currencies, gs_supportedChains = chns,
          gs_supportedPairs = pairs, gs_limits = lims\<rparr>)"

definition gw_isSupportedCurrency :: "gateway_server \<Rightarrow> string \<Rightarrow> bool" where
  "gw_isSupportedCurrency S c \<longleftrightarrow> list_ex (\<lambda>c2. c2 = c) (gs_supportedCurrencies S)"

definition gw_isSupportedChain :: "gateway_server \<Rightarrow> string \<Rightarrow> bool" where
  "gw_isSupportedChain S c \<longleftrightarrow> list_ex (\<lambda>c2. c2 = c) (gs_supportedChains S)"

definition gw_isSupportedPair :: "gateway_server \<Rightarrow> string \<Rightarrow> string \<Rightarrow> bool" where
  "gw_isSupportedPair S currency chain \<longleftrightarrow>
     (if gs_supportedPairs S = [] then gw_isSupportedCurrency S currency \<and> gw_isSupportedChain S chain
      else mget (gs_supportedPairs S) (currency @ '':'' @ chain) \<noteq> None)"

definition firstOrEmpty :: "string list \<Rightarrow> string" where
  "firstOrEmpty parts = (case parts of [] \<Rightarrow> [] | p # ps \<Rightarrow> p)"

text \<open>
  What the gateway is built on.  \<open>gl_decode\<close> is the first JSON value of a body as it is read,
  \<open>gl_unmarshal\<close> the JSON value of a whole text.
\<close>

record ('d, 'k, 'l, 'w, 'm) gateway_lib =
  gl_D :: "'d decimal_ops"
  gl_jwks :: "'k jwks_lib"
  gl_limiters :: "'l limiter_lib"
  gl_backends :: "('w, 'm) backends"
  gl_decode :: "string result \<Rightarrow> json result"
  gl_unmarshal :: "string \<Rightarrow> json result"
  gl_order :: "string list \<Rightarrow> string list"
  gl_metrics :: "(string \<times> string \<times> int) list \<Rightarrow> writer \<Rightarrow> writer"

abbreviation gl_conn :: "('d, 'k, 'l, 'w, 'm) gateway_lib \<Rightarrow> ('w, 'm) rpc_conn" where
  "gl_conn L \<equiv> bk_call (gl_backends L)"

section \<open>Writing responses\<close>

datatype 'm content = Msg 'm | Val json

definition writeJSON :: "('d, 'k, 'l, 'w, 'm) gateway_lib \<Rightarrow> int \<Rightarrow> 'm content \<Rightarrow> writer \<Rightarrow> writer" where
  "writeJSON L code v w =
     (let w' = write_header code (set_header ''Content-Type'' ''application/json'' w)
      in case v of
           Msg m \<Rightarrow> (case bk_Marshal (gl_backends L) m of Inl err \<Rightarrow> w' | Inr b \<Rightarrow> write_body (BodyText b) w')
         | Val j \<Rightarrow> write_body (BodyJson j) w')"

definition writeError :: "int \<Rightarrow> go_error option \<Rightarrow> writer \<Rightarrow> writer" where
  "writeError code err w =
     write_body (BodyJson (JObj [(''error'', JStr (case err of None \<Rightarrow> ''internal error'' | Some e \<Rightarrow> error_text e))]))
       (write_header code (set_header ''Content-Type'' ''application/json'' w))"

text \<open>\<open>status.FromError\<close> looks through wrapped errors.\<close>

fun status_code :: "go_error \<Rightarrow> grpc_code option" where
  "status_code (StatusErr c m) = Some c"
| "status_code (WrapErr p e) = status_code e"
| "status_code e = None"

definition grpcStatusToHTTP :: "go_error \<Rightarrow> int" where
  "grpcStatusToHTTP err =
     (case status_code err of
        Some InvalidArgument \<Rightarrow> 400
      | Some NotFound \<Rightarrow> 404
      | Some AlreadyExists \<Rightarrow> 409
      | Some Unauthenticated \<Rightarrow> 401
      | Some PermissionDenied \<Rightarrow> 403
      | Some FailedPrecondition \<Rightarrow> 409
      | _ \<Rightarrow> 500)"

text \<open>How a handler ends that passes the response of a call on, \<open>fail\<close> the status of an error.\<close>

definition answer ::
  "('d, 'k, 'l, 'w, 'm) gateway_lib \<Rightarrow> (go_error \<Rightarrow> int) \<Rightarrow> int \<Rightarrow> writer \<Rightarrow> 'w \<times> 'm result \<Rightarrow> 'w \<times> writer" where
  "answer L fail code w r =
     (case r of
        (b, Inl err) \<Rightarrow> (b, writeError (fail err) (Some err) w)
      | (b, Inr m) \<Rightarrow> (b, writeJSON L code (Msg m) w))"

definition userFromContext :: "'w \<times> writer \<Rightarrow> http_request \<Rightarrow> (auth_user \<Rightarrow> 'w \<times> writer) \<Rightarrow> 'w \<times> writer" where
  "userFromContext bw rq k =
     (case rq_user rq of
        None \<Rightarrow> (fst bw, writeError 401 None (snd bw))
      | Some user \<Rightarrow> k user)"

definition decode_body ::
  "('d, 'k, 'l, 'w, 'm) gateway_lib \<Rightarrow> (string \<times> (json \<Rightarrow> 'a \<Rightarrow> 'a result)) list \<Rightarrow> 'a \<Rightarrow> http_request \<Rightarrow> 'a result" where
  "decode_body L fs zero rq =
     (case gl_decode L (rq_Body rq) of Inl err \<Rightarrow> Inl err | Inr j \<Rightarrow> json_struct fs j zero)"

definition positive_or :: "int \<Rightarrow> string \<Rightarrow> int" where
  "positive_or d s = (case ParseInt64 s of Inl err \<Rightarrow> d | Inr v \<Rightarrow> if v > 0 then v else d)"

definition pagination :: "http_request \<Rightarrow> int \<times> int" where
  "pagination rq = (positive_or 1 (Query_Get rq ''page''), positive_or 20 (Query_Get rq ''page_size''))"

section \<open>Handlers\<close>

subsection \<open>Wallet\<close>

definition handleHealth :: "'w \<times> writer \<Rightarrow> http_request \<Rightarrow> 'w \<times> writer" where
  "handleHealth bw rq =
     (fst bw, write_body (BodyText (''{'' @ go_quote ''status'' @ '':'' @ go_quote ''healthy'' @ '','' @ go_quote ''service'' @ '':'' @ go_quote ''gateway'' @ ''}''))
       (write_header 200 (set_header ''Content-Type'' ''application/json'' (snd bw))))"

definition json_list_of :: "string list \<Rightarrow> json" where
  "json_list_of xs = JArr (List.map JStr xs)"

definition handleSupported ::
  "('d, 'k, 'l, 'w, 'm) gateway_lib \<Rightarrow> gateway_server \<Rightarrow> 'w \<times> writer \<Rightarrow> http_request \<Rightarrow> 'w \<times> writer" where
  "handleSupported L S bw rq =
     (fst bw, writeJSON L 200
        (Val (JObj [(''chains'', json_list_of (gs_supportedChains S)), (''currencies'', json_list_of (gs_supportedCurrencies S)),
                    (''pairs'', json_list_of (gl_order L (List.map fst (gs_supportedPairs S))))])) (snd bw))"

text \<open>A response without rates has no map, which is \<open>null\<close> in JSON.\<close>

definition handleRates ::
  "('d, 'k, 'l, 'w, 'm) gateway_lib \<Rightarrow> 'w \<times> writer \<Rightarrow> http_request \<Rightarrow> 'w \<times> writer" where
  "handleRates L bw rq =
     (case wc_GetRates (gl_conn L) (fst bw) (Query_Get rq ''fiat_currency'') of
        (b, Inl err) \<Rightarrow> (b, writeError 500 (Some err) (snd bw))
      | (b, Inr m) \<Rightarrow>
          (let rates = bk_Rates (gl_backends L) m
           in (b, writeJSON L 200
                (Val (JObj [(''fiat_currency'', JStr (bk_FiatCurrency (gl_backends L) m)),
                            (''rates'', if rates = [] then JNull else JObj (List.map (\<lambda>(k, v). (k, JStr v)) rates))])) (snd bw))))"

definition handleBalance ::
  "('d, 'k, 'l, 'w, 'm) gateway_lib \<Rightarrow> gateway_server \<Rightarrow> 'w \<times> writer \<Rightarrow> http_request \<Rightarrow> 'w \<times> writer" where
  "handleBalance L S bw rq =
     userFromContext bw rq (\<lambda>user.
       let q = Query_Get rq ''currency'';
           fiat = Query_Get rq ''fiat_currency'';
           currency = (if q = [] then firstOrEmpty (gs_supportedCurrencies S) else q)
       in if \<not> gw_isSupportedCurrency S currency
          then (fst bw, writeError 400 (Some (NewErr (''unsupported currency: '' @ currency))) (snd bw))
          else answer L (\<lambda>_. 500) 200 (snd bw) (wc_GetBalance (gl_conn L) (fst bw) (au_ID user) currency fiat))"

definition handleTransactions ::
  "('d, 'k, 'l, 'w, 'm) gateway_lib \<Rightarrow> 'w \<times> writer \<Rightarrow> http_request \<Rightarrow> 'w \<times> writer" where
  "handleTransactions L bw rq =
     userFromContext bw rq (\<lambda>user.
       answer L (\<lambda>_. 500) 200 (snd bw)
         (wc_ListTransactions (gl_conn L) (fst bw) (au_ID user) (Query_Get rq ''fiat_currency'') 1 20))"

definition unsupported_pair :: "string \<Rightarrow> string \<Rightarrow> go_error" where
  "unsupported_pair currency chain = NewErr (''unsupported currency-chain pair: '' @ currency @ '':'' @ chain)"

definition handleDepositAddress ::
  "('d, 'k, 'l, 'w, 'm) gateway_lib \<Rightarrow> gateway_server \<Rightarrow> 'w \<times> writer \<Rightarrow> http_request \<Rightarrow> 'w \<times> writer" where
  "handleDepositAddress L S bw rq =
     userFromContext bw rq (\<lambda>user.
       let currency = (if Query_Get rq ''currency'' = [] then firstOrEmpty (gs_supportedCurrencies S) else Query_Get rq ''currency'');
           chain = (if Query_Get rq ''chain'' = [] then firstOrEmpty (gs_supportedChains S) else Query_Get rq ''chain'')
       in if \<not> gw_isSupportedPair S currency chain
          then (fst bw, writeError 400 (Some (unsupported_pair currency chain)) (snd bw))
          else answer L (\<lambda>_. 500) 200 (snd bw) (wc_GetDepositAddress (gl_conn L) (fst bw) (au_ID user) currency chain))"

record withdraw_body =
  wb_Currency :: string
  wb_Amount :: string
  wb_DestinationAddress :: string
  wb_Chain :: string

definition withdraw_fields :: "(string \<times> (json \<Rightarrow> withdraw_body \<Rightarrow> withdraw_body result)) list" where
  "withdraw_fields =
     [(''currency'', json_into wb_Currency (\<lambda>x r. r\<lparr>wb_Currency := x\<rparr>) json_string),
      (''amount'', json_into wb_Amount (\<lambda>x r. r\<lparr>wb_Amount := x\<rparr>) json_string),
      (''destinationAddress'', json_into wb_DestinationAddress (\<lambda>x r. r\<lparr>wb_DestinationAddress := x\<rparr>) json_string),
      (''chain'', json_into wb_Chain (\<lambda>x r. r\<lparr>wb_Chain := x\<rparr>) json_string)]"

definition handleWithdraw ::
  "('d, 'k, 'l, 'w, 'm) gateway_lib \<Rightarrow> gateway_server \<Rightarrow> 'w \<times> writer \<Rightarrow> http_request \<Rightarrow> 'w \<times> writer" where
  "handleWithdraw L S bw rq =
     userFromContext bw rq (\<lambda>user.
       case decode_body L withdraw_fields \<lparr>wb_Currency = [], wb_Amount = [], wb_DestinationAddress = [], wb_Chain = []\<rparr> rq of
         Inl err \<Rightarrow> (fst bw, writeError 400 (Some err) (snd bw))
       | Inr body \<Rightarrow>
           (let currency = (if wb_Currency body = [] then firstOrEmpty (gs_supportedCurrencies S) else wb_Currency body);
                chain = (if wb_Chain body = [] then firstOrEmpty (gs_supportedChains S) else wb_Chain body)
            in if \<not> gw_isSupportedPair S currency chain
               then (fst bw, writeError 400 (Some (unsupported_pair currency chain)) (snd bw))
               else case ValidateWithdrawal (gl_D L) (gs_limits S) (wb_Amount body) of
                 Inl err \<Rightarrow> (fst bw, writeError 400 (Some err) (snd bw))
               | Inr _ \<Rightarrow>
                   answer L (\<lambda>_. 500) 200 (snd bw)
                     (wc_RequestWithdrawal (gl_conn L) (fst bw) (au_ID user) currency (wb_Amount body) (wb_DestinationAddress body) chain)))"

definition handleListPendingWithdrawals ::
  "('d, 'k, 'l, 'w, 'm) gateway_lib \<Rightarrow> 'w \<times> writer \<Rightarrow> http_request \<Rightarrow> 'w \<times> writer" where
  "handleListPendingWithdrawals L bw rq =
     answer L (\<lambda>_. 500) 200 (snd bw) (wc_ListPendingWithdrawals (gl_conn L) (fst bw) 1 20)"

record review_body =
  rb_WithdrawalID :: string
  rb_Action :: string
  rb_TxHash :: string

definition review_fields :: "(string \<times> (json \<Rightarrow> review_body \<Rightarrow> review_body result)) list" where
  "review_fields =
     [(''withdrawalId'', json_into rb_WithdrawalID (\<lambda>x r. r\<lparr>rb_WithdrawalID := x\<rparr>) json_string),
      (''action'', json_into rb_Action (\<lambda>x r. r\<lparr>rb_Action := x\<rparr>) json_string),
      (''txHash'', json_into rb_TxHash (\<lambda>x r. r\<lparr>rb_TxHash := x\<rparr>) json_string)]"

definition handleReviewWithdrawal ::
  "('d, 'k, 'l, 'w, 'm) gateway_lib \<Rightarrow> 'w \<times> writer \<Rightarrow> http_request \<Rightarrow> 'w \<times> writer" where
  "handleReviewWithdrawal L bw rq =
     (case decode_body L review_fields \<lparr>rb_WithdrawalID = [], rb_Action = [], rb_TxHash = []\<rparr> rq of
        Inl err \<Rightarrow> (fst bw, writeError 400 (Some err) (snd bw))
      | Inr body \<Rightarrow>
          userFromContext bw rq (\<lambda>user.
            answer L (\<lambda>_. 500) 200 (snd bw)
              (wc_ReviewWithdrawal (gl_conn L) (fst bw) (rb_WithdrawalID body) (rb_Action body) (rb_TxHash body) (au_ID user))))"

text \<open>The amount of a webhook: the field \<open>data.amount\<close> of its body.\<close>

definition webhook_amount :: "('d, 'k, 'l, 'w, 'm) gateway_lib \<Rightarrow> string \<Rightarrow> string result" where
  "webhook_amount L body =
     (case gl_unmarshal L body of
        Inl err \<Rightarrow> Inl err
      | Inr j \<Rightarrow> json_struct [(''data'', json_struct [(''amount'', json_string)])] j [])"

definition handleXcashWebhook ::
  "('d, 'k, 'l, 'w, 'm) gateway_lib \<Rightarrow> gateway_server \<Rightarrow> 'w \<times> writer \<Rightarrow> http_request \<Rightarrow> 'w \<times> writer" where
  "handleXcashWebhook L S bw rq =
     (case rq_Body rq of
        Inl err \<Rightarrow> (fst bw, writeError 400 (Some err) (snd bw))
      | Inr body \<Rightarrow>
     (case webhook_amount L body of
        Inl err \<Rightarrow> (fst bw, writeError 400 (Some err) (snd bw))
      | Inr amount \<Rightarrow>
     (case ValidateDeposit (gl_D L) (gs_limits S) amount of
        Inl err \<Rightarrow> (fst bw, writeError 400 (Some err) (snd bw))
      | Inr _ \<Rightarrow>
          (let headers = List.map (\<lambda>name. (name, Header_Get rq name)) [''XC-Nonce'', ''XC-Timestamp'', ''XC-Signature'']
           in case wc_ProcessDepositWebhook (gl_conn L) (fst bw) body headers of
                (b, Inl err) \<Rightarrow> (b, writeError 400 (Some err) (snd bw))
              | (b, Inr m) \<Rightarrow>
                  (b, write_body (BodyText (bk_ResponseBody (gl_backends L) m))
                        (write_header 200 (set_header ''Content-Type'' ''text/plain'' (snd bw))))))))"

subsection \<open>Odds feed\<close>

definition handleListSports :: "('d, 'k, 'l, 'w, 'm) gateway_lib \<Rightarrow> 'w \<times> writer \<Rightarrow> http_request \<Rightarrow> 'w \<times> writer" where
  "handleListSports L bw rq =
     (case pagination rq of (page, pageSize) \<Rightarrow>
        answer L (\<lambda>_. 500) 200 (snd bw) (fc_ListSports (gl_conn L) (fst bw) page pageSize))"

definition handleListLeagues :: "('d, 'k, 'l, 'w, 'm) gateway_lib \<Rightarrow> 'w \<times> writer \<Rightarrow> http_request \<Rightarrow> 'w \<times> writer" where
  "handleListLeagues L bw rq =
     (case pagination rq of (page, pageSize) \<Rightarrow>
        answer L (\<lambda>_. 500) 200 (snd bw) (fc_ListLeagues (gl_conn L) (fst bw) (PathValue rq ''sport_id'') page pageSize))"

definition handleListEvents :: "('d, 'k, 'l, 'w, 'm) gateway_lib \<Rightarrow> 'w \<times> writer \<Rightarrow> http_request \<Rightarrow> 'w \<times> writer" where
  "handleListEvents L bw rq =
     (case pagination rq of (page, pageSize) \<Rightarrow>
        answer L (\<lambda>_. 500) 200 (snd bw)
          (fc_ListEvents (gl_conn L) (fst bw) (Query_Get rq ''sport_id'') (Query_Get rq ''league_id'') (Query_Get rq ''status'') page pageSize))"

definition handleGetEvent :: "('d, 'k, 'l, 'w, 'm) gateway_lib \<Rightarrow> 'w \<times> writer \<Rightarrow> http_request \<Rightarrow> 'w \<times> writer" where
  "handleGetEvent L bw rq =
     (case fc_GetEvent (gl_conn L) (fst bw) (PathValue rq ''event_id'') of
        (b, Inl err) \<Rightarrow> (b, writeError 500 (Some err) (snd bw))
      | (b, Inr m) \<Rightarrow>
          if \<not> bk_HasEvent (gl_backends L) m then (b, writeError 404 (Some (NewErr ''event not found'')) (snd bw))
          else (b, writeJSON L 200 (Msg m) (snd bw)))"

definition handleListMarkets :: "('d, 'k, 'l, 'w, 'm) gateway_lib \<Rightarrow> 'w \<times> writer \<Rightarrow> http_request \<Rightarrow> 'w \<times> writer" where
  "handleListMarkets L bw rq =
     (case pagination rq of (page, pageSize) \<Rightarrow>
        answer L (\<lambda>_. 500) 200 (snd bw)
          (fc_ListMarkets (gl_conn L) (fst bw) (PathValue rq ''event_id'') (Query_Get rq ''status'') page pageSize))"

definition handleListOutcomes :: "('d, 'k, 'l, 'w, 'm) gateway_lib \<Rightarrow> 'w \<times> writer \<Rightarrow> http_request \<Rightarrow> 'w \<times> writer" where
  "handleListOutcomes L bw rq =
     (case pagination rq of (page, pageSize) \<Rightarrow>
        answer L (\<lambda>_. 500) 200 (snd bw)
          (fc_ListOutcomes (gl_conn L) (fst bw) (PathValue rq ''market_id'') (Query_Get rq ''status'') page pageSize))"

definition handleListLiveEvents :: "('d, 'k, 'l, 'w, 'm) gateway_lib \<Rightarrow> 'w \<times> writer \<Rightarrow> http_request \<Rightarrow> 'w \<times> writer" where
  "handleListLiveEvents L bw rq =
     (case pagination rq of (page, pageSize) \<Rightarrow>
        answer L (\<lambda>_. 500) 200 (snd bw)
          (fc_ListLiveScores (gl_conn L) (fst bw) (Query_Get rq ''sport_id'') (Query_Get rq ''league_id'') page pageSize))"

subsection \<open>Bets\<close>

record place_body =
  lb_EventID :: string
  lb_MarketID :: string
  lb_OutcomeID :: string
  lb_Stake :: string
  lb_Currency :: string
  lb_ReferenceID :: string

definition place_fields :: "(string \<times> (json \<Rightarrow> place_body \<Rightarrow> place_body result)) list" where
  "place_fields =
     [(''eventId'', json_into lb_EventID (\<lambda>x r. r\<lparr>lb_EventID := x\<rparr>) json_string),
      (''marketId'', json_into lb_MarketID (\<lambda>x r. r\<lparr>lb_MarketID := x\<rparr>) json_string),
      (''outcomeId'', json_into lb_OutcomeID (\<lambda>x r. r\<lparr>lb_OutcomeID := x\<rparr>) json_string),
      (''stake'', json_into lb_Stake (\<lambda>x r. r\<lparr>lb_Stake := x\<rparr>) json_string),
      (''currency'', json_into lb_Currency (\<lambda>x r. r\<lparr>lb_Currency := x\<rparr>) json_string),
      (''referenceId'', json_into lb_ReferenceID (\<lambda>x r. r\<lparr>lb_ReferenceID := x\<rparr>) json_string)]"

definition handlePlaceBet :: "('d, 'k, 'l, 'w, 'm) gateway_lib \<Rightarrow> 'w \<times> writer \<Rightarrow> http_request \<Rightarrow> 'w \<times> writer" where
  "handlePlaceBet L bw rq =
     userFromContext bw rq (\<lambda>user.
       case decode_body L place_fields
              \<lparr>lb_EventID = [], lb_MarketID = [], lb_OutcomeID = [], lb_Stake = [], lb_Currency = [], lb_ReferenceID = []\<rparr> rq of
         Inl err \<Rightarrow> (fst bw, writeError 400 (Some err) (snd bw))
       | Inr body \<Rightarrow>
           answer L grpcStatusToHTTP 201 (snd bw)
             (bc_PlaceBet (gl_conn L) (fst bw) (au_ID user) (lb_EventID body) (lb_MarketID body) (lb_OutcomeID body)
               (lb_Stake body) (lb_Currency body) (lb_ReferenceID body)))"

definition handleListBets :: "('d, 'k, 'l, 'w, 'm) gateway_lib \<Rightarrow> 'w \<times> writer \<Rightarrow> http_request \<Rightarrow> 'w \<times> writer" where
  "handleListBets L bw rq =
     userFromContext bw rq (\<lambda>user.
       case pagination rq of (page, pageSize) \<Rightarrow>
         answer L grpcStatusToHTTP 200 (snd bw)
           (bc_ListBets (gl_conn L) (fst bw) (au_ID user) (Query_Get rq ''status'') page pageSize))"

definition handleBets :: "('d, 'k, 'l, 'w, 'm) gateway_lib \<Rightarrow> 'w \<times> writer \<Rightarrow> http_request \<Rightarrow> 'w \<times> writer" where
  "handleBets L bw rq =
     (if rq_Method rq = ''POST'' then handlePlaceBet L bw rq
      else if rq_Method rq = ''GET'' then handleListBets L bw rq
      else (fst bw, writeError 405 None (snd bw)))"

definition handleGetBet :: "('d, 'k, 'l, 'w, 'm) gateway_lib \<Rightarrow> 'w \<times> writer \<Rightarrow> http_request \<Rightarrow> 'w \<times> writer" where
  "handleGetBet L bw rq =
     userFromContext bw rq (\<lambda>user.
       case bc_GetBet (gl_conn L) (fst bw) (PathValue rq ''bet_id'') of
         (b, Inl err) \<Rightarrow> (b, writeError (grpcStatusToHTTP err) (Some err) (snd bw))
       | (b, Inr m) \<Rightarrow>
           if bk_BetUser (gl_backends L) m \<noteq> Some (au_ID user)
           then (b, writeError 404 (Some (NewErr ''bet not found'')) (snd bw))
           else (b, writeJSON L 200 (Msg m) (snd bw)))"

record settle_body =
  eb_BetID :: string
  eb_Outcome :: string

definition settle_fields :: "(string \<times> (json \<Rightarrow> settle_body \<Rightarrow> settle_body result)) list" where
  "settle_fields =
     [(''betId'', json_into eb_BetID (\<lambda>x r. r\<lparr>eb_BetID := x\<rparr>) json_string),
      (''outcome'', json_into eb_Outcome (\<lambda>x r. r\<lparr>eb_Outcome := x\<rparr>) json_string)]"

definition handleSettleBet :: "('d, 'k, 'l, 'w, 'm) gateway_lib \<Rightarrow> 'w \<times> writer \<Rightarrow> http_request \<Rightarrow> 'w \<times> writer" where
  "handleSettleBet L bw rq =
     (case decode_body L settle_fields \<lparr>eb_BetID = [], eb_Outcome = []\<rparr> rq of
        Inl err \<Rightarrow> (fst bw, writeError 400 (Some err) (snd bw))
      | Inr body \<Rightarrow>
          answer L grpcStatusToHTTP 200 (snd bw)
            (bc_SettleBet (gl_conn L) (fst bw) (eb_BetID body) (eb_Outcome body)))"

section \<open>Middlewares\<close>

text \<open>
  The state of a running gateway.  Of the counters and the log, one entry is kept for each request:
  method, route label and status; request id, status, method and path.
\<close>

record ('k, 'l, 'w) gateway_state =
  gw_backend :: 'w
  gw_jwks :: "'k jwks_client"
  gw_limiter :: "'l rate_limiter"
  gw_redis :: "bucket gomap"
  gw_metrics :: "(string \<times> string \<times> int) list"
  gw_log :: "(string \<times> int \<times> string \<times> string) list"

text \<open>What a request meets: the clock, the seconds of the clock, a fresh id, and the fate of the call to Redis.\<close>

record request_env =
  qe_now :: gtime
  qe_unix :: int
  qe_uuid :: string
  qe_fault :: "string option"
  qe_applied :: bool

type_synonym ('k, 'l, 'w) http_handler =
  "('k, 'l, 'w) gateway_state \<times> writer \<Rightarrow> http_request \<Rightarrow> ('k, 'l, 'w) gateway_state \<times> writer"

text \<open>A handler that uses the backends only.\<close>

definition on_backend :: "('w \<times> writer \<Rightarrow> http_request \<Rightarrow> 'w \<times> writer) \<Rightarrow> ('k, 'l, 'w) http_handler" where
  "on_backend h gw rq =
     (case h (gw_backend (fst gw), snd gw) rq of (b, w) \<Rightarrow> ((fst gw)\<lparr>gw_backend := b\<rparr>, w))"

subsection \<open>server.go\<close>

definition auth ::
  "('d, 'k, 'l, 'w, 'm) gateway_lib \<Rightarrow> request_env \<Rightarrow> ('k, 'l, 'w) http_handler \<Rightarrow> ('k, 'l, 'w) http_handler" where
  "auth L E next gw rq =
     (case jwks_UserFromRequest (gl_jwks L) (qe_now E) (gw_jwks (fst gw)) rq of
        (c, r) \<Rightarrow>
          let g = (fst gw)\<lparr>gw_jwks := c\<rparr>
          in case r of
               Inl err \<Rightarrow> (g, writeError 401 (Some err) (snd gw))
             | Inr user \<Rightarrow> next (g, snd gw) (rq\<lparr>rq_user := Some user\<rparr>))"

definition admin :: "gateway_server \<Rightarrow> ('k, 'l, 'w) http_handler \<Rightarrow> ('k, 'l, 'w) http_handler" where
  "admin S next gw rq =
     (case rq_user rq of
        None \<Rightarrow> (fst gw, writeError 401 None (snd gw))
      | Some user \<Rightarrow>
          if mget (gs_adminUserIDs S) (au_ID user) = None then (fst gw, write_header 403 (snd gw))
          else next gw rq)"

definition cors_headers :: "string \<Rightarrow> writer \<Rightarrow> writer" where
  "cors_headers allowedOrigin w =
     set_header ''Access-Control-Max-Age'' ''86400''
       (set_header ''Access-Control-Allow-Headers'' ''Authorization, Content-Type''
         (set_header ''Access-Control-Allow-Methods'' ''GET, POST, PUT, PATCH, DELETE, OPTIONS''
           (set_header ''Access-Control-Allow-Origin'' allowedOrigin w)))"

definition cors :: "gateway_server \<Rightarrow> ('k, 'l, 'w) http_handler \<Rightarrow> ('k, 'l, 'w) http_handler" where
  "cors S next gw rq =
     (let origin = Header_Get rq ''Origin'';
          allowed = (if gs_corsAllowAll S then Some ''*''
                     else if origin \<noteq> [] \<and> mget (gs_corsAllowedOrigins S) origin \<noteq> None then Some origin else None);
          w = (case allowed of None \<Rightarrow> snd gw | Some allowedOrigin \<Rightarrow> cors_headers allowedOrigin (snd gw))
      in if rq_Method rq = ''OPTIONS'' then (fst gw, write_header 204 w) else next (fst gw, w) rq)"

subsection \<open>ratelimit.go\<close>

definition windowSeconds :: int where
  "windowSeconds = 60"

definition limiter_allow ::
  "('d, 'k, 'l, 'w, 'm) gateway_lib \<Rightarrow> request_env \<Rightarrow> ('k, 'l, 'w) gateway_state \<Rightarrow> string
   \<Rightarrow> ('k, 'l, 'w) gateway_state \<times> bool result" where
  "limiter_allow L E g key =
     (if rl_backend (gw_limiter g) = ''redis'' then
        (case allowRedis (gw_limiter g) (qe_unix E) (qe_fault E) (qe_applied E) (gw_redis g) key of
           (r, res) \<Rightarrow> (g\<lparr>gw_redis := r\<rparr>, res))
      else
        (case allowMemory (gl_limiters L) (gw_limiter g) key of (rl, ok) \<Rightarrow> (g\<lparr>gw_limiter := rl\<rparr>, Inr ok)))"

definition request_key :: "http_request \<Rightarrow> string" where
  "request_key rq = limiter_key (Header_Get rq ''X-Forwarded-For'') (rq_RemoteAddr rq) (map_option au_ID (rq_user rq))"

definition limiter_Middleware ::
  "('d, 'k, 'l, 'w, 'm) gateway_lib \<Rightarrow> request_env \<Rightarrow> ('k, 'l, 'w) http_handler \<Rightarrow> ('k, 'l, 'w) http_handler" where
  "limiter_Middleware L E next gw rq =
     (case limiter_allow L E (fst gw) (request_key rq) of
        (g, Inl err) \<Rightarrow> (g, http_Error ''rate limiter unavailable'' 429 (set_header ''Retry-After'' (itoa windowSeconds) (snd gw)))
      | (g, Inr allowed) \<Rightarrow>
          if \<not> allowed then (g, http_Error ''rate limit exceeded'' 429 (set_header ''Retry-After'' (itoa windowSeconds) (snd gw)))
          else next (g, snd gw) rq)"

subsection \<open>internal/shared/server\<close>

definition RequestID :: "request_env \<Rightarrow> ('k, 'l, 'w) http_handler \<Rightarrow> ('k, 'l, 'w) http_handler" where
  "RequestID E next gw rq =
     (let i = (if Header_Get rq ''X-Request-ID'' = [] then qe_uuid E else Header_Get rq ''X-Request-ID'')
      in next (fst gw, set_header ''X-Request-ID'' i (snd gw)) (rq\<lparr>rq_requestID := Some i\<rparr>))"

definition Logging :: "('k, 'l, 'w) http_handler \<Rightarrow> ('k, 'l, 'w) http_handler" where
  "Logging next gw rq =
     (case next gw rq of
        (g, w) \<Rightarrow>
          (g\<lparr>gw_log := gw_log g @ [(case rq_requestID rq of None \<Rightarrow> [] | Some i \<Rightarrow> i, recorded_status w, rq_Method rq, rq_URLPath rq)]\<rparr>, w))"

definition GetRoutePattern :: "http_request \<Rightarrow> string" where
  "GetRoutePattern rq = (case rq_route rq of None \<Rightarrow> [] | Some p \<Rightarrow> p)"

definition WithRoutePattern :: "string \<Rightarrow> ('k, 'l, 'w) http_handler \<Rightarrow> ('k, 'l, 'w) http_handler" where
  "WithRoutePattern pattern next gw rq = next gw (rq\<lparr>rq_route := Some pattern\<rparr>)"

definition Metrics :: "('k, 'l, 'w) http_handler \<Rightarrow> ('k, 'l, 'w) http_handler" where
  "Metrics next gw rq =
     (case next gw rq of
        (g, w) \<Rightarrow>
          let route = (if GetRoutePattern rq = [] then rq_URLPath rq else GetRoutePattern rq)
          in (g\<lparr>gw_metrics := gw_metrics g @ [(rq_Method rq, route, recorded_status w)]\<rparr>, w))"

definition MetricsHandler :: "('d, 'k, 'l, 'w, 'm) gateway_lib \<Rightarrow> ('k, 'l, 'w) http_handler" where
  "MetricsHandler L gw rq = (fst gw, gl_metrics L (gw_metrics (fst gw)) (snd gw))"

section \<open>Routes\<close>

text \<open>
  \<open>http.ServeMux\<close> on the patterns of this server: a segment in braces matches one segment that is
  not empty.  A path that is not clean is redirected, here without the text of the redirect.  No two
  patterns match the same path.
\<close>

fun match_path :: "string list \<Rightarrow> string list \<Rightarrow> string gomap option" where
  "match_path [] [] = Some []"
| "match_path (p # ps) (s # ss) =
     (if take 1 p = ''{'' then
        (if s = [] then None else map_option (\<lambda>m. (take (length p - 2) (drop 1 p), s) # m) (match_path ps ss))
      else if p = s then match_path ps ss else None)"
| "match_path _ _ = None"

fun mux :: "(string \<times> ('k, 'l, 'w) http_handler) list \<Rightarrow> ('k, 'l, 'w) http_handler" where
  "mux [] gw rq = (fst gw, http_Error ''404 page not found'' 404 (snd gw))"
| "mux ((pattern, h) # routes) gw rq =
     (case match_path (drop 1 (Split (CHR ''/'') pattern)) (rq_Segments rq) of
        Some m \<Rightarrow> h gw (rq\<lparr>rq_PathValue := m\<rparr>)
      | None \<Rightarrow> mux routes gw rq)"

definition ServeMux :: "(string \<times> ('k, 'l, 'w) http_handler) list \<Rightarrow> ('k, 'l, 'w) http_handler" where
  "ServeMux routes gw rq =
     (case rq_Redirect rq of
        Some (code, location) \<Rightarrow> (fst gw, write_header code (set_header ''Location'' location (snd gw)))
      | None \<Rightarrow> mux routes gw rq)"

definition route :: "string \<Rightarrow> ('k, 'l, 'w) http_handler \<Rightarrow> string \<times> ('k, 'l, 'w) http_handler" where
  "route pattern h = (pattern, WithRoutePattern pattern h)"

definition gateway_routes ::
  "('d, 'k, 'l, 'w, 'm) gateway_lib \<Rightarrow> gateway_server \<Rightarrow> request_env \<Rightarrow> (string \<times> ('k, 'l, 'w) http_handler) list" where
  "gateway_routes L S E =
     (let user = (\<lambda>h. auth L E (on_backend h)); adm = (\<lambda>h. auth L E (admin S (on_backend h))) in
      [route ''/health'' (on_backend handleHealth),
       route ''/metrics'' (MetricsHandler L),
       route ''/api/wallet/supported'' (on_backend (handleSupported L S)),
       route ''/api/wallet/rates'' (on_backend (handleRates L)),
       route ''/api/wallet/balance'' (user (handleBalance L S)),
       route ''/api/wallet/transactions'' (user (handleTransactions L)),
       route ''/api/wallet/deposit-address'' (user (handleDepositAddress L S)),
       route ''/api/wallet/withdraw'' (user (handleWithdraw L S)),
       route ''/api/admin/withdrawals'' (adm (handleListPendingWithdrawals L)),
       route ''/api/admin/withdrawals/review'' (adm (handleReviewWithdrawal L)),
       route ''/webhooks/xcash/deposit'' (on_backend (handleXcashWebhook L S)),
       route ''/api/sports'' (on_backend (handleListSports L)),
       route ''/api/sports/{sport_id}/leagues'' (on_backend (handleListLeagues L)),
       route ''/api/events'' (on_backend (handleListEvents L)),
       route ''/api/events/{event_id}'' (on_backend (handleGetEvent L)),
       route ''/api/events/{event_id}/markets'' (on_backend (handleListMarkets L)),
       route ''/api/markets/{market_id}/outcomes'' (on_backend (handleListOutcomes L)),
       route ''/api/live/events'' (on_backend (handleListLiveEvents L)),
       route ''/api/bets'' (user (handleBets L)),
       route ''/api/bets/{bet_id}'' (user (handleGetBet L)),
       route ''/api/admin/bets/settle'' (adm (handleSettleBet L))])"

definition Router ::
  "('d, 'k, 'l, 'w, 'm) gateway_lib \<Rightarrow> gateway_server \<Rightarrow> request_env \<Rightarrow> ('k, 'l, 'w) http_handler" where
  "Router L S E =
     RequestID E (Logging (Metrics (limiter_Middleware L E (cors S (ServeMux (gateway_routes L S E))))))"

text \<open>One request: it comes with an empty context, and the response starts empty.\<close>

definition serve ::
  "('d, 'k, 'l, 'w, 'm) gateway_lib \<Rightarrow> gateway_server \<Rightarrow> request_env \<Rightarrow> ('k, 'l, 'w) gateway_state \<Rightarrow> http_request
   \<Rightarrow> ('k, 'l, 'w) gateway_state \<times> writer" where
  "serve L S E g rq =
     Router L S E (g, new_writer) (wire rq)"

end
