(* ===== verification/GatewayProps.thy ===== *)
theory GatewayProps
  imports Gateway
begin

text \<open>
  What the gateway guarantees for every backend.

  A request makes at most one call (\<open>stepped\<close>); the call is permitted (\<open>may_call\<close>): it acts for the
  authenticated user only, is reserved to administrators where it must be, meets the gateway's guards
  on pairs and amounts, and passes the interceptor of its server.  The middlewares around the routes
  keep the rest of the state, so the number of requests of a client that get past the limiter obeys
  its bound.
\<close>

section \<open>Permitted calls\<close>

text \<open>What the gateway checks of a call before it makes it.\<close>

fun call_guard :: "('d, 'k, 'l, 'w, 'm) gateway_lib \<Rightarrow> gateway_server \<Rightarrow> backend_call \<Rightarrow> bool" where
  "call_guard L S (W_GetBalance u cur fiat) = gw_isSupportedCurrency S cur"
| "call_guard L S (W_GetDepositAddress u cur chain) = gw_isSupportedPair S cur chain"
| "call_guard L S (W_RequestWithdrawal u cur amount dest chain) \<longleftrightarrow>
     gw_isSupportedPair S cur chain \<and> ValidateWithdrawal (gl_D L) (gs_limits S) amount = Inr ()"
| "call_guard L S (W_ProcessDepositWebhook body headers) \<longleftrightarrow>
     (\<exists>amount. webhook_amount L body = Inr amount \<and> ValidateDeposit (gl_D L) (gs_limits S) amount = Inr ())"
| "call_guard L S (W_DebitWallet d) = False"
| "call_guard L S (W_CreditWallet d) = False"
| "call_guard L S c = True"

definition webhook_path :: "string list" where
  "webhook_path = [''webhooks'', ''xcash'', ''deposit'']"

text \<open>\<open>user\<close> is the id of the authenticated user, if there is one, and \<open>path\<close> where the request goes.\<close>

definition may_call ::
  "('d, 'k, 'l, 'w, 'm) gateway_lib \<Rightarrow> gateway_server \<Rightarrow> string option \<Rightarrow> string list \<Rightarrow> string list gomap \<Rightarrow> backend_call \<Rightarrow> bool" where
  "may_call L S user path md c \<longleftrightarrow>
     (acts_for c = None \<or> acts_for c = user)
     \<and> (admin_only c \<longrightarrow> (\<exists>u. user = Some u \<and> mget (gs_adminUserIDs S) u \<noteq> None))
     \<and> (\<forall>body headers. c = W_ProcessDepositWebhook body headers \<longrightarrow> path = webhook_path)
     \<and> call_guard L S c \<and> (acts_for c \<noteq> Some [] \<longrightarrow> admitted md c = Inr ())"

definition stepped ::
  "('d, 'k, 'l, 'w, 'm) gateway_lib \<Rightarrow> gateway_server \<Rightarrow> string option \<Rightarrow> string list \<Rightarrow> 'w \<Rightarrow> 'w \<Rightarrow> bool" where
  "stepped L S user path b b' \<longleftrightarrow> b' = b \<or> (\<exists>md c. may_call L S user path md c \<and> b' = fst (gl_conn L b md c))"

lemma stepped_refl [simp]: "stepped L S user path b b"
  by (simp add: stepped_def)

lemma stepped_call: "may_call L S user path md c \<Longrightarrow> stepped L S user path b (fst (gl_conn L b md c))"
  by (auto simp: stepped_def)

lemma stepped_eq: "stepped L S user path b b' \<Longrightarrow> b' = b'' \<Longrightarrow> stepped L S user path b b''"
  by simp

lemma fst_answer [simp]: "fst (answer L fail code w r) = fst r"
  by (simp add: answer_def split: prod.splits sum.splits)

lemma ToLower_headers: "ToLower ''x-user-id'' = ''x-user-id''" "ToLower ''x-caller-is-admin'' = ''x-caller-is-admin''"
  by code_simp+

lemma admitted_wallet:
  "u \<noteq> [] \<Longrightarrow> admitted (caller_md u) (W_GetBalance u cur fiat) = Inr ()"
  "u \<noteq> [] \<Longrightarrow> admitted (caller_md u) (W_ListTransactions u fiat p n) = Inr ()"
  "u \<noteq> [] \<Longrightarrow> admitted (caller_md u) (W_GetDepositAddress u cur chain) = Inr ()"
  "u \<noteq> [] \<Longrightarrow> admitted (caller_md u) (W_RequestWithdrawal u cur amount dest chain) = Inr ()"
  "u \<noteq> [] \<Longrightarrow> admitted (admin_md u) (W_ReviewWithdrawal i action txHash u) = Inr ()"
  "admitted (caller_md gw_callerID) (W_GetRates fiat) = Inr ()"
  "admitted (caller_md gw_callerID) (W_ProcessDepositWebhook body headers) = Inr ()"
  "admitted (admin_md gw_callerID) (W_ListPendingWithdrawals p n) = Inr ()"
  by (simp_all add: admitted_def wallet_AuthInterceptor_def md_Get_def gw_callerID_def ToLower_headers Let_def)

lemma admitted_sportsbook:
  "admitted (caller_md gw_callerID) (B_PlaceBet u e m oc stake cur ref) = Inr ()"
  "admitted (caller_md gw_callerID) (B_GetBet i) = Inr ()"
  "admitted (caller_md gw_callerID) (B_ListBets u st p n) = Inr ()"
  "admitted (admin_md gw_callerID) (B_SettleBet i result) = Inr ()"
  by (simp_all add: admitted_def sb_AuthInterceptor_def header_values_def gw_callerID_def sb_serviceCallerID_def Let_def)

lemma admitted_feed:
  "admitted md (F_ListSports p n) = Inr ()"
  "admitted md (F_ListLeagues s p n) = Inr ()"
  "admitted md (F_ListEvents s l st p n) = Inr ()"
  "admitted md (F_GetEvent i) = Inr ()"
  "admitted md (F_ListMarkets e st p n) = Inr ()"
  "admitted md (F_ListOutcomes m st p n) = Inr ()"
  "admitted md (F_ListLiveScores s l p n) = Inr ()"
  by (simp_all add: admitted_def)

lemmas admitted_calls = admitted_wallet admitted_sportsbook admitted_feed

section \<open>Handlers\<close>

text \<open>A handler's calls, when it runs for the user in the context of the request.\<close>

definition handler_ok ::
  "('d, 'k, 'l, 'w, 'm) gateway_lib \<Rightarrow> gateway_server \<Rightarrow> ('w \<times> writer \<Rightarrow> http_request \<Rightarrow> 'w \<times> writer) \<Rightarrow> bool" where
  "handler_ok L S h \<longleftrightarrow> (\<forall>bw rq. stepped L S (map_option au_ID (rq_user rq)) (rq_Segments rq) (fst bw) (fst (h bw rq)))"

text \<open>The same for an administrator.\<close>

definition admin_handler_ok ::
  "('d, 'k, 'l, 'w, 'm) gateway_lib \<Rightarrow> gateway_server \<Rightarrow> ('w \<times> writer \<Rightarrow> http_request \<Rightarrow> 'w \<times> writer) \<Rightarrow> bool" where
  "admin_handler_ok L S h \<longleftrightarrow>
     (\<forall>bw rq u. rq_user rq = Some u \<longrightarrow> mget (gs_adminUserIDs S) (au_ID u) \<noteq> None
        \<longrightarrow> stepped L S (Some (au_ID u)) (rq_Segments rq) (fst bw) (fst (h bw rq)))"

lemma fst_if [simp]: "fst (if b then x else y) = (if b then fst x else fst y)"
  by simp

lemmas handler_cases = handler_ok_def admin_handler_ok_def userFromContext_def client_defs Let_def case_prod_beta
lemmas may_calls = may_call_def admitted_calls

lemma wallet_handlers_ok:
  "handler_ok L S handleHealth"
  "handler_ok L S (handleSupported L S)"
  "handler_ok L S (handleRates L)"
  "handler_ok L S (handleBalance L S)"
  "handler_ok L S (handleTransactions L)"
  "handler_ok L S (handleDepositAddress L S)"
  "handler_ok L S (handleWithdraw L S)"
  by (auto simp: handleHealth_def handleSupported_def handleRates_def handleBalance_def handleTransactions_def
      handleDepositAddress_def handleWithdraw_def handler_cases may_calls
      intro!: stepped_call split: option.splits sum.splits)

lemma webhook_handler_ok:
  "rq_Segments rq = webhook_path \<Longrightarrow> handleXcashWebhook L S (b, w) rq = (b', w') \<Longrightarrow> stepped L S user (rq_Segments rq) b b'"
  by (auto simp: handleXcashWebhook_def handler_cases may_calls
      intro!: stepped_call [of L S user, where b = b, THEN stepped_eq] split: option.splits sum.splits prod.splits)

lemma feed_handlers_ok:
  "handler_ok L S (handleListSports L)"
  "handler_ok L S (handleListLeagues L)"
  "handler_ok L S (handleListEvents L)"
  "handler_ok L S (handleGetEvent L)"
  "handler_ok L S (handleListMarkets L)"
  "handler_ok L S (handleListOutcomes L)"
  "handler_ok L S (handleListLiveEvents L)"
  by (auto simp: handleListSports_def handleListLeagues_def handleListEvents_def handleGetEvent_def handleListMarkets_def
      handleListOutcomes_def handleListLiveEvents_def handler_cases may_calls intro!: stepped_call split: option.splits sum.splits)

lemma bet_handlers_ok:
  "handler_ok L S (handleBets L)"
  "handler_ok L S (handleGetBet L)"
  by (auto simp: handleBets_def handlePlaceBet_def handleListBets_def handleGetBet_def handler_cases may_calls
      intro!: stepped_call split: option.splits sum.splits)

lemma admin_handlers_ok:
  "admin_handler_ok L S (handleListPendingWithdrawals L)"
  "admin_handler_ok L S (handleReviewWithdrawal L)"
  "admin_handler_ok L S (handleSettleBet L)"
  by (auto simp: handleListPendingWithdrawals_def handleReviewWithdrawal_def handleSettleBet_def handler_cases may_calls
      intro!: stepped_call split: option.splits sum.splits)

section \<open>Routes\<close>

text \<open>
  Who a request comes from: the subject of a token the library finds in it under a key set the
  gateway holds, or fetches.
\<close>

definition authenticated ::
  "('d, 'k, 'l, 'w, 'm) gateway_lib \<Rightarrow> 'k jwks_client \<Rightarrow> http_request \<Rightarrow> string \<Rightarrow> bool" where
  "authenticated L c rq uid \<longleftrightarrow>
     (\<exists>ks token r. (jk_keyset c = Some ks \<or> jl_fetch (gl_jwks L) (jk_url c) = Inr ks)
        \<and> wire r = wire rq \<and> jl_parse (gl_jwks L) ks r = Inr token \<and> tk_sub token = Some uid)"

definition keeps_rest :: "('k, 'l, 'w) gateway_state \<Rightarrow> ('k, 'l, 'w) gateway_state \<Rightarrow> bool" where
  "keeps_rest g g' \<longleftrightarrow> gw_limiter g' = gw_limiter g \<and> gw_redis g' = gw_redis g
     \<and> gw_metrics g' = gw_metrics g \<and> gw_log g' = gw_log g"

text \<open>One request between two states: a permitted call at most, for the user it comes from.\<close>

definition step_ok ::
  "('d, 'k, 'l, 'w, 'm) gateway_lib \<Rightarrow> gateway_server \<Rightarrow> http_request \<Rightarrow> ('k, 'l, 'w) gateway_state \<Rightarrow> ('k, 'l, 'w) gateway_state \<Rightarrow> bool" where
  "step_ok L S rq g g' \<longleftrightarrow> keeps_rest g g'
     \<and> (\<exists>user. (\<forall>uid. user = Some uid \<longrightarrow> authenticated L (gw_jwks g) rq uid) \<and> stepped L S user (rq_Segments rq) (gw_backend g) (gw_backend g'))"

definition route_ok ::
  "(string list \<Rightarrow> bool) \<Rightarrow> ('d, 'k, 'l, 'w, 'm) gateway_lib \<Rightarrow> gateway_server \<Rightarrow> ('k, 'l, 'w) http_handler \<Rightarrow> bool" where
  "route_ok P L S h \<longleftrightarrow>
     (\<forall>g w rq g' w'. rq_user rq = None \<longrightarrow> P (rq_Segments rq) \<longrightarrow> h (g, w) rq = (g', w') \<longrightarrow> step_ok L S rq g g')"

lemma route_okI:
  "(\<And>g w rq g' w'. rq_user rq = None \<Longrightarrow> P (rq_Segments rq) \<Longrightarrow> h (g, w) rq = (g', w') \<Longrightarrow> step_ok L S rq g g')
     \<Longrightarrow> route_ok P L S h"
  by (auto simp: route_ok_def)

lemma route_okD:
  "route_ok P L S h \<Longrightarrow> h (g, w) rq = (g', w') \<Longrightarrow> rq_user rq = None \<Longrightarrow> P (rq_Segments rq) \<Longrightarrow> step_ok L S rq g g'"
  unfolding route_ok_def by blast

lemma step_ok_refl [simp]: "step_ok L S rq g g"
  by (auto simp: step_ok_def keeps_rest_def intro!: exI [of _ None])

lemma wire_eqD:
  assumes "wire rq = wire rq'"
  shows "rq_Segments rq = rq_Segments rq'" and "rq_Header rq = rq_Header rq'"
  using arg_cong [OF assms, of rq_Segments] arg_cong [OF assms, of rq_Header] by simp_all

lemma step_ok_wire: "wire rq = wire rq' \<Longrightarrow> step_ok L S rq g g' = step_ok L S rq' g g'"
  using wire_eqD(1) [of rq rq'] by (simp add: step_ok_def authenticated_def)

text \<open>A wrapper that changes the context, not the user, and the response.\<close>

lemma wrap_ok:
  assumes "route_ok P L S h" and "h (g, w) rq' = (g', w')" and "wire rq' = wire rq" and "rq_user rq' = None" and "P (rq_Segments rq)"
  shows "step_ok L S rq g g'"
  using route_okD [OF assms(1,2,4)] assms(5) unfolding step_ok_wire [OF assms(3)] wire_eqD(1) [OF assms(3)] .

lemma jwks_user_authenticated:
  assumes "jwks_UserFromRequest (gl_jwks L) now c rq = (c', Inr u)"
  shows "authenticated L c rq (au_ID u)"
  using jwks_UserFromRequest_Inr [OF assms] unfolding authenticated_def by blast

lemma handler_okD:
  "handler_ok L S h \<Longrightarrow> h (b, w) rq = (b', w') \<Longrightarrow> stepped L S (map_option au_ID (rq_user rq)) (rq_Segments rq) b b'"
  unfolding handler_ok_def by (metis fst_conv)

lemma admin_handler_okD:
  "admin_handler_ok L S h \<Longrightarrow> h (b, w) rq = (b', w') \<Longrightarrow> rq_user rq = Some u
     \<Longrightarrow> mget (gs_adminUserIDs S) (au_ID u) \<noteq> None \<Longrightarrow> stepped L S (Some (au_ID u)) (rq_Segments rq) b b'"
  unfolding admin_handler_ok_def by (metis fst_conv)

lemma on_backend_ok:
  assumes "handler_ok L S h"
  shows "route_ok P L S (on_backend h)"
  by (rule route_okI)
    (auto simp: step_ok_def on_backend_def keeps_rest_def split: prod.splits dest!: handler_okD [OF assms] intro!: exI [of _ None])

lemma auth_route:
  assumes "\<And>g w rq user g' w'. rq_user rq = Some user \<Longrightarrow> next (g, w) rq = (g', w') \<Longrightarrow>
    keeps_rest g g' \<and> stepped L S (Some (au_ID user)) (rq_Segments rq) (gw_backend g) (gw_backend g')"
  shows "route_ok P L S (auth L E next)"
proof -
  have step: "step_ok L S rq g g'" if run: "auth L E next (g, w) rq = (g', w')" for g w rq g' w'
  proof -
    obtain c r where u: "jwks_UserFromRequest (gl_jwks L) (qe_now E) (gw_jwks g) rq = (c, r)" by (metis surj_pair)
    show ?thesis
    proof (cases r)
      case (Inl err)
      then show ?thesis using run u by (auto simp: auth_def step_ok_def keeps_rest_def intro!: exI [of _ None])
    next
      case (Inr user)
      have "next (g\<lparr>gw_jwks := c\<rparr>, w) (rq\<lparr>rq_user := Some user\<rparr>) = (g', w')"
        using run u Inr by (simp add: auth_def)
      then show ?thesis
        using assms [of "rq\<lparr>rq_user := Some user\<rparr>" user "g\<lparr>gw_jwks := c\<rparr>" w g' w'] jwks_user_authenticated [OF u [unfolded Inr]]
        by (auto simp: step_ok_def keeps_rest_def intro!: exI [of _ "Some (au_ID user)"])
    qed
  qed
  show ?thesis by (rule route_okI) (rule step)
qed

lemma user_route_ok: "handler_ok L S h \<Longrightarrow> route_ok P L S (auth L E (on_backend h))"
  by (rule auth_route) (auto simp: on_backend_def keeps_rest_def split: prod.splits dest!: handler_okD)

lemma admin_route_ok: "admin_handler_ok L S h \<Longrightarrow> route_ok P L S (auth L E (admin S (on_backend h)))"
  by (rule auth_route)
    (auto simp: on_backend_def admin_def keeps_rest_def split: prod.splits if_splits dest!: admin_handler_okD)

lemma metrics_route_ok: "route_ok P L S (MetricsHandler L)"
  by (rule route_okI) (simp add: MetricsHandler_def)

lemma fst_route: "fst (route p h) = p"
  by (simp add: route_def)

definition matches :: "string \<Rightarrow> string list \<Rightarrow> bool" where
  "matches p ss \<longleftrightarrow> match_path (drop 1 (Split (CHR ''/'') p)) ss \<noteq> None"

lemma webhook_matches: "matches ''/webhooks/xcash/deposit'' ss \<Longrightarrow> ss = webhook_path"
proof -
  have "drop 1 (Split (CHR ''/'') ''/webhooks/xcash/deposit'') = webhook_path" by code_simp
  moreover have "ss = webhook_path" if "match_path webhook_path ss \<noteq> None"
    using that by (cases ss; cases "tl ss"; cases "tl (tl ss)"; cases "tl (tl (tl ss))") (auto simp: webhook_path_def split: if_splits)
  ultimately show "matches ''/webhooks/xcash/deposit'' ss \<Longrightarrow> ss = webhook_path" unfolding matches_def by metis
qed

lemma webhook_route_ok: "route_ok (matches ''/webhooks/xcash/deposit'') L S (on_backend (handleXcashWebhook L S))"
  by (rule route_okI)
    (auto simp: step_ok_def on_backend_def keeps_rest_def split: prod.splits
      dest!: webhook_handler_ok [OF webhook_matches, rotated, where user = None] intro!: exI [of _ None])

lemma route_route_ok: "route_ok P L S h \<Longrightarrow> route_ok P L S (snd (route p h))"
  by (rule route_okI) (auto simp: route_def WithRoutePattern_def elim: wrap_ok)

lemma mux_Cons_ok:
  assumes "route_ok (matches p) L S h" and "route_ok (\<lambda>_. True) L S (mux routes)"
  shows "route_ok (\<lambda>_. True) L S (mux ((p, h) # routes))"
  by (rule route_okI)
    (auto simp: matches_def split: option.splits dest: wrap_ok [OF assms(1), where rq = rq for rq] wrap_ok [OF assms(2)])

lemma mux_ok: "\<forall>(p, h)\<in>set routes. route_ok (matches p) L S h \<Longrightarrow> route_ok (\<lambda>_. True) L S (mux routes)"
proof (induction routes)
  case Nil
  show ?case by (rule route_okI) simp
next
  case (Cons r routes)
  then show ?case by (cases r) (auto intro: mux_Cons_ok simp del: mux.simps)
qed

lemma gateway_routes_ok: "\<forall>(p, h)\<in>set (gateway_routes L S E). route_ok (matches p) L S h"
proof -
  have "route_ok (matches (fst r)) L S (snd r)" if "r \<in> set (gateway_routes L S E)" for r
    using that unfolding gateway_routes_def Let_def
    by (auto intro!: route_route_ok user_route_ok admin_route_ok metrics_route_ok
        wallet_handlers_ok feed_handlers_ok bet_handlers_ok admin_handlers_ok intro: on_backend_ok webhook_route_ok
        simp: fst_route simp del: match_path.simps Split.simps)
  then show ?thesis by auto
qed

lemma cors_route_ok: "route_ok P L S h \<Longrightarrow> route_ok P L S (cors S h)"
  by (rule route_okI) (auto simp: cors_def Let_def split: option.splits if_splits elim: wrap_ok)

lemma gateway_mux_ok: "route_ok (\<lambda>_. True) L S (cors S (ServeMux (gateway_routes L S E)))"
proof (rule cors_route_ok)
  show "route_ok (\<lambda>_. True) L S (ServeMux (gateway_routes L S E))"
    by (rule route_okI) (auto simp: ServeMux_def split: option.splits elim: wrap_ok [OF mux_ok [OF gateway_routes_ok]])
qed

section \<open>The middlewares\<close>

text \<open>The first thing a request meets, and what it costs when it is refused.\<close>

definition client_key :: "http_request \<Rightarrow> string" where
  "client_key rq = clientIP (Header_Get rq ''X-Forwarded-For'') (rq_RemoteAddr rq)"

lemma request_key_wire: "request_key ((wire rq)\<lparr>rq_requestID := i\<rparr>) = client_key rq"
  by (simp add: request_key_def limiter_key_def client_key_def Header_Get_def)

definition keeps_outer :: "('k, 'l, 'w) gateway_state \<Rightarrow> ('k, 'l, 'w) gateway_state \<Rightarrow> bool" where
  "keeps_outer g g' \<longleftrightarrow> gw_backend g' = gw_backend g \<and> gw_jwks g' = gw_jwks g \<and> gw_metrics g' = gw_metrics g \<and> gw_log g' = gw_log g"

lemma limiter_allow_keeps: "limiter_allow L E g key = (g', r) \<Longrightarrow> keeps_outer g g'"
  by (auto simp: limiter_allow_def keeps_outer_def split: if_splits prod.splits)

lemma http_Error_status: "wr_Status w = None \<Longrightarrow> recorded_status (http_Error msg code w) = code"
  by (simp add: http_Error_def write_body_def write_header_def set_header_def recorded_status_def Let_def)

lemma set_header_status [simp]: "wr_Status (set_header k v w) = wr_Status w"
  by (simp add: set_header_def)

text \<open>
  A request is refused with the status 429, or reaches the routes; either way the state of the
  limiter is the one after its answer.
\<close>

lemma serve_cases:
  assumes "serve L S E g rq = (g', w')" and "limiter_allow L E g (client_key rq) = (g1, res)"
  shows "gw_limiter g' = gw_limiter g1" and "gw_redis g' = gw_redis g1"
    and "gw_metrics g' = gw_metrics g @ [(rq_Method rq, rq_URLPath rq, recorded_status w')]"
    and "\<exists>i. gw_log g' = gw_log g @ [(i, recorded_status w', rq_Method rq, rq_URLPath rq)]"
    and "res \<noteq> Inr True \<Longrightarrow> recorded_status w' = 429 \<and> gw_backend g' = gw_backend g \<and> gw_jwks g' = gw_jwks g"
    and "\<exists>user. (\<forall>uid. user = Some uid \<longrightarrow> authenticated L (gw_jwks g) rq uid) \<and> stepped L S user (rq_Segments rq) (gw_backend g) (gw_backend g')"
proof -
  define i where "i = (if Header_Get (wire rq) ''X-Request-ID'' = [] then qe_uuid E else Header_Get (wire rq) ''X-Request-ID'')"
  let ?rq = "(wire rq)\<lparr>rq_requestID := Some i\<rparr>"
  let ?w = "set_header ''X-Request-ID'' i new_writer"
  obtain g2 where mid: "limiter_Middleware L E (cors S (ServeMux (gateway_routes L S E))) (g, ?w) ?rq = (g2, w')"
    and g': "g' = g2\<lparr>gw_metrics := gw_metrics g2 @ [(rq_Method rq, rq_URLPath rq, recorded_status w')],
      gw_log := gw_log g2 @ [(i, recorded_status w', rq_Method rq, rq_URLPath rq)]\<rparr>"
    using assms(1)
    by (auto simp: serve_def Router_def RequestID_def Logging_def Metrics_def GetRoutePattern_def Let_def i_def split: prod.splits)
  have outer: "keeps_outer g g1" by (rule limiter_allow_keeps [OF assms(2)])
  have la: "limiter_allow L E g (request_key ?rq) = (g1, res)" using assms(2) by (simp only: request_key_wire)
  have "keeps_rest g1 g2 \<and> (\<exists>user. (\<forall>uid. user = Some uid \<longrightarrow> authenticated L (gw_jwks g) rq uid) \<and> stepped L S user (rq_Segments rq) (gw_backend g) (gw_backend g2))
    \<and> (res \<noteq> Inr True \<longrightarrow> recorded_status w' = 429 \<and> g2 = g1)"
  proof (cases "res = Inr True")
    case True
    then have "cors S (ServeMux (gateway_routes L S E)) (g1, ?w) ?rq = (g2, w')"
      using mid la by (simp add: limiter_Middleware_def)
    then have "step_ok L S rq g1 g2" by (rule wrap_ok [OF gateway_mux_ok]) simp_all
    then show ?thesis using True outer by (simp add: step_ok_def keeps_outer_def)
  next
    case False
    then have "g2 = g1" "recorded_status w' = 429"
      using mid la by (auto simp: limiter_Middleware_def http_Error_status new_writer_def split: sum.splits if_splits)
    then show ?thesis using outer by (auto simp: keeps_rest_def keeps_outer_def intro!: exI [of _ None])
  qed
  then show "gw_limiter g' = gw_limiter g1" "gw_redis g' = gw_redis g1"
    "gw_metrics g' = gw_metrics g @ [(rq_Method rq, rq_URLPath rq, recorded_status w')]"
    "\<exists>i. gw_log g' = gw_log g @ [(i, recorded_status w', rq_Method rq, rq_URLPath rq)]"
    "res \<noteq> Inr True \<Longrightarrow> recorded_status w' = 429 \<and> gw_backend g' = gw_backend g \<and> gw_jwks g' = gw_jwks g"
    "\<exists>user. (\<forall>uid. user = Some uid \<longrightarrow> authenticated L (gw_jwks g) rq uid) \<and> stepped L S user (rq_Segments rq) (gw_backend g) (gw_backend g')"
    using outer by (simp_all add: g' keeps_rest_def keeps_outer_def)
qed

section \<open>The calls of a request\<close>

text \<open>Connections that also keep a record of the calls made over them.\<close>

definition recording_conn :: "('w, 'm) rpc_conn \<Rightarrow> ('w \<times> (string list gomap \<times> backend_call) list, 'm) rpc_conn" where
  "recording_conn conn wl md c = (case conn (fst wl) md c of (w, r) \<Rightarrow> ((w, snd wl @ [(md, c)]), r))"

definition recording_lib ::
  "('d, 'k, 'l, 'w, 'm) gateway_lib \<Rightarrow> ('d, 'k, 'l, 'w \<times> (string list gomap \<times> backend_call) list, 'm) gateway_lib" where
  "recording_lib L =
     (let B = gl_backends L in
      \<lparr>gl_D = gl_D L, gl_jwks = gl_jwks L, gl_limiters = gl_limiters L,
       gl_backends = \<lparr>bk_call = recording_conn (bk_call B), bk_FiatCurrency = bk_FiatCurrency B, bk_Rates = bk_Rates B,
         bk_ResponseBody = bk_ResponseBody B, bk_HasEvent = bk_HasEvent B, bk_BetUser = bk_BetUser B, bk_Marshal = bk_Marshal B\<rparr>,
       gl_decode = gl_decode L, gl_unmarshal = gl_unmarshal L, gl_order = gl_order L, gl_metrics = gl_metrics L\<rparr>)"

definition recording_state ::
  "('k, 'l, 'w) gateway_state \<Rightarrow> ('k, 'l, 'w \<times> (string list gomap \<times> backend_call) list) gateway_state" where
  "recording_state g =
     \<lparr>gw_backend = (gw_backend g, []), gw_jwks = gw_jwks g, gw_limiter = gw_limiter g, gw_redis = gw_redis g,
      gw_metrics = gw_metrics g, gw_log = gw_log g\<rparr>"

definition calls_made ::
  "('d, 'k, 'l, 'w, 'm) gateway_lib \<Rightarrow> gateway_server \<Rightarrow> request_env \<Rightarrow> ('k, 'l, 'w) gateway_state \<Rightarrow> http_request
   \<Rightarrow> (string list gomap \<times> backend_call) list" where
  "calls_made L S E g rq = snd (gw_backend (fst (serve (recording_lib L) S E (recording_state g) rq)))"

lemma recording_lib_simps [simp]:
  "gl_D (recording_lib L) = gl_D L" "gl_jwks (recording_lib L) = gl_jwks L" "gl_unmarshal (recording_lib L) = gl_unmarshal L"
  "gl_conn (recording_lib L) = recording_conn (gl_conn L)"
  by (simp_all add: recording_lib_def Let_def)

lemma recording_lib_same [simp]:
  "authenticated (recording_lib L) jc rq uid = authenticated L jc rq uid"
  "webhook_amount (recording_lib L) body = webhook_amount L body"
  "call_guard (recording_lib L) S c = call_guard L S c"
  "may_call (recording_lib L) S user path md c = may_call L S user path md c"
proof -
  show 1: "authenticated (recording_lib L) jc rq uid = authenticated L jc rq uid" by (simp add: authenticated_def)
  show 2: "webhook_amount (recording_lib L) body = webhook_amount L body" for body by (simp add: webhook_amount_def)
  show 3: "call_guard (recording_lib L) S c = call_guard L S c" by (cases c) (simp_all add: 2)
  show "may_call (recording_lib L) S user path md c = may_call L S user path md c" by (simp add: may_call_def 3)
qed

lemma recording_conn_log [simp]: "snd (fst (recording_conn conn wl md c)) = snd wl @ [(md, c)]"
  by (simp add: recording_conn_def split: prod.splits)

lemma calls_made_permitted:
  obtains "calls_made L S E g rq = []"
  | md c user where "calls_made L S E g rq = [(md, c)]" and "may_call L S user (rq_Segments rq) md c"
      and "\<forall>uid. user = Some uid \<longrightarrow> authenticated L (gw_jwks g) rq uid"
proof -
  obtain g' w' where run: "serve (recording_lib L) S E (recording_state g) rq = (g', w')" by (metis surj_pair)
  obtain g1 res where "limiter_allow (recording_lib L) E (recording_state g) (client_key rq) = (g1, res)" by (metis surj_pair)
  from serve_cases(6) [OF run this]
  obtain user where user: "\<forall>uid. user = Some uid \<longrightarrow> authenticated L (gw_jwks g) rq uid"
    and step: "stepped (recording_lib L) S user (rq_Segments rq) (gw_backend g, []) (gw_backend g')"
    by (auto simp: recording_state_def)
  have "snd (gw_backend g') = [] \<or> (\<exists>md c. snd (gw_backend g') = [(md, c)] \<and> may_call L S user (rq_Segments rq) md c)"
    using step by (auto simp: stepped_def)
  moreover have "calls_made L S E g rq = snd (gw_backend g')" by (simp add: calls_made_def run)
  ultimately show ?thesis using user that by auto
qed

lemma call_made_permitted:
  assumes "(md, c) \<in> set (calls_made L S E g rq)"
  obtains user where "calls_made L S E g rq = [(md, c)]" and "may_call L S user (rq_Segments rq) md c"
    and "\<forall>uid. user = Some uid \<longrightarrow> authenticated L (gw_jwks g) rq uid"
  using assms by (cases rule: calls_made_permitted [of L S E g rq]) auto

section \<open>Properties\<close>

text \<open>
  C9: the gateway acts for the caller only.  Whatever the backends answer, a request makes at most
  one call to them.  A call that names a user names the subject of a token that the library accepts
  in this request under the gateway's key set; a call reserved to administrators is made only when
  that subject is one, and a deposit is reported only on the path of the provider's webhooks; the
  gateway never debits or credits a wallet itself.
\<close>
theorem gateway_acts_for_caller:
  assumes "(md, c) \<in> set (calls_made L S E g rq)"
  shows "calls_made L S E g rq = [(md, c)]
    \<and> (\<forall>u. acts_for c = Some u \<longrightarrow> authenticated L (gw_jwks g) rq u)
    \<and> (admin_only c \<longrightarrow> (\<exists>u. authenticated L (gw_jwks g) rq u \<and> mget (gs_adminUserIDs S) u \<noteq> None))
    \<and> (\<forall>body headers. c = W_ProcessDepositWebhook body headers \<longrightarrow> rq_Segments rq = webhook_path)
    \<and> (\<forall>d. c \<noteq> W_DebitWallet d \<and> c \<noteq> W_CreditWallet d)"
proof -
  obtain user where *: "calls_made L S E g rq = [(md, c)]" "may_call L S user (rq_Segments rq) md c"
      "\<forall>uid. user = Some uid \<longrightarrow> authenticated L (gw_jwks g) rq uid"
    using assms by (rule call_made_permitted)
  have "\<forall>d. c \<noteq> W_DebitWallet d \<and> c \<noteq> W_CreditWallet d" using *(2) by (auto simp: may_call_def)
  then show ?thesis using * by (auto simp: may_call_def)
qed

text \<open>
  C23: what the gateway lets through to the wallet.  A withdrawal is requested only for a currency and
  chain the gateway supports and for an amount that is a positive number within every limit that is
  set; a deposit is reported only with an amount within the deposit limits.
\<close>
theorem gateway_guards_wallet:
  assumes "(md, c) \<in> set (calls_made L S E g rq)" and "decimal_lib (gl_D L) val"
  shows "(\<forall>u cur amount dest chain. c = W_RequestWithdrawal u cur amount dest chain \<longrightarrow>
      gw_isSupportedPair S cur chain
      \<and> (\<exists>x. dval (gl_D L) val amount = Some x \<and> 0 < x \<and> meets (gl_D L) val (\<ge>) x (lm_MinWithdrawal (gs_limits S))
           \<and> meets (gl_D L) val (\<le>) x (lm_MaxWithdrawal (gs_limits S)) \<and> meets (gl_D L) val (\<le>) x (lm_DailyWithdrawal (gs_limits S))))
    \<and> (\<forall>body headers. c = W_ProcessDepositWebhook body headers \<longrightarrow>
      (\<exists>amount x. webhook_amount L body = Inr amount \<and> dval (gl_D L) val amount = Some x \<and> 0 < x
           \<and> meets (gl_D L) val (\<ge>) x (lm_MinDeposit (gs_limits S))
           \<and> meets (gl_D L) val (\<le>) x (lm_MaxDeposit (gs_limits S)) \<and> meets (gl_D L) val (\<le>) x (lm_DailyDeposit (gs_limits S))))"
proof -
  obtain user where "may_call L S user (rq_Segments rq) md c" using assms(1) by (rule call_made_permitted)
  then have "call_guard L S c" by (simp add: may_call_def)
  then show ?thesis
    using decimal_lib.limits_validate_ok [OF assms(2)] by (auto simp: ValidateWithdrawal_def ValidateDeposit_def)
qed

text \<open>
  C28: the services accept the gateway as a caller.  Every call the gateway makes passes the
  interceptor of the server it goes to, except a call for a user whose id is empty.
\<close>
theorem gateway_calls_admitted:
  assumes "(md, c) \<in> set (calls_made L S E g rq)" and "acts_for c \<noteq> Some []"
  shows "admitted md c = Inr ()"
proof -
  obtain user where "may_call L S user (rq_Segments rq) md c" using assms(1) by (rule call_made_permitted)
  then show ?thesis using assms(2) by (simp add: may_call_def)
qed

section \<open>Bets\<close>

lemma bet_route:
  assumes "rq_Segments rq = [''api'', ''bets'', i]" and "i \<noteq> []"
  shows "mux (gateway_routes L S E) gw rq
    = auth L E (on_backend (handleGetBet L)) gw (rq\<lparr>rq_PathValue := [(''bet_id'', i)], rq_route := Some ''/api/bets/{bet_id}''\<rparr>)"
proof -
  have "List.map (\<lambda>p. match_path (drop 1 (Split (CHR ''/'') p)) [''api'', ''bets'', i])
    (List.map fst (gateway_routes L S E)) = replicate 19 None @ [Some [(''bet_id'', i)]] @ [None]"
    using assms(2) by (simp add: gateway_routes_def route_def Let_def numeral_eq_Suc)
  then show ?thesis
    by (simp add: gateway_routes_def route_def Let_def WithRoutePattern_def assms(1) numeral_eq_Suc del: Split.simps match_path.simps)
qed

text \<open>Only the handler writes 200 here; the errors of the sportsbook map to other statuses.\<close>

lemma grpcStatusToHTTP_error: "grpcStatusToHTTP err \<noteq> 200"
  by (auto simp: grpcStatusToHTTP_def split: option.splits grpc_code.splits)

lemma writeError_status: "wr_Status w = None \<Longrightarrow> recorded_status (writeError code err w) = code"
  by (simp add: writeError_def write_body_def write_header_def recorded_status_def Let_def)

lemma get_bet_200:
  assumes "on_backend (handleGetBet L) (g, w) rq = (g', w')" and "recorded_status w' = 200"
    and "wr_Status w = None" and "wr_Body w = []" and "rq_user rq = Some user"
  shows "\<exists>m. bk_BetUser (gl_backends L) m = Some (au_ID user)
    \<and> snd (gl_conn L (gw_backend g) (caller_md gw_callerID) (B_GetBet (PathValue rq ''bet_id''))) = Inr m
    \<and> wr_Body w' = (case bk_Marshal (gl_backends L) m of Inl err \<Rightarrow> [] | Inr t \<Rightarrow> [BodyText t])"
  using assms grpcStatusToHTTP_error
  by (auto simp: on_backend_def handleGetBet_def userFromContext_def bc_GetBet_def writeError_status writeJSON_def
      write_body_def write_header_def set_header_def Let_def split: prod.splits sum.splits if_splits)

lemma auth_cases:
  assumes "auth L E next (g, w) rq = (g', w')" and "wr_Status w = None" and "recorded_status w' = 200"
  obtains c user where "authenticated L (gw_jwks g) rq (au_ID user)"
    and "next (g\<lparr>gw_jwks := c\<rparr>, w) (rq\<lparr>rq_user := Some user\<rparr>) = (g', w')"
proof -
  obtain c r where u: "jwks_UserFromRequest (gl_jwks L) (qe_now E) (gw_jwks g) rq = (c, r)" by (metis surj_pair)
  then show ?thesis
  proof (cases r)
    case (Inl err)
    then show ?thesis using assms u by (auto simp: auth_def Let_def writeError_status)
  next
    case (Inr user)
    then show ?thesis
      using assms(1) u that [of user c] jwks_user_authenticated [of L "qe_now E" "gw_jwks g" rq c user] by (simp add: auth_def Let_def)
  qed
qed

text \<open>What reaches the routes: the response of a request that was not refused.\<close>

lemma serve_routes:
  assumes "serve L S E g rq = (g', w')" and "recorded_status w' = 200" and "rq_Method rq \<noteq> ''OPTIONS''" and "rq_Redirect rq = None"
  shows "\<exists>g1 g2 w1 rq1. keeps_outer g g1 \<and> wire rq1 = wire rq \<and> rq_user rq1 = None \<and> wr_Status w1 = None \<and> wr_Body w1 = []
    \<and> mux (gateway_routes L S E) (g1, w1) rq1 = (g2, w') \<and> gw_backend g2 = gw_backend g'"
proof -
  define i where "i = (if Header_Get (wire rq) ''X-Request-ID'' = [] then qe_uuid E else Header_Get (wire rq) ''X-Request-ID'')"
  let ?rq = "(wire rq)\<lparr>rq_requestID := Some i\<rparr>"
  let ?w = "set_header ''X-Request-ID'' i new_writer"
  obtain g1 res where la: "limiter_allow L E g (client_key rq) = (g1, res)" by (metis surj_pair)
  have ok: "res = Inr True" using serve_cases(5) [OF assms(1) la] assms(2) by auto
  obtain g2 where mid: "limiter_Middleware L E (cors S (ServeMux (gateway_routes L S E))) (g, ?w) ?rq = (g2, w')"
    and g2: "gw_backend g2 = gw_backend g'"
    using assms(1)
    by (auto simp: serve_def Router_def RequestID_def Logging_def Metrics_def Let_def i_def split: prod.splits)
  have "limiter_allow L E g (request_key ?rq) = (g1, Inr True)" using la ok by (simp only: request_key_wire)
  then have "cors S (ServeMux (gateway_routes L S E)) (g1, ?w) ?rq = (g2, w')" using mid by (simp add: limiter_Middleware_def)
  then obtain w1 where "ServeMux (gateway_routes L S E) (g1, w1) ?rq = (g2, w')" "wr_Status w1 = None" "wr_Body w1 = []"
    using assms(3)
    by (auto simp: cors_def cors_headers_def set_header_def new_writer_def Let_def split: option.splits if_splits)
  moreover from this have "mux (gateway_routes L S E) (g1, w1) ?rq = (g2, w')" using assms(4) by (simp add: ServeMux_def)
  moreover have "wire ?rq = wire rq" "rq_user ?rq = None" by simp_all
  ultimately show ?thesis using limiter_allow_keeps [OF la] g2 by blast
qed

text \<open>
  C25: a bet is shown to its owner only.  When a request for a bet is answered with status 200, the
  sportsbook was asked for exactly that bet, the user of the bet it returned is the subject of a token
  accepted in this request, and the body is that bet and nothing else.
\<close>
theorem bet_shown_to_owner:
  assumes "serve L S E g rq = (g', w')" and "recorded_status w' = 200"
    and "rq_Segments rq = [''api'', ''bets'', i]" and "i \<noteq> []" and "rq_Redirect rq = None" and "rq_Method rq \<noteq> ''OPTIONS''"
  shows "\<exists>m uid. bk_BetUser (gl_backends L) m = Some uid \<and> authenticated L (gw_jwks g) rq uid
    \<and> snd (gl_conn L (gw_backend g) (caller_md gw_callerID) (B_GetBet i)) = Inr m
    \<and> wr_Body w' = (case bk_Marshal (gl_backends L) m of Inl err \<Rightarrow> [] | Inr t \<Rightarrow> [BodyText t])"
proof -
  obtain g1 g2 w1 rq1 where o: "keeps_outer g g1" and rq1: "wire rq1 = wire rq"
    and w1: "wr_Status w1 = None" "wr_Body w1 = []" and run: "mux (gateway_routes L S E) (g1, w1) rq1 = (g2, w')"
    using serve_routes [OF assms(1,2,6,5)] by auto
  have "rq_Segments rq1 = [''api'', ''bets'', i]" using assms(3) arg_cong [OF rq1, of rq_Segments] by simp
  from run [unfolded bet_route [OF this assms(4)]] w1(1) assms(2)
  obtain c user where u: "authenticated L (gw_jwks g1) (rq1\<lparr>rq_PathValue := [(''bet_id'', i)], rq_route := Some ''/api/bets/{bet_id}''\<rparr>) (au_ID user)"
    and h: "on_backend (handleGetBet L) (g1\<lparr>gw_jwks := c\<rparr>, w1)
      (rq1\<lparr>rq_PathValue := [(''bet_id'', i)], rq_route := Some ''/api/bets/{bet_id}'', rq_user := Some user\<rparr>) = (g2, w')"
    by (rule auth_cases)
  from get_bet_200 [OF h assms(2) w1] obtain m where
    "bk_BetUser (gl_backends L) m = Some (au_ID user)" "snd (gl_conn L (gw_backend g1) (caller_md gw_callerID) (B_GetBet i)) = Inr m"
    "wr_Body w' = (case bk_Marshal (gl_backends L) m of Inl err \<Rightarrow> [] | Inr t \<Rightarrow> [BodyText t])"
    by (auto simp: PathValue_def first_of_def)
  moreover have "authenticated L (gw_jwks g) rq (au_ID user)"
    using u o rq1 by (simp add: authenticated_def keeps_outer_def)
  ultimately show ?thesis using o unfolding keeps_outer_def by metis
qed

section \<open>The limiter\<close>

text \<open>
  C33: what the middlewares around the routes see.  Every request adds one entry to the counters, under
  its path and not the pattern of its route, and one to the log, both with the status of the response;
  and whoever it is for, it takes its token from the bucket of its client's address and from no other.
\<close>
theorem outer_middlewares_see_address:
  shows "case serve L S E g rq of (g', w') \<Rightarrow>
    gw_metrics g' = gw_metrics g @ [(rq_Method rq, rq_URLPath rq, recorded_status w')]
    \<and> (\<exists>i. gw_log g' = gw_log g @ [(i, recorded_status w', rq_Method rq, rq_URLPath rq)])
    \<and> (\<forall>k. k = client_key rq \<or> mget (gw_redis g') k = mget (gw_redis g) k
            \<and> mget (rl_limiters (gw_limiter g')) k = mget (rl_limiters (gw_limiter g)) k)"
proof -
  obtain g' w' where run: "serve L S E g rq = (g', w')" by (metis surj_pair)
  obtain g1 res where la: "limiter_allow L E g (client_key rq) = (g1, res)" by (metis surj_pair)
  have "mget (gw_redis g1) k = mget (gw_redis g) k" "mget (rl_limiters (gw_limiter g1)) k = mget (rl_limiters (gw_limiter g)) k"
    if "k \<noteq> client_key rq" for k
    using la that
    by (auto simp: limiter_allow_def allowRedis_def allowMemory_def getLimiter_def Let_def split: if_splits prod.splits option.splits)
  then show ?thesis using serve_cases(1-4) [OF run la] run by auto
qed

text \<open>A run of the gateway; the result counts the requests of the client \<open>k\<close> that are not refused.\<close>

fun gateway_run ::
  "('d, 'k, 'l, 'w, 'm) gateway_lib \<Rightarrow> gateway_server \<Rightarrow> string \<Rightarrow> ('k, 'l, 'w) gateway_state \<Rightarrow> (request_env \<times> http_request) list
   \<Rightarrow> ('k, 'l, 'w) gateway_state \<times> int" where
  "gateway_run L S k g [] = (g, 0)"
| "gateway_run L S k g ((E, rq) # reqs) =
     (case serve L S E g rq of
        (g', w) \<Rightarrow> (case gateway_run L S k g' reqs of
           (g'', n) \<Rightarrow> (g'', n + (if client_key rq = k \<and> recorded_status w \<noteq> 429 then 1 else 0))))"

definition redis_ok :: "int \<Rightarrow> ('k, 'l, 'w) gateway_state \<Rightarrow> bool" where
  "redis_ok t g \<longleftrightarrow> rl_backend (gw_limiter g) = ''redis'' \<and> limiter_ok (gw_limiter g) \<and> buckets_ok (gw_limiter g) t (gw_redis g)"

lemma serve_redis:
  assumes "redis_ok t g" and "t \<le> qe_unix E" and "serve L S E g rq = (g', w)"
  shows "redis_ok (qe_unix E) g' \<and> gw_limiter g' = gw_limiter g
    \<and> avail (gw_limiter g) (gw_redis g') k (qe_unix E) + (if client_key rq = k \<and> recorded_status w \<noteq> 429 then 1 else 0)
        \<le> avail (gw_limiter g) (gw_redis g) k (qe_unix E)"
proof -
  let ?rl = "gw_limiter g"
  obtain g1 res where la: "limiter_allow L E g (client_key rq) = (g1, res)" by (metis surj_pair)
  obtain r where r: "allowRedis ?rl (qe_unix E) (qe_fault E) (qe_applied E) (gw_redis g) (client_key rq) = (r, res)"
    and g1: "g1 = g\<lparr>gw_redis := r\<rparr>"
    using la assms(1) by (auto simp: limiter_allow_def redis_ok_def split: prod.splits)
  have st: "gw_limiter g' = ?rl" "gw_redis g' = r" "recorded_status w \<noteq> 429 \<longrightarrow> res = Inr True"
    using serve_cases(1,2,5) [OF assms(3) la] g1 by auto
  have ok: "limiter_ok ?rl" "buckets_ok ?rl t (gw_redis g)" using assms(1) by (auto simp: redis_ok_def)
  note step = allowRedis_effect [OF ok assms(2) r, of k]
  have "avail ?rl r k (qe_unix E) + (if client_key rq = k \<and> recorded_status w \<noteq> 429 then 1 else 0)
      \<le> avail ?rl (gw_redis g) k (qe_unix E)"
    using step st(3) by (auto split: if_splits)
  then show ?thesis using step st(1,2) assms(1) by (simp add: redis_ok_def)
qed

lemma gateway_run_redis:
  assumes "redis_ok t g" and "sorted_wrt (\<le>) (t # List.map (\<lambda>(E, rq). qe_unix E) reqs @ [t'])" and "gateway_run L S k g reqs = (g', n)"
  shows "redis_ok t' g' \<and> gw_limiter g' = gw_limiter g
    \<and> n + avail (gw_limiter g) (gw_redis g') k t' \<le> avail (gw_limiter g) (gw_redis g) k t + (t' - t) * rl_rate (gw_limiter g)"
  using assms
proof (induction reqs arbitrary: t g n)
  case Nil
  then have ok: "limiter_ok (gw_limiter g)" "buckets_ok (gw_limiter g) t (gw_redis g)" "t \<le> t'" by (auto simp: redis_ok_def)
  then show ?case
    using Nil avail_bounds(3) [OF ok(1,2) order_refl ok(3), of k] buckets_ok_later [OF ok(2,3)] by (auto simp: redis_ok_def)
next
  case (Cons req reqs)
  obtain E rq where req: "req = (E, rq)" by (cases req)
  obtain g1 w where 1: "serve L S E g rq = (g1, w)" by (metis surj_pair)
  obtain g2 m where 2: "gateway_run L S k g1 reqs = (g2, m)" by (metis surj_pair)
  have t: "t \<le> qe_unix E" and srt: "sorted_wrt (\<le>) (qe_unix E # List.map (\<lambda>(E, rq). qe_unix E) reqs @ [t'])"
    using Cons.prems(2) req by auto
  note step = serve_redis [OF Cons.prems(1) t 1, of k]
  have eq: "g' = g2" "n = m + (if client_key rq = k \<and> recorded_status w \<noteq> 429 then 1 else 0)"
    using Cons.prems(3) req 1 2 by simp_all
  have run: "gateway_run L S k g1 reqs = (g', m)" using 2 eq(1) by simp
  have ok: "limiter_ok (gw_limiter g)" "buckets_ok (gw_limiter g) t (gw_redis g)" using Cons.prems(1) by (auto simp: redis_ok_def)
  note IH = Cons.IH [OF step [THEN conjunct1] srt run]
  show ?case using IH step eq avail_bounds(3) [OF ok order_refl t, of k] by (simp add: algebra_simps)
qed

text \<open>
  C27: the limit on a client.  With the Redis limiter, both its rate and its burst at least one, a burst of
  at most two minutes of its rate, and a clock that does not go back (\<open>redis_ok\<close> also asks that no bucket
  in Redis is from the future or above the burst), in any run of the gateway, whatever else it serves and whichever calls to Redis fail, the requests of
  a client that are not refused between two instants number at most the burst and the rate times the
  seconds between them.
\<close>
theorem rate_limit_bound:
  assumes "redis_ok t g" and "sorted_wrt (\<le>) (t # List.map (\<lambda>(E, rq). qe_unix E) reqs @ [t'])"
  shows "snd (gateway_run L S k g reqs) \<le> rl_burst (gw_limiter g) + (t' - t) * rl_rate (gw_limiter g)"
proof -
  obtain g' n where run: "gateway_run L S k g reqs = (g', n)" by (metis surj_pair)
  note bound = gateway_run_redis [OF assms run]
  have ok: "limiter_ok (gw_limiter g)" "buckets_ok (gw_limiter g) t (gw_redis g)"
    "buckets_ok (gw_limiter g) t' (gw_redis g')" using assms(1) bound by (auto simp: redis_ok_def)
  show ?thesis
    using bound run avail_bounds(1) [OF ok(1,3) order_refl, of k] avail_bounds(2) [OF ok(1,2) order_refl, of k] by auto
qed

text \<open>
  C34: a client recovers.  After any such run, a second after its last request the limiter lets every
  client through, if Redis answers.
\<close>
theorem rate_limit_recovers:
  assumes "redis_ok t g" and "sorted_wrt (\<le>) (t # List.map (\<lambda>(E, rq). qe_unix E) reqs @ [t'])"
    and "gateway_run L S k g reqs = (g', n)" and "t' < qe_unix E" and "qe_fault E = None"
  shows "snd (limiter_allow L E g' key) = Inr True"
proof -
  have ok: "redis_ok t' g'" using gateway_run_redis [OF assms(1-3)] by simp
  then show ?thesis
    using allowRedis_recovers [of "gw_limiter g'" t' "gw_redis g'" "qe_unix E" "qe_applied E" key] assms(4,5)
    by (auto simp: redis_ok_def limiter_allow_def split: prod.splits)
qed

section \<open>Examples\<close>

text \<open>
  A library that takes the header \<open>Authorization\<close> for the subject, and backends that answer every
  call with the user \<open>ann\<close>; the body is chosen by a word.
\<close>

definition example_jwks :: "unit jwks_lib" where
  "example_jwks =
     \<lparr>jl_fetch = (\<lambda>url. Inr ()),
      jl_parse = (\<lambda>ks rq. case mget (rq_Header rq) ''Authorization'' of
         None \<Rightarrow> Inl (ExtErr ''no token'') | Some t \<Rightarrow> Inr \<lparr>tk_sub = Some t, tk_email = None, tk_name = None\<rparr>)\<rparr>"

definition example_decode :: "string \<Rightarrow> json result" where
  "example_decode s =
     (if s = ''withdraw'' then
        Inr (JObj [(''currency'', JStr ''EUR''), (''amount'', JStr ''4''), (''destinationAddress'', JStr ''d''), (''chain'', JStr ''c'')])
      else if s = ''settle'' then Inr (JObj [(''betId'', JStr ''b''), (''outcome'', JStr ''won'')])
      else Inl ErrJson)"

definition example_backends :: "(nat, string) backends" where
  "example_backends =
     \<lparr>bk_call = (\<lambda>n md c. (n + 1, Inr ''ann'')), bk_FiatCurrency = (\<lambda>m. []), bk_Rates = (\<lambda>m. []), bk_ResponseBody = (\<lambda>m. m),
      bk_HasEvent = (\<lambda>m. True), bk_BetUser = Some, bk_Marshal = Inr\<rparr>"

definition example_gateway_lib :: "(dec, unit, unit, nat, string) gateway_lib" where
  "example_gateway_lib =
     \<lparr>gl_D = dec_ops, gl_jwks = example_jwks, gl_limiters = \<lparr>ll_new = (\<lambda>r b. ()), ll_allow = (\<lambda>l. (l, True))\<rparr>,
      gl_backends = example_backends, gl_decode = (\<lambda>r. case r of Inl e \<Rightarrow> Inl e | Inr s \<Rightarrow> example_decode s),
      gl_unmarshal = example_decode, gl_order = (\<lambda>xs. xs), gl_metrics = (\<lambda>ms w. w)\<rparr>"

definition example_gateway :: gateway_server where
  "example_gateway = NewServer (\<lambda>xs. xs) ''root'' [] [] [] ''EUR:c'' \<lparr>lm_MinDeposit = [], lm_MaxDeposit = [], lm_DailyDeposit = [],
     lm_MinWithdrawal = ''1'', lm_MaxWithdrawal = ''9'', lm_DailyWithdrawal = []\<rparr>"

definition example_gateway_state :: "(unit, unit, nat) gateway_state" where
  "example_gateway_state =
     \<lparr>gw_backend = 0, gw_jwks = NewJWKSClient example_jwks 0 [], gw_limiter = NewRateLimiter ''redis'' [] 1 2,
      gw_redis = [], gw_metrics = [], gw_log = []\<rparr>"

definition env_at :: "int \<Rightarrow> request_env" where
  "env_at n = \<lparr>qe_now = n * second_ns, qe_unix = n, qe_uuid = ''id'', qe_fault = None, qe_applied = True\<rparr>"

definition request :: "string \<Rightarrow> string list \<Rightarrow> string \<Rightarrow> string \<Rightarrow> http_request" where
  "request meth path user body =
     \<lparr>rq_Method = meth, rq_URLPath = concat (List.map (Cons (CHR ''/'')) path), rq_Segments = path, rq_Redirect = None, rq_Query = [],
      rq_Header = [(''Authorization'', user)], rq_RemoteAddr = ''1.2.3.4:5'', rq_Body = Inr body, rq_PathValue = [],
      rq_user = None, rq_requestID = None, rq_route = None\<rparr>"

abbreviation example_calls :: "http_request \<Rightarrow> (string list gomap \<times> backend_call) list" where
  "example_calls \<equiv> calls_made example_gateway_lib example_gateway (env_at 7) example_gateway_state"

abbreviation withdraw_request :: http_request where
  "withdraw_request \<equiv> request ''POST'' [''api'', ''wallet'', ''withdraw''] ''ann'' ''withdraw''"

abbreviation settle_request :: "string \<Rightarrow> http_request" where
  "settle_request user \<equiv> request ''POST'' [''api'', ''admin'', ''bets'', ''settle''] user ''settle''"

lemma example_withdraw_calls:
  "example_calls withdraw_request = [(caller_md ''ann'', W_RequestWithdrawal ''ann'' ''EUR'' ''4'' ''d'' ''c'')]"
  by code_simp

lemma example_settle_calls:
  "example_calls (settle_request ''root'') = [(admin_md ''gateway'', B_SettleBet ''b'' ''won'')]"
  "example_calls (settle_request ''ann'') = []"
  by code_simp+

theorem gateway_acts_for_caller_witness:
  "authenticated example_gateway_lib (gw_jwks example_gateway_state) withdraw_request ''ann''
   \<and> (\<exists>u. authenticated example_gateway_lib (gw_jwks example_gateway_state) (settle_request ''root'') u
        \<and> mget (gs_adminUserIDs example_gateway) u \<noteq> None)
   \<and> example_calls (settle_request ''ann'') = []"
proof -
  have w: "(caller_md ''ann'', W_RequestWithdrawal ''ann'' ''EUR'' ''4'' ''d'' ''c'') \<in> set (example_calls withdraw_request)"
    by (simp add: example_withdraw_calls)
  have s: "(admin_md ''gateway'', B_SettleBet ''b'' ''won'') \<in> set (example_calls (settle_request ''root''))"
    by (simp add: example_settle_calls)
  show ?thesis using gateway_acts_for_caller [OF w] gateway_acts_for_caller [OF s] example_settle_calls(2) by simp
qed

theorem gateway_guards_wallet_witness:
  "gw_isSupportedPair example_gateway ''EUR'' ''c''
   \<and> (\<exists>x. dval dec_ops dec_val ''4'' = Some x \<and> 0 < x \<and> meets dec_ops dec_val (\<le>) x ''9'')"
proof -
  have D: "gl_D example_gateway_lib = dec_ops" by (simp add: example_gateway_lib_def)
  have l: "lm_MaxWithdrawal (gs_limits example_gateway) = ''9''" by code_simp
  have w: "(caller_md ''ann'', W_RequestWithdrawal ''ann'' ''EUR'' ''4'' ''d'' ''c'') \<in> set (example_calls withdraw_request)"
    by (simp add: example_withdraw_calls)
  show ?thesis using gateway_guards_wallet [OF w refdec.decimal_lib_axioms [folded D]] by (auto simp: D l)
qed

theorem gateway_calls_admitted_witness:
  "admitted (admin_md ''gateway'') (B_SettleBet ''b'' ''won'') = Inr () \<and> \<not> is_ok (admitted (caller_md ''gateway'') (B_SettleBet ''b'' ''won''))"
proof
  show "admitted (admin_md ''gateway'') (B_SettleBet ''b'' ''won'') = Inr ()"
    by (rule gateway_calls_admitted [of _ _ example_gateway_lib example_gateway "env_at 7" example_gateway_state "settle_request ''root''"])
      (simp_all add: example_settle_calls)
  show "\<not> is_ok (admitted (caller_md ''gateway'') (B_SettleBet ''b'' ''won''))" by code_simp
qed

definition bet_page :: "(unit, unit, nat) gateway_state \<times> writer" where
  "bet_page = serve example_gateway_lib example_gateway (env_at 7) example_gateway_state (request ''GET'' [''api'', ''bets'', ''b''] ''ann'' [])"

lemma example_authenticated:
  assumes "authenticated example_gateway_lib jc rq uid"
  shows "mget (rq_Header rq) ''Authorization'' = Some uid"
proof -
  obtain r token where r: "wire r = wire rq" "jl_parse example_jwks () r = Inr token" "tk_sub token = Some uid"
    using assms by (auto simp: authenticated_def example_gateway_lib_def)
  have "rq_Header r = rq_Header rq" using r(1) wire_eqD(2) by metis
  then show ?thesis using r(2,3) by (auto simp: example_jwks_def split: option.splits)
qed

theorem bet_shown_to_owner_witness:
  "\<exists>m. bk_BetUser example_backends m = Some ''ann'' \<and> wr_Body (snd bet_page) = [BodyText m]"
proof -
  obtain g w where run: "bet_page = (g, w)" by (metis surj_pair)
  have st: "recorded_status (snd bet_page) = 200" by code_simp
  have hdr: "mget (rq_Header (request meth path user body)) ''Authorization'' = Some user" for meth path user body
    by (simp add: request_def)
  from bet_shown_to_owner [OF run [unfolded bet_page_def], of "''b''"] st
  obtain m uid where "bk_BetUser example_backends m = Some uid"
    "authenticated example_gateway_lib (gw_jwks example_gateway_state) (request ''GET'' [''api'', ''bets'', ''b''] ''ann'' []) uid"
    "wr_Body w = (case bk_Marshal example_backends m of Inl err \<Rightarrow> [] | Inr t \<Rightarrow> [BodyText t])"
    by (auto simp: run request_def example_gateway_lib_def)
  then show ?thesis using example_authenticated hdr by (fastforce simp: run example_backends_def)
qed

definition example_reqs :: "(request_env \<times> http_request) list" where
  "example_reqs = List.map (\<lambda>n. (env_at n, request ''GET'' [''health''] ''ann'' [])) [7, 7, 7, 8]"

lemma example_redis_ok: "redis_ok 7 example_gateway_state"
  by (simp add: redis_ok_def example_gateway_state_def NewRateLimiter_def limiter_ok_def buckets_ok_def)

lemma example_reqs_sorted: "sorted_wrt (\<le>) (7 # List.map (\<lambda>(E, rq). qe_unix E) example_reqs @ [8])"
  by (simp add: example_reqs_def env_at_def)

theorem rate_limit_bound_witness:
  "snd (gateway_run example_gateway_lib example_gateway ''1.2.3.4'' example_gateway_state example_reqs) = 3
   \<and> snd (gateway_run example_gateway_lib example_gateway ''1.2.3.4'' example_gateway_state example_reqs) \<le> 3"
proof
  show "snd (gateway_run example_gateway_lib example_gateway ''1.2.3.4'' example_gateway_state example_reqs) = 3" by code_simp
  have "rl_burst (gw_limiter example_gateway_state) = 2" "rl_rate (gw_limiter example_gateway_state) = 1"
    by (simp_all add: example_gateway_state_def NewRateLimiter_def)
  then show "snd (gateway_run example_gateway_lib example_gateway ''1.2.3.4'' example_gateway_state example_reqs) \<le> 3"
    using rate_limit_bound [OF example_redis_ok example_reqs_sorted, of example_gateway_lib example_gateway "''1.2.3.4''"] by simp
qed

theorem rate_limit_recovers_witness:
  "case gateway_run example_gateway_lib example_gateway ''1.2.3.4'' example_gateway_state example_reqs of
     (g', n) \<Rightarrow> snd (limiter_allow example_gateway_lib (env_at 8) g' ''1.2.3.4'') = Inr False
       \<and> snd (limiter_allow example_gateway_lib (env_at 9) g' ''1.2.3.4'') = Inr True"
proof -
  obtain g' n where run: "gateway_run example_gateway_lib example_gateway ''1.2.3.4'' example_gateway_state example_reqs = (g', n)"
    by (metis surj_pair)
  have "snd (limiter_allow example_gateway_lib (env_at 8)
      (fst (gateway_run example_gateway_lib example_gateway ''1.2.3.4'' example_gateway_state example_reqs)) ''1.2.3.4'') = Inr False"
    by code_simp
  then show ?thesis
    using rate_limit_recovers [OF example_redis_ok example_reqs_sorted run, of "env_at 9"]
    by (simp add: run env_at_def)
qed

end
