(* ===== verification/System.thy ===== *)
theory System
  imports GatewayProps FeedSportsbook
begin

text \<open>
  The services behind the gateway: its connections lead to the gRPC servers of the wallet, the odds
  feed and the sportsbook, each behind its interceptor, and the sportsbook's own clients lead to the
  other two.

  Proved, for the Postgres stores: a request changes no row of another user, in the wallet's tables or
  among the bets, unless it comes from an administrator or is a deposit webhook.
\<close>

section \<open>The servers\<close>

record ('s, 'r, 'b, 'f) system_state =
  sy_wallet :: 's
  sy_nonces :: 'r
  sy_rates :: rate_cache
  sy_bets :: 'b
  sy_feed :: 'f

datatype message =
    MsgRates string "string gomap"
  | MsgBalance balance_response
  | MsgTransactions "pb_transaction list"
  | MsgAddress "string \<times> string \<times> string"
  | MsgWithdrawal "string \<times> string"
  | MsgWebhook string
  | MsgPending "(withdrawal_request \<times> string) list"
  | MsgReviewed string
  | MsgTransaction "string \<times> string"
  | MsgSports "pf_sport list"
  | MsgLeagues "pf_league list"
  | MsgEvents "pf_event list"
  | MsgEvent "pf_event option"
  | MsgMarkets "pf_market list"
  | MsgOutcomes "pf_outcome list"
  | MsgBet pb_bet
  | MsgBets "pb_bet list"

text \<open>
  What the services are built from: the stores, the wallet service, the rates, formatting of times,
  how an error arrives at a client, and the JSON of a message.
\<close>

record ('d, 'e, 's, 'r, 'eb, 'b, 'ef, 'f) services =
  sl_D :: "'d decimal_ops"
  sl_J :: json_codec
  sl_fmt :: "gtime \<Rightarrow> string"
  sl_fiat :: string
  sl_order :: "string list \<Rightarrow> string list"
  sl_S :: "('e, 's) store_ops"
  sl_sv :: "'r wallet_service"
  sl_A :: aggregator
  sl_B :: "('eb, 'b) bet_ops"
  sl_FS :: "('ef, 'f) feed_ops"
  sl_carry :: "go_error \<Rightarrow> go_error"
  sl_marshal :: "message \<Rightarrow> string result"

text \<open>
  What one call meets: the clock, the fate of the call, the answers of each store, and the same for
  the calls the sportsbook makes to the wallet and the feed.
\<close>

record ('e, 'eb, 'ef) call_env =
  ce_now :: gtime
  ce_fate :: rpc_fate
  ce_E :: 'e
  ce_EB :: "nat \<Rightarrow> 'eb"
  ce_EF :: "nat \<Rightarrow> 'ef"
  ce_wallet_fate :: rpc_fate
  ce_feed_fate :: "nat \<Rightarrow> rpc_fate"

abbreviation server_rates :: "('d, 'e, 's, 'r, 'eb, 'b, 'ef, 'f) services \<Rightarrow> ('e, 'eb, 'ef) call_env \<Rightarrow> rate_cache rate_fun option" where
  "server_rates SL CE \<equiv> Some (\<lambda>c fiat crypto. rates_GetRate (sl_D SL) (sl_A SL) (ce_now CE) c fiat crypto)"

abbreviation sportsbook_wallet :: "('d, 'e, 's, 'r, 'eb, 'b, 'ef, 'f) services \<Rightarrow> ('e, 'eb, 'ef) call_env \<Rightarrow> 's wallet_client" where
  "sportsbook_wallet SL CE \<equiv> wallet_over_grpc (sl_J SL) (sl_S SL) (ce_E CE) (ce_wallet_fate CE)"

abbreviation sportsbook_feed ::
  "('d, 'e, 's, 'r, 'eb, 'b, 'ef, 'f) services \<Rightarrow> ('e, 'eb, 'ef) call_env \<Rightarrow> 'f \<Rightarrow> feed_client" where
  "sportsbook_feed SL CE f \<equiv> feed_over_grpc (sl_fmt SL) (sl_FS SL) (ce_EF CE) (ce_feed_fate CE) (sl_carry SL) f"

text \<open>The handler a call reaches.\<close>

fun system_serve ::
  "('d, 'e, 's, 'r, 'eb, 'b, 'ef, 'f) services \<Rightarrow> ('e, 'eb, 'ef) call_env \<Rightarrow> ('s, 'r, 'b, 'f) system_state \<Rightarrow> backend_call
   \<Rightarrow> ('s, 'r, 'b, 'f) system_state \<times> message result" where
  "system_serve SL CE s (W_GetRates fiat) =
     (case srv_GetRates (sl_order SL) (sl_D SL) (sl_sv SL) (sl_A SL) (sl_fiat SL) (ce_now CE) (sy_rates s) fiat of
        (c, f, rs) \<Rightarrow> (s\<lparr>sy_rates := c\<rparr>, Inr (MsgRates f rs)))"
| "system_serve SL CE s (W_GetBalance u cur fiat) =
     (case srv_GetBalance (sl_D SL) (sl_S SL) (sl_sv SL) (server_rates SL CE) (sl_fiat SL) (ce_E CE) (sy_wallet s, sy_rates s) u cur fiat of
        ((w, c), r) \<Rightarrow> (s\<lparr>sy_wallet := w, sy_rates := c\<rparr>, map_sum id MsgBalance r))"
| "system_serve SL CE s (W_ListTransactions u fiat p n) =
     (case srv_ListTransactions (sl_D SL) (sl_S SL) (server_rates SL CE) (sl_fmt SL) (sl_fiat SL) (ce_E CE) (sy_wallet s) (sy_rates s) u p n fiat of
        (c, r) \<Rightarrow> (s\<lparr>sy_rates := c\<rparr>, map_sum id MsgTransactions r))"
| "system_serve SL CE s (W_GetDepositAddress u cur chain) =
     (case srv_GetDepositAddress (sl_S SL) (sl_sv SL) (ce_E CE) (sy_wallet s) u cur chain of
        (w, r) \<Rightarrow> (s\<lparr>sy_wallet := w\<rparr>, map_sum id MsgAddress r))"
| "system_serve SL CE s (W_RequestWithdrawal u cur amount dest chain) =
     (case srv_RequestWithdrawal (sl_S SL) (sl_sv SL) (ce_E CE) (sy_wallet s) u cur amount dest chain of
        (w, r) \<Rightarrow> (s\<lparr>sy_wallet := w\<rparr>, map_sum id MsgWithdrawal r))"
| "system_serve SL CE s (W_ProcessDepositWebhook body headers) =
     (case svc_ProcessDepositWebhook (sl_S SL) (sl_sv SL) (ce_E CE) (ce_now CE) (sy_wallet s, sy_nonces s) body headers of
        ((w, q), r) \<Rightarrow> (s\<lparr>sy_wallet := w, sy_nonces := q\<rparr>, map_sum id MsgWebhook r))"
| "system_serve SL CE s (W_ListPendingWithdrawals p n) =
     (s, map_sum id MsgPending (srv_ListPendingWithdrawals (sl_S SL) (sl_fmt SL) (ce_E CE) (sy_wallet s) p n))"
| "system_serve SL CE s (W_ReviewWithdrawal i action txHash by1) =
     (case srv_ReviewWithdrawal (sl_S SL) (ce_E CE) (sy_wallet s) i action txHash by1 of
        (w, r) \<Rightarrow> (s\<lparr>sy_wallet := w\<rparr>, map_sum id MsgReviewed r))"
| "system_serve SL CE s (W_DebitWallet d) =
     (case srv_DebitWallet (sl_J SL) (sl_S SL) (ce_E CE) (sy_wallet s) (dr_UserId d) (dr_Currency d) (dr_Amount d) (dr_ReferenceId d) (dr_Metadata d) of
        (w, r) \<Rightarrow> (s\<lparr>sy_wallet := w\<rparr>, map_sum id MsgTransaction r))"
| "system_serve SL CE s (W_CreditWallet d) =
     (case srv_CreditWallet (sl_J SL) (sl_S SL) (ce_E CE) (sy_wallet s) (dr_UserId d) (dr_Currency d) (dr_Amount d) (dr_ReferenceId d) (dr_Metadata d) of
        (w, r) \<Rightarrow> (s\<lparr>sy_wallet := w\<rparr>, map_sum id MsgTransaction r))"
| "system_serve SL CE s (F_ListSports p n) = (s, map_sum id MsgSports (fsrv_ListSports (sl_FS SL) (ce_EF CE 0) (sy_feed s) p n))"
| "system_serve SL CE s (F_ListLeagues sp p n) = (s, map_sum id MsgLeagues (fsrv_ListLeagues (sl_FS SL) (ce_EF CE 0) (sy_feed s) sp p n))"
| "system_serve SL CE s (F_ListEvents sp l st p n) =
     (s, map_sum id MsgEvents (fsrv_ListEvents (sl_fmt SL) (sl_FS SL) (ce_EF CE 0) (sy_feed s) sp l st p n))"
| "system_serve SL CE s (F_GetEvent i) = (s, map_sum id MsgEvent (fsrv_GetEvent (sl_fmt SL) (sl_FS SL) (ce_EF CE 0) (sy_feed s) i))"
| "system_serve SL CE s (F_ListMarkets e st p n) = (s, map_sum id MsgMarkets (fsrv_ListMarkets (sl_FS SL) (ce_EF CE 0) (sy_feed s) e st p n))"
| "system_serve SL CE s (F_ListOutcomes m st p n) = (s, map_sum id MsgOutcomes (fsrv_ListOutcomes (sl_FS SL) (ce_EF CE 0) (sy_feed s) m st p n))"
| "system_serve SL CE s (F_ListLiveScores sp l p n) =
     (s, map_sum id MsgEvents (fsrv_ListLiveScores (sl_fmt SL) (sl_FS SL) (ce_EF CE 0) (sy_feed s) sp l p n))"
| "system_serve SL CE s (B_PlaceBet u e m oc stake cur ref) =
     (case srv_PlaceBet (sl_fmt SL) (sl_D SL) (sl_J SL) (sl_B SL) (sportsbook_wallet SL CE) (sportsbook_feed SL CE (sy_feed s))
             (ce_EB CE) (ce_now CE) (sy_bets s, sy_wallet s) u e m oc stake cur ref of
        ((b, w), r) \<Rightarrow> (s\<lparr>sy_bets := b, sy_wallet := w\<rparr>, map_sum id MsgBet r))"
| "system_serve SL CE s (B_GetBet i) = (s, map_sum id MsgBet (srv_GetBet (sl_fmt SL) (sl_B SL) (ce_EB CE 0) (sy_bets s) i))"
| "system_serve SL CE s (B_ListBets u st p n) = (s, map_sum id MsgBets (srv_ListBets (sl_fmt SL) (sl_B SL) (ce_EB CE 0) (sy_bets s) u st p n))"
| "system_serve SL CE s (B_SettleBet i outcome) =
     (case srv_SettleBet (sl_fmt SL) (sl_B SL) (sportsbook_wallet SL CE) (ce_EB CE) (ce_now CE) (sy_bets s, sy_wallet s) i outcome of
        ((b, w), r) \<Rightarrow> (s\<lparr>sy_bets := b, sy_wallet := w\<rparr>, map_sum id MsgBet r))"

definition system_call ::
  "('d, 'e, 's, 'r, 'eb, 'b, 'ef, 'f) services \<Rightarrow> ('e, 'eb, 'ef) call_env \<Rightarrow> (('s, 'r, 'b, 'f) system_state, message) rpc_conn" where
  "system_call SL CE s md c =
     over_grpc (ce_fate CE)
       (\<lambda>s. case admitted md c of
          Inl err \<Rightarrow> (s, Inl err)
        | Inr _ \<Rightarrow> apsnd (map_sum (sl_carry SL) id) (system_serve SL CE s c)) s"

definition system_backends ::
  "('d, 'e, 's, 'r, 'eb, 'b, 'ef, 'f) services \<Rightarrow> ('e, 'eb, 'ef) call_env \<Rightarrow> (('s, 'r, 'b, 'f) system_state, message) backends" where
  "system_backends SL CE =
     \<lparr>bk_call = system_call SL CE,
      bk_FiatCurrency = (\<lambda>m. case m of MsgRates f rs \<Rightarrow> f | _ \<Rightarrow> []),
      bk_Rates = (\<lambda>m. case m of MsgRates f rs \<Rightarrow> rs | _ \<Rightarrow> []),
      bk_ResponseBody = (\<lambda>m. case m of MsgWebhook b \<Rightarrow> b | _ \<Rightarrow> []),
      bk_HasEvent = (\<lambda>m. case m of MsgEvent e \<Rightarrow> e \<noteq> None | _ \<Rightarrow> False),
      bk_BetUser = (\<lambda>m. case m of MsgBet b \<Rightarrow> Some (pv_UserId b) | _ \<Rightarrow> None),
      bk_Marshal = sl_marshal SL\<rparr>"

lemma system_call_state:
  "fst (system_call SL CE s md c) = s \<or> fst (system_call SL CE s md c) = fst (system_serve SL CE s c)"
  by (cases "ce_fate CE") (auto simp: system_call_def over_grpc_def split: sum.splits prod.splits)

section \<open>The rows of a user\<close>

definition rows_of :: "string \<Rightarrow> pg_db \<Rightarrow> pg_db" where
  "rows_of v db =
     \<lparr>pg_wallets = filter (\<lambda>w. w_UserID w = v) (pg_wallets db), pg_txns = filter (\<lambda>t. q_UserID t = v) (pg_txns db),
      pg_addresses = filter (\<lambda>a. a_UserID a = v) (pg_addresses db), pg_requests = filter (\<lambda>r. u_UserID r = v) (pg_requests db)\<rparr>"

text \<open>Statements on the rows of \<open>u\<close>.\<close>

lemma filter_map_other:
  assumes "\<And>x. x \<in> set xs \<Longrightarrow> f x = x \<or> \<not> P x \<and> \<not> P (f x)"
  shows "filter P (List.map f xs) = filter P xs"
  using assms
proof (induction xs)
  case (Cons x xs)
  have "filter P (List.map f xs) = filter P xs" by (rule Cons.IH) (rule Cons.prems, simp)
  moreover have "f x = x \<or> \<not> P x \<and> \<not> P (f x)" by (rule Cons.prems) simp
  ultimately show ?case by auto
qed simp

lemma upd_balance_rows:
  assumes "distinct (List.map w_ID (pg_wallets db))" and "w \<in> set (pg_wallets db)" and "w_UserID w \<noteq> v"
    and "upd_balance N G nb (w_ID w) ver db = Inr (db', n)"
  shows "rows_of v db' = rows_of v db"
proof -
  have eq: "x = w" if "x \<in> set (pg_wallets db)" "w_ID x = w_ID w" for x
    using assms(1,2) that by (simp add: distinct_map inj_on_def)
  define hit where "hit = (\<lambda>x :: wallet. w_ID x = w_ID w \<and> w_Version x = ver)"
  obtain b where db': "db' = db\<lparr>pg_wallets := List.map (\<lambda>x. if hit x
      then x\<lparr>w_Balance := b, w_Version := w_Version x + 1, w_UpdatedAt := e_now G\<rparr> else x) (pg_wallets db)\<rparr>"
    using assms(4) by (auto simp: upd_balance_def hit_def Let_def split: option.splits if_splits)
  have "filter (\<lambda>w. w_UserID w = v) (pg_wallets db') = filter (\<lambda>w. w_UserID w = v) (pg_wallets db)"
    unfolding db' by (simp, rule filter_map_other) (use eq assms(3) in \<open>auto simp: hit_def\<close>)
  then show ?thesis by (simp add: rows_of_def db')
qed

lemma ins_rows:
  "ins_txn N row db = Inr (db', st) \<Longrightarrow> q_UserID row \<noteq> v \<Longrightarrow> rows_of v db' = rows_of v db"
  "ins_request N row2 db = Inr (db', st2) \<Longrightarrow> u_UserID row2 \<noteq> v \<Longrightarrow> rows_of v db' = rows_of v db"
  by (auto simp: ins_txn_def ins_request_def rows_of_def Let_def split: option.splits if_splits)

text \<open>What a checked debit found: the row of the user, and nothing changed.\<close>

lemma pg_covered_row:
  assumes "pg_covered D E prefix u c amount (live db) = (t, Inr (w, nb))"
  shows "t = live db" and "w \<in> set (pg_wallets db)" and "w_UserID w = u"
proof -
  from assms have f: "List.find (\<lambda>w. w_UserID w = u \<and> w_Currency w = c) (pg_wallets db) = Some w" and t: "t = live db"
    by (auto simp: pg_covered_def tx_then_Inr pg_stmt_Inr sel_wallet_def split: option.splits sum.splits if_splits)
  show "t = live db" by (rule t)
  show "w \<in> set (pg_wallets db)" "w_UserID w = u" using f by (auto simp: find_Some_iff)
qed

definition frames :: "string \<Rightarrow> (pg_tx \<Rightarrow> pg_tx \<times> 'a result) \<Rightarrow> pg_db \<Rightarrow> bool" where
  "frames v body db \<longleftrightarrow> (\<forall>t x. body (live db) = (t, Inr x) \<longrightarrow> rows_of v (tx_db t) = rows_of v db)"

lemma pg_in_tx_frames: "frames v body db \<Longrightarrow> rows_of v (fst (pg_in_tx E body db)) = rows_of v db"
  by (cases "pg_in_tx E body db" rule: prod.exhaust) (auto simp: frames_def elim!: pg_in_tx_cases)

lemma pg_debit_frames:
  assumes "distinct (List.map w_ID (pg_wallets db))" and "u \<noteq> v"
  shows "frames v (pg_debit_body D N E u c amount ref m) db"
  unfolding frames_def
proof (intro allI impI)
  fix t x
  assume body: "pg_debit_body D N E u c amount ref m (live db) = (t, Inr x)"
  obtain t0 r0 where ex: "pg_existing E 1 ''check reference id: '' ref (live db) = (t0, Inr r0)"
    using body by (auto simp: pg_debit_body_def tx_then_Inr)
  note t0 = pg_existing_Inr(1) [OF ex]
  show "rows_of v (tx_db t) = rows_of v db"
  proof (cases r0)
    case (Some txn)
    then show ?thesis using body ex t0 by (auto simp: pg_debit_body_def tx_then_Inr)
  next
    case None
    then obtain t1 w nb where cov: "pg_covered D E ''debit wallet: '' u c amount (live db) = (t1, Inr (w, nb))"
      and mv: "pg_move N E u c w ''withdrawal'' amount nb ref m t1 = (t, Inr x)"
      using body ex t0 by (auto simp: pg_debit_body_def tx_then_Inr)
    note w = pg_covered_row [OF cov]
    obtain db1 n db2 st row where 1: "upd_balance N (genv.truncate E) nb (w_ID w) (w_Version w) db = Inr (db1, n)"
      and 2: "ins_txn N row db1 = Inr (db2, st)" "q_UserID row = u" and t: "t = live db2"
      using pg_move_Inr [OF mv [unfolded w(1)]] by fastforce
    have "rows_of v db1 = rows_of v db" using upd_balance_rows [OF assms(1) w(2) _ 1] w(3) assms(2) by simp
    then show ?thesis using ins_rows(1) [OF 2(1)] 2(2) assms(2) t by simp
  qed
qed

lemma pg_request_frames:
  assumes "distinct (List.map w_ID (pg_wallets db))" and "u \<noteq> v"
  shows "frames v (pg_request_body D N E u c amount dest chain) db"
  unfolding frames_def
proof (intro allI impI)
  fix t x
  assume body: "pg_request_body D N E u c amount dest chain (live db) = (t, Inr x)"
  then obtain t1 w nb where cov: "pg_covered D E ''debit wallet for withdrawal: '' u c amount (live db) = (t1, Inr (w, nb))"
    by (auto simp: pg_request_body_def tx_then_Inr)
  note w = pg_covered_row [OF cov]
  from body cov w(1) obtain db1 n db2 req db3 stored q row where
    1: "upd_balance N (genv.truncate E) nb (w_ID w) (w_Version w) db = Inr (db1, n)"
    and 2: "ins_request N q db1 = Inr (db2, req)" "u_UserID q = u"
    and 3: "ins_txn N row db2 = Inr (db3, stored)" "q_UserID row = u" and t: "t = live db3"
    by (fastforce simp: pg_request_body_def tx_then_Inr pg_stmt_Inr split: if_splits)
  have "rows_of v db1 = rows_of v db" using upd_balance_rows [OF assms(1) w(2) _ 1] w(3) assms(2) by simp
  moreover have "rows_of v db2 = rows_of v db1" using ins_rows(2) [OF 2(1)] 2(2) assms(2) by simp
  moreover have "rows_of v db3 = rows_of v db2" using ins_rows(1) [OF 3(1)] 3(2) assms(2) by simp
  ultimately show "rows_of v (tx_db t) = rows_of v db" using t by simp
qed

lemma pg_auto_frames:
  "(\<And>db' x. f db = Inr (db', x) \<Longrightarrow> rows_of v db' = rows_of v db) \<Longrightarrow> rows_of v (fst (pg_auto E f db)) = rows_of v db"
  by (auto simp: pg_auto_def split: sum.splits option.splits)

lemma upsert_wallet_rows:
  assumes "upsert_wallet N G u c db = Inr (db', w)" and "u \<noteq> v"
  shows "rows_of v db' = rows_of v db"
proof (cases "List.find (\<lambda>w. w_UserID w = u \<and> w_Currency w = c) (pg_wallets db)")
  case None
  then show ?thesis
    using assms by (auto simp: upsert_wallet_def ins_wallet_def rows_of_def Let_def split: option.splits if_splits)
next
  case (Some w0)
  then have "pg_wallets db' = List.map (\<lambda>w. if w_UserID w = u \<and> w_Currency w = c then w\<lparr>w_UpdatedAt := e_now G\<rparr> else w) (pg_wallets db)"
    and "pg_txns db' = pg_txns db" "pg_addresses db' = pg_addresses db" "pg_requests db' = pg_requests db"
    using assms(1) by (auto simp: upsert_wallet_def Let_def)
  moreover have "filter (\<lambda>w. w_UserID w = v) (List.map (\<lambda>w. if w_UserID w = u \<and> w_Currency w = c then w\<lparr>w_UpdatedAt := e_now G\<rparr> else w) (pg_wallets db))
      = filter (\<lambda>w. w_UserID w = v) (pg_wallets db)"
    by (rule filter_map_other) (use assms(2) in auto)
  ultimately show ?thesis by (simp add: rows_of_def)
qed

text \<open>The operations for a user \<open>u\<close>.\<close>

lemma pg_ops_frames:
  assumes "distinct (List.map w_ID (pg_wallets db))" and "u \<noteq> v"
  shows "rows_of v (fst (pg_DebitWallet D N E db u c a ref m)) = rows_of v db"
    and "rows_of v (fst (pg_RequestWithdrawal D N E db u c a dest chain)) = rows_of v db"
    and "rows_of v (fst (pg_CreateWallet N E db u c)) = rows_of v db"
    and "a_UserID addr = u \<Longrightarrow> rows_of v (fst (pg_CreateDepositAddress E db addr)) = rows_of v db"
proof -
  show "rows_of v (fst (pg_DebitWallet D N E db u c a ref m)) = rows_of v db"
    unfolding pg_DebitWallet_def by (rule pg_in_tx_frames [OF pg_debit_frames [OF assms]])
  show "rows_of v (fst (pg_RequestWithdrawal D N E db u c a dest chain)) = rows_of v db"
    unfolding pg_RequestWithdrawal_def by (rule pg_in_tx_frames [OF pg_request_frames [OF assms]])
  have "rows_of v (fst (pg_auto (at_site 10 E) (upsert_wallet N (genv.truncate E) u c) db)) = rows_of v db"
    by (rule pg_auto_frames) (rule upsert_wallet_rows [OF _ assms(2)])
  then show "rows_of v (fst (pg_CreateWallet N E db u c)) = rows_of v db"
    by (auto simp: pg_CreateWallet_def split: prod.splits sum.splits)
  show "rows_of v (fst (pg_CreateDepositAddress E db addr)) = rows_of v db" if "a_UserID addr = u"
  proof -
    have "rows_of v (fst (pg_auto (at_site 10 E) (ins_address (genv.truncate E) addr) db)) = rows_of v db"
      by (rule pg_auto_frames) (use that assms(2) in \<open>auto simp: ins_address_def rows_of_def Let_def split: if_splits\<close>)
    then show ?thesis by (auto simp: pg_CreateDepositAddress_def split: prod.splits sum.splits)
  qed
qed

section \<open>The calls of a user\<close>

text \<open>What placing a bet does to the wallet service: at most one debit of the user.\<close>

lemma PlaceBet_wallet:
  "snd (fst (PlaceBet D J B W F E now (s, w) u ev m oc stake cur ref)) = w
   \<or> (\<exists>a r meta. snd (fst (PlaceBet D J B W F E now (s, w) u ev m oc stake cur ref)) = fst (WC_DebitWallet W w u cur a r meta))"
  by (auto simp: PlaceBet_def PlaceBet_commit_def new_bet_def split: sum.splits prod.splits if_splits) (metis fst_conv)+

text \<open>A call for the user \<open>u\<close> that is neither an administrator's nor a webhook leaves the rows of others.\<close>

definition user_call :: "backend_call \<Rightarrow> bool" where
  "user_call c \<longleftrightarrow> \<not> admin_only c \<and> (\<forall>body headers. c \<noteq> W_ProcessDepositWebhook body headers)"

lemma debit_over_grpc_rows:
  assumes "distinct (List.map w_ID (pg_wallets db))" and "u \<noteq> v"
  shows "rows_of v (fst (WC_DebitWallet (wallet_over_grpc J (pg_ops D N o1 o2) E fate) db u c a ref m)) = rows_of v db"
proof -
  obtain db' r where run: "WC_DebitWallet (wallet_over_grpc J (pg_ops D N o1 o2) E fate) db u c a ref m = (db', r)" by (metis surj_pair)
  from wallet_debit_over_grpc [OF run] consider "db' = db"
    | meta rd where "pg_DebitWallet D N E db u c a ref meta = (db', rd)" by (auto simp: pg_ops_def)
  then show ?thesis
  proof cases
    case 2
    then show ?thesis using pg_ops_frames(1) [OF assms, of D N E c a ref meta] by (simp add: run)
  qed (simp add: run)
qed

text \<open>The store after the handlers a user reaches, whatever the store is.\<close>

lemma srv_GetBalance_state:
  assumes "srv_GetBalance D S sv rates env E (s, c) u cur fiat = ((s', c'), r)"
  shows "s' = s \<or> s' = fst (CreateWallet S E s u cur)"
  using assms by (auto simp: srv_GetBalance_def svc_GetBalance_def Let_def split: prod.splits sum.splits if_splits)

lemma srv_GetDepositAddress_state:
  assumes "srv_GetDepositAddress S sv E s u cur chain = (s', r)"
  shows "s' = s \<or> (\<exists>addr. a_UserID addr = u \<and> s' = fst (CreateDepositAddress S E s addr))"
proof -
  let ?addr = "\<lambda>address. \<lparr>a_ID = [], a_UserID = u, a_Currency = cur, a_Chain = chain, a_Address = address,
    a_XCashDepositID = [], a_Status = ''active'', a_CreatedAt = zero_time\<rparr>"
  have "s' = s \<or> (\<exists>address. s' = fst (CreateDepositAddress S E s (?addr address)))"
    using assms by (auto simp: srv_GetDepositAddress_def svc_GetDepositAddress_def split: prod.splits sum.splits) (metis fst_conv)+
  moreover have "a_UserID (?addr address) = u" for address by simp
  ultimately show ?thesis by blast
qed

lemma srv_RequestWithdrawal_state:
  assumes "srv_RequestWithdrawal S sv E s u cur amount dest chain = (s', r)"
  shows "s' = s \<or> s' = fst (RequestWithdrawal S E s u cur amount dest chain)"
  using assms by (auto simp: srv_RequestWithdrawal_def svc_RequestWithdrawal_def split: prod.splits sum.splits)

lemma user_call_wallet_rows:
  assumes "sl_S SL = pg_ops D N o1 o2" and "distinct (List.map w_ID (pg_wallets (sy_wallet s)))"
    and "user_call c" and "acts_for c \<noteq> Some v"
  shows "rows_of v (sy_wallet (fst (system_serve SL CE s c))) = rows_of v (sy_wallet s)"
proof -
  note ops = pg_ops_def [of D N o1 o2, folded assms(1)]
  show ?thesis
  proof (cases c)
    case (W_GetBalance u cur fiat)
    obtain w rc r where run: "srv_GetBalance (sl_D SL) (sl_S SL) (sl_sv SL) (server_rates SL CE) (sl_fiat SL) (ce_E CE)
        (sy_wallet s, sy_rates s) u cur fiat = ((w, rc), r)" by (metis surj_pair)
    have "rows_of v w = rows_of v (sy_wallet s)"
      using srv_GetBalance_state [OF run] pg_ops_frames(3) [OF assms(2), of u v N "ce_E CE" cur] W_GetBalance assms(4) by (auto simp: ops)
    then show ?thesis by (simp add: W_GetBalance run)
  next
    case (W_GetDepositAddress u cur chain)
    obtain w r where run: "srv_GetDepositAddress (sl_S SL) (sl_sv SL) (ce_E CE) (sy_wallet s) u cur chain = (w, r)" by (metis surj_pair)
    have "rows_of v w = rows_of v (sy_wallet s)"
      using srv_GetDepositAddress_state [OF run] pg_ops_frames(4) [OF assms(2), of u v] W_GetDepositAddress assms(4) by (auto simp: ops)
    then show ?thesis by (simp add: W_GetDepositAddress run)
  next
    case (W_RequestWithdrawal u cur amount dest chain)
    obtain w r where run: "srv_RequestWithdrawal (sl_S SL) (sl_sv SL) (ce_E CE) (sy_wallet s) u cur amount dest chain = (w, r)"
      by (metis surj_pair)
    have "rows_of v w = rows_of v (sy_wallet s)"
      using srv_RequestWithdrawal_state [OF run] pg_ops_frames(2) [OF assms(2), of u v D N "ce_E CE" cur amount dest chain]
        W_RequestWithdrawal assms(4) by (auto simp: ops)
    then show ?thesis by (simp add: W_RequestWithdrawal run)
  next
    case (B_PlaceBet u e m oc stake cur ref)
    then have uv: "u \<noteq> v" using assms(4) by simp
    obtain b w r where run: "PlaceBet (sl_D SL) (sl_J SL) (sl_B SL) (sportsbook_wallet SL CE) (sportsbook_feed SL CE (sy_feed s))
      (ce_EB CE) (ce_now CE) (sy_bets s, sy_wallet s) u e m oc stake cur ref = ((b, w), r)" by (rule pair3E)
    have debit: "rows_of v (fst (WC_DebitWallet (sportsbook_wallet SL CE) (sy_wallet s) u cur a r meta)) = rows_of v (sy_wallet s)"
      for a r meta unfolding assms(1) by (rule debit_over_grpc_rows [OF assms(2) uv])
    have "rows_of v w = rows_of v (sy_wallet s)"
      using PlaceBet_wallet [of "sl_D SL" "sl_J SL" "sl_B SL" "sportsbook_wallet SL CE" "sportsbook_feed SL CE (sy_feed s)"
          "ce_EB CE" "ce_now CE" "sy_bets s" "sy_wallet s" u e m oc stake cur ref] debit
      unfolding run by auto
    then show ?thesis by (simp add: B_PlaceBet srv_PlaceBet_def run)
  qed (use assms(3) in \<open>simp_all add: user_call_def split: prod.splits\<close>)
qed

section \<open>The bets of others\<close>

context bet_store
begin

lemma PlaceBet_others:
  assumes "inv s" and "fresh (E 1) s" and "u \<noteq> v"
    and "PlaceBet D J B W F E now (s, w) u ev m oc stake cur ref = ((s', w'), r)"
  shows "inv s' \<and> (\<forall>i b. b_UserID b = v \<longrightarrow> bets s' i = Some b \<longleftrightarrow> bets s i = Some b)"
  using assms(1,4)
proof (cases rule: place_cases)
  case early
  then show ?thesis using assms(1) by simp
next
  case (commit odds payout)
  let ?bet = "new_bet u ev m oc stake cur ref odds payout now"
  have bet: "b_ID ?bet = []" "b_UserID ?bet = u" by (simp_all add: new_bet_def empty_bet_def)
  from assms(1,2) bet(1) commit(1) show ?thesis
  proof (cases rule: place_commit_cases)
    case (unpaid i b')
    then show ?thesis using assms(3) bet(2) by (auto simp: created_def)
  next
    case (debited i b1 b' meta rd)
    then show ?thesis using assms(3) bet(2) by (auto simp: created_def same_terms_def)
  qed simp
qed

end

lemma user_call_bets:
  assumes "sl_B SL = pb_ops NB ordb" and "uuid_server NB" and "permutes_entries ordb" and "pb_inv NB (sy_bets s)"
    and "user_call c" and "acts_for c \<noteq> Some v"
  shows "{b \<in> set (sy_bets (fst (system_serve SL CE s c))). b_UserID b = v} = {b \<in> set (sy_bets s). b_UserID b = v}"
proof (cases c)
  case (B_PlaceBet u e m oc stake cur ref)
  then have uv: "u \<noteq> v" using assms(6) by simp
  obtain b w r where run: "PlaceBet (sl_D SL) (sl_J SL) (sl_B SL) (sportsbook_wallet SL CE) (sportsbook_feed SL CE (sy_feed s))
    (ce_EB CE) (ce_now CE) (sy_bets s, sy_wallet s) u e m oc stake cur ref = ((b, w), r)" by (rule pair3E)
  note other = bet_store.PlaceBet_others [OF pb_bet_store [OF assms(2,3)] assms(4) TrueI uv run [unfolded assms(1)]]
  have "{x \<in> set b. b_UserID x = v} = {x \<in> set (sy_bets s). b_UserID x = v}"
    using other pb_bets_iff [of NB b] pb_bets_iff [OF assms(4)] by blast
  then show ?thesis by (simp add: B_PlaceBet srv_PlaceBet_def run)
qed (use assms(5) in \<open>simp_all add: user_call_def split: prod.splits\<close>)

section \<open>A request touches the caller's rows only\<close>

text \<open>
  C1: isolation of users.  With the gateway in front of the wallet, the sportsbook and the feed, both
  stores on Postgres, a request that no administrator sends and that is not a deposit webhook leaves
  every row of every user it is not authenticated for as it is: wallets, transactions, addresses,
  withdrawal requests and bets, whichever statement, commit or remote call fails.  The state of the
  wallet is one reached with amounts of at most eight decimals.
\<close>
theorem request_touches_own_rows:
  assumes "gl_backends L = system_backends SL CE" and "sl_S SL = pg_ops D N o1 o2" and "sl_B SL = pb_ops NB ordb"
    and "pg_server D val N" and "reach pg_empty (pg_step D N (scale8_call D val)) (sy_wallet (gw_backend g))"
    and "uuid_server NB" and "permutes_entries ordb" and "pb_inv NB (sy_bets (gw_backend g))"
    and "serve L S E g rq = (g', w')" and "rq_Segments rq \<noteq> webhook_path"
    and "\<forall>u. authenticated L (gw_jwks g) rq u \<longrightarrow> u \<noteq> v \<and> mget (gs_adminUserIDs S) u = None"
  shows "rows_of v (sy_wallet (gw_backend g')) = rows_of v (sy_wallet (gw_backend g))
    \<and> {b \<in> set (sy_bets (gw_backend g')). b_UserID b = v} = {b \<in> set (sy_bets (gw_backend g)). b_UserID b = v}"
proof -
  have ids: "distinct (List.map w_ID (pg_wallets (sy_wallet (gw_backend g))))"
    using pg_server.pg_reach_inv [OF assms(4,5)] by (simp add: pg_inv_def)
  obtain g1 res where "limiter_allow L E g (client_key rq) = (g1, res)" by (metis surj_pair)
  from serve_cases(6) [OF assms(9) this] obtain user where
    user: "\<forall>uid. user = Some uid \<longrightarrow> authenticated L (gw_jwks g) rq uid"
    and step: "stepped L S user (rq_Segments rq) (gw_backend g) (gw_backend g')" by blast
  show ?thesis
  proof (cases "gw_backend g' = gw_backend g")
    case False
    then obtain md c where c: "may_call L S user (rq_Segments rq) md c"
      and b': "gw_backend g' = fst (system_call SL CE (gw_backend g) md c)"
      using step assms(1) by (auto simp: stepped_def system_backends_def)
    have "user_call c" "acts_for c \<noteq> Some v"
      using c user assms(10,11) by (auto simp: may_call_def user_call_def)
    moreover have "gw_backend g' = fst (system_serve SL CE (gw_backend g) c)"
      using b' system_call_state [of SL CE "gw_backend g" md c] False by auto
    ultimately show ?thesis
      using user_call_wallet_rows [OF assms(2) ids] user_call_bets [OF assms(3,6,7,8)] by simp
  qed simp
qed

section \<open>Examples\<close>

definition example_services ::
  "(dec, pg_env, pg_db, int gomap, pg_env, bet_rows, pg_env, feed_pg) services" where
  "example_services =
     \<lparr>sl_D = dec_ops, sl_J = example_json, sl_fmt = (\<lambda>t. ''2024''), sl_fiat = ''usd'', sl_order = (\<lambda>xs. xs),
      sl_S = pg_ops dec_ops example_server (\<lambda>x. x) (\<lambda>x. x),
      sl_sv = NewService (sv_validate example_service) (\<lambda>q. Inr ''0xabc'') [''EUR:c''], sl_A = example_rates,
      sl_B = pb_ops example_bet_lib (\<lambda>db. db), sl_FS = fg_ops example_feed_lib row_order, sl_carry = (\<lambda>e. e),
      sl_marshal = (\<lambda>m. Inr (case m of MsgBalance r \<Rightarrow> br_Balance r | _ \<Rightarrow> []))\<rparr>"

definition example_call_env :: "(pg_env, pg_env, pg_env) call_env" where
  "example_call_env =
     \<lparr>ce_now = 5000, ce_fate = Delivered, ce_E = example_pg_env ''w'', ce_EB = (\<lambda>n. example_pg_env ''p''),
      ce_EF = (\<lambda>n. example_feed_env), ce_wallet_fate = Delivered, ce_feed_fate = (\<lambda>n. Delivered)\<rparr>"

definition example_system_lib ::
  "(dec, unit, unit, (pg_db, int gomap, bet_rows, feed_pg) system_state, message) gateway_lib" where
  "example_system_lib =
     \<lparr>gl_D = dec_ops, gl_jwks = example_jwks, gl_limiters = \<lparr>ll_new = (\<lambda>r b. ()), ll_allow = (\<lambda>l. (l, True))\<rparr>,
      gl_backends = system_backends example_services example_call_env,
      gl_decode = (\<lambda>r. case r of Inl e \<Rightarrow> Inl e | Inr s \<Rightarrow> example_decode s),
      gl_unmarshal = example_decode, gl_order = (\<lambda>xs. xs), gl_metrics = (\<lambda>ms w. w)\<rparr>"

definition example_system :: "(unit, unit, (pg_db, int gomap, bet_rows, feed_pg) system_state) gateway_state" where
  "example_system =
     \<lparr>gw_backend = \<lparr>sy_wallet = example_db, sy_nonces = [], sy_rates = [], sy_bets = [bet_on_winner], sy_feed = fg_empty\<rparr>,
      gw_jwks = NewJWKSClient example_jwks 0 [], gw_limiter = NewRateLimiter ''redis'' [] 1 2,
      gw_redis = [], gw_metrics = [], gw_log = []\<rparr>"

definition balance_request :: http_request where
  "balance_request = request ''GET'' [''api'', ''wallet'', ''balance''] ''ann'' []"

definition after_balance :: "(unit, unit, (pg_db, int gomap, bet_rows, feed_pg) system_state) gateway_state \<times> writer" where
  "after_balance = serve example_system_lib example_gateway (env_at 7) example_system balance_request"

text \<open>The first look at her balance opens a wallet for \<open>ann\<close>.\<close>

lemma example_opens_wallet:
  "List.map w_UserID (pg_wallets (sy_wallet (fst (system_serve example_services example_call_env (gw_backend example_system)
     (W_GetBalance ''ann'' ''EUR'' []))))) = [''u'', ''ann'']"
proof -
  let ?E = "example_pg_env ''w''" and ?sv = "sl_sv example_services"
  have none: "pg_GetWallet ?E example_db ''ann'' ''EUR'' = Inl ErrWalletNotFound" by code_simp
  have new: "List.map w_UserID (pg_wallets (fst (pg_CreateWallet example_server ?E example_db ''ann'' ''EUR''))) = [''u'', ''ann'']"
    by code_simp
  have "sv_pairs ?sv = make_pairs [''EUR:c''] []" by (simp add: example_services_def NewService_def)
  also have "\<dots> = [(''EUR:c'', ())]" by code_simp
  finally have "currencyInPairs ?sv ''EUR'' \<longleftrightarrow> hd (SplitN2 (CHR '':'') ''EUR:c'') = ''EUR''" by (simp add: currencyInPairs_def)
  moreover have "hd (SplitN2 (CHR '':'') ''EUR:c'') = ''EUR''" by code_simp
  ultimately have cur: "currencyInPairs ?sv ''EUR''" by simp
  have S: "sl_S example_services = pg_ops dec_ops example_server (\<lambda>x. x) (\<lambda>x. x)" "ce_E example_call_env = ?E"
    "sy_wallet (gw_backend example_system) = example_db"
    by (simp_all add: example_services_def example_call_env_def example_system_def)
  obtain w r where cw: "pg_CreateWallet example_server ?E example_db ''ann'' ''EUR'' = (w, r)" by (metis surj_pair)
  show ?thesis
    using none new cur cw
    by (auto simp: S pg_ops_def srv_GetBalance_def svc_GetBalance_def Let_def split: sum.splits prod.splits)
qed

text \<open>The rows of \<open>u\<close> stay.\<close>

theorem request_touches_own_rows_witness:
  "List.map w_UserID (pg_wallets (sy_wallet (fst (system_serve example_services example_call_env (gw_backend example_system)
      (W_GetBalance ''ann'' ''EUR'' []))))) = [''u'', ''ann'']
   \<and> rows_of ''u'' (sy_wallet (gw_backend (fst after_balance))) = rows_of ''u'' example_db
   \<and> {b \<in> set (sy_bets (gw_backend (fst after_balance))). b_UserID b = ''u''} = {bet_on_winner}"
proof -
  obtain g w where run: "after_balance = (g, w)" by (metis surj_pair)
  have who: "u = ''ann''" if "authenticated example_system_lib jc balance_request u" for jc u
  proof -
    have "authenticated example_gateway_lib jc balance_request u"
      using that by (simp add: authenticated_def example_system_lib_def example_gateway_lib_def)
    from example_authenticated [OF this] show ?thesis by (simp add: balance_request_def request_def)
  qed
  have ann: "mget (gs_adminUserIDs example_gateway) ''ann'' = None" by code_simp
  have st: "sy_wallet (gw_backend example_system) = example_db" "sy_bets (gw_backend example_system) = [bet_on_winner]"
    by (simp_all add: example_system_def)
  have "bl_uuid example_bet_lib (b_ID bet_on_winner) = Some (b_ID bet_on_winner)" by code_simp
  then have bet: "pb_inv example_bet_lib [bet_on_winner]" "b_UserID bet_on_winner = ''u''"
    by (simp_all add: pb_inv_def) (simp add: bet_on_winner_def)
  have "rows_of ''u'' (sy_wallet (gw_backend g)) = rows_of ''u'' (sy_wallet (gw_backend example_system))
    \<and> {b \<in> set (sy_bets (gw_backend g)). b_UserID b = ''u''} = {b \<in> set (sy_bets (gw_backend example_system)). b_UserID b = ''u''}"
  proof (rule request_touches_own_rows)
    show "gl_backends example_system_lib = system_backends example_services example_call_env" by (simp add: example_system_lib_def)
    show "sl_S example_services = pg_ops dec_ops example_server (\<lambda>x. x) (\<lambda>x. x)" by (simp add: example_services_def)
    show "sl_B example_services = pb_ops example_bet_lib (\<lambda>db. db)" by (simp add: example_services_def)
    show "pg_server dec_ops dec_val example_server" by (rule refpg.pg_server_axioms)
    show "reach pg_empty (pg_step dec_ops example_server (scale8_call dec_ops dec_val)) (sy_wallet (gw_backend example_system))"
      unfolding st by (rule example_db_reach)
    show "uuid_server example_bet_lib" by (rule ref_uuid.uuid_server_axioms)
    show "permutes_entries (\<lambda>db. db)" by (rule permutes_entries_id)
    show "pb_inv example_bet_lib (sy_bets (gw_backend example_system))" unfolding st by (rule bet(1))
    show "serve example_system_lib example_gateway (env_at 7) example_system balance_request = (g, w)"
      using run by (simp add: after_balance_def)
    show "rq_Segments balance_request \<noteq> webhook_path" by (simp add: balance_request_def request_def webhook_path_def)
    show "\<forall>u. authenticated example_system_lib (gw_jwks example_system) balance_request u
        \<longrightarrow> u \<noteq> ''u'' \<and> mget (gs_adminUserIDs example_gateway) u = None"
      using who ann by auto
  qed
  then show ?thesis using example_opens_wallet bet(2) by (auto simp: run st)
qed

end
