(* ===== verification/Withdrawal.thy ===== *)
theory Withdrawal
  imports System
begin

text \<open>
  A withdrawal from the browser to the books: the handler of the gateway, the connection, the wallet's
  server and service, and the transaction on Postgres.

  Proved: a request that is answered with status 200 has moved exactly the amount it asked for out of
  the balance of the user its token names, and onto a hold.
\<close>

section \<open>The wallet\<close>

lemma pg_request_ok:
  assumes "pg_server D val N" and "pg_inv D val db" and "scale8 (num D val amount)"
    and "pg_RequestWithdrawal D N E db u c amount dest chain = (db', Inr out)"
  shows "pg_abs D val db' = lg_request (e_uuid E 2) (u, c) (num D val amount) (pg_abs D val db)"
    and "num D val amount \<le> balance0 (pg_abs D val db) (u, c)" and "lg_holds (pg_abs D val db) (e_uuid E 2) = None"
    and "lg_bal (pg_abs D val db) (u, c) \<noteq> None" and "r_ID out = e_uuid E 2" and "r_Status out = ''pending''"
proof -
  show "pg_abs D val db' = lg_request (e_uuid E 2) (u, c) (num D val amount) (pg_abs D val db)"
    using pg_server.pg_RequestWithdrawal_sim(3) [OF assms(1,4,2,3)] by simp
  obtain t where body: "pg_request_body D N E u c amount dest chain (live db) = (t, Inr out)"
    using assms(4) unfolding pg_RequestWithdrawal_def by (cases rule: pg_in_tx_cases) auto
  then obtain t1 w nb where cov: "pg_covered D E ''debit wallet for withdrawal: '' u c amount (live db) = (t1, Inr (w, nb))"
    by (auto simp: pg_request_body_def tx_then_Inr)
  note w = pg_server.pg_covered_Inr [OF assms(1) cov assms(2)]
  show "num D val amount \<le> balance0 (pg_abs D val db) (u, c)" "lg_bal (pg_abs D val db) (u, c) \<noteq> None"
    using w(4,5) by (simp_all add: balance0_def)
  from body cov w(1) obtain db1 n db2 q req where
    1: "upd_balance N (genv.truncate E) nb (w_ID w) (w_Version w) db = Inr (db1, n)"
    and 2: "ins_request N q db1 = Inr (db2, req)" "u_ID q = e_uuid E 2" "u_Status q = ''pending''"
    and out: "r_ID out = u_ID req" "r_Status out = u_Status req"
    by (fastforce simp: pg_request_body_def tx_then_Inr pg_stmt_Inr split: if_splits)
  have "pg_requests db1 = pg_requests db"
    using 1 by (auto simp: upd_balance_def Let_def split: option.splits if_splits)
  then have "e_uuid E 2 \<notin> u_ID ` set (pg_requests db)"
    using 2(1,2) by (auto simp: ins_request_def Let_def split: option.splits if_splits)
  then show "lg_holds (pg_abs D val db) (e_uuid E 2) = None"
    by (force simp: pg_abs_def find_None_iff)
  show "r_ID out = e_uuid E 2" "r_Status out = ''pending''"
    using 2 out by (auto simp: ins_request_def Let_def split: option.splits if_splits)
qed

lemma lg_request_held:
  assumes "lg_bal l k \<noteq> None" and "v \<le> balance0 l k" and "lg_holds l i = None"
  shows "balance0 (lg_request i k v l) k' = balance0 l k' - (if k' = k then v else 0)"
    and "lg_holds (lg_request i k v l) = (lg_holds l)(i \<mapsto> \<lparr>h_key = k, h_amount = v, h_status = Held\<rparr>)"
  using assms by (auto simp: lg_request_def lg_post_def balance0_def)

section \<open>The connection\<close>

lemma system_call_Inr:
  assumes "system_call SL CE s md c = (s', Inr m)"
  shows "system_serve SL CE s c = (s', Inr m)"
proof -
  have "ce_fate CE = Delivered"
    using assms by (cases "ce_fate CE") (simp_all add: system_call_def over_grpc_def)
  then show ?thesis
    using assms by (cases "system_serve SL CE s c"; cases "snd (system_serve SL CE s c)")
      (auto simp: system_call_def over_grpc_def split: sum.splits)
qed

lemma serve_withdrawal:
  assumes "system_serve SL CE s (W_RequestWithdrawal u cur amount dest chain) = (s', Inr m)"
  obtains out where "RequestWithdrawal (sl_S SL) (ce_E CE) (sy_wallet s) u cur amount dest chain = (sy_wallet s', Inr out)"
    and "isSupportedPair (sl_sv SL) cur chain" and "m = MsgWithdrawal (r_ID out, r_Status out)"
  using assms
  by (auto simp: srv_RequestWithdrawal_def svc_RequestWithdrawal_def validatePair_def split: prod.splits sum.splits if_splits)

section \<open>The gateway\<close>

lemma withdraw_route:
  assumes "rq_Segments rq = [''api'', ''wallet'', ''withdraw'']"
  shows "mux (gateway_routes L S E) gw rq
    = auth L E (on_backend (handleWithdraw L S)) gw (rq\<lparr>rq_PathValue := [], rq_route := Some ''/api/wallet/withdraw''\<rparr>)"
proof -
  have "List.map (\<lambda>p. match_path (drop 1 (Split (CHR ''/'') p)) [''api'', ''wallet'', ''withdraw''])
    (List.map fst (gateway_routes L S E)) = replicate 7 None @ [Some []] @ replicate 13 None"
    by (simp add: gateway_routes_def route_def Let_def numeral_eq_Suc)
  then show ?thesis
    by (simp add: gateway_routes_def route_def Let_def WithRoutePattern_def assms(1) numeral_eq_Suc del: Split.simps match_path.simps)
qed

lemma withdraw_200_cases:
  assumes "on_backend (handleWithdraw L S) (g, w) rq = (g', w')" and "recorded_status w' = 200"
    and "wr_Status w = None" and "wr_Body w = []" and "rq_user rq = Some user"
  obtains b cur chain m where "decode_body L withdraw_fields \<lparr>wb_Currency = [], wb_Amount = [], wb_DestinationAddress = [], wb_Chain = []\<rparr> rq = Inr b"
    and "gw_isSupportedPair S cur chain" and "ValidateWithdrawal (gl_D L) (gs_limits S) (wb_Amount b) = Inr ()"
    and "gl_conn L (gw_backend g) (caller_md (au_ID user))
      (W_RequestWithdrawal (au_ID user) cur (wb_Amount b) (wb_DestinationAddress b) chain) = (gw_backend g', Inr m)"
    and "wr_Body w' = (case bk_Marshal (gl_backends L) m of Inl err \<Rightarrow> [] | Inr t \<Rightarrow> [BodyText t])"
  using assms
  by (auto simp: on_backend_def handleWithdraw_def userFromContext_def wc_RequestWithdrawal_def answer_def writeError_status
      writeJSON_def write_body_def write_header_def set_header_def Let_def split: prod.splits sum.splits if_splits)

lemma withdraw_200:
  assumes "on_backend (handleWithdraw L S) (g, w) rq = (g', w')" and "recorded_status w' = 200"
    and "wr_Status w = None" and "wr_Body w = []" and "rq_user rq = Some user"
  shows "\<exists>b cur chain m.
      decode_body L withdraw_fields \<lparr>wb_Currency = [], wb_Amount = [], wb_DestinationAddress = [], wb_Chain = []\<rparr> rq = Inr b
    \<and> gw_isSupportedPair S cur chain \<and> ValidateWithdrawal (gl_D L) (gs_limits S) (wb_Amount b) = Inr ()
    \<and> gl_conn L (gw_backend g) (caller_md (au_ID user))
        (W_RequestWithdrawal (au_ID user) cur (wb_Amount b) (wb_DestinationAddress b) chain) = (gw_backend g', Inr m)
    \<and> wr_Body w' = (case bk_Marshal (gl_backends L) m of Inl err \<Rightarrow> [] | Inr t \<Rightarrow> [BodyText t])"
  by (rule withdraw_200_cases [OF assms]) blast

section \<open>The property\<close>

text \<open>
  C2: a withdrawal moves exactly what was asked for, from the account of the caller.  When a request
  to withdraw, for an amount of at most eight decimals, as every amount before it, is answered with status 200, with the wallet on
  Postgres, then its user is the subject of a token accepted in this request, gateway and wallet both
  support the currency and chain, the amount is positive and covered by the balance of that
  user in that currency, that balance is lower by exactly the amount and all others are the same, the
  amount is on hold under a new id, and the response is that id, pending.
\<close>
theorem withdrawal_holds_amount:
  assumes "gl_backends L = system_backends SL CE" and "gl_D L = D" and "sl_S SL = pg_ops D N o1 o2" and "pg_server D val N"
    and "reach pg_empty (pg_step D N (scale8_call D val)) (sy_wallet (gw_backend g))"
    and "serve L S E g rq = (g', w')" and "recorded_status w' = 200"
    and "rq_Segments rq = [''api'', ''wallet'', ''withdraw'']" and "rq_Redirect rq = None" and "rq_Method rq \<noteq> ''OPTIONS''"
    and "\<forall>j b. gl_decode L (rq_Body rq) = Inr j \<longrightarrow>
      json_struct withdraw_fields j \<lparr>wb_Currency = [], wb_Amount = [], wb_DestinationAddress = [], wb_Chain = []\<rparr> = Inr b \<longrightarrow>
      scale8 (num D val (wb_Amount b))"
  shows "\<exists>u cur chain amount i. authenticated L (gw_jwks g) rq u
    \<and> gw_isSupportedPair S cur chain \<and> isSupportedPair (sl_sv SL) cur chain
    \<and> 0 < num D val amount \<and> num D val amount \<le> balance0 (pg_abs D val (sy_wallet (gw_backend g))) (u, cur)
    \<and> (\<forall>k. balance0 (pg_abs D val (sy_wallet (gw_backend g'))) k
          = balance0 (pg_abs D val (sy_wallet (gw_backend g))) k - (if k = (u, cur) then num D val amount else 0))
    \<and> lg_holds (pg_abs D val (sy_wallet (gw_backend g))) i = None
    \<and> lg_holds (pg_abs D val (sy_wallet (gw_backend g'))) i = Some \<lparr>h_key = (u, cur), h_amount = num D val amount, h_status = Held\<rparr>
    \<and> wr_Body w' = (case sl_marshal SL (MsgWithdrawal (i, ''pending'')) of Inl err \<Rightarrow> [] | Inr t \<Rightarrow> [BodyText t])"
proof -
  let ?abs = "\<lambda>g. pg_abs D val (sy_wallet (gw_backend g))"
  have inv: "pg_inv D val (sy_wallet (gw_backend g))" by (rule pg_server.pg_reach_inv [OF assms(4,5)])
  obtain g1 g2 w1 rq1 where o: "keeps_outer g g1" and rq1: "wire rq1 = wire rq"
    and w1: "wr_Status w1 = None" "wr_Body w1 = []" and run: "mux (gateway_routes L S E) (g1, w1) rq1 = (g2, w')"
    and g2: "gw_backend g2 = gw_backend g'"
    using serve_routes [OF assms(6,7,10,9)] by auto
  let ?rq = "rq1\<lparr>rq_PathValue := [], rq_route := Some ''/api/wallet/withdraw''\<rparr>"
  have "rq_Segments rq1 = [''api'', ''wallet'', ''withdraw'']" using assms(8) arg_cong [OF rq1, of rq_Segments] by simp
  from run [unfolded withdraw_route [OF this]] w1(1) assms(7)
  obtain c user where u: "authenticated L (gw_jwks g1) ?rq (au_ID user)"
    and h: "on_backend (handleWithdraw L S) (g1\<lparr>gw_jwks := c\<rparr>, w1) (?rq\<lparr>rq_user := Some user\<rparr>) = (g2, w')"
    by (rule auth_cases)
  have auth: "authenticated L (gw_jwks g) rq (au_ID user)"
    using u o rq1 by (simp add: authenticated_def keeps_outer_def)
  have conn: "gl_conn L = system_call SL CE" "bk_Marshal (gl_backends L) = sl_marshal SL"
    by (simp_all add: assms(1) system_backends_def)
  have same: "gw_backend (g1\<lparr>gw_jwks := c\<rparr>) = gw_backend g" using o by (simp add: keeps_outer_def)
  have "decode_body L fs zero (?rq\<lparr>rq_user := Some user\<rparr>) = decode_body L fs zero rq1"
    for fs and zero :: withdraw_body
    by (simp add: decode_body_def)
  note handled = withdraw_200 [OF h assms(7) w1, of user, unfolded conn same g2 assms(2) this]
  obtain b cur chain m where
    b: "decode_body L withdraw_fields \<lparr>wb_Currency = [], wb_Amount = [], wb_DestinationAddress = [], wb_Chain = []\<rparr> rq1 = Inr b"
    and pair: "gw_isSupportedPair S cur chain" and lim: "ValidateWithdrawal D (gs_limits S) (wb_Amount b) = Inr ()"
    and call: "system_call SL CE (gw_backend g) (caller_md (au_ID user))
      (W_RequestWithdrawal (au_ID user) cur (wb_Amount b) (wb_DestinationAddress b) chain) = (gw_backend g', Inr m)"
    and body: "wr_Body w' = (case sl_marshal SL m of Inl err \<Rightarrow> [] | Inr t \<Rightarrow> [BodyText t])"
    using handled by auto
  have scale: "scale8 (num D val (wb_Amount b))"
    using b assms(11) arg_cong [OF rq1, of rq_Body] by (auto simp: decode_body_def wire_def split: sum.splits)
  obtain out where req: "pg_RequestWithdrawal D N (ce_E CE) (sy_wallet (gw_backend g)) (au_ID user) cur (wb_Amount b)
      (wb_DestinationAddress b) chain = (sy_wallet (gw_backend g'), Inr out)"
    and pair2: "isSupportedPair (sl_sv SL) cur chain" and m: "m = MsgWithdrawal (r_ID out, r_Status out)"
    using serve_withdrawal [OF system_call_Inr [OF call]] assms(3) by (auto simp: pg_ops_def)
  note r = pg_request_ok [OF assms(4) inv scale req]
  note held = lg_request_held [OF r(4,2,3), folded r(1)]
  have "0 < num D val (wb_Amount b)"
    using lim decimal_lib.limits_validate_ok [OF pg_server.axioms(1) [OF assms(4)]]
    by (auto simp: ValidateWithdrawal_def num_def)
  then show ?thesis
    using auth pair pair2 held r(2,3) body
    by (intro exI [of _ "au_ID user"] exI [of _ cur] exI [of _ chain] exI [of _ "wb_Amount b"] exI [of _ "e_uuid (ce_E CE) 2"])
      (simp add: m r(5,6))
qed

section \<open>Example\<close>

definition withdrawing_services ::
  "(dec, pg_env, pg_db, int gomap, pg_env, bet_rows, pg_env, feed_pg) services" where
  "withdrawing_services = example_services
     \<lparr>sl_sv := NewService (\<lambda>now r body headers. (r, Inl ErrJson)) (\<lambda>q. Inr ''0xabc'') [''EUR:c''],
      sl_A := \<lparr>ag_ttl = 0, ag_providers = [], ag_forex = \<lparr>fc_providers = [], fc_manual = []\<rparr>, ag_manual = []\<rparr>,
      sl_marshal := (\<lambda>m. Inr (case m of MsgWithdrawal (i, st) \<Rightarrow> st | _ \<Rightarrow> []))\<rparr>"

definition withdrawing_lib ::
  "(dec, unit, unit, (pg_db, int gomap, bet_rows, feed_pg) system_state, message) gateway_lib" where
  "withdrawing_lib = example_system_lib\<lparr>gl_backends := system_backends withdrawing_services example_call_env\<rparr>"

definition after_withdrawal :: "(unit, unit, (pg_db, int gomap, bet_rows, feed_pg) system_state) gateway_state \<times> writer" where
  "after_withdrawal = serve withdrawing_lib example_gateway (env_at 7) example_system
     (request ''POST'' [''api'', ''wallet'', ''withdraw''] ''u'' ''withdraw'')"

lemma after_withdrawal_status: "recorded_status (snd after_withdrawal) = 200"
  by code_simp

theorem withdrawal_holds_amount_witness:
  "\<exists>cur amount. 0 < num dec_ops dec_val amount
    \<and> balance0 (pg_abs dec_ops dec_val (sy_wallet (gw_backend (fst after_withdrawal)))) (''u'', cur)
      = balance0 (pg_abs dec_ops dec_val example_db) (''u'', cur) - num dec_ops dec_val amount
    \<and> wr_Body (snd after_withdrawal) = [BodyText ''pending'']"
proof -
  obtain g w where run: "after_withdrawal = (g, w)" by (metis surj_pair)
  let ?rq = "request ''POST'' [''api'', ''wallet'', ''withdraw''] ''u'' ''withdraw''"
  have S: "sl_S withdrawing_services = pg_ops dec_ops example_server (\<lambda>x. x) (\<lambda>x. x)"
    by (simp add: withdrawing_services_def example_services_def)
  have L: "gl_backends withdrawing_lib = system_backends withdrawing_services example_call_env" "gl_D withdrawing_lib = dec_ops"
    "gl_jwks withdrawing_lib = example_jwks"
    "gl_decode withdrawing_lib = (\<lambda>r. case r of Inl e \<Rightarrow> Inl e | Inr s \<Rightarrow> example_decode s)"
    by (simp_all add: withdrawing_lib_def example_system_lib_def)
  have db: "sy_wallet (gw_backend example_system) = example_db" by (simp add: example_system_def)
  have dec: "case example_decode ''withdraw'' of Inl e \<Rightarrow> False | Inr j \<Rightarrow>
      (case json_struct withdraw_fields j \<lparr>wb_Currency = [], wb_Amount = [], wb_DestinationAddress = [], wb_Chain = []\<rparr> of
        Inl e \<Rightarrow> False | Inr b \<Rightarrow> wb_Amount b = ''4'')" by code_simp
  have "num dec_ops dec_val ''4'' = 4" by code_simp
  then have scale: "scale8 (num dec_ops dec_val ''4'')" by (simp add: scale8_def)
  have who: "u = ''u''" if "authenticated withdrawing_lib jc ?rq u" for jc u
  proof -
    have "authenticated example_gateway_lib jc ?rq u" using that by (simp add: authenticated_def L example_gateway_lib_def)
    from example_authenticated [OF this] show ?thesis by (simp add: request_def)
  qed
  have reached: "reach pg_empty (pg_step dec_ops example_server (scale8_call dec_ops dec_val)) (sy_wallet (gw_backend example_system))"
    unfolding db by (rule example_db_reach)
  have st: "recorded_status w = 200" using after_withdrawal_status by (simp add: run)
  have rq: "rq_Segments ?rq = [''api'', ''wallet'', ''withdraw'']" "rq_Redirect ?rq = None" "rq_Method ?rq \<noteq> ''OPTIONS''"
    by (simp_all add: request_def)
  have sc: "\<forall>j b. gl_decode withdrawing_lib (rq_Body ?rq) = Inr j \<longrightarrow>
      json_struct withdraw_fields j \<lparr>wb_Currency = [], wb_Amount = [], wb_DestinationAddress = [], wb_Chain = []\<rparr> = Inr b \<longrightarrow>
      scale8 (num dec_ops dec_val (wb_Amount b))"
    using dec scale by (auto simp: request_def L split: sum.splits)
  obtain u cur amount i where u: "authenticated withdrawing_lib (gw_jwks example_system) ?rq u" and pos: "0 < num dec_ops dec_val amount"
    and bal: "\<forall>k. balance0 (pg_abs dec_ops dec_val (sy_wallet (gw_backend g))) k
      = balance0 (pg_abs dec_ops dec_val (sy_wallet (gw_backend example_system))) k - (if k = (u, cur) then num dec_ops dec_val amount else 0)"
    and body: "wr_Body w = (case sl_marshal withdrawing_services (MsgWithdrawal (i, ''pending'')) of Inl err \<Rightarrow> [] | Inr t \<Rightarrow> [BodyText t])"
    using withdrawal_holds_amount [OF L(1,2) S refpg.pg_server_axioms reached run [unfolded after_withdrawal_def] st rq sc]
    by (elim exE conjE) blast
  have "balance0 (pg_abs dec_ops dec_val (sy_wallet (gw_backend g))) (''u'', cur)
      = balance0 (pg_abs dec_ops dec_val example_db) (''u'', cur) - num dec_ops dec_val amount"
    using bal who [OF u] by (simp add: db)
  moreover have "wr_Body w = [BodyText ''pending'']" using body by (simp add: withdrawing_services_def)
  ultimately show ?thesis using pos by (auto simp: run)
qed

end
