(* ===== verification/Spec2Isabelle.thy ===== *)
theory Spec2Isabelle
  imports Prelude GoDecimal GoJson Ledger
    WalletModel WalletMemory WalletMemoryProps WalletPG WalletPGSim WalletPGProps
    Rates Xcash WalletService WalletStores WalletOverlap
    SportsbookModel SportsbookMemory SportsbookPG SportsbookService SportsbookProps SportsbookStores
    FeedModel FeedMemory FeedPG FeedService FeedProviders FeedProps FeedStores FeedSportsbook
    RateLimit Auth GatewayClients Gateway GatewayProps System Withdrawal Startup
begin

text \<open>
  A verification library of betmonster, the Go services under \<open>src/cmd\<close> and \<open>src/internal\<close>: a gateway
  that speaks HTTP to browsers and to the payment provider, and behind it, over gRPC, the wallet, the
  sportsbook and the odds feed, each with its own Postgres database.

  \<^bold>\<open>The program.\<close>  The gateway (\<open>internal/gateway\<close>, \<open>internal/auth\<close>, \<open>internal/shared/server\<close>) limits the
  rate of requests, authenticates a request by a JSON web token, checks what it can see in the request,
  makes at most one call to a service and passes the answer on.  The wallet (\<open>internal/wallet\<close>) keeps
  balances, transactions, deposit addresses and withdrawal requests, credits the deposits the payment
  provider (\<open>xcash\<close>) reports, and knows exchange rates (\<open>rates\<close>).  The sportsbook
  (\<open>internal/sportsbook\<close>) places bets at the odds of the feed, takes the stake from the wallet and pays
  what settled bets are owed, on request or by a scheduler.  The odds feed (\<open>internal/oddsfeed\<close>) copies
  the games, markets and odds of its providers (Azuro, a mock) into its tables, by a scheduler and by
  live messages.

  \<^bold>\<open>Theories.\<close>
  \<^item> \<open>Prelude\<close>: errors, strings, Go maps, wrapped integers, time, \<open>reach\<close> (the states a step function can
    reach).  \<open>GoDecimal\<close>: the decimal library as the locale \<open>decimal_lib\<close>, with an instance.
    \<open>GoJson\<close>: JSON values and how \<open>encoding/json\<close> decodes them into a struct.
  \<^item> \<open>Ledger\<close>: the abstract books of the wallet, and \<open>ledger_impl\<close>, what it means to implement them.
  \<^item> Wallet: \<open>WalletModel\<close> (\<open>models.go\<close>, \<open>decimal.go\<close>, \<open>store.go\<close>), \<open>WalletMemory\<close> (\<open>memory_store.go\<close>, its
    shared pointers as a heap), \<open>WalletPG\<close> (\<open>pgstore.go\<close>, an operation as a transaction whose statements
    and commit may fail), \<open>Rates\<close> (\<open>rates/\<close>), \<open>Xcash\<close> (\<open>xcash/\<close>), \<open>WalletService\<close> (\<open>service.go\<close>, \<open>server.go\<close>).
    \<open>WalletMemoryProps\<close>, \<open>WalletPGSim\<close> and \<open>WalletPGProps\<close> show that both stores implement the ledger;
    \<open>WalletStores\<close> connects the service to them; \<open>WalletOverlap\<close> has the debits and credits of Postgres
    during which other transactions commit.
  \<^item> Sportsbook: \<open>SportsbookModel\<close> (\<open>models.go\<close>, \<open>decimal.go\<close>, \<open>store.go\<close>), \<open>SportsbookMemory\<close>, \<open>SportsbookPG\<close>,
    \<open>SportsbookService\<close> (\<open>service.go\<close>, \<open>scheduler.go\<close>, \<open>server.go\<close>, the wallet client of \<open>clients.go\<close>).
    \<open>SportsbookProps\<close> has the lemmas that hold for every store that keeps its contract (\<open>bet_store\<close>,
    \<open>paged_store\<close>), \<open>SportsbookStores\<close> those on the stores of the repository and on the wallet.
  \<^item> Odds feed: \<open>FeedModel\<close> (\<open>models.go\<close>, \<open>provider.go\<close>, \<open>normalizer.go\<close>, \<open>store.go\<close>), \<open>FeedMemory\<close>, \<open>FeedPG\<close>,
    \<open>FeedService\<close> (\<open>service.go\<close>, \<open>cache.go\<close>, \<open>events.go\<close>, \<open>scheduler.go\<close>, \<open>websocket.go\<close>, \<open>server.go\<close>),
    \<open>FeedProviders\<close> (\<open>providers/\<close>).  \<open>FeedProps\<close> has the lemmas over the contract \<open>feed_store\<close> and its two
    interpretations, \<open>FeedStores\<close> the properties of syncs, tables and live updates, \<open>FeedSportsbook\<close> those
    of the sportsbook on the feed (\<open>clients.go\<close>).
  \<^item> Gateway: \<open>RateLimit\<close> (\<open>limits.go\<close>, \<open>ratelimit.go\<close>), \<open>Auth\<close> (\<open>auth/jwks.go\<close>), \<open>GatewayClients\<close>
    (\<open>wallet_client.go\<close>, \<open>sportsbook_client.go\<close>, \<open>oddsfeed_client.go\<close>), \<open>Gateway\<close> (\<open>server.go\<close>, the middleware
    of \<open>ratelimit.go\<close>, \<open>internal/shared/server\<close>); \<open>GatewayProps\<close> has the properties for every backend.
  \<^item> \<open>System\<close>: the services wired together behind the gateway, and what a request can change;
    \<open>Withdrawal\<close>: a withdrawal from the browser to the books.  \<open>Startup\<close>: the configuration
    (\<open>internal/shared/config\<close>) and what the programs under \<open>cmd\<close> build from it.

  \<^bold>\<open>How the code is rendered.\<close>  A Go struct is a record and keeps its field names with a prefix; a
  function returning \<open>(T, error)\<close> returns \<open>go_error + T\<close>; a pointer that may be nil is an option; a map
  is an association list in the order of insertion, and where the code ranges over a map the order is an
  argument.  The 64-bit \<open>int\<close> and the conversions to \<open>int32\<close> wrap explicitly.  Time, random and database
  identifiers, the failures of statements, commits, replies and remote calls are arguments, gathered in
  an environment of each call (\<open>pg_env\<close>, \<open>rpc_fate\<close>, \<open>request_env\<close>, \<open>call_env\<close>); a theorem that does not
  restrict them holds for every choice.  An interface (\<open>Store\<close>, \<open>WalletClient\<close>, \<open>OddsFeedClient\<close>,
  \<open>FeedProvider\<close>) is a record of operations that pass their state, so a service is a function of the
  record, and the same function runs on either store.  The store contracts are locales, interpreted on
  the models of the stores.

  \<^bold>\<open>What is shown.\<close>
  \<^item> Money in the wallet: an operation on Postgres happens as a whole or not at all; a debit or credit
    that overlaps others does what it would do after them; balances are the sums of their transactions
    and never negative when amounts are not; a reference is debited or credited at most once, also when
    replies are lost and requests are repeated; a deposit is credited once, and this too when the reply
    of its commit was lost; a withdrawal is decided once; a deposit address stays the same.
  \<^item> Bets: no stake is taken twice and no bet paid twice; a placed bet costs exactly its stake and a won one
    pays exactly its payout, in the wallet's tables and up to eight decimals; settled bets are final; the automatic settlement
    returns, and settles only by results the feed holds; a bet has the odds of an active outcome of the feed.
  \<^item> Odds feed: its tables stay consistent and ids stable; a sync that succeeds stores what the provider
    gave; what Azuro builds can be normalized.
  \<^item> Webhooks and rates: signature, window and nonce; every rate served is traced to a quote, and
    how old that quote can be is bounded.
  \<^item> Gateway: it acts only for the user a token names, lets only administrators do what is reserved to
    them, checks limits before the wallet is asked, shows a bet to its owner only, and the rate limiter
    bounds what a client gets through and lets it recover.  On the whole system, a request touches no row
    of a user it is not authenticated for, and a withdrawal that is answered with success has moved
    exactly its amount from the caller's balance onto a hold.
  \<^item> Defects: a lost reply that costs a stake, a race of two settlements, a reused reference, conditions of a
    game that are lost, a status the schema refuses, results that live updates never bring, a limiter that
    never sees the user.  Each is a theorem about the same definitions, for every state and call
    that meets its hypotheses.

  \<^bold>\<open>Bounds and fuel.\<close>  \<open>AutoSettle_loop\<close> and \<open>runOnce_loop\<close> read pages of a hundred bets until one is not full;
  their fuel is the number of rounds, and the number of bets divided by 100, plus 2, is enough on Postgres
  because no operation of the loop adds a bet.  Every other loop is structural on a list.  The decimal
  theorems on balances assume amounts of at most eight decimals, the scale of the column, and say so: a
  longer amount is rounded by the wallet.  The bound of the rate limiter needs a burst of at most 120
  times its rate, since a bucket expires after 120 seconds.

  \<^bold>\<open>Not modelled.\<close>  Third-party libraries and services are arguments: decimal arithmetic, HMAC, JSON texts,
  JSON web tokens, HTTP and websocket transports, Redis and NATS (Redis as far as the rate limiter's script
  and the nonce keys use it).  Left out are the opening of connections, migrations,
  listeners and signals in the programs under \<open>src/cmd\<close>, the loggers, the code generated by
  \<open>protoc\<close>, the SQL of the migrations (the constraints that operations can meet are part of the stores),
  the TypeScript application, and the in-memory locks.  Each operation of a store is one step, except
  where debits and credits overlap (\<open>overlapped_debit\<close>, \<open>overlapped_credit\<close>: the row locks of
  Postgres are not used, its statements from the first change to the commit are one step), and
  what can run between two steps of a service is said by the theorem (\<open>overlapped_settle\<close> in \<open>settle_race\<close>).
\<close>

end
